(* ===== verification/LC_Prelude.thy ===== *)
theory LC_Prelude
  imports Main "HOL-Library.Word"
begin

unbundle bit_operations_syntax

text \<open>
  Shared vocabulary of the development: the machine integers of \<^verbatim>\<open>include/linux/types.h\<close>,
  the error numbers the code returns, byte memory with its load and store lemmas, and
  generic facts on lists and words that the components share.

  An \<^verbatim>\<open>int\<close> that a C function returns as a status is modelled as \<open>int\<close>: zero, a
  positive value, or the negation of one of the error numbers below.  A pointer that may be
  NULL is an \<open>option\<close>; a raw address of byte memory is a \<open>nat\<close> with 0 for NULL.
\<close>

section \<open>Machine integers\<close>

type_synonym u8 = "8 word"
type_synonym u16 = "16 word"
type_synonym u32 = "32 word"
type_synonym u64 = "64 word"
type_synonym addr = nat

text \<open>The collections the component proofs feed to the simplifier.\<close>

named_theorems errno_defs
named_theorems bit_consts
named_theorems frame_defs
named_theorems mem_simps
named_theorems more_simps

section \<open>Error numbers\<close>

definition EINVAL :: int where [errno_defs]: "EINVAL = 22"
definition ENOMEM :: int where [errno_defs]: "ENOMEM = 12"
definition ENOENT :: int where [errno_defs]: "ENOENT = 2"
definition EIO :: int where [errno_defs]: "EIO = 5"
definition EAGAIN :: int where [errno_defs]: "EAGAIN = 11"
definition EBUSY :: int where [errno_defs]: "EBUSY = 16"
definition ENODEV :: int where [errno_defs]: "ENODEV = 19"
definition ENOSPC :: int where [errno_defs]: "ENOSPC = 28"
definition EPIPE :: int where [errno_defs]: "EPIPE = 32"
definition ENAMETOOLONG :: int where [errno_defs]: "ENAMETOOLONG = 36"
definition EPROTO :: int where [errno_defs]: "EPROTO = 71"
definition EOVERFLOW :: int where [errno_defs]: "EOVERFLOW = 75"
definition EMSGSIZE :: int where [errno_defs]: "EMSGSIZE = 90"
definition EOPNOTSUPP :: int where [errno_defs]: "EOPNOTSUPP = 95"
definition ENOTCONN :: int where [errno_defs]: "ENOTCONN = 107"
definition ETIMEDOUT :: int where [errno_defs]: "ETIMEDOUT = 110"
definition EINPROGRESS :: int where [errno_defs]: "EINPROGRESS = 115"

section \<open>Byte memory\<close>

definition load_bytes :: "(addr \<Rightarrow> u8) \<Rightarrow> addr \<Rightarrow> nat \<Rightarrow> u8 list" where
  "load_bytes m a n = map m [a..<a + n]"

definition store_bytes :: "(addr \<Rightarrow> u8) \<Rightarrow> addr \<Rightarrow> u8 list \<Rightarrow> (addr \<Rightarrow> u8)" where
  "store_bytes m a bs = (\<lambda>x. if a \<le> x \<and> x < a + length bs then bs ! (x - a) else m x)"

lemma length_load_bytes [simp]: "length (load_bytes m a n) = n"
  by (simp add: load_bytes_def)

lemma load_bytes_0 [simp]: "load_bytes m a 0 = []"
  by (simp add: load_bytes_def)

lemma nth_load_bytes [simp]: "i < n \<Longrightarrow> load_bytes m a n ! i = m (a + i)"
  by (simp add: load_bytes_def)

lemma load_bytes_add: "load_bytes m a (n + k) = load_bytes m a n @ load_bytes m (a + n) k"
  by (rule nth_equalityI) (auto simp: nth_append add.assoc)

lemma load_bytes_split: "n \<le> k \<Longrightarrow> load_bytes m a k = load_bytes m a n @ load_bytes m (a + n) (k - n)"
  using load_bytes_add [of m a n "k - n"] by simp

lemma take_load_bytes [simp]: "take k (load_bytes m a n) = load_bytes m a (min k n)"
  by (rule nth_equalityI) auto

lemma drop_load_bytes [simp]: "drop k (load_bytes m a n) = load_bytes m (a + k) (n - k)"
  by (rule nth_equalityI) (auto simp: add.assoc)

lemma store_bytes_Nil [simp]: "store_bytes m a [] = m"
  by (rule ext) (auto simp: store_bytes_def)

lemma load_store_same [mem_simps]:
  "n = length bs \<Longrightarrow> load_bytes (store_bytes m a bs) a n = bs"
  by (rule nth_equalityI) (auto simp: store_bytes_def)

lemma load_store_disjoint [mem_simps]:
  "a + n \<le> b \<or> b + length bs \<le> a \<Longrightarrow> load_bytes (store_bytes m b bs) a n = load_bytes m a n"
  by (rule nth_equalityI) (auto simp: store_bytes_def)

lemma store_bytes_other: "x < a \<or> a + length bs \<le> x \<Longrightarrow> store_bytes m a bs x = m x"
  by (auto simp: store_bytes_def)

lemma load_store_inside:
  assumes "a \<le> b" and "b + length bs \<le> a + n"
  shows "load_bytes (store_bytes m b bs) a n =
    load_bytes m a (b - a) @ bs @ load_bytes m (b + length bs) (a + n - (b + length bs))"
  using assms
  by (intro nth_equalityI) (auto simp: store_bytes_def nth_append add.commute intro!: arg_cong [of _ _ m])

lemma load_bytes_cong:
  "(\<And>x. a \<le> x \<Longrightarrow> x < a + n \<Longrightarrow> m x = m' x) \<Longrightarrow> load_bytes m a n = load_bytes m' a n"
  by (rule nth_equalityI) auto

section \<open>Words\<close>

definition UINT_MAX :: nat where "UINT_MAX = 2 ^ 32 - 1"

lemma unat_u32_less [simp]: "unat (x :: u32) < 4294967296"
  using unsigned_less [of x, where ?'a = nat] by simp

lemma unat_u16_less [simp]: "unat (x :: u16) < 65536"
  using unsigned_less [of x, where ?'a = nat] by simp

lemma unat_u8_less [simp]: "unat (x :: u8) < 256"
  using unsigned_less [of x, where ?'a = nat] by simp

lemma unat_u64_less [simp]: "unat (x :: u64) < 18446744073709551616"
  using unsigned_less [of x, where ?'a = nat] by simp

text \<open>The same bounds in the form the arithmetic provers keep as a premise.\<close>

lemma u32_bound: "unat (x :: u32) \<le> 4294967295"
  using unat_u32_less [of x] by linarith

lemma u16_bound: "unat (x :: u16) \<le> 65535"
  using unat_u16_less [of x] by linarith

lemma u8_bound: "unat (x :: u8) \<le> 255"
  using unat_u8_less [of x] by linarith

lemma u64_bound: "unat (x :: u64) \<le> 18446744073709551615"
  using unat_u64_less [of x] by linarith

lemma unat_max_u32 [simp]: "unat (- 1 :: u32) = 4294967295"
  by (simp add: unsigned_minus_1_eq_mask mask_eq_exp_minus_1)

lemma unat_max_u64 [simp]: "unat (- 1 :: u64) = 18446744073709551615"
  by (simp add: unsigned_minus_1_eq_mask mask_eq_exp_minus_1)

lemma unat_sub_le: "(b :: 'a :: len word) \<le> a \<Longrightarrow> unat (a - b) = unat a - unat b"
  by (rule unat_sub)

lemma unat_add_le_max:
  "(b :: 'a :: len word) \<le> - 1 - a \<Longrightarrow> unat (a + b) = unat a + unat b"
  by (metis add.commute plus_minus_no_overflow_ab unat_plus_simple word_order.extremum)

text \<open>The greatest C int.\<close>

definition int_max :: int where
  "int_max = 2147483647"

end
