(* ===== verification/LC_Bits.thy ===== *)
theory LC_Bits
  imports LC_Prelude
begin

text \<open>
  Bit and byte helpers: \<^verbatim>\<open>include/linux/bitops.h\<close>, \<^verbatim>\<open>include/linux/bitfield.h\<close>,
  \<^verbatim>\<open>include/asm/byteorder.h\<close> and the unaligned accessors and size arithmetic of
  \<^verbatim>\<open>include/linux/kernel.h\<close>.  A bitmap is the single \<^verbatim>\<open>unsigned long\<close> that the code
  reads through its pointer, so bit numbers below 64 are the meaningful ones.  The atomic
  read-modify-write operations return the old and the new word.
\<close>

section \<open>kernel.h: masks, sizes and unaligned accessors\<close>

definition BIT :: "nat \<Rightarrow> u64" where
  "BIT nr = push_bit nr 1"

definition GENMASK :: "nat \<Rightarrow> nat \<Rightarrow> u64" where
  "GENMASK h l = ((NOT 0) - push_bit l 1 + 1) AND drop_bit (64 - 1 - h) (NOT 0)"

definition lcompat_struct_size :: "u64 \<Rightarrow> u64 \<Rightarrow> u64 \<Rightarrow> u64" where
  "lcompat_struct_size base elem_size count =
     (if count \<noteq> 0 \<and> elem_size > (- 1) div count then - 1
      else let bytes = elem_size * count
           in if base > - 1 - bytes then - 1 else base + bytes)"

definition sign_extend32 :: "u32 \<Rightarrow> nat \<Rightarrow> u32" where
  "sign_extend32 value index =
     (let shift = 31 - index in signed_drop_bit shift (push_bit shift value))"

definition get_unaligned_le16 :: "(addr \<Rightarrow> u8) \<Rightarrow> addr \<Rightarrow> u16" where
  "get_unaligned_le16 b p = ucast (b p) OR push_bit 8 (ucast (b (p + 1)))"

definition get_unaligned_be16 :: "(addr \<Rightarrow> u8) \<Rightarrow> addr \<Rightarrow> u16" where
  "get_unaligned_be16 b p = push_bit 8 (ucast (b p)) OR ucast (b (p + 1))"

definition get_unaligned_le32 :: "(addr \<Rightarrow> u8) \<Rightarrow> addr \<Rightarrow> u32" where
  "get_unaligned_le32 b p =
     ucast (b p) OR push_bit 8 (ucast (b (p + 1))) OR push_bit 16 (ucast (b (p + 2)))
       OR push_bit 24 (ucast (b (p + 3)))"

definition put_unaligned_le16 :: "u16 \<Rightarrow> addr \<Rightarrow> (addr \<Rightarrow> u8) \<Rightarrow> (addr \<Rightarrow> u8)" where
  "put_unaligned_le16 val p b =
     b(p := ucast (val AND 0xff), p + 1 := ucast (drop_bit 8 val AND 0xff))"

definition put_unaligned_le32 :: "u32 \<Rightarrow> addr \<Rightarrow> (addr \<Rightarrow> u8) \<Rightarrow> (addr \<Rightarrow> u8)" where
  "put_unaligned_le32 val p b =
     b(p := ucast (val AND 0xff), p + 1 := ucast (drop_bit 8 val AND 0xff),
       p + 2 := ucast (drop_bit 16 val AND 0xff), p + 3 := ucast (drop_bit 24 val AND 0xff))"

text \<open>
  \<^verbatim>\<open>cpu_to_be16\<close> on the little-endian hosts the header supports swaps the two bytes;
  \<^verbatim>\<open>cpu_to_le16\<close> and \<^verbatim>\<open>le16_to_cpu\<close> are the identity there.
\<close>

definition cpu_to_be16 :: "u16 \<Rightarrow> u16" where
  "cpu_to_be16 v = push_bit 8 v OR drop_bit 8 v"

definition le16_bytes :: "u16 \<Rightarrow> u8 list" where
  "le16_bytes v = [ucast v, ucast (drop_bit 8 v)]"

definition be16_bytes :: "u16 \<Rightarrow> u8 list" where
  "be16_bytes v = [ucast (drop_bit 8 v), ucast v]"

lemma length_le16_bytes [simp]: "length (le16_bytes v) = 2"
  by (simp add: le16_bytes_def)

lemma length_be16_bytes [simp]: "length (be16_bytes v) = 2"
  by (simp add: be16_bytes_def)

text \<open>A swapped value stored in host order puts the most significant byte first.\<close>

lemma le16_bytes_cpu_to_be16: "le16_bytes (cpu_to_be16 v) = be16_bytes v"
  unfolding le16_bytes_def be16_bytes_def cpu_to_be16_def
  by (auto intro!: bit_word_eqI simp: bit_simps)

lemma get_le16_bytes:
  "m p = ucast v \<Longrightarrow> m (p + 1) = ucast (drop_bit 8 v) \<Longrightarrow> get_unaligned_le16 m p = v"
  by (rule bit_word_eqI) (auto simp: get_unaligned_le16_def bit_simps)

lemma get_be16_bytes:
  "m p = ucast (drop_bit 8 v) \<Longrightarrow> m (p + 1) = ucast v \<Longrightarrow> get_unaligned_be16 m p = v"
  by (rule bit_word_eqI) (auto simp: get_unaligned_be16_def bit_simps)

section \<open>bitops.h\<close>

definition test_bit :: "nat \<Rightarrow> u64 \<Rightarrow> bool" where
  "test_bit nr val = (val AND BIT nr \<noteq> 0)"

definition set_bit :: "nat \<Rightarrow> u64 \<Rightarrow> u64" where
  "set_bit nr val = val OR BIT nr"

definition clear_bit :: "nat \<Rightarrow> u64 \<Rightarrow> u64" where
  "clear_bit nr val = val AND NOT (BIT nr)"

definition test_and_set_bit :: "nat \<Rightarrow> u64 \<Rightarrow> bool \<times> u64" where
  "test_and_set_bit nr old = (old AND BIT nr \<noteq> 0, old OR BIT nr)"

definition test_and_clear_bit :: "nat \<Rightarrow> u64 \<Rightarrow> bool \<times> u64" where
  "test_and_clear_bit nr old = (old AND BIT nr \<noteq> 0, old AND NOT (BIT nr))"

text \<open>The search loops: the first index from \<open>i\<close> below \<open>n\<close> where the test holds, else \<open>n\<close>.\<close>

function bit_scan :: "(nat \<Rightarrow> bool) \<Rightarrow> nat \<Rightarrow> nat \<Rightarrow> nat" where
  "bit_scan P n i = (if i < n then if P i then i else bit_scan P n (i + 1) else n)"
  by pat_completeness auto
termination
  by (relation "measure (\<lambda>(P, n, i). n - i)") auto

declare bit_scan.simps [simp del]

definition find_first_bit :: "u64 \<Rightarrow> nat \<Rightarrow> nat" where
  "find_first_bit w n = bit_scan (\<lambda>i. test_bit i w) n 0"

definition find_next_bit :: "u64 \<Rightarrow> nat \<Rightarrow> nat \<Rightarrow> nat" where
  "find_next_bit w n offset = bit_scan (\<lambda>i. test_bit i w) n offset"

definition find_first_zero_bit :: "u64 \<Rightarrow> nat \<Rightarrow> nat" where
  "find_first_zero_bit w n = bit_scan (\<lambda>i. \<not> test_bit i w) n 0"

definition find_next_zero_bit :: "u64 \<Rightarrow> nat \<Rightarrow> nat \<Rightarrow> nat" where
  "find_next_zero_bit w n offset = bit_scan (\<lambda>i. \<not> test_bit i w) n offset"

definition ffs_long :: "u64 \<Rightarrow> nat" where
  "ffs_long word = (let i = bit_scan (\<lambda>i. word AND BIT i \<noteq> 0) 64 0 in if i < 64 then i else 0)"

text \<open>\<^verbatim>\<open>__fls\<close> counts down from bit 63; the argument is one more than the index it looks at.\<close>

fun fls_from :: "u64 \<Rightarrow> nat \<Rightarrow> nat" where
  "fls_from word 0 = 0"
| "fls_from word (Suc i) = (if word AND BIT i \<noteq> 0 then i else fls_from word i)"

definition fls_long :: "u64 \<Rightarrow> nat" where
  "fls_long word = fls_from word 64"

definition fls :: "u32 \<Rightarrow> nat" where
  "fls word = (if word \<noteq> 0 then fls_long (ucast word) + 1 else 0)"

text \<open>\<^verbatim>\<open>for_each_set_bit\<close>: the indices the loop body sees, in order.\<close>

lemma bit_scan_ge: "i \<le> n \<Longrightarrow> i \<le> bit_scan P n i"
proof (induction P n i rule: bit_scan.induct)
  case (1 P n i)
  then show ?case by (subst bit_scan.simps) force
qed

lemma bit_scan_le: "bit_scan P n i \<le> n"
proof (induction P n i rule: bit_scan.induct)
  case (1 P n i)
  then show ?case by (subst bit_scan.simps) auto
qed

function set_bit_walk :: "u64 \<Rightarrow> nat \<Rightarrow> nat \<Rightarrow> nat list" where
  "set_bit_walk w n b =
     (if b < n then b # set_bit_walk w n (find_next_bit w n (b + 1)) else [])"
  by pat_completeness auto
termination
proof (relation "measure (\<lambda>(w, n, b). n - b)", goal_cases)
  case (2 w n b)
  then have "b + 1 \<le> find_next_bit w n (b + 1)"
    by (simp add: find_next_bit_def bit_scan_ge)
  with 2 show ?case by simp
qed simp

declare set_bit_walk.simps [simp del]

definition for_each_set_bit :: "u64 \<Rightarrow> nat \<Rightarrow> nat list" where
  "for_each_set_bit w n = set_bit_walk w n (find_first_bit w n)"

section \<open>bitfield.h\<close>

text \<open>\<^verbatim>\<open>__builtin_ctzl\<close> of a non-zero mask: the index of its lowest set bit.\<close>

definition bf_shf :: "'a :: len word \<Rightarrow> nat" where
  "bf_shf msk = (if msk \<noteq> 0 then bit_scan (bit msk) LENGTH('a) 0 else 0)"

definition FIELD_MAX :: "'a :: len word \<Rightarrow> 'a word" where
  "FIELD_MAX msk = drop_bit (bf_shf msk) msk"

definition FIELD_FIT :: "'a :: len word \<Rightarrow> 'a word \<Rightarrow> bool" where
  "FIELD_FIT msk val = (val AND NOT (FIELD_MAX msk) = 0)"

definition FIELD_PREP :: "'a :: len word \<Rightarrow> 'a word \<Rightarrow> 'a word" where
  "FIELD_PREP msk val = push_bit (bf_shf msk) val AND msk"

definition FIELD_GET :: "'a :: len word \<Rightarrow> 'a word \<Rightarrow> 'a word" where
  "FIELD_GET msk reg = drop_bit (bf_shf msk) (reg AND msk)"

definition replace_bits :: "'a :: len word \<Rightarrow> 'a word \<Rightarrow> 'a word \<Rightarrow> 'a word" where
  "replace_bits reg val msk = (reg AND NOT msk) OR FIELD_PREP msk val"

section \<open>Single bits\<close>

lemma bit_BIT [simp]: "bit (BIT nr) k \<longleftrightarrow> nr = k \<and> k < 64"
  by (auto simp: BIT_def bit_simps)

lemma and_BIT_eq_0: "val AND BIT nr = 0 \<longleftrightarrow> \<not> (nr < 64 \<and> bit val nr)"
  by (subst bit_eq_iff) (auto simp: bit_simps)

lemma test_bit_iff [simp]: "test_bit nr val \<longleftrightarrow> nr < 64 \<and> bit val nr"
  by (simp add: test_bit_def and_BIT_eq_0)

lemma test_bit_set_bit: "nr < 64 \<Longrightarrow> test_bit k (set_bit nr val) \<longleftrightarrow> k = nr \<or> test_bit k val"
  by (auto simp: set_bit_def bit_simps)

lemma test_bit_clear_bit: "test_bit k (clear_bit nr val) \<longleftrightarrow> k \<noteq> nr \<and> test_bit k val"
  by (auto simp: clear_bit_def bit_simps)

section \<open>Search loops\<close>

lemma bit_scan_not: "i \<le> j \<Longrightarrow> j < bit_scan P n i \<Longrightarrow> \<not> P j"
proof (induction P n i rule: bit_scan.induct)
  case (1 P n i)
  show ?case
  proof (cases "i < n \<and> \<not> P i")
    case True
    with "1.prems" have "j < bit_scan P n (i + 1)"
      by (simp add: bit_scan.simps [of P n i])
    with True "1.IH" "1.prems" show ?thesis by (cases "i = j") auto
  next
    case False
    with "1.prems" bit_scan_le [of P n i] show ?thesis
      by (auto simp: bit_scan.simps [of P n i] split: if_splits)
  qed
qed

lemma bit_scan_hit: "bit_scan P n i < n \<Longrightarrow> P (bit_scan P n i)"
proof (induction P n i rule: bit_scan.induct)
  case (1 P n i)
  then show ?case by (auto simp: bit_scan.simps [of P n i] split: if_splits)
qed

lemmas bit_scan_facts = bit_scan_ge bit_scan_le bit_scan_not bit_scan_hit

lemma bit_scan_eqI:
  assumes "i \<le> k" and "k \<le> n" and "\<And>j. i \<le> j \<Longrightarrow> j < k \<Longrightarrow> \<not> P j" and "k < n \<Longrightarrow> P k"
  shows "bit_scan P n i = k"
proof (rule linorder_cases [of "bit_scan P n i" k])
  assume less: "bit_scan P n i < k"
  with assms(2) have "P (bit_scan P n i)" using bit_scan_hit [of P n i] by simp
  moreover have "i \<le> bit_scan P n i" using assms(1,2) by (intro bit_scan_ge) simp
  ultimately show ?thesis using assms(3) less by blast
next
  assume less: "k < bit_scan P n i"
  then have "k < n" using bit_scan_le [of P n i] by simp
  with assms(1,4) less show ?thesis using bit_scan_not [of i k P n] by blast
qed

lemma set_bit_walk_eq:
  "b \<le> n \<Longrightarrow> b = n \<or> test_bit b w \<Longrightarrow> set_bit_walk w n b = filter (\<lambda>i. test_bit i w) [b..<n]"
proof (induction w n b rule: set_bit_walk.induct)
  case (1 w n b)
  show ?case
  proof (cases "b < n")
    case True
    define c where "c = find_next_bit w n (b + 1)"
    have c: "b + 1 \<le> c" "c \<le> n" "c = n \<or> test_bit c w"
      unfolding c_def find_next_bit_def
      using True bit_scan_hit [of "\<lambda>i. test_bit i w" n "b + 1"]
        bit_scan_ge [of "b + 1" n "\<lambda>i. test_bit i w"]
        bit_scan_le [of "\<lambda>i. test_bit i w" n "b + 1"]
      by linarith+
    have gap: "filter (\<lambda>i. test_bit i w) [b + 1..<c] = []"
      using bit_scan_not [of "b + 1" _ "\<lambda>i. test_bit i w" n]
      by (auto simp: filter_empty_conv c_def find_next_bit_def)
    have "[b + 1..<n] = [b + 1..<c] @ [c..<n]"
      using c by (metis upt_add_eq_append le_add_diff_inverse)
    moreover have "set_bit_walk w n c = filter (\<lambda>i. test_bit i w) [c..<n]"
      using "1.IH" True c by (simp add: c_def)
    ultimately show ?thesis
      using True "1.prems" gap
      by (simp add: set_bit_walk.simps [of w n b] upt_conv_Cons c_def [symmetric, simplified] del: upt_Suc test_bit_iff)
  next
    case False
    with "1.prems" show ?thesis
      by (simp add: set_bit_walk.simps [of w n b] set_bit_walk.simps [of w n n])
  qed
qed

lemma fls_from_spec:
  "\<exists>k < n. bit w k \<and> k < 64 \<Longrightarrow>
   fls_from w n < n \<and> bit w (fls_from w n) \<and> (\<forall>k. fls_from w n < k \<longrightarrow> k < n \<longrightarrow> k < 64 \<longrightarrow> \<not> bit w k)"
  by (induction n) (auto simp: and_BIT_eq_0 less_Suc_eq)

section \<open>Fields of a contiguous mask\<close>

definition field_mask :: "nat \<Rightarrow> nat \<Rightarrow> 'a :: len word" where
  "field_mask s n = push_bit s (mask n)"

lemma bit_field_mask: "bit (field_mask s n :: 'a :: len word) k \<longleftrightarrow> s \<le> k \<and> k < s + n \<and> k < LENGTH('a)"
  by (auto simp: field_mask_def bit_simps)

lemma bf_shf_field_mask:
  "0 < n \<Longrightarrow> s + n \<le> LENGTH('a) \<Longrightarrow> bf_shf (field_mask s n :: 'a :: len word) = s"
proof -
  assume n: "0 < n" "s + n \<le> LENGTH('a)"
  have "bit (field_mask s n :: 'a word) s" using n by (simp add: bit_field_mask)
  then have "(field_mask s n :: 'a word) \<noteq> 0" by auto
  with n show ?thesis
    by (auto simp: bf_shf_def bit_field_mask intro!: bit_scan_eqI)
qed

lemma bit_replace_field:
  "0 < n \<Longrightarrow> s + n \<le> LENGTH('a) \<Longrightarrow>
   bit (replace_bits reg val (field_mask s n :: 'a :: len word)) k \<longleftrightarrow>
     (if s \<le> k \<and> k < s + n then bit val (k - s) else bit reg k)"
  using bit_imp_le_length [of reg k] bit_imp_le_length [of val "k - s"]
  by (auto simp: replace_bits_def FIELD_PREP_def bf_shf_field_mask bit_simps bit_field_mask)

section \<open>Properties\<close>

text \<open>
  Iterating a bitmap with \<^verbatim>\<open>for_each_set_bit\<close> (\<^verbatim>\<open>find_first_bit\<close>, then
  \<^verbatim>\<open>find_next_bit\<close> from the successor) visits every set bit below the size exactly once,
  in ascending order, and nothing else, for every size up to the 64 bits of the word.
\<close>

theorem for_each_set_bit_visits:
  assumes "n \<le> 64"
  shows "for_each_set_bit w n = filter (bit w) [0..<n]"
proof -
  have "for_each_set_bit w n = filter (\<lambda>i. test_bit i w) [find_first_bit w n..<n]"
    using bit_scan_hit [of "\<lambda>i. test_bit i w" n 0] bit_scan_le [of "\<lambda>i. test_bit i w" n 0]
    unfolding for_each_set_bit_def find_first_bit_def
    by (intro set_bit_walk_eq) linarith+
  also have "\<dots> = filter (\<lambda>i. test_bit i w) ([0..<find_first_bit w n] @ [find_first_bit w n..<n])"
    using bit_scan_not [of 0 _ "\<lambda>i. test_bit i w" n]
    by (simp add: filter_empty_conv find_first_bit_def del: test_bit_iff)
  also have "[0..<find_first_bit w n] @ [find_first_bit w n..<n] = [0..<n]"
    using bit_scan_le [of _ n 0] unfolding find_first_bit_def
    by (metis upt_add_eq_append le_add_diff_inverse add_0 zero_le)
  finally show ?thesis using assms by (auto intro: filter_cong)
qed

theorem for_each_set_bit_visits_witness: "for_each_set_bit 0b101001 6 = [0, 3, 5]"
  using for_each_set_bit_visits [of 6 "0b101001"] by (simp add: upt_rec)

text \<open>
  \<^verbatim>\<open>u32p_replace_bits\<close> and its sisters write exactly the field selected by a contiguous
  mask: reading the field back with \<^verbatim>\<open>FIELD_GET\<close> returns the value written, truncated to
  the field's width, and every bit outside the mask keeps its value.
\<close>

theorem replace_bits_get:
  fixes reg val :: "'a :: len word"
  assumes "0 < n" and "s + n \<le> LENGTH('a)"
  shows "FIELD_GET (field_mask s n) (replace_bits reg val (field_mask s n)) = val AND mask n \<and>
    replace_bits reg val (field_mask s n) AND NOT (field_mask s n) = reg AND NOT (field_mask s n)"
proof
  show "FIELD_GET (field_mask s n) (replace_bits reg val (field_mask s n)) = val AND mask n"
    using assms
    by (intro bit_word_eqI)
      (auto simp: FIELD_GET_def bf_shf_field_mask bit_replace_field bit_field_mask bit_simps)
  show "replace_bits reg val (field_mask s n) AND NOT (field_mask s n) = reg AND NOT (field_mask s n)"
    using assms
    by (intro bit_word_eqI) (auto simp: bit_replace_field bit_field_mask bit_simps)
qed

theorem replace_bits_get_witness:
  "FIELD_GET (field_mask 4 8 :: u32) (replace_bits 0xffffffff 0x5a (field_mask 4 8)) = 0x5a"
  using replace_bits_get [of 8 4 "0xffffffff :: u32" "0x5a"] by (simp add: mask_eq_exp_minus_1)

text \<open>
  \<^verbatim>\<open>struct_size\<close> never wraps: it is the mathematical size of a structure with a trailing
  array when that fits in \<^verbatim>\<open>size_t\<close>, and saturates at \<^verbatim>\<open>SIZE_MAX\<close> otherwise, so an allocation
  of the result can never be smaller than the object that is to live in it.
\<close>

theorem struct_size_saturates:
  "unat (lcompat_struct_size base elem count) =
     min (unat base + unat elem * unat count) (2 ^ 64 - 1)"
proof (cases "count \<noteq> 0 \<and> elem > (- 1) div count")
  case True
  from True have c: "0 < unat count" by (simp add: unat_gt_0)
  from True have "18446744073709551615 div unat count < unat elem"
    by (simp add: word_less_nat_alt unat_div)
  with c have "18446744073709551615 < unat elem * unat count"
    by (simp add: div_less_iff_less_mult)
  with True show ?thesis by (simp add: lcompat_struct_size_def)
next
  case False
  have fits: "unat elem * unat count \<le> 18446744073709551615"
  proof (cases "count = 0")
    case False
    with \<open>\<not> (count \<noteq> 0 \<and> elem > (- 1) div count)\<close>
    have "unat elem \<le> 18446744073709551615 div unat count"
      by (simp add: word_less_nat_alt unat_div)
    then show ?thesis
      by (metis div_times_less_eq_dividend le_trans mult_le_mono1)
  qed simp
  then have prod: "unat (elem * count) = unat elem * unat count"
    by (subst unat_word_ariths) simp
  have sub: "unat (- 1 - elem * count) = 18446744073709551615 - unat elem * unat count"
    by (simp add: unat_sub prod)
  show ?thesis
  proof (cases "base > - 1 - elem * count")
    case True
    then have "18446744073709551615 - unat elem * unat count < unat base"
      by (simp add: word_less_nat_alt sub)
    with True False show ?thesis by (simp add: lcompat_struct_size_def)
  next
    case small: False
    then have "unat base + unat elem * unat count \<le> 18446744073709551615"
      using fits by (simp add: word_less_nat_alt sub)
    then have "unat (base + elem * count) = unat base + unat elem * unat count"
      by (simp add: unat_word_ariths(1) prod)
    moreover have "lcompat_struct_size base elem count = base + elem * count"
      using small False by (auto simp: lcompat_struct_size_def Let_def)
    ultimately show ?thesis
      using \<open>unat base + unat elem * unat count \<le> 18446744073709551615\<close> by simp
  qed
qed

end
