(* ===== verification/LC_Pages.thy ===== *)
theory LC_Pages
  imports LC_Bits
begin

text \<open>
  The memory layer: the allocator shims of \<^verbatim>\<open>memory.c\<close>, and the pages and page pools of
  \<^verbatim>\<open>page_pool.c\<close>.

  The state \<open>kst\<close> holds byte memory, the list \<^verbatim>\<open>lcompat_pages\<close> in list order, the pools, and
  what the code cannot see but depends on: the answers of the host's allocators
  (\<^verbatim>\<open>malloc\<close>, \<^verbatim>\<open>alloc_frames_bytes\<close>), which are arbitrary functions of the number of
  calls made so far, so every pattern of failures is covered.  An object that the code
  allocates with \<^verbatim>\<open>kzalloc(sizeof(*p))\<close> and only uses through its fields is a record; its
  pointer is the number of the allocation that made it, so two live objects never share one.
  \<open>k_live\<close> counts the objects allocated and not yet freed, \<open>k_freed\<close> logs the calls of
  \<^verbatim>\<open>free_frames_bytes\<close>, newest first.  Locks are not modelled: each function runs alone.
\<close>

section \<open>State\<close>

type_synonym pid = nat

record page =
  pg_addr :: addr
  pg_size :: u64
  pg_pp :: "nat option"
  pg_dma_addr :: addr
  pg_refcnt :: u32

record page_pool_params =
  pp_flags :: u32
  pp_order :: u32
  pp_pool_size :: u32
  pp_nid :: u32
  pp_dma_dir :: u32
  pp_offset :: u32
  pp_max_len :: u32

record page_pool_stats =
  alloc_fast :: u64
  alloc_slow :: u64
  alloc_slow_high_order :: u64
  alloc_empty :: u64
  alloc_refill :: u64
  release_fast :: u64
  release_slow :: u64
  recycle_cached :: u64
  recycle_cache_full :: u64
  recycle_ring :: u64
  recycle_ring_full :: u64
  recycle_released_ref :: u64

record page_pool =
  pp_params :: page_pool_params
  pp_stats :: page_pool_stats

record kst =
  k_mem :: "addr \<Rightarrow> u8"
  k_pages :: "(pid \<times> page) list"
  k_pools :: "nat \<Rightarrow> page_pool option"
  k_calls :: nat
  k_obj :: "nat \<Rightarrow> bool"
  k_malloc :: "nat \<Rightarrow> u64 \<Rightarrow> addr"
  k_frames :: "nat \<Rightarrow> u64 \<Rightarrow> addr"
  k_live :: int
  k_freed :: "(addr \<times> u64) list"

definition PAGE_SHIFT :: nat where "PAGE_SHIFT = 12"
definition PAGE_SIZE :: u64 where "PAGE_SIZE = 4096"

text \<open>\<^verbatim>\<open>struct page\<close> on a 64-bit host: six pointer-sized members, a list node counted in, and a counter.\<close>

definition sizeof_page :: u64 where "sizeof_page = 56"
definition SIZE_MAX :: u64 where "SIZE_MAX = 18446744073709551615"

section \<open>memory.c: byte-level allocation\<close>

definition host_malloc :: "u64 \<Rightarrow> 'a kst_scheme \<Rightarrow> addr \<times> 'a kst_scheme" where
  "host_malloc n s =
     (let p = k_malloc s (k_calls s) n
      in (p, s\<lparr>k_calls := k_calls s + 1, k_live := k_live s + (if p = 0 then 0 else 1)\<rparr>))"

definition lcompat_kmalloc :: "u64 \<Rightarrow> 'a kst_scheme \<Rightarrow> addr \<times> 'a kst_scheme" where
  "lcompat_kmalloc n s = host_malloc n s"

definition lcompat_kzalloc :: "u64 \<Rightarrow> 'a kst_scheme \<Rightarrow> addr \<times> 'a kst_scheme" where
  "lcompat_kzalloc n s =
     (let (p, s) = host_malloc n s
      in (p, if p \<noteq> 0 then s\<lparr>k_mem := store_bytes (k_mem s) p (replicate (unat n) 0)\<rparr> else s))"

definition lcompat_kcalloc :: "u64 \<Rightarrow> u64 \<Rightarrow> 'a kst_scheme \<Rightarrow> addr \<times> 'a kst_scheme" where
  "lcompat_kcalloc n sz s =
     (if n \<noteq> 0 \<and> sz > (- 1) div n then (0, s)
      else let (p, s) = host_malloc (n * sz) s
           in (p, if p \<noteq> 0 then s\<lparr>k_mem := store_bytes (k_mem s) p (replicate (unat (n * sz)) 0)\<rparr> else s))"

definition lcompat_kmalloc_array :: "u64 \<Rightarrow> u64 \<Rightarrow> 'a kst_scheme \<Rightarrow> addr \<times> 'a kst_scheme" where
  "lcompat_kmalloc_array n sz s =
     (if n \<noteq> 0 \<and> sz > (- 1) div n then (0, s) else lcompat_kmalloc (n * sz) s)"

definition lcompat_kfree :: "addr \<Rightarrow> 'a kst_scheme \<Rightarrow> 'a kst_scheme" where
  "lcompat_kfree p s = (if p = 0 then s else s\<lparr>k_live := k_live s - 1\<rparr>)"

definition kmemdup :: "addr \<Rightarrow> u64 \<Rightarrow> 'a kst_scheme \<Rightarrow> addr \<times> 'a kst_scheme" where
  "kmemdup src len s =
     (if src = 0 then (0, s)
      else let (dst, s) = lcompat_kmalloc len s
           in if dst = 0 then (0, s)
              else (dst, s\<lparr>k_mem := store_bytes (k_mem s) dst (load_bytes (k_mem s) src (unat len))\<rparr>))"

section \<open>Objects\<close>

definition kzalloc_obj :: "'a kst_scheme \<Rightarrow> nat option \<times> 'a kst_scheme" where
  "kzalloc_obj s =
     (if k_obj s (k_calls s)
      then (Some (k_calls s), s\<lparr>k_calls := k_calls s + 1, k_live := k_live s + 1\<rparr>)
      else (None, s\<lparr>k_calls := k_calls s + 1\<rparr>))"

definition kfree_obj :: "'a kst_scheme \<Rightarrow> 'a kst_scheme" where
  "kfree_obj s = s\<lparr>k_live := k_live s - 1\<rparr>"

definition alloc_frames_bytes :: "u64 \<Rightarrow> 'a kst_scheme \<Rightarrow> addr \<times> 'a kst_scheme" where
  "alloc_frames_bytes n s = (k_frames s (k_calls s) n, s\<lparr>k_calls := k_calls s + 1\<rparr>)"

definition free_frames_bytes :: "addr \<Rightarrow> u64 \<Rightarrow> 'a kst_scheme \<Rightarrow> 'a kst_scheme" where
  "free_frames_bytes a n s = s\<lparr>k_freed := (a, n) # k_freed s\<rparr>"

section \<open>page_pool.c: pages\<close>

lemma halve_less: "(w :: u64) \<noteq> 0 \<Longrightarrow> unat (drop_bit 1 w) < unat w"
proof -
  assume "w \<noteq> 0"
  then have pos: "0 < unat w" by (simp add: unat_gt_0)
  have "unat (drop_bit 1 w) = drop_bit 1 (unat w)" by (rule unat_drop_bit_eq)
  also have "\<dots> = unat w div 2" by (simp add: drop_bit_eq_div)
  finally show ?thesis using pos by linarith
qed

definition page_at :: "'a kst_scheme \<Rightarrow> pid \<Rightarrow> page option" where
  "page_at s p = map_of (k_pages s) p"

definition map_page :: "pid \<Rightarrow> (page \<Rightarrow> page) \<Rightarrow> 'a kst_scheme \<Rightarrow> 'a kst_scheme" where
  "map_page p f s = s\<lparr>k_pages := map (\<lambda>(q, pg). (q, if q = p then f pg else pg)) (k_pages s)\<rparr>"

definition lcompat_page_alloc :: "nat option \<Rightarrow> u64 \<Rightarrow> 'a kst_scheme \<Rightarrow> pid option \<times> 'a kst_scheme" where
  "lcompat_page_alloc pool size0 s =
     (let sz = (if size0 = 0 then PAGE_SIZE else size0)
      in if sz > SIZE_MAX - sizeof_page then (None, s)
         else case kzalloc_obj s of
             (None, s) \<Rightarrow> (None, s)
           | (Some p, s) \<Rightarrow>
               let (a, s) = alloc_frames_bytes sz s;
                   pg = \<lparr>pg_addr = a, pg_size = sz, pg_pp = pool, pg_dma_addr = a, pg_refcnt = 1\<rparr>
               in (Some p, s\<lparr>k_pages := k_pages s @ [(p, pg)]\<rparr>))"

definition lcompat_page_free :: "pid option \<Rightarrow> 'a kst_scheme \<Rightarrow> 'a kst_scheme" where
  "lcompat_page_free page s =
     (case page of
        None \<Rightarrow> s
      | Some p \<Rightarrow>
          (case page_at s p of
             None \<Rightarrow> s
           | Some pg \<Rightarrow>
               kfree_obj (free_frames_bytes (pg_addr pg) (pg_size pg)
                 (s\<lparr>k_pages := filter (\<lambda>(q, _). q \<noteq> p) (k_pages s)\<rparr>))))"

text \<open>The end of a page is computed in \<^verbatim>\<open>uintptr_t\<close>.\<close>

definition virt_to_head_page :: "addr \<Rightarrow> 'a kst_scheme \<Rightarrow> pid option" where
  "virt_to_head_page a s =
     (if a = 0 then None
      else map_option fst
        (find (\<lambda>(_, pg). pg_addr pg \<le> a \<and> a < (pg_addr pg + unat (pg_size pg)) mod 2 ^ 64) (k_pages s)))"

definition virt_to_page :: "addr \<Rightarrow> 'a kst_scheme \<Rightarrow> pid option" where
  "virt_to_page a s = virt_to_head_page a s"

definition page_address :: "pid option \<Rightarrow> 'a kst_scheme \<Rightarrow> addr" where
  "page_address page s =
     (case page of None \<Rightarrow> 0 | Some p \<Rightarrow> (case page_at s p of None \<Rightarrow> 0 | Some pg \<Rightarrow> pg_addr pg))"

definition get_page :: "pid option \<Rightarrow> 'a kst_scheme \<Rightarrow> 'a kst_scheme" where
  "get_page page s =
     (case page of None \<Rightarrow> s | Some p \<Rightarrow> map_page p (\<lambda>pg. pg\<lparr>pg_refcnt := pg_refcnt pg + 1\<rparr>) s)"

definition put_page :: "pid option \<Rightarrow> 'a kst_scheme \<Rightarrow> 'a kst_scheme" where
  "put_page page s =
     (case page of
        None \<Rightarrow> s
      | Some p \<Rightarrow>
          let s = map_page p (\<lambda>pg. pg\<lparr>pg_refcnt := pg_refcnt pg - 1\<rparr>) s
          in case page_at s p of
               None \<Rightarrow> s
             | Some pg \<Rightarrow> if pg_refcnt pg = 0 then lcompat_page_free (Some p) s else s)"

definition dev_alloc_pages :: "nat \<Rightarrow> 'a kst_scheme \<Rightarrow> pid option \<times> 'a kst_scheme" where
  "dev_alloc_pages order s =
     (if order \<ge> 8 * 8 then (None, s) else lcompat_page_alloc None (push_bit order PAGE_SIZE) s)"

function order_loop :: "u64 \<Rightarrow> nat \<Rightarrow> nat" where
  "order_loop pages order = (if pages \<noteq> 0 then order_loop (drop_bit 1 pages) (order + 1) else order)"
  by pat_completeness auto
termination
  by (relation "measure (\<lambda>(pages, order). unat pages)") (use halve_less in \<open>fastforce simp del: drop_bit_Suc\<close>)+

declare order_loop.simps [simp del]

definition get_order :: "u64 \<Rightarrow> nat" where
  "get_order n = (if n \<le> PAGE_SIZE then 0 else order_loop (drop_bit PAGE_SHIFT (n - 1)) 0)"

lemma page_free_mem [simp]: "k_mem (lcompat_page_free p s) = k_mem s"
  by (simp add: lcompat_page_free_def kfree_obj_def free_frames_bytes_def split: option.splits)

lemma put_page_mem [simp]: "k_mem (put_page p s) = k_mem s"
  by (simp add: put_page_def map_page_def Let_def split: option.splits)

lemma kfree_mem [simp]: "k_mem (kfree_obj s) = k_mem s" "k_mem (lcompat_kfree a s) = k_mem s"
  by (simp_all add: kfree_obj_def lcompat_kfree_def)

section \<open>page_pool.c: pools\<close>

definition zero_params :: page_pool_params where
  "zero_params = \<lparr>pp_flags = 0, pp_order = 0, pp_pool_size = 0, pp_nid = 0, pp_dma_dir = 0,
     pp_offset = 0, pp_max_len = 0\<rparr>"

definition zero_stats :: page_pool_stats where
  "zero_stats = \<lparr>alloc_fast = 0, alloc_slow = 0, alloc_slow_high_order = 0, alloc_empty = 0,
     alloc_refill = 0, release_fast = 0, release_slow = 0, recycle_cached = 0,
     recycle_cache_full = 0, recycle_ring = 0, recycle_ring_full = 0, recycle_released_ref = 0\<rparr>"

definition page_pool_create :: "page_pool_params option \<Rightarrow> 'a kst_scheme \<Rightarrow> nat option \<times> 'a kst_scheme" where
  "page_pool_create params s =
     (case kzalloc_obj s of
        (None, s) \<Rightarrow> (None, s)
      | (Some p, s) \<Rightarrow>
          (Some p, s\<lparr>k_pools := (k_pools s)(p \<mapsto>
             \<lparr>pp_params = (case params of None \<Rightarrow> zero_params | Some ps \<Rightarrow> ps),
              pp_stats = zero_stats\<rparr>)\<rparr>))"

definition page_pool_destroy :: "nat option \<Rightarrow> 'a kst_scheme \<Rightarrow> 'a kst_scheme" where
  "page_pool_destroy pool s =
     (case pool of
        None \<Rightarrow> s
      | Some p \<Rightarrow>
          let s = s\<lparr>k_pages := map (\<lambda>(q, pg). (q, if pg_pp pg = Some p then pg\<lparr>pg_pp := None\<rparr> else pg))
                      (k_pages s)\<rparr>
          in kfree_obj (s\<lparr>k_pools := (k_pools s)(p := None)\<rparr>))"

definition map_stats :: "nat option \<Rightarrow> (page_pool_stats \<Rightarrow> page_pool_stats) \<Rightarrow> 'a kst_scheme \<Rightarrow> 'a kst_scheme" where
  "map_stats pool f s =
     (case pool of
        None \<Rightarrow> s
      | Some p \<Rightarrow> s\<lparr>k_pools := (k_pools s)(p :=
          map_option (\<lambda>pl. pl\<lparr>pp_stats := f (pp_stats pl)\<rparr>) (k_pools s p))\<rparr>)"

text \<open>The second component of the result is the value written through \<^verbatim>\<open>offset\<close>, when it is written.\<close>

definition page_pool_alloc_frag ::
  "nat option \<Rightarrow> bool \<Rightarrow> u32 \<Rightarrow> 'a kst_scheme \<Rightarrow> pid option \<times> u32 option \<times> 'a kst_scheme" where
  "page_pool_alloc_frag pool has_offset sz s =
     (case lcompat_page_alloc pool (if sz \<noteq> 0 then ucast sz else PAGE_SIZE) s of
        (None, s) \<Rightarrow>
          (None, None, map_stats pool (\<lambda>st. st\<lparr>alloc_empty := alloc_empty st + 1\<rparr>) s)
      | (Some p, s) \<Rightarrow>
          (Some p, if has_offset then Some 0 else None,
           map_stats pool (\<lambda>st. st\<lparr>alloc_slow := alloc_slow st + 1\<rparr>) s))"

definition page_pool_put_full_page :: "nat option \<Rightarrow> pid option \<Rightarrow> 'a kst_scheme \<Rightarrow> 'a kst_scheme" where
  "page_pool_put_full_page pool page s =
     put_page page (map_stats pool (\<lambda>st. st\<lparr>release_slow := release_slow st + 1\<rparr>) s)"

definition page_pool_get_dma_addr :: "pid option \<Rightarrow> 'a kst_scheme \<Rightarrow> addr" where
  "page_pool_get_dma_addr page s =
     (case page of None \<Rightarrow> 0 | Some p \<Rightarrow> (case page_at s p of None \<Rightarrow> 0 | Some pg \<Rightarrow> pg_dma_addr pg))"

section \<open>Orders\<close>

lemma order_loop_0 [simp]: "order_loop 0 d = d"
  by (simp add: order_loop.simps)

lemma order_loop_bound:
  "order_loop p d \<ge> d \<and> unat p < 2 ^ (order_loop p d - d) \<and>
   (\<forall>k. unat p < 2 ^ k \<longrightarrow> order_loop p d \<le> d + k)"
proof (induction p d rule: order_loop.induct)
  case (1 p d)
  show ?case
  proof (cases "p = 0")
    case True
    then show ?thesis by simp
  next
    case False
    have half: "unat (drop_bit 1 p) = unat p div 2"
      by (simp only: unat_drop_bit_eq) (simp add: drop_bit_eq_div)
    have step: "order_loop p d = order_loop (drop_bit 1 p) (d + 1)"
      using False by (subst order_loop.simps) simp
    let ?r = "order_loop (drop_bit 1 p) (d + 1)"
    have ih: "?r \<ge> d + 1" "unat p div 2 < 2 ^ (?r - (d + 1))"
      "\<And>k. unat p div 2 < 2 ^ k \<Longrightarrow> ?r \<le> d + 1 + k"
      using 1 [OF False] unfolding half by auto
    obtain e where e: "?r - d = Suc e" "?r - (d + 1) = e" using ih(1) by (cases "?r - d") auto
    have up: "unat p < 2 ^ (?r - d)" using ih(2) unfolding e by simp
    have least: "?r \<le> d + k" if "unat p < 2 ^ k" for k
    proof (cases k)
      case 0
      then show ?thesis using that False by (simp add: unat_eq_zero)
    next
      case (Suc j)
      then have "unat p div 2 < 2 ^ j" using that by simp
      then show ?thesis using ih(3) [of j] Suc by simp
    qed
    show ?thesis unfolding step using ih(1) up least by simp
  qed
qed

lemma PAGE_SIZE_unat [simp]: "unat PAGE_SIZE = 4096"
  by (simp add: PAGE_SIZE_def)

lemma get_order_pages:
  assumes "\<not> n \<le> PAGE_SIZE"
  shows "unat (drop_bit PAGE_SHIFT (n - 1)) = (unat n - 1) div 4096"
proof -
  have "1 \<le> n" using assms by (simp add: word_le_nat_alt)
  then have "unat (n - 1) = unat n - 1" by (simp add: unat_sub_le)
  then show ?thesis
    by (simp only: unat_drop_bit_eq) (simp add: drop_bit_eq_div PAGE_SHIFT_def)
qed

lemma get_order_bounds:
  "unat n \<le> 4096 * 2 ^ get_order n" "unat n \<le> 4096 * 2 ^ k \<Longrightarrow> get_order n \<le> k"
proof -
  have "unat n \<le> 4096 * 2 ^ get_order n \<and> (\<forall>k. unat n \<le> 4096 * 2 ^ k \<longrightarrow> get_order n \<le> k)"
  proof (cases "n \<le> PAGE_SIZE")
    case True
    then show ?thesis by (simp add: get_order_def word_le_nat_alt)
  next
    case False
    let ?p = "drop_bit PAGE_SHIFT (n - 1)"
    have big: "4096 < unat n" using False by (simp add: word_le_nat_alt not_le)
    have ord: "get_order n = order_loop ?p 0" using False by (simp add: get_order_def)
    have eqv: "unat ?p < 2 ^ k \<longleftrightarrow> unat n \<le> 4096 * 2 ^ k" for k
      unfolding get_order_pages [OF False] using big
      by (simp add: div_less_iff_less_mult) arith
    show ?thesis
      using order_loop_bound [where p = ?p and d = 0] unfolding ord eqv by simp
  qed
  then show "unat n \<le> 4096 * 2 ^ get_order n" "unat n \<le> 4096 * 2 ^ k \<Longrightarrow> get_order n \<le> k"
    by blast+
qed

text \<open>\<^verbatim>\<open>get_order\<close> returns the least order whose block of pages, 4096 * 2^order bytes, holds
  the requested size, for every 64-bit size.\<close>

theorem get_order_least:
  "unat n \<le> 4096 * 2 ^ get_order n \<and>
   (\<forall>k. unat n \<le> 4096 * 2 ^ k \<longrightarrow> get_order n \<le> k)"
  using get_order_bounds by blast

theorem get_order_least_witness: "get_order 5000 \<le> 1"
  using get_order_least [of 5000, THEN conjunct2, THEN spec, of 1] by simp

section \<open>The page list\<close>

text \<open>
  \<open>pages_wf\<close>: listed pages are distinct live objects, each with a non-empty range at a
  non-null address and at least one reference, and no two ranges overlap.
\<close>

definition page_range_ok :: "page \<Rightarrow> bool" where
  "page_range_ok pg =
     (pg_addr pg \<noteq> 0 \<and> pg_size pg \<noteq> 0 \<and> pg_refcnt pg \<noteq> 0 \<and> pg_addr pg + unat (pg_size pg) < 2 ^ 64)"

definition page_disjoint :: "page \<Rightarrow> page \<Rightarrow> bool" where
  "page_disjoint x y =
     (pg_addr x + unat (pg_size x) \<le> pg_addr y \<or> pg_addr y + unat (pg_size y) \<le> pg_addr x)"

definition page_owns :: "page \<Rightarrow> addr \<Rightarrow> bool" where
  "page_owns pg a = (pg_addr pg \<le> a \<and> a < pg_addr pg + unat (pg_size pg))"

definition pages_wf :: "'a kst_scheme \<Rightarrow> bool" where
  "pages_wf s =
     (distinct (map fst (k_pages s)) \<and>
      list_all (\<lambda>(p, pg). p < k_calls s \<and> page_range_ok pg) (k_pages s) \<and>
      sorted_wrt (\<lambda>x y. page_disjoint (snd x) (snd y)) (k_pages s))"

text \<open>What the host's frame allocator promises: a non-null block in the 64-bit address space,
  apart from those in use.\<close>

definition frames_fresh :: "addr \<Rightarrow> u64 \<Rightarrow> 'a kst_scheme \<Rightarrow> bool" where
  "frames_fresh a n s =
     (a \<noteq> 0 \<and> a + unat n < 2 ^ 64 \<and> list_all (\<lambda>(q, pg). pg_addr pg + unat (pg_size pg) \<le> a \<or> a + unat n \<le> pg_addr pg) (k_pages s))"

lemma page_disjoint_sym: "page_disjoint x y = page_disjoint y x"
  by (auto simp: page_disjoint_def)

lemma page_disjoint_owns: "page_disjoint x y \<Longrightarrow> page_owns x a \<Longrightarrow> page_owns y a \<Longrightarrow> False"
  by (auto simp: page_disjoint_def page_owns_def)

lemma find_page_owner:
  assumes "sorted_wrt (\<lambda>x y. page_disjoint (snd x) (snd y)) xs"
    and "(p, pg) \<in> set xs" and "page_owns pg a" and "distinct (map fst xs)"
  shows "map_option fst (find (\<lambda>(_, pg). pg_addr pg \<le> a \<and> a < pg_addr pg + unat (pg_size pg)) xs) = Some p"
  using assms
proof (induction xs)
  case (Cons x xs)
  obtain q g where x: "x = (q, g)" by (cases x)
  show ?case
  proof (cases "page_owns g a")
    case True
    have "p = q"
      using Cons.prems True page_disjoint_owns [of g pg a] unfolding x by fastforce
    then show ?thesis using True by (simp add: x page_owns_def)
  next
    case False
    then have "(p, pg) \<in> set xs" using Cons.prems unfolding x by auto
    then show ?thesis using Cons False unfolding x by (auto simp: page_owns_def)
  qed
qed simp

lemma page_at_mem: "page_at s p = Some pg \<Longrightarrow> (p, pg) \<in> set (k_pages s)"
  by (simp add: page_at_def map_of_SomeD)

lemma virt_to_head_page_unique:
  assumes "pages_wf s" and "page_at s p = Some pg" and "page_owns pg a"
  shows "virt_to_head_page a s = Some p"
proof -
  have mem: "(p, pg) \<in> set (k_pages s)" using assms(2) by (rule page_at_mem)
  then have "a \<noteq> 0"
    using assms(1,3) by (auto simp: pages_wf_def page_range_ok_def page_owns_def list_all_iff)
  moreover have "find (\<lambda>(_, pg). pg_addr pg \<le> a \<and> a < (pg_addr pg + unat (pg_size pg)) mod 2 ^ 64) (k_pages s) =
      find (\<lambda>(_, pg). pg_addr pg \<le> a \<and> a < pg_addr pg + unat (pg_size pg)) (k_pages s)"
    using assms(1) by (intro find_cong refl) (auto simp: pages_wf_def list_all_iff page_range_ok_def)
  ultimately show ?thesis
    using find_page_owner [OF _ mem assms(3)] assms(1)
    by (simp add: virt_to_head_page_def pages_wf_def)
qed

lemma pages_wf_calls: "pages_wf s \<Longrightarrow> c \<ge> k_calls s \<Longrightarrow> k_pages s' = k_pages s \<Longrightarrow> k_calls s' = c \<Longrightarrow> pages_wf s'"
  by (fastforce simp: pages_wf_def list_all_iff)

lemma pages_wf_snoc:
  assumes "pages_wf s" and "k_calls s \<le> p" and "page_range_ok pg"
    and "list_all (\<lambda>(q, g). page_disjoint g pg) (k_pages s)"
    and "k_pages s' = k_pages s @ [(p, pg)]" and "p < k_calls s'"
  shows "pages_wf s'"
proof -
  have "p \<notin> fst ` set (k_pages s)" using assms(1,2) by (fastforce simp: pages_wf_def list_all_iff)
  moreover have "list_all (\<lambda>(q, g). q < k_calls s' \<and> page_range_ok g) (k_pages s)"
    using assms(1,2,6) by (fastforce simp: pages_wf_def list_all_iff)
  ultimately show ?thesis
    using assms by (auto simp: pages_wf_def sorted_wrt_append list_all_iff split_beta)
qed

definition alloc_size :: "u64 \<Rightarrow> u64" where
  "alloc_size n = (if n = 0 then PAGE_SIZE else n)"

lemma alloc_size_nonzero [simp]: "alloc_size n \<noteq> 0"
  by (simp add: alloc_size_def PAGE_SIZE_def)

lemma page_alloc_cases:
  assumes "lcompat_page_alloc pool n s = (r, s')"
  shows "(r = None \<and> k_pages s' = k_pages s \<and> k_calls s' \<ge> k_calls s \<and> k_live s' = k_live s) \<or>
    (r = Some (k_calls s) \<and> k_calls s' = k_calls s + 2 \<and> k_live s' = k_live s + 1 \<and>
     k_pages s' = k_pages s @ [(k_calls s,
       \<lparr>pg_addr = k_frames s (k_calls s + 1) (alloc_size n), pg_size = alloc_size n, pg_pp = pool,
        pg_dma_addr = k_frames s (k_calls s + 1) (alloc_size n), pg_refcnt = 1\<rparr>)])"
  using assms unfolding lcompat_page_alloc_def alloc_size_def [symmetric] Let_def
  by (auto simp: kzalloc_obj_def alloc_frames_bytes_def split: if_splits)

lemma page_alloc_wf:
  assumes "pages_wf s" and "lcompat_page_alloc pool n s = (r, s')"
    and "frames_fresh (k_frames s (k_calls s + 1) (alloc_size n)) (alloc_size n) s"
  shows "pages_wf s'"
  using page_alloc_cases [OF assms(2)]
proof (elim disjE conjE)
  assume "r = None" "k_pages s' = k_pages s" "k_calls s' \<ge> k_calls s"
  then show ?thesis using pages_wf_calls [OF assms(1)] by blast
next
  let ?a = "k_frames s (k_calls s + 1) (alloc_size n)"
  let ?pg = "\<lparr>pg_addr = ?a, pg_size = alloc_size n, pg_pp = pool, pg_dma_addr = ?a, pg_refcnt = 1\<rparr>"
  assume "k_calls s' = k_calls s + 2" "k_pages s' = k_pages s @ [(k_calls s, ?pg)]"
  moreover have "page_range_ok ?pg" using assms(3) by (simp add: page_range_ok_def frames_fresh_def)
  moreover have "list_all (\<lambda>(q, g). page_disjoint g ?pg) (k_pages s)"
    using assms(3) by (auto simp: frames_fresh_def page_disjoint_def list_all_iff)
  ultimately show ?thesis by (intro pages_wf_snoc [OF assms(1), of "k_calls s" ?pg]) simp_all
qed

lemma sorted_wrt_map_pages:
  assumes "\<And>pg. pg_addr (f pg) = pg_addr pg" and "\<And>pg. pg_size (f pg) = pg_size pg"
  shows "sorted_wrt (\<lambda>x y. page_disjoint (snd x) (snd y)) (map (\<lambda>(q, pg). (q, if q = p then f pg else pg)) xs) =
    sorted_wrt (\<lambda>x y. page_disjoint (snd x) (snd y)) xs"
  unfolding sorted_wrt_map
  by (rule iffI; erule sorted_wrt_mono_rel [rotated]) (auto simp: page_disjoint_def assms split: if_splits)

lemma map_fst_map_pages [simp]:
  "map fst (map (\<lambda>(q, pg). (q, if q = p then f pg else pg)) xs) = map fst xs"
  by (induction xs) auto

lemma map_of_map_page:
  "map_of (map (\<lambda>(q, pg). (q, if q = p then f pg else pg)) xs) r =
     (if r = p then map_option f (map_of xs r) else map_of xs r)"
  by (induction xs) auto

lemma page_at_map_page [simp]:
  "page_at (map_page p f s) q = (if q = p then map_option f (page_at s q) else page_at s q)"
  by (simp add: page_at_def map_page_def map_of_map_page)

lemma map_page_simps [simp]:
  "k_live (map_page p f s) = k_live s" "k_freed (map_page p f s) = k_freed s"
  "k_calls (map_page p f s) = k_calls s" "k_pools (map_page p f s) = k_pools s"
  by (simp_all add: map_page_def)

lemma map_page_comp: "map_page p f (map_page p g s) = map_page p (f \<circ> g) s"
  by (simp add: map_page_def o_def split_beta cong: if_cong)

lemma map_of_filter_fst:
  "map_of (filter (\<lambda>(q, _). q \<noteq> p) xs) r = (if r = p then None else map_of xs r)"
  by (induction xs) auto

lemma page_free_Some:
  assumes "page_at s p = Some pg"
  shows "page_at (lcompat_page_free (Some p) s) q = (if q = p then None else page_at s q)"
    and "k_freed (lcompat_page_free (Some p) s) = (pg_addr pg, pg_size pg) # k_freed s"
    and "k_live (lcompat_page_free (Some p) s) = k_live s - 1"
    and "k_pages (lcompat_page_free (Some p) s) = filter (\<lambda>(q, _). q \<noteq> p) (k_pages s)"
  using assms
  by (simp_all add: lcompat_page_free_def kfree_obj_def free_frames_bytes_def page_at_def map_of_filter_fst)

abbreviation drop_refs :: "u32 \<Rightarrow> page \<Rightarrow> page" where
  "drop_refs k \<equiv> \<lambda>pg. pg\<lparr>pg_refcnt := pg_refcnt pg - k\<rparr>"

lemma put_page_Some:
  "page_at s p = Some pg \<Longrightarrow> put_page (Some p) s =
     (if pg_refcnt pg = 1 then lcompat_page_free (Some p) (map_page p (drop_refs 1) s)
      else map_page p (drop_refs 1) s)"
  by (simp add: put_page_def Let_def)

lemma drop_refs_comp: "map_page p (drop_refs 1) (map_page p (drop_refs k) s) = map_page p (drop_refs (k + 1)) s"
  by (simp add: map_page_comp o_def diff_diff_eq)

lemma put_page_many:
  assumes "pg_refcnt pg = of_nat c" and "c < 2 ^ 32" and "page_at s p = Some pg" and "k < c"
  shows "(put_page (Some p) ^^ k) s = map_page p (drop_refs (of_nat k)) s"
  using assms(4)
proof (induction k)
  case 0
  show ?case by (induction "k_pages s") (auto simp: map_page_def)
next
  case (Suc k)
  let ?s = "(put_page (Some p) ^^ k) s"
  have ih: "?s = map_page p (drop_refs (of_nat k)) s" using Suc by simp
  have "(of_nat c :: u32) - of_nat k - 1 = of_nat (c - Suc k)"
    using Suc.prems by (simp add: of_nat_diff)
  moreover have "(of_nat (c - Suc k) :: u32) \<noteq> 0"
    using Suc.prems assms(2) by (subst word_of_nat_eq_0_iff) (simp add: nat_dvd_not_less)
  ultimately have ne: "pg_refcnt pg - of_nat k \<noteq> 1"
    unfolding assms(1) by (metis diff_self)
  have "page_at ?s p = Some (drop_refs (of_nat k) pg)" using assms(3) by (simp add: ih)
  from put_page_Some [OF this] ne
  have "put_page (Some p) ?s = map_page p (drop_refs 1) ?s" by simp
  then show ?case by (simp add: ih drop_refs_comp add.commute del: map_page_comp)
qed

text \<open>C16. The page reference protocol: releasing fewer references than a page holds only lowers
  its count; the release that drops the last one takes the page off the page list, returns exactly
  its address range to the frame allocator, once, frees the page object, and leaves every other
  page as it was.\<close>

theorem page_refcount_protocol:
  assumes "page_at s p = Some pg" and "unat (pg_refcnt pg) = Suc c"
  shows "(\<forall>k \<le> c. page_at ((put_page (Some p) ^^ k) s) p = Some (pg\<lparr>pg_refcnt := pg_refcnt pg - of_nat k\<rparr>)
             \<and> k_freed ((put_page (Some p) ^^ k) s) = k_freed s)
    \<and> page_at ((put_page (Some p) ^^ Suc c) s) p = None
    \<and> k_freed ((put_page (Some p) ^^ Suc c) s) = (pg_addr pg, pg_size pg) # k_freed s
    \<and> k_live ((put_page (Some p) ^^ Suc c) s) = k_live s - 1
    \<and> (\<forall>q. q \<noteq> p \<longrightarrow> page_at ((put_page (Some p) ^^ Suc c) s) q = page_at s q)"
proof -
  have cnt: "pg_refcnt pg = of_nat (Suc c)"
    using arg_cong [OF assms(2), of "of_nat :: nat \<Rightarrow> u32"] by simp
  have lim: "Suc c < 2 ^ 32" using assms(2) unat_u32_less [of "pg_refcnt pg"] by simp
  have many: "(put_page (Some p) ^^ k) s = map_page p (drop_refs (of_nat k)) s"
    if "k \<le> c" for k
    using put_page_many [OF cnt lim assms(1), of k] that by simp
  have last: "put_page (Some p) (map_page p (drop_refs (of_nat c)) s) =
      lcompat_page_free (Some p) (map_page p (drop_refs (of_nat c + 1)) s)"
    using put_page_Some [of "map_page p (drop_refs (of_nat c)) s" p "drop_refs (of_nat c) pg"] assms(1) cnt
    by (simp add: drop_refs_comp)
  have fin: "(put_page (Some p) ^^ Suc c) s =
      lcompat_page_free (Some p) (map_page p (drop_refs (of_nat c + 1)) s)"
    using many [of c] last by simp
  show ?thesis
    unfolding fin using assms(1) by (auto simp: many page_free_Some)
qed

text \<open>A host whose allocations succeed, with blocks a megabyte apart, for concrete runs.\<close>

definition kst_init :: kst where
  "kst_init = \<lparr>k_mem = (\<lambda>_. 0), k_pages = [], k_pools = (\<lambda>_. None), k_calls = 0, k_obj = (\<lambda>_. True),
     k_malloc = (\<lambda>i _. 1048576 * (i + 1)), k_frames = (\<lambda>i _. 1048576 * (i + 1)), k_live = 0, k_freed = []\<rparr>"

definition page_ex :: page where
  "page_ex = \<lparr>pg_addr = 8192, pg_size = 4096, pg_pp = None, pg_dma_addr = 8192, pg_refcnt = 2\<rparr>"

theorem page_refcount_protocol_witness:
  "page_at (kst_init\<lparr>k_pages := [(3, page_ex)]\<rparr>) 3 = Some page_ex \<and>
   k_freed ((put_page (Some 3) ^^ Suc 1) (kst_init\<lparr>k_pages := [(3, page_ex)]\<rparr>)) = [(8192, 4096)]"
  using page_refcount_protocol [of "kst_init\<lparr>k_pages := [(3, page_ex)]\<rparr>" 3 page_ex 1]
  by (simp add: page_at_def page_ex_def kst_init_def)

text \<open>C25. Looking up an address finds its page.  When the frame allocator returns a fresh block,
  allocating a page keeps the page list well formed (distinct live pages, disjoint ranges), and
  afterwards \<^verbatim>\<open>virt_to_head_page\<close> maps every address of the new block to the new page and every
  address of an older page still to that page.\<close>

theorem virt_to_head_page_owner:
  assumes "pages_wf s" and "lcompat_page_alloc pool n s = (Some p, s')"
    and "frames_fresh (k_frames s (k_calls s + 1) (alloc_size n)) (alloc_size n) s"
  shows "pages_wf s' \<and> page_at s p = None
    \<and> (\<forall>i < unat (alloc_size n). virt_to_head_page (page_address (Some p) s' + i) s' = Some p)
    \<and> (\<forall>q pg a. page_at s q = Some pg \<and> page_owns pg a \<longrightarrow>
         virt_to_head_page a s = Some q \<and> virt_to_head_page a s' = Some q)"
proof -
  let ?a = "k_frames s (k_calls s + 1) (alloc_size n)"
  let ?pg = "\<lparr>pg_addr = ?a, pg_size = alloc_size n, pg_pp = pool, pg_dma_addr = ?a, pg_refcnt = 1\<rparr>"
  have wf: "pages_wf s'" by (rule page_alloc_wf [OF assms])
  have p: "p = k_calls s" "k_pages s' = k_pages s @ [(p, ?pg)]"
    using page_alloc_cases [OF assms(2)] by auto
  have none: "page_at s p = None"
    using assms(1) by (fastforce simp: p(1) pages_wf_def list_all_iff page_at_def map_of_eq_None_iff)
  have new: "page_at s' p = Some ?pg" using none by (simp add: page_at_def p(2) map_add_def)
  have old: "page_at s' q = Some pg" if "page_at s q = Some pg" for q pg
    using that by (simp add: page_at_def p(2) map_add_def)
  have own: "virt_to_head_page (page_address (Some p) s' + i) s' = Some p" if "i < unat (alloc_size n)" for i
    using virt_to_head_page_unique [OF wf new, of "?a + i"] that by (simp add: page_address_def new page_owns_def)
  show ?thesis
    using wf none own virt_to_head_page_unique [OF assms(1)] virt_to_head_page_unique [OF wf old] by blast
qed

theorem virt_to_head_page_owner_witness:
  "virt_to_head_page 1048600 (snd (lcompat_page_alloc None 4096 (kst_init\<lparr>k_calls := 5, k_frames := (\<lambda>_ _. 1048576), k_pages := [(3, page_ex)]\<rparr>))) = Some 5"
proof -
  let ?s = "kst_init\<lparr>k_calls := 5, k_frames := (\<lambda>_ _. 1048576), k_pages := [(3, page_ex)]\<rparr>"
  have r: "lcompat_page_alloc None 4096 ?s = (Some 5, snd (lcompat_page_alloc None 4096 ?s))"
    by (simp add: lcompat_page_alloc_def kst_init_def kzalloc_obj_def alloc_frames_bytes_def sizeof_page_def SIZE_MAX_def)
  have wf: "pages_wf ?s"
    by (simp add: pages_wf_def kst_init_def page_ex_def page_range_ok_def)
  have fresh: "frames_fresh (k_frames ?s (k_calls ?s + 1) (alloc_size 4096)) (alloc_size 4096) ?s"
    by (simp add: frames_fresh_def kst_init_def page_ex_def alloc_size_def)
  have addr: "page_address (Some 5) (snd (lcompat_page_alloc None 4096 ?s)) = 1048576"
    by (simp add: lcompat_page_alloc_def kst_init_def kzalloc_obj_def alloc_frames_bytes_def sizeof_page_def
        SIZE_MAX_def page_address_def page_at_def page_ex_def)
  have "\<forall>i < unat (alloc_size 4096). virt_to_head_page
      (page_address (Some 5) (snd (lcompat_page_alloc None 4096 ?s)) + i) (snd (lcompat_page_alloc None 4096 ?s)) = Some 5"
    using virt_to_head_page_owner [OF wf r fresh] by blast
  then have "24 < unat (alloc_size 4096) \<longrightarrow>
      virt_to_head_page (1048576 + 24) (snd (lcompat_page_alloc None 4096 ?s)) = Some 5"
    unfolding addr by blast
  then show ?thesis by (simp add: alloc_size_def)
qed

section \<open>Blocks for a given size\<close>

lemma page_at_put_other: "q \<noteq> Some p \<Longrightarrow> page_at (put_page q s) p = page_at s p"
  by (cases q) (auto simp: put_page_def Let_def page_free_Some split: option.splits)

lemma page_at_alloc:
  assumes "pages_wf s" and "lcompat_page_alloc pool n s = (Some p, s')"
  shows "page_at s' p = Some \<lparr>pg_addr = k_frames s (k_calls s + 1) (alloc_size n), pg_size = alloc_size n,
      pg_pp = pool, pg_dma_addr = k_frames s (k_calls s + 1) (alloc_size n), pg_refcnt = 1\<rparr>"
    and "page_at s p = None" and "q \<noteq> p \<Longrightarrow> page_at s' q = page_at s q"
proof -
  have p: "p = k_calls s" "k_pages s' = k_pages s @ [(k_calls s,
       \<lparr>pg_addr = k_frames s (k_calls s + 1) (alloc_size n), pg_size = alloc_size n, pg_pp = pool,
        pg_dma_addr = k_frames s (k_calls s + 1) (alloc_size n), pg_refcnt = 1\<rparr>)]"
    using page_alloc_cases [OF assms(2)] by auto
  show none: "page_at s p = None"
    using assms(1) by (fastforce simp: p(1) pages_wf_def list_all_iff page_at_def map_of_eq_None_iff)
  show "page_at s' p = Some \<lparr>pg_addr = k_frames s (k_calls s + 1) (alloc_size n), pg_size = alloc_size n,
      pg_pp = pool, pg_dma_addr = k_frames s (k_calls s + 1) (alloc_size n), pg_refcnt = 1\<rparr>"
    using none by (simp add: page_at_def p map_add_def)
  show "q \<noteq> p \<Longrightarrow> page_at s' q = page_at s q"
    by (auto simp: page_at_def p map_add_def split: option.splits)
qed

lemma page_alloc_mem: "lcompat_page_alloc pool n s = (r, s') \<Longrightarrow> k_mem s' = k_mem s"
  by (auto simp: lcompat_page_alloc_def kzalloc_obj_def alloc_frames_bytes_def Let_def split: if_splits)

text \<open>The block size that \<^verbatim>\<open>__dev_alloc_pages\<close> allocates for a size of at most 4 GiB.\<close>

definition block_size :: "u64 \<Rightarrow> u64" where
  "block_size n = push_bit (get_order n) PAGE_SIZE"

lemma get_order_small:
  assumes "unat n \<le> 4294967296"
  shows "get_order n \<le> 20"
  using get_order_bounds(2) [of n 20] assms by simp

lemma block_size_unat:
  assumes "unat n \<le> 4294967296"
  shows "unat (block_size n) = 4096 * 2 ^ get_order n" and "unat n \<le> unat (block_size n)"
    and "block_size n \<noteq> 0"
proof -
  have "(2 :: nat) ^ get_order n \<le> 2 ^ 20" by (rule power_increasing) (use get_order_small [OF assms] in auto)
  then have lt: "4096 * 2 ^ get_order n < (18446744073709551616 :: nat)" by simp
  have "block_size n = of_nat (4096 * 2 ^ get_order n)"
    by (simp add: block_size_def push_bit_eq_mult PAGE_SIZE_def)
  then have "unat (block_size n) = (4096 * 2 ^ get_order n) mod 18446744073709551616"
    by (simp only: unat_of_nat) simp
  then show u: "unat (block_size n) = 4096 * 2 ^ get_order n" using lt by simp
  show "unat n \<le> unat (block_size n)" using get_order_bounds(1) [of n] by (simp add: u)
  then show "block_size n \<noteq> 0" using u by (metis mult_is_0 power_not_zero unat_0 zero_neq_numeral)
qed

lemma dev_alloc_block:
  assumes "pages_wf s" and "unat n \<le> 4294967296" and "dev_alloc_pages (get_order n) s = (Some p, s')"
  shows "page_at s' p = Some \<lparr>pg_addr = k_frames s (k_calls s + 1) (block_size n), pg_size = block_size n,
      pg_pp = None, pg_dma_addr = k_frames s (k_calls s + 1) (block_size n), pg_refcnt = 1\<rparr>"
    and "page_at s p = None" and "q \<noteq> p \<Longrightarrow> page_at s' q = page_at s q" and "k_mem s' = k_mem s"
    and "page_address (Some p) s' = k_frames s (k_calls s + 1) (block_size n)"
proof -
  have a: "lcompat_page_alloc None (block_size n) s = (Some p, s')"
    using assms(3) get_order_small [OF assms(2)] by (simp add: dev_alloc_pages_def block_size_def)
  have sz: "alloc_size (block_size n) = block_size n"
    using block_size_unat(3) [OF assms(2)] by (simp add: alloc_size_def)
  show "page_at s' p = Some \<lparr>pg_addr = k_frames s (k_calls s + 1) (block_size n), pg_size = block_size n,
      pg_pp = None, pg_dma_addr = k_frames s (k_calls s + 1) (block_size n), pg_refcnt = 1\<rparr>"
    and "page_at s p = None" and "q \<noteq> p \<Longrightarrow> page_at s' q = page_at s q"
    using page_at_alloc [OF assms(1) a] by (simp_all add: sz)
  then show "page_address (Some p) s' = k_frames s (k_calls s + 1) (block_size n)"
    by (simp add: page_address_def)
  show "k_mem s' = k_mem s" by (rule page_alloc_mem [OF a])
qed

lemma page_alloc_freed: "lcompat_page_alloc pool n s = (r, s') \<Longrightarrow> k_freed s' = k_freed s"
  by (auto simp: lcompat_page_alloc_def kzalloc_obj_def alloc_frames_bytes_def Let_def split: if_splits)

lemma dev_alloc_None:
  "dev_alloc_pages d s = (None, s') \<Longrightarrow> k_live s' = k_live s \<and> k_pages s' = k_pages s"
  using page_alloc_cases [of None "push_bit d PAGE_SIZE" s None s']
  by (auto simp: dev_alloc_pages_def split: if_splits)

lemma filter_map_absent:
  "p \<notin> fst ` set xs \<Longrightarrow>
   filter (\<lambda>(q, _). q \<noteq> p) (map (\<lambda>(q, pg). (q, if q = p then f pg else pg)) xs) = xs"
  by (induction xs) auto

lemma dev_alloc_Some_put:
  assumes "pages_wf s" and "dev_alloc_pages d s = (Some p, s')"
  shows "k_pages (put_page (Some p) s') = k_pages s \<and> k_live (put_page (Some p) s') = k_live s \<and>
    k_live s' = k_live s + 1 \<and>
    k_freed (put_page (Some p) s') = (page_address (Some p) s', alloc_size (push_bit d PAGE_SIZE)) # k_freed s"
proof -
  have a: "lcompat_page_alloc None (push_bit d PAGE_SIZE) s = (Some p, s')"
    using assms(2) by (simp add: dev_alloc_pages_def split: if_splits)
  let ?sz = "alloc_size (push_bit d PAGE_SIZE)"
  let ?a = "k_frames s (k_calls s + 1) ?sz"
  define pg where "pg = \<lparr>pg_addr = ?a, pg_size = ?sz, pg_pp = None, pg_dma_addr = ?a, pg_refcnt = 1\<rparr>"
  have pg: "pg_refcnt pg = 1" "pg_size pg = ?sz" "k_pages s' = k_pages s @ [(p, pg)]"
      "k_live s' = k_live s + 1" "p = k_calls s"
    using page_alloc_cases [OF a] by (auto simp: pg_def)
  have none: "p \<notin> fst ` set (k_pages s)"
    using assms(1) by (fastforce simp: pg(5) pages_wf_def list_all_iff)
  then have at: "page_at s' p = Some pg"
    by (simp add: page_at_def pg(3) map_add_def map_of_eq_None_iff [THEN iffD2])
  let ?t = "map_page p (drop_refs 1) s'"
  have at2: "page_at ?t p = Some (drop_refs 1 pg)" using at by simp
  have "filter (\<lambda>(q, _). q \<noteq> p) (k_pages ?t) = k_pages s"
    using filter_map_absent [OF none] by (simp add: map_page_def pg(3))
  then have "k_pages (lcompat_page_free (Some p) ?t) = k_pages s"
    using page_free_Some(4) [OF at2] by simp
  then show ?thesis
    using put_page_Some [OF at] pg page_free_Some(2,3) [OF at2] at page_alloc_freed [OF a]
    by (simp add: page_address_def)
qed

section \<open>What the memory layer leaves alone\<close>

text \<open>
  A layer that extends \<open>kst\<close> keeps its own state in the record's extension; no function of the
  memory layer touches it, nor the answers the host will give.
\<close>

lemma kzalloc_obj_more [more_simps]: "kst.more (snd (kzalloc_obj s)) = kst.more s"
  by (simp add: kzalloc_obj_def)

lemma kfree_obj_more [more_simps]: "kst.more (kfree_obj s) = kst.more s"
  by (simp add: kfree_obj_def)

lemma kfree_more [more_simps]: "kst.more (lcompat_kfree a s) = kst.more s"
  by (simp add: lcompat_kfree_def)

lemma page_alloc_more [more_simps]: "kst.more (snd (lcompat_page_alloc pool n s)) = kst.more s"
  using kzalloc_obj_more [of s]
  by (auto simp: lcompat_page_alloc_def alloc_frames_bytes_def Let_def split: prod.splits option.splits)

lemma dev_alloc_more [more_simps]: "kst.more (snd (dev_alloc_pages d s)) = kst.more s"
  by (simp add: dev_alloc_pages_def page_alloc_more)

lemma page_free_more [more_simps]: "kst.more (lcompat_page_free p s) = kst.more s"
  by (simp add: lcompat_page_free_def kfree_obj_def free_frames_bytes_def split: option.splits)

lemma put_page_more [more_simps]: "kst.more (put_page p s) = kst.more s"
  by (simp add: put_page_def Let_def map_page_def page_free_more split: option.splits)

lemma page_alloc_frames: "k_frames (snd (lcompat_page_alloc pool n s)) = k_frames s"
  by (auto simp: lcompat_page_alloc_def alloc_frames_bytes_def kzalloc_obj_def Let_def)

lemma kzalloc_obj_frames: "k_frames (snd (kzalloc_obj s)) = k_frames s"
  by (simp add: kzalloc_obj_def)

end
