(* ===== verification/LC_Skbuff.thy ===== *)
theory LC_Skbuff
  imports LC_Pages
begin

text \<open>
  Socket buffers: \<^verbatim>\<open>include/linux/skbuff.h\<close> and the scatterlist entries it fills
  (\<^verbatim>\<open>include/linux/scatterlist.h\<close>).

  A buffer is passed by value and returned updated; its bytes live in \<open>k_mem\<close>.  The functions
  here are applied to a non-null buffer, so the NULL guard of each is left out, except in
  \<open>kfree_skb\<close>, whose callers do pass NULL.  The control block \<^verbatim>\<open>cb\<close> is a type parameter:
  the layers that use it give it their own structure, and \<open>0\<close> is the zeroed block.  The list
  links of a buffer are modelled where queues are.  \<open>sb_len\<close>, \<open>sb_tail\<close>, \<open>sb_end\<close> and the
  offsets keep their 32-bit width.
\<close>

section \<open>Data\<close>

record skb_frag =
  fr_page :: "pid option"
  fr_off :: u32
  fr_size :: u32

definition zero_frag :: skb_frag where
  "zero_frag = \<lparr>fr_page = None, fr_off = 0, fr_size = 0\<rparr>"

record 'c sk_buff =
  sb_head :: addr
  sb_data :: addr
  sb_head_page :: "pid option"
  sb_len :: u32
  sb_tail :: u32
  sb_end :: u32
  sb_priority :: u32
  sb_data_len :: u32
  sb_queue_mapping :: u16
  sb_ip_summed :: int
  sb_protocol :: u16
  sb_cb :: 'c
  sb_frags :: "skb_frag list"
  sb_nr_frags :: nat

definition zero_skb :: "'c :: zero sk_buff" where
  "zero_skb = \<lparr>sb_head = 0, sb_data = 0, sb_head_page = None, sb_len = 0, sb_tail = 0, sb_end = 0,
     sb_priority = 0, sb_data_len = 0, sb_queue_mapping = 0, sb_ip_summed = 0, sb_protocol = 0,
     sb_cb = 0, sb_frags = replicate 8 zero_frag, sb_nr_frags = 0\<rparr>"

definition UMAX :: u32 where "UMAX = 4294967295"

definition data_off :: "'c sk_buff \<Rightarrow> u32" where
  "data_off skb = of_nat (sb_data skb - sb_head skb)"

definition lcompat_skb_valid_bounds :: "'c sk_buff \<Rightarrow> bool" where
  "lcompat_skb_valid_bounds skb =
     (if sb_head skb = 0 \<or> sb_data skb < sb_head skb then False
      else if sb_data_len skb > sb_len skb then False
      else
        let linear_len = sb_len skb - sb_data_len skb;
            off = data_off skb
        in if off > sb_end skb \<or> sb_tail skb > sb_end skb then False
           else if linear_len > sb_end skb - off then False
           else if sb_tail skb < off \<or> linear_len > sb_tail skb - off then False
           else True)"

section \<open>Allocation and release\<close>

definition alloc_skb :: "u64 \<Rightarrow> 'a kst_scheme \<Rightarrow> 'c :: zero sk_buff option \<times> 'a kst_scheme" where
  "alloc_skb n s =
     (case kzalloc_obj s of
        (None, s) \<Rightarrow> (None, s)
      | (Some _, s) \<Rightarrow>
          if n > 4294967295 then (None, kfree_obj s)
          else case dev_alloc_pages (get_order (if n \<noteq> 0 then n else 1)) s of
              (None, s) \<Rightarrow> (None, kfree_obj s)
            | (Some p, s) \<Rightarrow>
                let h = page_address (Some p) s
                in (Some (zero_skb\<lparr>sb_head_page := Some p, sb_head := h, sb_data := h, sb_end := ucast n\<rparr>), s))"

definition dev_alloc_skb :: "u64 \<Rightarrow> 'a kst_scheme \<Rightarrow> 'c :: zero sk_buff option \<times> 'a kst_scheme" where
  "dev_alloc_skb n s = alloc_skb n s"

fun release_frag_loop :: "nat \<Rightarrow> nat \<Rightarrow> skb_frag list \<Rightarrow> 'a kst_scheme \<Rightarrow> skb_frag list \<times> 'a kst_scheme" where
  "release_frag_loop i 0 frags s = (frags, s)"
| "release_frag_loop i (Suc n) frags s =
     release_frag_loop (i + 1) n (frags[i := zero_frag]) (put_page (fr_page (frags ! i)) s)"

definition lcompat_skb_release_frags :: "'c sk_buff \<Rightarrow> 'a kst_scheme \<Rightarrow> 'c sk_buff \<times> 'a kst_scheme" where
  "lcompat_skb_release_frags skb s =
     (let (frags, s) = release_frag_loop 0 (sb_nr_frags skb) (sb_frags skb) s
      in (skb\<lparr>sb_frags := frags, sb_nr_frags := 0, sb_data_len := 0\<rparr>, s))"

definition release_head :: "'c sk_buff \<Rightarrow> 'a kst_scheme \<Rightarrow> 'a kst_scheme" where
  "release_head skb s =
     (case sb_head_page skb of
        Some p \<Rightarrow> put_page (Some p) s
      | None \<Rightarrow> lcompat_kfree (sb_head skb) s)"

definition kfree_skb :: "'c sk_buff option \<Rightarrow> 'a kst_scheme \<Rightarrow> 'a kst_scheme" where
  "kfree_skb skb s =
     (case skb of
        None \<Rightarrow> s
      | Some b \<Rightarrow>
          let (b, s) = lcompat_skb_release_frags b s
          in kfree_obj (release_head b s))"

definition skb_cow_head :: "'c sk_buff \<Rightarrow> u32 \<Rightarrow> 'a kst_scheme \<Rightarrow> int \<times> 'c sk_buff \<times> 'a kst_scheme" where
  "skb_cow_head skb headroom s =
     (if \<not> lcompat_skb_valid_bounds skb then (- EINVAL, skb, s)
      else if data_off skb \<ge> headroom then (0, skb, s)
      else
        let linear_len = sb_len skb - sb_data_len skb;
            tailroom = sb_end skb - sb_tail skb
        in if headroom > UMAX - linear_len \<or> headroom + linear_len > UMAX - tailroom
           then (- ENOMEM, skb, s)
           else
             let new_end = headroom + linear_len + tailroom
             in case dev_alloc_pages (get_order (if new_end \<noteq> 0 then ucast new_end else 1)) s of
                  (None, s) \<Rightarrow> (- ENOMEM, skb, s)
                | (Some np, s) \<Rightarrow>
                    let nh = page_address (Some np) s;
                        s = s\<lparr>k_mem := store_bytes (k_mem s) (nh + unat headroom)
                               (load_bytes (k_mem s) (sb_data skb) (unat linear_len))\<rparr>;
                        s = release_head skb s
                    in (0, skb\<lparr>sb_head := nh, sb_head_page := Some np, sb_data := nh + unat headroom,
                          sb_tail := headroom + linear_len, sb_end := new_end\<rparr>, s))"

definition skb_copy :: "'c :: zero sk_buff \<Rightarrow> 'a kst_scheme \<Rightarrow> 'c sk_buff option \<times> 'a kst_scheme" where
  "skb_copy skb s =
     (if \<not> lcompat_skb_valid_bounds skb then (None, s)
      else case alloc_skb (ucast (sb_end skb)) s of
          (None, s) \<Rightarrow> (None, s)
        | (Some nb, s) \<Rightarrow>
            let off = data_off skb;
                linear_len = sb_len skb - sb_data_len skb;
                nb = nb\<lparr>sb_data := sb_head nb + unat off, sb_tail := off + linear_len, sb_len := linear_len,
                        sb_priority := sb_priority skb, sb_queue_mapping := sb_queue_mapping skb,
                        sb_cb := sb_cb skb\<rparr>
            in (Some nb, s\<lparr>k_mem := store_bytes (k_mem s) (sb_data nb)
                             (load_bytes (k_mem s) (sb_data skb) (unat linear_len))\<rparr>))"

section \<open>Data area\<close>

text \<open>The address of the added or exposed bytes, 0 for the NULL of a refused request.\<close>

definition skb_put :: "'c sk_buff \<Rightarrow> u32 \<Rightarrow> addr \<times> 'c sk_buff" where
  "skb_put skb n =
     (if \<not> lcompat_skb_valid_bounds skb \<or> n > sb_end skb - sb_tail skb \<or> n > UMAX - sb_len skb
      then (0, skb)
      else (sb_head skb + unat (sb_tail skb),
            skb\<lparr>sb_tail := sb_tail skb + n, sb_len := sb_len skb + n\<rparr>))"

definition skb_reserve :: "'c sk_buff \<Rightarrow> u32 \<Rightarrow> 'c sk_buff" where
  "skb_reserve skb n =
     (if \<not> lcompat_skb_valid_bounds skb \<or> n > sb_end skb - sb_tail skb then skb
      else skb\<lparr>sb_data := sb_data skb + unat n, sb_tail := sb_tail skb + n\<rparr>)"

definition skb_push :: "'c sk_buff \<Rightarrow> u32 \<Rightarrow> addr \<times> 'c sk_buff" where
  "skb_push skb n =
     (if \<not> lcompat_skb_valid_bounds skb \<or> data_off skb < n \<or> n > UMAX - sb_len skb then (0, skb)
      else let skb = skb\<lparr>sb_data := sb_data skb - unat n, sb_len := sb_len skb + n\<rparr>
           in (sb_data skb, skb))"

definition skb_pull :: "'c sk_buff \<Rightarrow> u32 \<Rightarrow> addr \<times> 'c sk_buff" where
  "skb_pull skb n =
     (if \<not> lcompat_skb_valid_bounds skb \<or> n > sb_len skb then (0, skb)
      else let skb = skb\<lparr>sb_data := sb_data skb + unat n, sb_len := sb_len skb - n\<rparr>
           in (sb_data skb, skb))"

definition skb_put_zero :: "'c sk_buff \<Rightarrow> u32 \<Rightarrow> 'a kst_scheme \<Rightarrow> addr \<times> 'c sk_buff \<times> 'a kst_scheme" where
  "skb_put_zero skb n s =
     (let (pos, skb) = skb_put skb n
      in (pos, skb, if pos \<noteq> 0 then s\<lparr>k_mem := store_bytes (k_mem s) pos (replicate (unat n) 0)\<rparr> else s))"

text \<open>\<open>bytes\<close> is what \<^verbatim>\<open>data\<close> points to, or None for a NULL pointer.\<close>

definition skb_put_data :: "'c sk_buff \<Rightarrow> u8 list option \<Rightarrow> u32 \<Rightarrow> 'a kst_scheme \<Rightarrow> addr \<times> 'c sk_buff \<times> 'a kst_scheme" where
  "skb_put_data skb bytes n s =
     (let (pos, skb) = skb_put skb n
      in (pos, skb,
          case bytes of
            None \<Rightarrow> s
          | Some bs \<Rightarrow> if pos \<noteq> 0 then s\<lparr>k_mem := store_bytes (k_mem s) pos (take (unat n) bs)\<rparr> else s))"

definition skb_headlen :: "'c sk_buff \<Rightarrow> u32" where
  "skb_headlen skb = (if sb_len skb \<ge> sb_data_len skb then sb_len skb - sb_data_len skb else 0)"

definition skb_trim :: "'c sk_buff \<Rightarrow> u32 \<Rightarrow> 'a kst_scheme \<Rightarrow> 'c sk_buff \<times> 'a kst_scheme" where
  "skb_trim skb n s =
     (if lcompat_skb_valid_bounds skb \<and> n \<le> sb_len skb
      then
        let linear_len = sb_len skb - sb_data_len skb;
            (linear_len, skb, s) =
              (if n < linear_len then
                 (let (skb, s) = lcompat_skb_release_frags skb s in (n, skb, s))
               else if n < sb_len skb then
                 (linear_len, skb\<lparr>sb_data_len := sb_data_len skb - (sb_len skb - n)\<rparr>, s)
               else (linear_len, skb, s));
            off = data_off skb
        in if linear_len > sb_end skb - off then (skb, s)
           else (skb\<lparr>sb_len := n, sb_tail := off + linear_len\<rparr>, s)
      else (skb, s))"

definition pskb_trim :: "'c sk_buff \<Rightarrow> u32 \<Rightarrow> 'a kst_scheme \<Rightarrow> int \<times> 'c sk_buff \<times> 'a kst_scheme" where
  "pskb_trim skb n s = (let (skb, s) = skb_trim skb n s in (0, skb, s))"

definition skb_pad :: "'c sk_buff \<Rightarrow> int \<Rightarrow> 'a kst_scheme \<Rightarrow> int \<times> 'c sk_buff \<times> 'a kst_scheme" where
  "skb_pad skb pad s =
     (if pad < 0 then (- EINVAL, skb, s)
      else
        let old_len = sb_len skb;
            (pos, skb) = skb_put skb (word_of_int pad)
        in if pos = 0 then (- ENOMEM, skb, s)
           else
             let s = s\<lparr>k_mem := store_bytes (k_mem s) pos (replicate (nat pad) 0)\<rparr>;
                 (skb, s) = skb_trim skb old_len s
             in (0, skb, s))"

definition skb_reset_tail_pointer :: "'c sk_buff \<Rightarrow> 'c sk_buff" where
  "skb_reset_tail_pointer skb =
     (if sb_head skb = 0 \<or> sb_data skb < sb_head skb then skb
      else if data_off skb > sb_end skb then skb
      else skb\<lparr>sb_len := 0, sb_tail := data_off skb\<rparr>)"

definition skb_set_queue_mapping :: "'c sk_buff \<Rightarrow> u16 \<Rightarrow> 'c sk_buff" where
  "skb_set_queue_mapping skb q = skb\<lparr>sb_queue_mapping := q\<rparr>"

definition skb_get_queue_mapping :: "'c sk_buff \<Rightarrow> u16" where
  "skb_get_queue_mapping skb = sb_queue_mapping skb"

section \<open>Fragments\<close>

fun linearize_loop ::
  "skb_frag list \<Rightarrow> addr \<Rightarrow> u32 \<Rightarrow> u32 \<Rightarrow> 'a kst_scheme \<Rightarrow> u32 option \<times> 'a kst_scheme" where
  "linearize_loop [] dst copied tot s = (Some copied, s)"
| "linearize_loop (f # fs) dst copied tot s =
     (if copied < tot then
        let frag_len = min (fr_size f) (tot - copied);
            a = page_address (fr_page f) s
        in if fr_page f = None \<or> a = 0 then (None, s)
           else linearize_loop fs dst (copied + frag_len) tot
                  (s\<lparr>k_mem := store_bytes (k_mem s) (dst + unat copied)
                       (load_bytes (k_mem s) (a + unat (fr_off f)) (unat frag_len))\<rparr>)
      else (Some copied, s))"

definition skb_linearize :: "'c sk_buff \<Rightarrow> 'a kst_scheme \<Rightarrow> int \<times> 'c sk_buff \<times> 'a kst_scheme" where
  "skb_linearize skb s =
     (if \<not> lcompat_skb_valid_bounds skb then (- EINVAL, skb, s)
      else if sb_data_len skb = 0 then (0, skb, s)
      else
        let off = data_off skb;
            linear_len = sb_len skb - sb_data_len skb
        in if sb_len skb > UMAX - off then (- ENOMEM, skb, s)
           else
             let new_size = off + sb_len skb
             in case dev_alloc_pages (get_order (if new_size \<noteq> 0 then ucast new_size else 1)) s of
                  (None, s) \<Rightarrow> (- ENOMEM, skb, s)
                | (Some np, s) \<Rightarrow>
                    let nh = page_address (Some np) s;
                        dst = nh + unat off;
                        s = s\<lparr>k_mem := store_bytes (k_mem s) dst
                               (load_bytes (k_mem s) (sb_data skb) (unat linear_len))\<rparr>
                    in case linearize_loop (take (sb_nr_frags skb) (sb_frags skb)) dst linear_len (sb_len skb) s of
                         (None, s) \<Rightarrow> (- EINVAL, skb, put_page (Some np) s)
                       | (Some copied, s) \<Rightarrow>
                           if copied \<noteq> sb_len skb then (- EINVAL, skb, put_page (Some np) s)
                           else
                             let (skb, s) = lcompat_skb_release_frags skb s;
                                 s = release_head skb s
                             in (0, skb\<lparr>sb_head_page := Some np, sb_head := nh, sb_data := nh + unat off,
                                   sb_tail := off + sb_len skb, sb_end := off + sb_len skb\<rparr>, s))"

definition build_skb :: "addr \<Rightarrow> u64 \<Rightarrow> 'a kst_scheme \<Rightarrow> 'c :: zero sk_buff option \<times> 'a kst_scheme" where
  "build_skb d frag_size s =
     (if d = 0 then (None, s)
      else if frag_size > 4294967295 then (None, s)
      else case kzalloc_obj s of
          (None, s) \<Rightarrow> (None, s)
        | (Some _, s) \<Rightarrow>
            (Some (zero_skb\<lparr>sb_head := d, sb_data := d, sb_head_page := virt_to_head_page d s,
               sb_end := ucast frag_size\<rparr>), s))"

definition skb_add_rx_frag :: "'c sk_buff \<Rightarrow> int \<Rightarrow> pid option \<Rightarrow> int \<Rightarrow> int \<Rightarrow> 'c sk_buff" where
  "skb_add_rx_frag skb i page off sz =
     (if page = None \<or> i < 0 \<or> i \<ge> 8 \<or> off < 0 \<or> sz < 0 then skb
      else skb\<lparr>sb_frags := (sb_frags skb)[nat i := \<lparr>fr_page = page, fr_off = word_of_int off, fr_size = word_of_int sz\<rparr>],
               sb_nr_frags := (if nat i \<ge> sb_nr_frags skb then nat i + 1 else sb_nr_frags skb),
               sb_len := sb_len skb + word_of_int sz,
               sb_data_len := sb_data_len skb + word_of_int sz\<rparr>)"

section \<open>Scatterlists\<close>

record scatterlist =
  sg_page :: "pid option"
  sg_offset :: u32
  sg_length :: u32
  sg_dma_address :: u64
  sg_dma_length :: u32

text \<open>An array of entries is a list; \<open>sg_set_page\<close> writes one entry in place.\<close>

definition sg_set_page :: "scatterlist \<Rightarrow> pid option \<Rightarrow> u32 \<Rightarrow> u32 \<Rightarrow> scatterlist" where
  "sg_set_page sg page len off = sg\<lparr>sg_page := page, sg_length := len, sg_offset := off\<rparr>"

definition sg_virt :: "scatterlist \<Rightarrow> 'a kst_scheme \<Rightarrow> addr" where
  "sg_virt sg s = (if sg_page sg \<noteq> None then page_address (sg_page sg) s + unat (sg_offset sg) else 0)"

fun sgvec_loop :: "skb_frag list \<Rightarrow> u32 \<Rightarrow> int \<Rightarrow> nat \<Rightarrow> scatterlist list \<Rightarrow> int \<times> nat \<times> scatterlist list" where
  "sgvec_loop [] skip remaining nents sg = (remaining, nents, sg)"
| "sgvec_loop (f # fs) skip remaining nents sg =
     (if remaining > 0 then
        if skip \<ge> fr_size f then sgvec_loop fs (skip - fr_size f) remaining nents sg
        else if fr_page f = None \<or> nents \<ge> 8 then (remaining, nents, sg)
        else
          let off = fr_off f + skip;
              flen = min (fr_size f - skip) (word_of_int remaining)
          in sgvec_loop fs 0 (remaining - sint flen) (nents + 1)
               (sg[nents := sg_set_page (sg ! nents) (fr_page f) flen off])
      else (remaining, nents, sg))"

definition skb_to_sgvec ::
  "'c sk_buff \<Rightarrow> scatterlist list \<Rightarrow> int \<Rightarrow> int \<Rightarrow> 'a kst_scheme \<Rightarrow> nat \<times> scatterlist list" where
  "skb_to_sgvec skb sg offset len s =
     (if offset < 0 \<or> len \<le> 0 \<or> (word_of_int offset :: u32) \<ge> sb_len skb then (0, sg)
      else
        let avail = sint (sb_len skb - word_of_int offset);
            remaining = (if len > avail then sint (sb_len skb) - offset else len);
            linear_len = skb_headlen skb;
            skip = (word_of_int offset :: u32);
            frags = take (sb_nr_frags skb) (sb_frags skb)
        in if skip < linear_len \<and> remaining > 0 then
             (let page = virt_to_head_page (sb_data skb + unat skip) s;
                  flen = min (linear_len - skip) (word_of_int remaining)
              in if page = None then (0, sg)
                 else
                   let sg = sg[0 := sg_set_page (sg ! 0) page flen
                              (of_nat (sb_data skb + unat skip - page_address page s))];
                       (remaining, nents, sg) = sgvec_loop frags 0 (remaining - sint flen) 1 sg
                   in (if remaining = 0 then nents else 0, sg))
           else
             (let skip = skip - min skip linear_len;
                  (remaining, nents, sg) = sgvec_loop frags skip remaining 0 sg
              in (if remaining = 0 then nents else 0, sg)))"

section \<open>Well-formed buffers\<close>

text \<open>
  \<open>skb_wf\<close> is the invariant the operations keep, over natural numbers: the linear data lies between
  head and end, and its end is the tail.  \<open>skb_linear\<close> are the bytes of the linear part,
  \<open>skb_frag_bytes\<close> those of the fragments, cut at the length the buffer declares.
\<close>

definition lin_len :: "'c sk_buff \<Rightarrow> nat" where
  "lin_len skb = unat (sb_len skb) - unat (sb_data_len skb)"

definition skb_wf :: "'c sk_buff \<Rightarrow> bool" where
  "skb_wf skb =
     (sb_head skb \<noteq> 0 \<and> sb_head skb \<le> sb_data skb \<and> unat (sb_data_len skb) \<le> unat (sb_len skb) \<and>
      (sb_data skb - sb_head skb) + lin_len skb = unat (sb_tail skb) \<and>
      unat (sb_tail skb) \<le> unat (sb_end skb))"

definition skb_linear :: "'c sk_buff \<Rightarrow> 'a kst_scheme \<Rightarrow> u8 list" where
  "skb_linear skb s = load_bytes (k_mem s) (sb_data skb) (lin_len skb)"

definition frag_bytes :: "'a kst_scheme \<Rightarrow> skb_frag \<Rightarrow> u8 list" where
  "frag_bytes s f = load_bytes (k_mem s) (page_address (fr_page f) s + unat (fr_off f)) (unat (fr_size f))"

definition skb_frag_bytes :: "'c sk_buff \<Rightarrow> 'a kst_scheme \<Rightarrow> u8 list" where
  "skb_frag_bytes skb s =
     take (unat (sb_data_len skb)) (concat (map (frag_bytes s) (take (sb_nr_frags skb) (sb_frags skb))))"

lemma skb_wf_off:
  assumes "skb_wf skb"
  shows "unat (data_off skb) = sb_data skb - sb_head skb"
proof -
  have "sb_data skb - sb_head skb < 2 ^ 32"
    using assms u32_bound [of "sb_tail skb"] by (simp add: skb_wf_def)
  then show ?thesis by (simp add: data_off_def unat_of_nat take_bit_nat_eq_self)
qed

lemma skb_wf_linlen:
  assumes "skb_wf skb"
  shows "unat (sb_len skb - sb_data_len skb) = lin_len skb"
  using assms by (simp add: skb_wf_def lin_len_def unat_sub_le word_le_nat_alt)

lemma skb_wf_headlen: "skb_wf skb \<Longrightarrow> unat (skb_headlen skb) = lin_len skb"
  by (simp add: skb_headlen_def skb_wf_linlen word_le_nat_alt skb_wf_def)

lemmas skb_nat = word_le_nat_alt word_less_nat_alt unat_sub_if'

lemma skb_wf_valid: "skb_wf skb \<Longrightarrow> lcompat_skb_valid_bounds skb"
  using skb_wf_off [of skb] skb_wf_linlen [of skb]
  by (auto simp: lcompat_skb_valid_bounds_def Let_def skb_nat skb_wf_def)

lemma UMAX_unat [simp]: "unat UMAX = 4294967295"
  by (simp add: UMAX_def)

lemma unat_add_small: "unat (a :: u32) + unat b < 4294967296 \<Longrightarrow> unat (a + b) = unat a + unat b"
  by (simp add: unat_word_ariths)

lemma skb_put_cases:
  assumes "skb_wf skb"
  shows "skb_put skb n =
     (if unat (sb_tail skb) + unat n \<le> unat (sb_end skb) \<and> unat (sb_len skb) + unat n < 2 ^ 32
      then (sb_head skb + unat (sb_tail skb),
            skb\<lparr>sb_tail := sb_tail skb + n, sb_len := sb_len skb + n\<rparr>)
      else (0, skb))"
  using skb_wf_valid [OF assms] assms u32_bound [of "sb_len skb"]
  by (auto simp: skb_put_def skb_nat skb_wf_def)

lemma skb_put_wf:
  assumes "skb_wf skb"
  shows "skb_wf (snd (skb_put skb n))"
proof (cases "unat (sb_tail skb) + unat n \<le> unat (sb_end skb) \<and> unat (sb_len skb) + unat n < 2 ^ 32")
  case True
  then have "unat (sb_tail skb + n) = unat (sb_tail skb) + unat n"
    "unat (sb_len skb + n) = unat (sb_len skb) + unat n"
    using u32_bound [of "sb_end skb"] by (simp_all add: unat_add_small)
  then show ?thesis using assms True by (auto simp: skb_put_cases skb_wf_def lin_len_def)
next
  case False
  then show ?thesis using assms by (simp only: skb_put_cases if_False snd_conv)
qed

lemma skb_reserve_wf:
  assumes "skb_wf skb"
  shows "skb_wf (skb_reserve skb n)"
proof (cases "unat (sb_tail skb) + unat n \<le> unat (sb_end skb)")
  case True
  then have "unat (sb_tail skb + n) = unat (sb_tail skb) + unat n"
    using u32_bound [of "sb_end skb"] by (simp add: unat_add_small)
  then show ?thesis using assms True by (auto simp: skb_reserve_def skb_wf_def lin_len_def)
next
  case False
  then have "n > sb_end skb - sb_tail skb" using assms by (auto simp: skb_nat skb_wf_def)
  then show ?thesis using assms by (simp add: skb_reserve_def)
qed

lemma skb_push_cases:
  assumes "skb_wf skb"
  shows "skb_push skb n =
     (if unat n \<le> sb_data skb - sb_head skb \<and> unat (sb_len skb) + unat n < 2 ^ 32
      then (sb_data skb - unat n, skb\<lparr>sb_data := sb_data skb - unat n, sb_len := sb_len skb + n\<rparr>)
      else (0, skb))"
  using skb_wf_valid [OF assms] u32_bound [of "sb_len skb"] skb_wf_off [OF assms]
  by (auto simp: skb_push_def skb_nat Let_def)

lemma skb_push_wf:
  assumes "skb_wf skb"
  shows "skb_wf (snd (skb_push skb n))"
proof (cases "unat n \<le> sb_data skb - sb_head skb \<and> unat (sb_len skb) + unat n < 2 ^ 32")
  case True
  then have "unat (sb_len skb + n) = unat (sb_len skb) + unat n"
    by (simp add: unat_add_small)
  then show ?thesis using assms True by (auto simp: skb_push_cases skb_wf_def lin_len_def)
next
  case False
  then show ?thesis using assms by (simp only: skb_push_cases if_False snd_conv)
qed

lemma skb_pull_wf:
  assumes "skb_wf skb" and "n \<le> skb_headlen skb"
  shows "skb_wf (snd (skb_pull skb n))"
    and "skb_pull skb n = (sb_data skb + unat n, skb\<lparr>sb_data := sb_data skb + unat n, sb_len := sb_len skb - n\<rparr>)"
proof -
  have n: "unat n \<le> lin_len skb" using assms(2) skb_wf_headlen [OF assms(1)] by (simp add: word_le_nat_alt)
  then have le: "n \<le> sb_len skb" by (simp add: word_le_nat_alt lin_len_def)
  then show eq: "skb_pull skb n = (sb_data skb + unat n, skb\<lparr>sb_data := sb_data skb + unat n, sb_len := sb_len skb - n\<rparr>)"
    using skb_wf_valid [OF assms(1)] leD [OF le] by (simp add: skb_pull_def Let_def)
  show "skb_wf (snd (skb_pull skb n))"
    using assms(1) n by (auto simp: eq skb_wf_def lin_len_def unat_sub_le [OF le])
qed

lemma release_loop_mem: "k_mem (snd (release_frag_loop i n frags s)) = k_mem s"
  by (induction i n frags s rule: release_frag_loop.induct) auto

lemma release_loop_length: "length (fst (release_frag_loop i n frags s)) = length frags"
  by (induction i n frags s rule: release_frag_loop.induct) auto

lemma release_frags_fields:
  assumes "lcompat_skb_release_frags skb s = (skb', s')"
  shows "sb_head skb' = sb_head skb" "sb_data skb' = sb_data skb" "sb_len skb' = sb_len skb"
    "sb_tail skb' = sb_tail skb" "sb_end skb' = sb_end skb" "sb_data_len skb' = 0"
    "sb_nr_frags skb' = 0" "sb_head_page skb' = sb_head_page skb" "k_mem s' = k_mem s"
  using assms release_loop_mem [of 0 "sb_nr_frags skb" "sb_frags skb" s]
  by (auto simp: lcompat_skb_release_frags_def Let_def split: prod.splits)

lemma skb_trim_cases:
  assumes "skb_wf skb" and "n \<le> sb_len skb" and "skb_trim skb n s = (skb', s')"
  shows "sb_head skb' = sb_head skb \<and> sb_data skb' = sb_data skb \<and> sb_end skb' = sb_end skb \<and>
    sb_len skb' = n \<and> k_mem s' = k_mem s \<and>
    unat (sb_data_len skb') = unat n - lin_len skb \<and>
    unat (sb_tail skb') = sb_data skb - sb_head skb + min (unat n) (lin_len skb)"
proof -
  have v: "lcompat_skb_valid_bounds skb" by (rule skb_wf_valid [OF assms(1)])
  have off: "unat (data_off skb) = sb_data skb - sb_head skb" by (rule skb_wf_off [OF assms(1)])
  have lin: "unat (sb_len skb - sb_data_len skb) = lin_len skb" by (rule skb_wf_linlen [OF assms(1)])
  have wf: "sb_data skb - sb_head skb + lin_len skb \<le> unat (sb_end skb)" "unat (sb_data_len skb) \<le> unat (sb_len skb)"
    using assms(1) by (auto simp: skb_wf_def)
  have nle: "unat n \<le> unat (sb_len skb)" using assms(2) by (simp add: word_le_nat_alt)
  have fits: "\<not> m > sb_end skb - data_off skb \<and> unat (data_off skb + m) = sb_data skb - sb_head skb + unat m"
    if "unat m \<le> lin_len skb" for m
  proof -
    have "unat (data_off skb) + unat m \<le> unat (sb_end skb)" using wf that off by linarith
    then show ?thesis using off u32_bound [of "sb_end skb"]
      by (simp add: skb_nat unat_add_small)
  qed
  consider (cut) "n < sb_len skb - sb_data_len skb"
    | (frag) "\<not> n < sb_len skb - sb_data_len skb" "n < sb_len skb"
    | (same) "\<not> n < sb_len skb - sb_data_len skb" "\<not> n < sb_len skb" by blast
  then show ?thesis
  proof cases
    case cut
    obtain b t where r: "lcompat_skb_release_frags skb s = (b, t)" by (cases "lcompat_skb_release_frags skb s")
    have small: "unat n < lin_len skb" using cut lin by (simp add: word_less_nat_alt)
    have "data_off b = data_off skb" using release_frags_fields [OF r] by (simp add: data_off_def)
    then show ?thesis
      using assms(2,3) v cut r fits [of n] small release_frags_fields [OF r]
      by (auto simp: skb_trim_def Let_def)
  next
    case frag
    have ge: "lin_len skb \<le> unat n" using frag lin by (simp add: word_less_nat_alt)
    have d: "unat (sb_data_len skb - (sb_len skb - n)) = unat n - lin_len skb"
    proof -
      have "unat (sb_len skb - n) = unat (sb_len skb) - unat n" by (rule unat_sub_le [OF assms(2)])
      moreover have "unat (sb_len skb) - unat n \<le> unat (sb_data_len skb)"
        using ge wf by (simp add: lin_len_def)
      ultimately show ?thesis using wf nle ge
        by (simp add: unat_sub_le word_le_nat_alt lin_len_def)
    qed
    show ?thesis
      using assms(2,3) v frag fits [of "sb_len skb - sb_data_len skb"] lin d ge
      by (auto simp: skb_trim_def Let_def data_off_def)
  next
    case same
    then have "n = sb_len skb" using assms(2) by simp
    then show ?thesis
      using assms(3) v same fits [of "sb_len skb - sb_data_len skb"] lin wf
      by (auto simp: skb_trim_def Let_def data_off_def lin_len_def)
  qed
qed

lemma skb_trim_wf:
  assumes "skb_wf skb" and "skb_trim skb n s = (skb', s')"
  shows "skb_wf skb'"
proof (cases "n \<le> sb_len skb")
  case True
  have "unat n \<le> unat (sb_len skb)" using True by (simp add: word_le_nat_alt)
  then show ?thesis
    using skb_trim_cases [OF assms(1) True assms(2)] assms(1) by (auto simp: skb_wf_def lin_len_def min_def)
next
  case False
  then show ?thesis using assms by (simp add: skb_trim_def)
qed

lemma skb_pad_wf:
  assumes "skb_wf skb" and "skb_pad skb pad s = (r, skb', s')"
  shows "skb_wf skb'"
  using assms skb_put_wf [OF assms(1), of "word_of_int pad"]
  by (auto simp: skb_pad_def Let_def split: prod.splits if_splits intro: skb_trim_wf)

text \<open>A pull past the linear part and a tail reset with fragments leave more fragment bytes than bytes.\<close>

lemma skb_pull_wf_iff:
  assumes "skb_wf skb"
  shows "skb_wf (snd (skb_pull skb n)) \<longleftrightarrow> n \<le> skb_headlen skb \<or> n > sb_len skb"
proof (cases "n > sb_len skb")
  case True
  then show ?thesis using assms by (simp add: skb_pull_def)
next
  case False
  then have le: "n \<le> sb_len skb" by simp
  have "\<not> skb_wf (snd (skb_pull skb n))" if "\<not> n \<le> skb_headlen skb"
  proof -
    have "lin_len skb < unat n" using that skb_wf_headlen [OF assms] by (simp add: word_le_nat_alt)
    then have "unat (sb_len skb - n) < unat (sb_data_len skb)"
      using le assms by (simp add: unat_sub_le lin_len_def skb_wf_def word_le_nat_alt)
    then show ?thesis using False skb_wf_valid [OF assms] by (simp add: skb_pull_def Let_def skb_wf_def)
  qed
  then show ?thesis using False skb_pull_wf(1) [OF assms] by blast
qed

lemma skb_reset_tail_wf_iff:
  assumes "skb_wf skb"
  shows "skb_wf (skb_reset_tail_pointer skb) \<longleftrightarrow> sb_data_len skb = 0"
proof -
  have "\<not> data_off skb > sb_end skb" using assms skb_wf_off [OF assms] by (auto simp: skb_wf_def skb_nat)
  then show ?thesis using assms skb_wf_off [OF assms]
    by (auto simp: skb_reset_tail_pointer_def skb_wf_def lin_len_def unat_eq_0)
qed

text \<open>C7. Which operations on the data area keep the buffer well formed (linear data between head
  and end, ending at the tail, no counter wrapped).  \<^verbatim>\<open>skb_put\<close>, \<^verbatim>\<open>skb_reserve\<close>, \<^verbatim>\<open>skb_push\<close>,
  \<^verbatim>\<open>skb_trim\<close> and \<^verbatim>\<open>skb_pad\<close> do whatever length they are given.  \<^verbatim>\<open>skb_pull\<close> does exactly when the length
  is within the linear part or is refused as more than the buffer has: it moves the data pointer past
  the tail of a buffer with fragments.  \<^verbatim>\<open>skb_reset_tail_pointer\<close> does exactly for a buffer without
  fragments: it sets the length to 0 and leaves the length of the fragments.\<close>

theorem skb_ops_wf:
  assumes "skb_wf skb"
  shows "skb_wf (snd (skb_put skb n)) \<and> skb_wf (skb_reserve skb n) \<and> skb_wf (snd (skb_push skb n))
    \<and> skb_wf (fst (skb_trim skb n s)) \<and> skb_wf (fst (snd (skb_pad skb pad s)))
    \<and> (skb_wf (snd (skb_pull skb n)) \<longleftrightarrow> n \<le> skb_headlen skb \<or> n > sb_len skb)
    \<and> (skb_wf (skb_reset_tail_pointer skb) \<longleftrightarrow> sb_data_len skb = 0)"
  using skb_put_wf [OF assms] skb_reserve_wf [OF assms] skb_push_wf [OF assms]
    skb_trim_wf [OF assms prod.collapse [symmetric]]
    skb_pad_wf [OF assms, of pad s "fst (skb_pad skb pad s)" _ "snd (snd (skb_pad skb pad s))"]
    skb_pull_wf_iff [OF assms] skb_reset_tail_wf_iff [OF assms]
  by simp

definition skb_ex :: "nat sk_buff" where
  "skb_ex = zero_skb\<lparr>sb_head := 4096, sb_data := 4112, sb_len := 4, sb_tail := 20, sb_end := 64\<rparr>"

lemma skb_ex_wf: "skb_wf skb_ex"
  by (simp add: skb_ex_def skb_wf_def lin_len_def zero_skb_def)

text \<open>A buffer of four linear bytes and four in a fragment: a pull of five and a tail reset break it.\<close>

definition skb_frag_ex :: "nat sk_buff" where
  "skb_frag_ex = skb_ex\<lparr>sb_len := 8, sb_data_len := 4\<rparr>"

lemma skb_frag_ex_wf: "skb_wf skb_frag_ex"
  by (simp add: skb_frag_ex_def skb_ex_def skb_wf_def lin_len_def zero_skb_def)

theorem skb_ops_wf_witness:
  "skb_wf (snd (skb_put skb_frag_ex 5)) \<and> \<not> skb_wf (snd (skb_pull skb_frag_ex 5)) \<and>
   \<not> skb_wf (skb_reset_tail_pointer skb_frag_ex)"
proof -
  have "\<not> (5 :: u32) \<le> skb_headlen skb_frag_ex" "\<not> (5 :: u32) > sb_len skb_frag_ex" "sb_data_len skb_frag_ex \<noteq> 0"
    by (simp_all add: skb_frag_ex_def skb_ex_def zero_skb_def skb_headlen_def)
  then show ?thesis using skb_ops_wf [OF skb_frag_ex_wf, of 5] by blast
qed

section \<open>Contents\<close>

lemma skb_put_data_append:
  assumes "skb_wf skb" and "length bs = unat n" and "skb_put_data skb (Some bs) n s = (pos, skb', s')" and "pos \<noteq> 0"
  shows "skb_linear skb' s' = skb_linear skb s @ bs"
proof -
  let ?ok = "unat (sb_tail skb) + unat n \<le> unat (sb_end skb) \<and> unat (sb_len skb) + unat n < 2 ^ 32"
  have ok: ?ok
  proof (rule ccontr)
    assume "\<not> ?ok"
    then have "skb_put skb n = (0, skb)" using skb_put_cases [OF assms(1), of n] by (simp only: if_False)
    then show False using assms(3,4) by (simp add: skb_put_data_def)
  qed
  have wf: "sb_head skb \<le> sb_data skb" "unat (sb_data_len skb) \<le> unat (sb_len skb)"
    "sb_data skb + lin_len skb = sb_head skb + unat (sb_tail skb)"
    using assms(1) by (auto simp: skb_wf_def)
  have put: "skb_put skb n = (sb_head skb + unat (sb_tail skb),
      skb\<lparr>sb_tail := sb_tail skb + n, sb_len := sb_len skb + n\<rparr>)"
    using ok skb_put_cases [OF assms(1), of n] by (simp only: if_True HOL.simp_thms)
  have res: "skb' = skb\<lparr>sb_tail := sb_tail skb + n, sb_len := sb_len skb + n\<rparr>"
    "k_mem s' = store_bytes (k_mem s) (sb_data skb + lin_len skb) bs"
    using assms(2,3,4) put wf(3) by (auto simp: skb_put_data_def)
  have "lin_len skb' = lin_len skb + length bs"
    using ok wf(2) assms(2) by (simp add: res lin_len_def unat_add_small)
  then show ?thesis
    by (simp add: skb_linear_def res load_bytes_add mem_simps)
qed

lemma skb_push_prepend:
  assumes "skb_wf skb" and "skb_push skb n = (pos, skb')" and "pos \<noteq> 0"
  shows "pos + unat n = sb_data skb \<and>
    skb_linear skb' s = load_bytes (k_mem s) pos (unat n) @ skb_linear skb s"
proof -
  let ?ok = "unat n \<le> sb_data skb - sb_head skb \<and> unat (sb_len skb) + unat n < 2 ^ 32"
  have ok: ?ok
  proof (rule ccontr)
    assume "\<not> ?ok"
    then have "skb_push skb n = (0, skb)" using skb_push_cases [OF assms(1), of n] by (simp only: if_False)
    then show False using assms(2,3) by simp
  qed
  have wf: "sb_head skb \<le> sb_data skb" "unat (sb_data_len skb) \<le> unat (sb_len skb)"
    using assms(1) by (auto simp: skb_wf_def)
  have res: "pos = sb_data skb - unat n" "skb' = skb\<lparr>sb_data := sb_data skb - unat n, sb_len := sb_len skb + n\<rparr>"
    using ok skb_push_cases [OF assms(1), of n] assms(2) by (simp_all only: if_True prod.inject HOL.simp_thms)
  have "lin_len skb' = unat n + lin_len skb" using ok wf by (simp add: res lin_len_def unat_add_small)
  moreover have "sb_data skb - unat n + unat n = sb_data skb" using ok by linarith
  ultimately show ?thesis by (simp add: skb_linear_def res load_bytes_add)
qed

lemma skb_trim_take:
  assumes "skb_wf skb" and "n \<le> sb_len skb" and "skb_trim skb n s = (skb', s')"
  shows "skb_linear skb' s' = take (unat n) (skb_linear skb s)"
proof -
  have "lin_len skb' = min (unat n) (lin_len skb)"
    using skb_trim_cases [OF assms] by (simp add: lin_len_def)
  then show ?thesis using skb_trim_cases [OF assms] by (simp add: skb_linear_def)
qed

lemma skb_pull_linear:
  assumes "skb_wf skb" and "n \<le> sb_len skb"
  shows "skb_pull skb n = (sb_data skb + unat n, snd (skb_pull skb n)) \<and>
    skb_linear (snd (skb_pull skb n)) s = drop (unat n) (skb_linear skb s)"
proof -
  have "skb_pull skb n = (sb_data skb + unat n, skb\<lparr>sb_data := sb_data skb + unat n, sb_len := sb_len skb - n\<rparr>)"
    using skb_wf_valid [OF assms(1)] leD [OF assms(2)] by (simp add: skb_pull_def Let_def)
  then show ?thesis by (simp add: skb_linear_def lin_len_def unat_sub_le [OF assms(2)] ac_simps)
qed

text \<open>C28. What the operations do to the bytes of the linear part of a well-formed buffer, for every
  length.  \<^verbatim>\<open>skb_put_data\<close> appends its bytes to it, and is refused exactly when the tailroom is too small
  or the length would wrap; \<^verbatim>\<open>skb_push\<close> exposes the bytes in front of the data, and is refused exactly when
  the headroom is too small or the length would wrap; \<^verbatim>\<open>skb_pull\<close> drops a prefix (all of the linear part
  when the length goes past it), and is refused exactly beyond the length of the buffer; \<^verbatim>\<open>skb_trim\<close> keeps a
  prefix, and does nothing for a length beyond that of the buffer.  A refused request returns NULL and
  changes nothing.\<close>

theorem skb_payload_ops:
  assumes "skb_wf skb" and "length bs = unat n"
  shows "(case skb_put_data skb (Some bs) n s of (pos, skb', s') \<Rightarrow>
       if unat (sb_tail skb) + unat n \<le> unat (sb_end skb) \<and> unat (sb_len skb) + unat n < 2 ^ 32
       then pos = sb_data skb + lin_len skb \<and> skb_linear skb' s' = skb_linear skb s @ bs
       else pos = 0 \<and> skb' = skb \<and> s' = s)
    \<and> (case skb_push skb n of (pos, skb') \<Rightarrow>
       if unat n \<le> sb_data skb - sb_head skb \<and> unat (sb_len skb) + unat n < 2 ^ 32
       then pos + unat n = sb_data skb \<and> skb_linear skb' s = load_bytes (k_mem s) pos (unat n) @ skb_linear skb s
       else pos = 0 \<and> skb' = skb)
    \<and> (case skb_pull skb n of (pos, skb') \<Rightarrow>
       if n \<le> sb_len skb then pos = sb_data skb + unat n \<and> skb_linear skb' s = drop (unat n) (skb_linear skb s)
       else pos = 0 \<and> skb' = skb)
    \<and> (case skb_trim skb n s of (skb', s') \<Rightarrow>
       if n \<le> sb_len skb then skb_linear skb' s' = take (unat n) (skb_linear skb s) \<and> sb_len skb' = n
       else skb' = skb \<and> s' = s)"
    (is "?put \<and> ?push \<and> ?pull \<and> ?trim")
proof (intro conjI)
  have head: "sb_head skb \<noteq> 0" "sb_data skb + lin_len skb = sb_head skb + unat (sb_tail skb)" "sb_head skb \<le> sb_data skb"
    using assms(1) by (auto simp: skb_wf_def)
  obtain pos skb' s' where p: "skb_put_data skb (Some bs) n s = (pos, skb', s')" by (cases "skb_put_data skb (Some bs) n s")
  show ?put
    using p skb_put_data_append [OF assms p] skb_put_cases [OF assms(1), of n] head(1,2)
    by (auto simp: skb_put_data_def split: if_splits)
  obtain pos skb' where q: "skb_push skb n = (pos, skb')" by (cases "skb_push skb n")
  have "unat n \<le> sb_data skb - sb_head skb \<Longrightarrow> unat n < sb_data skb" using head(1,3) by linarith
  then show ?push
    using q skb_push_prepend [OF assms(1) q] skb_push_cases [OF assms(1), of n] head(1,3)
    by (auto split: if_splits)
  show ?pull
    using skb_pull_linear [OF assms(1), of n s] by (cases "n \<le> sb_len skb") (auto simp: skb_pull_def split: prod.splits)
  obtain skb' s' where r: "skb_trim skb n s = (skb', s')" by (cases "skb_trim skb n s")
  have "\<not> n \<le> sb_len skb \<Longrightarrow> skb' = skb \<and> s' = s" using r by (simp add: skb_trim_def)
  then show ?trim
    using r skb_trim_take [OF assms(1) _ r] skb_trim_cases [OF assms(1) _ r] by simp
qed

theorem skb_payload_ops_witness:
  "skb_linear (snd (skb_pull skb_frag_ex 5)) kst_init = [] \<and> skb_push skb_frag_ex 17 = (0, skb_frag_ex)"
proof -
  have l: "length (skb_linear skb_frag_ex kst_init) = 4" "sb_data skb_frag_ex = 4112" "sb_head skb_frag_ex = 4096" "sb_len skb_frag_ex = 8"
    by (simp_all add: skb_linear_def skb_frag_ex_def skb_ex_def zero_skb_def lin_len_def)
  have "skb_linear (snd (skb_pull skb_frag_ex 5)) kst_init = drop 5 (skb_linear skb_frag_ex kst_init)"
    using skb_payload_ops [OF skb_frag_ex_wf, of "replicate 5 0" 5 kst_init] l(4) by (auto split: prod.splits)
  moreover have "skb_push skb_frag_ex 17 = (0, skb_frag_ex)"
    using skb_payload_ops [OF skb_frag_ex_wf, of "replicate 17 0" 17 kst_init] l(2,3) by (auto split: prod.splits)
  ultimately show ?thesis using l(1) by simp
qed

section \<open>Moving the linear data\<close>

lemma release_head_other: "sb_head_page skb \<noteq> Some p \<Longrightarrow> page_at (release_head skb s) p = page_at s p"
  by (cases "sb_head_page skb") (simp_all add: release_head_def page_at_put_other, simp add: lcompat_kfree_def page_at_def)

lemma release_head_mem [simp]: "k_mem (release_head skb s) = k_mem s"
  by (simp add: release_head_def split: option.splits)

lemma page_at_mem_update [simp]: "page_at (s\<lparr>k_mem := m\<rparr>) p = page_at s p"
  by (simp add: page_at_def)

lemma page_address_mem_update [simp]: "page_address q (s\<lparr>k_mem := m\<rparr>) = page_address q s"
  by (simp add: page_address_def split: option.splits)

lemma ucast_u32_u64: "unat (ucast (n :: u32) :: u64) = unat n"
  using u32_bound [of n] by (simp add: unsigned_ucast_eq take_bit_nat_eq_self_iff)

definition at_least_one :: "u32 \<Rightarrow> u64" where
  "at_least_one n = (if n \<noteq> 0 then ucast n else 1)"

lemma at_least_one_bound: "unat (at_least_one n) \<le> 4294967296" "unat n \<le> unat (at_least_one n)"
  using u32_bound [of n] by (auto simp: at_least_one_def ucast_u32_u64)

lemma cow_head_step:
  assumes "skb_wf skb" and "skb_cow_head skb headroom s = (0, skb', s')" and "\<not> data_off skb \<ge> headroom"
    and "pages_wf s" and "\<forall>p. sb_head_page skb = Some p \<longrightarrow> page_at s p \<noteq> None"
  obtains np t where "unat headroom + lin_len skb + (unat (sb_end skb) - unat (sb_tail skb)) \<le> 4294967295"
    and "dev_alloc_pages (get_order (at_least_one (sb_end skb'))) s = (Some np, t)"
    and "unat (sb_end skb') = unat headroom + lin_len skb + (unat (sb_end skb) - unat (sb_tail skb))"
    and "unat (sb_tail skb') = unat headroom + lin_len skb"
    and "sb_head skb' = page_address (Some np) t" and "sb_data skb' = sb_head skb' + unat headroom"
    and "sb_head_page skb' = Some np"
    and "sb_len skb' = sb_len skb" and "sb_data_len skb' = sb_data_len skb"
    and "sb_frags skb' = sb_frags skb" and "sb_nr_frags skb' = sb_nr_frags skb"
    and "k_mem s' = store_bytes (k_mem t) (sb_data skb') (load_bytes (k_mem t) (sb_data skb) (lin_len skb))"
    and "page_at s' np = page_at t np"
proof -
  have v: "lcompat_skb_valid_bounds skb" by (rule skb_wf_valid [OF assms(1)])
  have lin: "unat (sb_len skb - sb_data_len skb) = lin_len skb" by (rule skb_wf_linlen [OF assms(1)])
  have te: "unat (sb_tail skb) \<le> unat (sb_end skb)" using assms(1) by (simp add: skb_wf_def)
  then have room: "unat (sb_end skb - sb_tail skb) = unat (sb_end skb) - unat (sb_tail skb)"
    by (simp add: unat_sub_le word_le_nat_alt)
  let ?ll = "sb_len skb - sb_data_len skb" and ?tr = "sb_end skb - sb_tail skb"
  have guard: "\<not> (headroom > UMAX - ?ll \<or> headroom + ?ll > UMAX - ?tr)"
    using assms(2) v assms(3) by (auto simp: skb_cow_head_def Let_def errno_defs)
  have sum1: "unat headroom + lin_len skb \<le> 4294967295"
    using guard u32_bound [of ?ll] lin by (auto simp: skb_nat split: if_splits)
  then have u1: "unat (headroom + ?ll) = unat headroom + lin_len skb"
    using lin by (subst unat_add_small) auto
  have sum2: "unat headroom + lin_len skb + unat ?tr \<le> 4294967295"
    using guard u32_bound [of ?tr] u1 by (auto simp: skb_nat split: if_splits)
  then have u2: "unat (headroom + ?ll + ?tr) = unat headroom + lin_len skb + unat ?tr"
    using u1 by (subst unat_add_small) auto
  let ?ne = "headroom + ?ll + ?tr"
  obtain r t where a: "dev_alloc_pages (get_order (at_least_one ?ne)) s = (r, t)"
    by (cases "dev_alloc_pages (get_order (at_least_one ?ne)) s")
  have alloc: "dev_alloc_pages (get_order (if ?ne \<noteq> 0 then ucast ?ne else 1)) s = (r, t)"
    using a by (simp only: at_least_one_def)
  obtain np where np: "r = Some np"
    using assms(2,3) v guard alloc by (cases r) (auto simp: skb_cow_head_def Let_def errno_defs)
  let ?d = "page_address (Some np) t + unat headroom"
  have res: "skb' = skb\<lparr>sb_head := page_address (Some np) t, sb_head_page := Some np, sb_data := ?d,
       sb_tail := headroom + ?ll, sb_end := ?ne\<rparr>"
    "s' = release_head skb (t\<lparr>k_mem := store_bytes (k_mem t) ?d (load_bytes (k_mem t) (sb_data skb) (lin_len skb))\<rparr>)"
    using assms(2,3) v guard alloc np lin by (auto simp: skb_cow_head_def Let_def)
  have fresh: "sb_head_page skb \<noteq> Some np"
    using dev_alloc_block(2) [OF assms(4) at_least_one_bound(1)] a np assms(5) by blast
  show ?thesis
    by (rule that [of np t]) (use a np u1 u2 sum2 room fresh in \<open>simp_all add: res release_head_other\<close>)
qed

text \<open>C26. When \<^verbatim>\<open>skb_cow_head\<close> succeeds, the buffer has at least the requested headroom and is still
  well formed, its linear bytes, fragments and length are what they were, its tailroom is unchanged,
  and when it moved to a new block that block is large enough for everything up to \<^verbatim>\<open>end\<close>; when it
  fails, the buffer is untouched.\<close>

theorem skb_cow_head_headroom:
  assumes "skb_wf skb" and "pages_wf s" and "\<forall>p. sb_head_page skb = Some p \<longrightarrow> page_at s p \<noteq> None"
    and "\<forall>i n. k_frames s i n \<noteq> 0"
  shows "case skb_cow_head skb headroom s of (r, skb', s') \<Rightarrow>
     if r = 0 then skb_wf skb' \<and> unat headroom \<le> sb_data skb' - sb_head skb'
       \<and> skb_linear skb' s' = skb_linear skb s \<and> sb_len skb' = sb_len skb
       \<and> sb_frags skb' = sb_frags skb \<and> sb_nr_frags skb' = sb_nr_frags skb
       \<and> unat (sb_end skb') - unat (sb_tail skb') = unat (sb_end skb) - unat (sb_tail skb)
       \<and> (skb' \<noteq> skb \<longrightarrow> (\<exists>p pg. sb_head_page skb' = Some p \<and> page_at s' p = Some pg
             \<and> pg_addr pg = sb_head skb' \<and> unat (sb_end skb') \<le> unat (pg_size pg)))
     else skb' = skb"
proof -
  obtain r skb' s' where c: "skb_cow_head skb headroom s = (r, skb', s')" by (cases "skb_cow_head skb headroom s")
  have v: "lcompat_skb_valid_bounds skb" by (rule skb_wf_valid [OF assms(1)])
  show ?thesis
  proof (cases "r = 0")
    case False
    then have "skb' = skb"
      using c v by (auto simp: skb_cow_head_def Let_def split: if_splits option.splits prod.splits)
    then show ?thesis using False by (simp add: c)
  next
    case True
    note c0 = c [unfolded True]
    show ?thesis
    proof (cases "data_off skb \<ge> headroom")
      case keep: True
      then have "skb' = skb" "s' = s" using c0 v by (auto simp: skb_cow_head_def)
      then show ?thesis
        using keep assms(1) skb_wf_off [OF assms(1)] True by (simp add: c word_le_nat_alt)
    next
      case False
      show ?thesis
      proof (rule cow_head_step [OF assms(1) c0 False assms(2,3)])
        fix np t
        assume h: "unat headroom + lin_len skb + (unat (sb_end skb) - unat (sb_tail skb)) \<le> 4294967295"
          "dev_alloc_pages (get_order (at_least_one (sb_end skb'))) s = (Some np, t)"
          "unat (sb_end skb') = unat headroom + lin_len skb + (unat (sb_end skb) - unat (sb_tail skb))"
          "unat (sb_tail skb') = unat headroom + lin_len skb"
          "sb_head skb' = page_address (Some np) t" "sb_data skb' = sb_head skb' + unat headroom"
          "sb_head_page skb' = Some np" "sb_len skb' = sb_len skb" "sb_data_len skb' = sb_data_len skb"
          "sb_frags skb' = sb_frags skb" "sb_nr_frags skb' = sb_nr_frags skb"
          "k_mem s' = store_bytes (k_mem t) (sb_data skb') (load_bytes (k_mem t) (sb_data skb) (lin_len skb))"
          "page_at s' np = page_at t np"
        note blk = dev_alloc_block [OF assms(2) at_least_one_bound(1) h(2)]
        have ll: "lin_len skb' = lin_len skb" using h by (simp add: lin_len_def)
        have "sb_head skb' \<noteq> 0" using h(5) blk(5) assms(4) by simp
        moreover have "unat (sb_data_len skb) \<le> unat (sb_len skb)" using assms(1) by (simp add: skb_wf_def)
        ultimately have wf: "skb_wf skb'" using h ll by (simp add: skb_wf_def)
        have lin: "skb_linear skb' s' = skb_linear skb s"
          using h blk(4) by (simp add: skb_linear_def ll mem_simps)
        have size_ok: "unat (sb_end skb') \<le> unat (block_size (at_least_one (sb_end skb')))"
          using at_least_one_bound block_size_unat(2) le_trans by blast
        show ?thesis
          using wf lin h blk(1,5) size_ok by (simp add: c True)
      qed
    qed
  qed
qed

lemma skb_ex_cow: "fst (skb_cow_head skb_ex 32 kst_init) = 0"
  by (simp add: skb_cow_head_def skb_wf_valid [OF skb_ex_wf]) (simp add: skb_ex_def zero_skb_def data_off_def
      kst_init_def dev_alloc_pages_def get_order_def PAGE_SIZE_def lcompat_page_alloc_def sizeof_page_def
      SIZE_MAX_def kzalloc_obj_def alloc_frames_bytes_def UMAX_def Let_def)

theorem skb_cow_head_headroom_witness:
  "case skb_cow_head skb_ex 32 kst_init of (r, skb', s') \<Rightarrow>
     r = 0 \<and> 32 \<le> sb_data skb' - sb_head skb' \<and> skb_linear skb' s' = skb_linear skb_ex kst_init"
proof -
  have "pages_wf kst_init" "\<forall>p. sb_head_page skb_ex = Some p \<longrightarrow> page_at kst_init p \<noteq> None"
    "\<forall>i n. k_frames kst_init i n \<noteq> 0"
    by (simp_all add: pages_wf_def kst_init_def skb_ex_def zero_skb_def)
  from skb_cow_head_headroom [OF skb_ex_wf this, of 32] show ?thesis
    using skb_ex_cow by (auto split: prod.splits)
qed

section \<open>Collecting the fragments\<close>

definition frag_apart :: "addr \<Rightarrow> nat \<Rightarrow> 'a kst_scheme \<Rightarrow> skb_frag \<Rightarrow> bool" where
  "frag_apart b n s f =
     (let a = page_address (fr_page f) s + unat (fr_off f)
      in a + unat (fr_size f) \<le> b \<or> b + n \<le> a)"

lemma frag_apart_mem_update [simp]: "frag_apart b n (s\<lparr>k_mem := m\<rparr>) f = frag_apart b n s f"
  by (simp add: frag_apart_def)

lemma frag_bytes_store:
  assumes "frag_apart b n s f" and "b \<le> x" and "x + length bs \<le> b + n"
  shows "frag_bytes (s\<lparr>k_mem := store_bytes (k_mem s) x bs\<rparr>) f = frag_bytes s f"
  using assms by (auto simp: frag_bytes_def frag_apart_def Let_def intro!: load_store_disjoint)

lemma linearize_loop_copies:
  assumes "linearize_loop fs dst copied tot s = (Some c, s')" and "copied \<le> tot"
    and "\<forall>f \<in> set fs. frag_apart dst (unat tot) s f"
  shows "copied \<le> c \<and> c \<le> tot \<and> k_pages s' = k_pages s \<and>
    load_bytes (k_mem s') dst (unat c) =
      load_bytes (k_mem s) dst (unat copied) @ take (unat c - unat copied) (concat (map (frag_bytes s) fs))"
  using assms
proof (induction fs dst copied tot s rule: linearize_loop.induct)
  case (1 dst copied tot s)
  then show ?case by simp
next
  case (2 f fs dst copied tot s)
  show ?case
  proof (cases "copied < tot")
    case False
    then show ?thesis using 2 by auto
  next
    case True
    let ?n = "min (fr_size f) (tot - copied)"
    let ?a = "page_address (fr_page f) s"
    let ?bs = "load_bytes (k_mem s) (?a + unat (fr_off f)) (unat ?n)"
    let ?s = "s\<lparr>k_mem := store_bytes (k_mem s) (dst + unat copied) ?bs\<rparr>"
    have ok: "\<not> (fr_page f = None \<or> ?a = 0)" and rest: "linearize_loop fs dst (copied + ?n) tot ?s = (Some c, s')"
      using "2.prems"(1) True by (auto simp: Let_def split: if_splits)
    have n: "unat ?n \<le> unat tot - unat copied" "unat ?n \<le> unat (fr_size f)"
      using "2.prems"(2) by (auto simp: min_def unat_sub_le word_le_nat_alt)
    have cle: "unat copied \<le> unat tot" using "2.prems"(2) by (simp add: word_le_nat_alt)
    then have sum: "unat (copied + ?n) = unat copied + unat ?n"
      using n u32_bound [of tot] by (intro unat_add_small) linarith
    have le: "copied + ?n \<le> tot" using n sum cle by (simp add: word_le_nat_alt)
    have fb: "frag_bytes ?s g = frag_bytes s g" if "g \<in> set (f # fs)" for g
      using "2.prems"(3) that n cle by (intro frag_bytes_store [of dst "unat tot"]) auto
    have ih: "copied + ?n \<le> c \<and> c \<le> tot \<and> k_pages s' = k_pages ?s \<and>
        load_bytes (k_mem s') dst (unat c) = load_bytes (k_mem ?s) dst (unat (copied + ?n)) @
          take (unat c - unat (copied + ?n)) (concat (map (frag_bytes ?s) fs))"
      using 2(1) [OF True refl refl ok rest le] "2.prems"(3) by simp
    have map_fb: "map (frag_bytes ?s) fs = map (frag_bytes s) fs" using fb by simp
    have old: "load_bytes (k_mem ?s) dst (unat (copied + ?n)) = load_bytes (k_mem s) dst (unat copied) @ ?bs"
      by (simp add: sum load_bytes_add mem_simps)
    have bs: "?bs = take (unat ?n) (frag_bytes s f)" using n by (simp add: frag_bytes_def min_absorb1)
    have full: "?n \<noteq> fr_size f \<Longrightarrow> unat c - unat copied = unat ?n"
    proof -
      assume "?n \<noteq> fr_size f"
      then have "?n = tot - copied" by (simp add: min_def split: if_splits)
      then have "unat ?n = unat tot - unat copied" using "2.prems"(2) by (simp add: unat_sub_le)
      moreover have "unat (copied + ?n) \<le> unat c" "unat c \<le> unat tot"
        using ih by (simp_all add: word_le_nat_alt)
      ultimately show ?thesis using sum cle by linarith
    qed
    have cc: "unat copied + unat ?n \<le> unat c" using ih sum by (simp add: word_le_nat_alt)
    have "?bs @ take (unat c - unat (copied + ?n)) (concat (map (frag_bytes s) fs)) =
        take (unat c - unat copied) (concat (map (frag_bytes s) (f # fs)))"
    proof (cases "?n = fr_size f")
      case eq: True
      have len: "length (frag_bytes s f) = unat ?n" by (simp add: frag_bytes_def eq)
      have "?bs = frag_bytes s f" using bs len by simp
      moreover have "unat c - unat copied - unat ?n = unat c - unat (copied + ?n)" by (simp add: sum)
      moreover have "unat ?n \<le> unat c - unat copied" using cc by linarith
      ultimately show ?thesis by (simp add: len)
    next
      case False
      have len: "unat ?n \<le> length (frag_bytes s f)" using n by (simp add: frag_bytes_def)
      show ?thesis using full [OF False] len by (simp add: bs sum)
    qed
    moreover have "copied \<le> c" using cc by (simp add: word_le_nat_alt)
    ultimately show ?thesis using ih old by (simp add: map_fb)
  qed
qed

lemma page_address_cong: "page_at s' p = page_at s p \<Longrightarrow> page_address (Some p) s' = page_address (Some p) s"
  by (simp add: page_address_def)

text \<open>
  What \<^verbatim>\<open>skb_linearize\<close> relies on: the linear bytes and the fragments lie in blocks other than the
  one it is about to get, and the fragments are pages on the page list.
\<close>

definition sources_apart :: "'c sk_buff \<Rightarrow> addr \<Rightarrow> nat \<Rightarrow> 'a kst_scheme \<Rightarrow> bool" where
  "sources_apart skb b n s =
     ((sb_data skb + lin_len skb \<le> b \<or> b + n \<le> sb_data skb) \<and>
      list_all (\<lambda>f. frag_apart b n s f \<and> (case fr_page f of None \<Rightarrow> True | Some p \<Rightarrow> page_at s p \<noteq> None))
        (sb_frags skb) \<and>
      (case sb_head_page skb of None \<Rightarrow> True | Some p \<Rightarrow> page_at s p \<noteq> None) \<and>
      sb_nr_frags skb \<le> length (sb_frags skb))"

definition new_block :: "u64 \<Rightarrow> 'a kst_scheme \<Rightarrow> addr" where
  "new_block n s = k_frames s (k_calls s + 1) (block_size n)"

text \<open>C27. A successful \<^verbatim>\<open>skb_linearize\<close> of a buffer with fragments leaves one linear buffer: same
  length, no fragments, well formed, and its bytes are the old linear bytes followed by the bytes
  of the fragments in order, cut at the declared length.\<close>

theorem skb_linearize_payload:
  assumes "skb_wf skb" and "sb_data_len skb \<noteq> 0" and "pages_wf s"
    and "skb_linearize skb s = (0, skb', s')"
    and "sources_apart skb (new_block (at_least_one (data_off skb + sb_len skb)) s + unat (data_off skb))
           (unat (sb_len skb)) s"
    and "new_block (at_least_one (data_off skb + sb_len skb)) s \<noteq> 0"
  shows "skb_wf skb' \<and> sb_len skb' = sb_len skb \<and> sb_data_len skb' = 0 \<and> sb_nr_frags skb' = 0
    \<and> skb_linear skb' s' = skb_linear skb s @ skb_frag_bytes skb s"
proof -
  have v: "lcompat_skb_valid_bounds skb" by (rule skb_wf_valid [OF assms(1)])
  have lin: "unat (sb_len skb - sb_data_len skb) = lin_len skb" by (rule skb_wf_linlen [OF assms(1)])
  have dl: "unat (sb_data_len skb) \<le> unat (sb_len skb)" using assms(1) by (simp add: skb_wf_def)
  let ?ns = "data_off skb + sb_len skb"
  have guard: "\<not> sb_len skb > UMAX - data_off skb"
    using assms(2,4) v by (auto simp: skb_linearize_def Let_def errno_defs)
  then have ns: "unat ?ns = unat (data_off skb) + unat (sb_len skb)"
    using u32_bound [of "data_off skb"] by (intro unat_add_small) (auto simp: skb_nat split: if_splits)
  obtain r t where "dev_alloc_pages (get_order (at_least_one ?ns)) s = (r, t)"
    by (cases "dev_alloc_pages (get_order (at_least_one ?ns)) s")
  note a = this this [unfolded at_least_one_def]
  obtain np where np: "r = Some np"
    using assms(2,4) v guard a(2) by (cases r) (auto simp: skb_linearize_def Let_def errno_defs)
  note blk = dev_alloc_block [OF assms(3) at_least_one_bound(1) a(1) [unfolded np]]
  let ?h = "new_block (at_least_one ?ns) s"
  let ?dst = "?h + unat (data_off skb)"
  let ?ll = "sb_len skb - sb_data_len skb"
  let ?t = "t\<lparr>k_mem := store_bytes (k_mem t) ?dst (load_bytes (k_mem t) (sb_data skb) (lin_len skb))\<rparr>"
  let ?fs = "take (sb_nr_frags skb) (sb_frags skb)"
  have h: "page_address (Some np) t = ?h" using blk(5) by (simp add: new_block_def)
  have addr: "page_address (fr_page f) t = page_address (fr_page f) s" if "f \<in> set (sb_frags skb)" for f
  proof (cases "fr_page f")
    case (Some p)
    then have "page_at s p \<noteq> None" using assms(5) that by (auto simp: sources_apart_def list_all_iff)
    then have "p \<noteq> np" using blk(2) by metis
    then show ?thesis using blk(3) Some page_address_cong by metis
  qed (simp add: page_address_def)
  have apart: "frag_apart ?dst (unat (sb_len skb)) t f" if "f \<in> set (sb_frags skb)" for f
    using assms(5) that addr [OF that] by (simp add: sources_apart_def list_all_iff frag_apart_def)
  obtain o1 t1 where loop: "linearize_loop ?fs ?dst ?ll (sb_len skb) ?t = (o1, t1)"
    by (cases "linearize_loop ?fs ?dst ?ll (sb_len skb) ?t")
  have o1: "o1 = Some (sb_len skb)"
    using assms(2,4) v guard a(2) np h loop lin
    by (cases o1) (auto simp: skb_linearize_def Let_def errno_defs split: if_splits)
  have copies: "load_bytes (k_mem t1) ?dst (unat (sb_len skb)) = load_bytes (k_mem ?t) ?dst (unat ?ll) @
      take (unat (sb_len skb) - unat ?ll) (concat (map (frag_bytes ?t) ?fs))"
    using linearize_loop_copies [OF loop [unfolded o1]] apart dl
    by (auto simp: word_le_nat_alt lin lin_len_def dest: in_set_takeD)
  have fb: "map (frag_bytes ?t) ?fs = map (frag_bytes s) ?fs"
  proof (rule map_cong [OF refl])
    fix f assume f: "f \<in> set ?fs"
    then have m: "f \<in> set (sb_frags skb)" by (rule in_set_takeD)
    have "frag_bytes ?t f = frag_bytes t f"
      using dl by (intro frag_bytes_store [OF apart [OF m]]) (auto simp: lin_len_def)
    then show "frag_bytes ?t f = frag_bytes s f" using addr [OF m] by (simp add: frag_bytes_def blk(4))
  qed
  obtain b t2 where rel: "lcompat_skb_release_frags skb t1 = (b, t2)" by (cases "lcompat_skb_release_frags skb t1")
  note rf = release_frags_fields [OF rel]
  have res: "skb' = b\<lparr>sb_head_page := Some np, sb_head := ?h, sb_data := ?dst, sb_tail := ?ns, sb_end := ?ns\<rparr>"
    "s' = release_head b t2"
    using assms(2,4) v guard a(2) np h loop lin o1 rel rf(3) by (auto simp: skb_linearize_def Let_def)
  have l': "lin_len skb' = unat (sb_len skb)" by (simp add: lin_len_def res rf)
  have wf: "skb_wf skb'" using assms(6) l' ns by (simp add: skb_wf_def res rf)
  have "skb_linear skb' s' = load_bytes (k_mem t1) ?dst (unat (sb_len skb))"
    unfolding skb_linear_def l' by (simp add: res rf)
  also have "\<dots> = skb_linear skb s @ skb_frag_bytes skb s"
    using dl by (simp add: copies fb [unfolded blk(4)] blk(4) lin mem_simps skb_linear_def skb_frag_bytes_def) (simp add: lin_len_def)
  finally show ?thesis using wf by (simp add: res rf)
qed

definition skb_ex2 :: "nat sk_buff" where
  "skb_ex2 = skb_ex\<lparr>sb_len := 10, sb_data_len := 6,
     sb_frags := \<lparr>fr_page = Some 3, fr_off = 16, fr_size = 8\<rparr> # replicate 7 zero_frag, sb_nr_frags := 1\<rparr>"

definition kst_ex2 :: kst where
  "kst_ex2 = kst_init\<lparr>k_calls := 4, k_pages := [(3, page_ex)]\<rparr>"

lemma skb_ex2_wf: "skb_wf skb_ex2"
  by (simp add: skb_ex2_def skb_ex_def skb_wf_def lin_len_def zero_skb_def)

lemma skb_ex2_block: "new_block (at_least_one (data_off skb_ex2 + sb_len skb_ex2)) kst_ex2 = 6291456"
  by (simp add: new_block_def kst_ex2_def kst_init_def)

lemma skb_ex2_runs: "fst (skb_linearize skb_ex2 kst_ex2) = 0"
  by (simp add: skb_linearize_def skb_wf_valid [OF skb_ex2_wf])
    (simp add: skb_ex2_def skb_ex_def zero_skb_def data_off_def
      kst_ex2_def kst_init_def dev_alloc_pages_def get_order_def PAGE_SIZE_def lcompat_page_alloc_def sizeof_page_def
      SIZE_MAX_def kzalloc_obj_def alloc_frames_bytes_def UMAX_def Let_def page_address_def page_at_def page_ex_def
      split: prod.splits)

theorem skb_linearize_payload_witness:
  "case skb_linearize skb_ex2 kst_ex2 of (r, skb', s') \<Rightarrow>
     r = 0 \<and> skb_linear skb' s' = skb_linear skb_ex2 kst_ex2 @ skb_frag_bytes skb_ex2 kst_ex2"
proof -
  obtain skb' s' where run: "skb_linearize skb_ex2 kst_ex2 = (0, skb', s')"
    using skb_ex2_runs by (cases "skb_linearize skb_ex2 kst_ex2") auto
  have wf: "pages_wf kst_ex2"
    by (simp add: pages_wf_def kst_ex2_def kst_init_def page_range_ok_def page_ex_def)
  have dl: "sb_data_len skb_ex2 \<noteq> 0" by (simp add: skb_ex2_def)
  have apart: "sources_apart skb_ex2 (6291456 + unat (data_off skb_ex2)) (unat (sb_len skb_ex2)) kst_ex2"
    by (simp add: sources_apart_def frag_apart_def skb_ex2_def skb_ex_def zero_skb_def kst_ex2_def kst_init_def
        page_address_def page_at_def page_ex_def data_off_def lin_len_def zero_frag_def
        list_all_iff)
  show ?thesis
    using skb_linearize_payload [OF skb_ex2_wf dl wf run, unfolded skb_ex2_block, OF apart] by (simp add: run)
qed

section \<open>Allocation and release balance\<close>

lemma kzalloc_obj_Some:
  "kzalloc_obj s = (Some p, s') \<Longrightarrow> p = k_calls s \<and> k_live s' = k_live s + 1 \<and> k_pages s' = k_pages s \<and>
     k_calls s' = k_calls s + 1 \<and> k_mem s' = k_mem s \<and> k_freed s' = k_freed s"
  by (auto simp: kzalloc_obj_def split: if_splits)

lemma kzalloc_obj_None:
  "kzalloc_obj s = (None, s') \<Longrightarrow> k_live s' = k_live s \<and> k_pages s' = k_pages s \<and> k_calls s' = k_calls s + 1 \<and>
     k_mem s' = k_mem s \<and> k_freed s' = k_freed s"
  by (auto simp: kzalloc_obj_def split: if_splits)

lemma pages_wf_kzalloc: "pages_wf s \<Longrightarrow> kzalloc_obj s = (r, s') \<Longrightarrow> pages_wf s'"
  by (erule pages_wf_calls [of s "k_calls s + 1"]) (auto simp: kzalloc_obj_def split: if_splits)

lemma kfree_obj_simps [simp]:
  "k_live (kfree_obj s) = k_live s - 1" "k_pages (kfree_obj s) = k_pages s" "k_freed (kfree_obj s) = k_freed s"
  by (simp_all add: kfree_obj_def)

lemma kfree_skb_no_frags:
  assumes "sb_nr_frags skb = 0" and "sb_head_page skb = Some p"
  shows "kfree_skb (Some skb) s = kfree_obj (put_page (Some p) s)"
  using assms by (simp add: kfree_skb_def lcompat_skb_release_frags_def release_head_def)

text \<open>C17. Allocating a buffer leaks nothing: when \<^verbatim>\<open>alloc_skb\<close> fails, at whatever step, no object
  stays allocated and the page list is unchanged; when it succeeds, freeing the buffer with
  \<^verbatim>\<open>kfree_skb\<close> returns its block to the frame allocator, once, and restores the page list and the
  number of live objects.\<close>

theorem alloc_skb_balance:
  assumes "pages_wf s" and "alloc_skb n s = (r :: nat sk_buff option, s')"
  shows "case r of
      None \<Rightarrow> k_live s' = k_live s \<and> k_pages s' = k_pages s
    | Some skb \<Rightarrow> k_live (kfree_skb r s') = k_live s \<and> k_pages (kfree_skb r s') = k_pages s
        \<and> (\<exists>sz. k_freed (kfree_skb r s') = (sb_head skb, sz) # k_freed s)"
proof -
  let ?d = "get_order (if n \<noteq> 0 then n else 1)"
  obtain o1 s1 where k: "kzalloc_obj s = (o1, s1)" by (cases "kzalloc_obj s")
  obtain o2 s2 where d: "dev_alloc_pages ?d s1 = (o2, s2)" by (cases "dev_alloc_pages ?d s1")
  note def = assms(2) [unfolded alloc_skb_def k, simplified]
  show ?thesis
  proof (cases o1)
    case None
    then show ?thesis using def kzalloc_obj_None k by auto
  next
    case (Some x)
    note k1 = kzalloc_obj_Some [OF k [unfolded Some]]
    show ?thesis
    proof (cases "n > 4294967295")
      case True
      then show ?thesis using def Some k1 by auto
    next
      case False
      note def2 = def [unfolded Some, simplified False if_False option.case]
      show ?thesis
      proof (cases o2)
        case None
        then show ?thesis using assms(2) False k d k1 Some dev_alloc_None [OF d [unfolded None]]
          by (auto simp: alloc_skb_def)
      next
        case (Some p)
        note bal = dev_alloc_Some_put [OF pages_wf_kzalloc [OF assms(1) k] d [unfolded Some]]
        let ?b = "zero_skb\<lparr>sb_head_page := Some p, sb_head := page_address (Some p) s2,
            sb_data := page_address (Some p) s2, sb_end := ucast n\<rparr> :: nat sk_buff"
        have r: "r = Some ?b" "s' = s2"
          using assms(2) False k d Some \<open>o1 = Some x\<close> by (auto simp: alloc_skb_def Let_def)
        have "kfree_skb r s' = kfree_obj (put_page (Some p) s2)"
          unfolding r by (rule kfree_skb_no_frags) (simp_all add: zero_skb_def)
        then show ?thesis using bal k1 by (simp add: r)
      qed
    qed
  qed
qed

theorem alloc_skb_balance_witness:
  "k_live (kfree_skb (fst (alloc_skb 100 kst_init) :: nat sk_buff option) (snd (alloc_skb 100 kst_init :: nat sk_buff option \<times> kst))) = 0"
proof -
  have wf: "pages_wf kst_init" by (simp add: pages_wf_def kst_init_def)
  show ?thesis
    using alloc_skb_balance [OF wf prod.collapse [symmetric], of 100]
    by (cases "fst (alloc_skb 100 kst_init) :: nat sk_buff option")
      (auto simp: kfree_skb_def kst_init_def)
qed

section \<open>What buffers leave alone\<close>

lemma alloc_skb_more [more_simps]: "kst.more (snd (alloc_skb n s)) = kst.more s"
  using kzalloc_obj_more [of s] dev_alloc_more [of "get_order (if n \<noteq> 0 then n else 1)" "snd (kzalloc_obj s)"]
  by (auto simp: alloc_skb_def Let_def kfree_obj_more split: prod.splits option.splits)

lemma release_loop_more [more_simps]: "kst.more (snd (release_frag_loop i n frags s)) = kst.more s"
  by (induction i n frags s rule: release_frag_loop.induct) (auto simp: put_page_more)

lemma release_frags_more [more_simps]: "kst.more (snd (lcompat_skb_release_frags skb s)) = kst.more s"
  using release_loop_more [of 0 "sb_nr_frags skb" "sb_frags skb" s]
  by (auto simp: lcompat_skb_release_frags_def split: prod.splits)

lemma release_head_more [more_simps]: "kst.more (release_head skb s) = kst.more s"
  by (simp add: release_head_def put_page_more kfree_more split: option.splits)

lemma kfree_skb_more [more_simps]: "kst.more (kfree_skb b s) = kst.more s"
proof (cases b)
  case (Some x)
  then show ?thesis using release_frags_more [of x s]
    by (auto simp: kfree_skb_def kfree_obj_more release_head_more split: prod.splits)
qed (simp add: kfree_skb_def)

lemma skb_put_zero_more [more_simps]: "kst.more (snd (snd (skb_put_zero skb n s))) = kst.more s"
  by (simp add: skb_put_zero_def split: prod.splits)

lemma skb_put_data_more [more_simps]: "kst.more (snd (snd (skb_put_data skb bs n s))) = kst.more s"
  by (simp add: skb_put_data_def split: prod.splits option.splits)

lemma skb_trim_more [more_simps]: "kst.more (snd (skb_trim skb n s)) = kst.more s"
  using release_frags_more [of skb s]
  by (auto simp: skb_trim_def Let_def split: prod.splits)

end
