(* ===== verification/LC_Ieee.thy ===== *)
theory LC_Ieee
  imports LC_Skbuff
begin

text \<open>
  The 802.11 vocabulary: Ethernet addresses (\<^verbatim>\<open>linux/etherdevice.h\<close>), frame-control predicates,
  header lengths, sequence numbers and channel numbers (\<^verbatim>\<open>net/mac80211.h\<close>), and information
  elements (\<^verbatim>\<open>find_ie\<close>, \<^verbatim>\<open>bss_has_wmm\<close> of \<^verbatim>\<open>mac80211.c\<close>, \<^verbatim>\<open>cfg80211_get_ies_channel_number\<close>).

  An Ethernet address is its list of six bytes.  A buffer of information elements is a byte list
  with the length the code is given; the walk over it is a recursive function on the position.
  A frame control word is the 16-bit value the code reads with \<^verbatim>\<open>le16_to_cpu\<close>.
\<close>

section \<open>Ethernet addresses\<close>

type_synonym mac = "u8 list"

definition ETH_ALEN :: nat where [frame_defs]: "ETH_ALEN = 6"

definition is_valid_ether_addr :: "mac \<Rightarrow> bool" where
  "is_valid_ether_addr a = (a ! 0 AND 1 = 0)"

definition is_multicast_ether_addr :: "mac \<Rightarrow> bool" where
  "is_multicast_ether_addr a = (a ! 0 AND 1 \<noteq> 0)"

definition is_unicast_ether_addr :: "mac \<Rightarrow> bool" where
  "is_unicast_ether_addr a =
     (if \<not> is_valid_ether_addr a then False else list_ex (\<lambda>i. a ! i \<noteq> 255) [0..<ETH_ALEN])"

definition is_broadcast_ether_addr :: "mac \<Rightarrow> bool" where
  "is_broadcast_ether_addr a = (\<not> list_ex (\<lambda>i. a ! i \<noteq> 255) [0..<ETH_ALEN])"

definition is_zero_ether_addr :: "mac \<Rightarrow> bool" where
  "is_zero_ether_addr a = (\<not> list_ex (\<lambda>i. a ! i \<noteq> 0) [0..<ETH_ALEN])"

definition ether_addr_equal :: "mac \<Rightarrow> mac \<Rightarrow> bool" where
  "ether_addr_equal a b = (take ETH_ALEN a = take ETH_ALEN b)"

definition eth_zero_addr :: mac where
  "eth_zero_addr = replicate ETH_ALEN 0"

definition eth_broadcast_addr :: mac where
  "eth_broadcast_addr = replicate ETH_ALEN 255"

definition eth_random_addr :: mac where
  "eth_random_addr =
     (let a = map (\<lambda>i. of_nat (16 + i * 37)) [0..<ETH_ALEN] in a[0 := (a ! 0 AND 0xfe) OR 2])"

definition get_random_mask_addr :: "mac \<Rightarrow> mac \<Rightarrow> mac" where
  "get_random_mask_addr a m =
     map (\<lambda>i. (a ! i AND m ! i) OR (of_nat (0x5a + i) AND NOT (m ! i))) [0..<ETH_ALEN]"

section \<open>Frame control\<close>

definition fc_type :: "u16 \<Rightarrow> u16" where
  "fc_type fc = (drop_bit 2 fc) AND 3"

definition fc_subtype :: "u16 \<Rightarrow> u16" where
  "fc_subtype fc = fc AND 0x00f0"

definition has_tods :: "u16 \<Rightarrow> bool" where [frame_defs]: "has_tods fc = (fc AND 0x0100 \<noteq> 0)"
definition has_fromds :: "u16 \<Rightarrow> bool" where [frame_defs]: "has_fromds fc = (fc AND 0x0200 \<noteq> 0)"
definition has_a4 :: "u16 \<Rightarrow> bool" where [frame_defs]: "has_a4 fc = (has_tods fc \<and> has_fromds fc)"
definition has_order :: "u16 \<Rightarrow> bool" where [frame_defs]: "has_order fc = (fc AND 0x8000 \<noteq> 0)"
definition has_morefrags :: "u16 \<Rightarrow> bool" where [frame_defs]: "has_morefrags fc = (fc AND 0x0400 \<noteq> 0)"
definition has_pm :: "u16 \<Rightarrow> bool" where [frame_defs]: "has_pm fc = (fc AND 0x1000 \<noteq> 0)"
definition has_protected :: "u16 \<Rightarrow> bool" where [frame_defs]: "has_protected fc = (fc AND 0x4000 \<noteq> 0)"

definition is_mgmt :: "u16 \<Rightarrow> bool" where [frame_defs]: "is_mgmt fc = (fc_type fc = 0)"
definition is_ctl :: "u16 \<Rightarrow> bool" where [frame_defs]: "is_ctl fc = (fc_type fc = 1)"
definition is_data :: "u16 \<Rightarrow> bool" where [frame_defs]: "is_data fc = (fc_type fc = 2)"

definition is_any_nullfunc :: "u16 \<Rightarrow> bool" where [frame_defs]:
  "is_any_nullfunc fc = (is_data fc \<and> (fc AND 0x00f0 = 0x0040 \<or> fc AND 0x00f0 = 0x00c0))"
definition is_data_qos :: "u16 \<Rightarrow> bool" where [frame_defs]:
  "is_data_qos fc = (is_data fc \<and> fc AND 0x0080 \<noteq> 0)"
definition is_data_present :: "u16 \<Rightarrow> bool" where [frame_defs]:
  "is_data_present fc = (is_data fc \<and> \<not> is_any_nullfunc fc)"
definition is_qos_nullfunc :: "u16 \<Rightarrow> bool" where [frame_defs]:
  "is_qos_nullfunc fc = (is_data fc \<and> fc AND 0x00f0 = 0x00c0)"
definition is_beacon :: "u16 \<Rightarrow> bool" where [frame_defs]:
  "is_beacon fc = (is_mgmt fc \<and> fc AND 0x00f0 = 0x0080)"
definition is_probe_resp :: "u16 \<Rightarrow> bool" where [frame_defs]:
  "is_probe_resp fc = (is_mgmt fc \<and> fc AND 0x00f0 = 0x0050)"
definition is_probe_req :: "u16 \<Rightarrow> bool" where [frame_defs]:
  "is_probe_req fc = (is_mgmt fc \<and> fc AND 0x00f0 = 0x0040)"
definition is_back_req :: "u16 \<Rightarrow> bool" where [frame_defs]:
  "is_back_req fc = (is_ctl fc \<and> fc AND 0x00f0 = 0x0080)"
definition is_action :: "u16 \<Rightarrow> bool" where [frame_defs]:
  "is_action fc = (is_mgmt fc \<and> fc AND 0x00f0 = 0x00d0)"
definition is_deauth :: "u16 \<Rightarrow> bool" where [frame_defs]:
  "is_deauth fc = (is_mgmt fc \<and> fc AND 0x00f0 = 0x00c0)"
definition is_auth :: "u16 \<Rightarrow> bool" where [frame_defs]:
  "is_auth fc = (is_mgmt fc \<and> fc AND 0x00f0 = 0x00b0)"
definition is_assoc_req :: "u16 \<Rightarrow> bool" where [frame_defs]:
  "is_assoc_req fc = (is_mgmt fc \<and> fc AND 0x00f0 = 0x0000)"
definition is_assoc_resp :: "u16 \<Rightarrow> bool" where [frame_defs]:
  "is_assoc_resp fc = (is_mgmt fc \<and> fc AND 0x00f0 = 0x0010)"
definition is_disassoc :: "u16 \<Rightarrow> bool" where [frame_defs]:
  "is_disassoc fc = (is_mgmt fc \<and> fc AND 0x00f0 = 0x00a0)"
definition is_first_frag :: "u16 \<Rightarrow> bool" where [frame_defs]:
  "is_first_frag seq_ctrl = (seq_ctrl AND 0x000f = 0)"
definition is_frag :: "u16 \<Rightarrow> bool" where [frame_defs]:
  "is_frag seq_ctrl = (seq_ctrl AND 0x000f \<noteq> 0)"

definition ieee80211_hdrlen :: "u16 \<Rightarrow> u32" where
  "ieee80211_hdrlen fc =
     (if is_ctl fc then 16
      else if is_mgmt fc then 24
      else 24 + (if has_tods fc \<and> has_fromds fc then 6 else 0) + (if is_data_qos fc then 2 else 0))"

definition data_hdr_len :: "u16 \<Rightarrow> u32" where
  "data_hdr_len fc =
     24 + (if has_tods fc \<and> has_fromds fc then 6 else 0)
        + (if is_data_qos fc then 2 + (if fc AND 0x8000 \<noteq> 0 then 4 else 0) else 0)"

section \<open>Sequence numbers and channels\<close>

definition sn_inc :: "u16 \<Rightarrow> u16" where "sn_inc sn = (sn + 1) AND 0xfff"

text \<open>The operands are promoted to \<^verbatim>\<open>int\<close>, so the difference does not wrap at 16 bits.\<close>

definition sn_less :: "u16 \<Rightarrow> u16 \<Rightarrow> bool" where
  "sn_less sn1 sn2 = ((uint sn1 - uint sn2) AND 0xfff > 0x800)"

definition sn_sub :: "u16 \<Rightarrow> u16 \<Rightarrow> u16" where
  "sn_sub sn1 sn2 = word_of_int ((uint sn1 - uint sn2) AND 0xfff)"

datatype nl80211_band = BAND_2GHZ | BAND_5GHZ | BAND_60GHZ | BAND_6GHZ

definition all_bands :: "nl80211_band list" where
  "all_bands = [BAND_2GHZ, BAND_5GHZ, BAND_60GHZ, BAND_6GHZ]"

definition channel_to_frequency :: "int \<Rightarrow> nl80211_band \<Rightarrow> int" where
  "channel_to_frequency chan band =
     (if band = BAND_2GHZ then (if chan = 14 then 2484 else 2407 + chan * 5)
      else if band = BAND_5GHZ then 5000 + chan * 5
      else 0)"

text \<open>C division truncates towards zero; below 2407 the quotient is negative.\<close>

definition c_div :: "int \<Rightarrow> int \<Rightarrow> int" where
  "c_div a b = sgn a * sgn b * (\<bar>a\<bar> div \<bar>b\<bar>)"

definition frequency_to_channel :: "int \<Rightarrow> int" where
  "frequency_to_channel freq =
     (if freq = 2484 then 14
      else if freq < 2484 then c_div (freq - 2407) 5
      else if freq \<ge> 5955 then c_div (freq - 5950) 5
      else c_div (freq - 5000) 5)"

section \<open>Information elements\<close>

text \<open>
  Each walk returns the body of an element where the C code returns a pointer to it and its
  length.  The list holds at least \<open>len\<close> bytes.
\<close>

function find_ie_at :: "u8 list \<Rightarrow> nat \<Rightarrow> u8 \<Rightarrow> nat \<Rightarrow> u8 list option" where
  "find_ie_at ies len eid pos =
     (if pos + 2 \<le> len then
        let id = ies ! pos;
            ie_len = unat (ies ! (pos + 1));
            pos = pos + 2
        in if pos + ie_len > len then None
           else if id = eid then Some (take ie_len (drop pos ies))
           else find_ie_at ies len eid (pos + ie_len)
      else None)"
  by pat_completeness auto
termination by (relation "measure (\<lambda>(ies, len, eid, pos). len - pos)") auto

declare find_ie_at.simps [simp del]

definition find_ie :: "u8 list \<Rightarrow> nat \<Rightarrow> u8 \<Rightarrow> u8 list option" where
  "find_ie ies len eid = find_ie_at ies len eid 0"

definition is_wmm_ie :: "u8 \<Rightarrow> u8 list \<Rightarrow> bool" where
  "is_wmm_ie eid ie =
     (eid = 221 \<and> length ie \<ge> 6 \<and> ie ! 0 = 0x00 \<and> ie ! 1 = 0x50 \<and> ie ! 2 = 0xf2 \<and> ie ! 3 = 0x02 \<and>
      (ie ! 4 = 0x00 \<or> ie ! 4 = 0x01) \<and> ie ! 5 = 0x01)"

function has_wmm_at :: "u8 list \<Rightarrow> nat \<Rightarrow> nat \<Rightarrow> bool" where
  "has_wmm_at ies len pos =
     (if pos + 2 \<le> len then
        let id = ies ! pos;
            ie_len = unat (ies ! (pos + 1));
            pos = pos + 2
        in if pos + ie_len > len then False
           else if is_wmm_ie id (take ie_len (drop pos ies)) then True
           else has_wmm_at ies len (pos + ie_len)
      else False)"
  by pat_completeness auto
termination by (relation "measure (\<lambda>(ies, len, pos). len - pos)") auto

declare has_wmm_at.simps [simp del]

function channel_number_at :: "u8 list \<Rightarrow> nat \<Rightarrow> nat \<Rightarrow> int \<Rightarrow> int \<Rightarrow> int" where
  "channel_number_at ies len pos ht_primary vht_primary =
     (let result = (if ht_primary > 0 then ht_primary else if vht_primary > 0 then vht_primary else - 1)
      in if pos + 2 \<le> len then
           let id = ies ! pos;
               elen = unat (ies ! (pos + 1));
               pos = pos + 2;
               ht = (if id = 61 \<and> elen \<ge> 1 then uint (ies ! pos) else ht_primary);
               vht = (if id = 192 \<and> elen \<ge> 2 then uint (ies ! (pos + 1)) else vht_primary)
           in if elen > len - pos then result
              else if id = 3 \<and> elen \<ge> 1 then uint (ies ! pos)
              else channel_number_at ies len (pos + elen) ht vht
         else result)"
  by pat_completeness auto
termination by (relation "measure (\<lambda>(ies, len, pos, ht, vht). len - pos)") auto

declare channel_number_at.simps [simp del]

definition get_ies_channel_number :: "u8 list \<Rightarrow> nat \<Rightarrow> int" where
  "get_ies_channel_number ies len = channel_number_at ies len 0 (- 1) (- 1)"

section \<open>The elements a buffer holds\<close>

text \<open>The specification of the walks: the list of well-formed elements up to the first one that
  does not fit, and the encoding of such a list.\<close>

function ies_from :: "u8 list \<Rightarrow> nat \<Rightarrow> nat \<Rightarrow> (u8 \<times> u8 list) list" where
  "ies_from ies len pos =
     (if pos + 2 \<le> len \<and> pos + 2 + unat (ies ! (pos + 1)) \<le> len then
        (ies ! pos, take (unat (ies ! (pos + 1))) (drop (pos + 2) ies)) #
          ies_from ies len (pos + 2 + unat (ies ! (pos + 1)))
      else [])"
  by pat_completeness auto
termination by (relation "measure (\<lambda>(ies, len, pos). len - pos)") auto

declare ies_from.simps [simp del]

definition ie_bytes :: "u8 \<times> u8 list \<Rightarrow> u8 list" where
  "ie_bytes e = fst e # of_nat (length (snd e)) # snd e"

lemma find_ie_at_ies_from: "find_ie_at ies len eid pos = map_of (ies_from ies len pos) eid"
proof (induction ies len eid pos rule: find_ie_at.induct)
  case (1 ies len eid pos)
  let ?n = "unat (ies ! (pos + 1))"
  have ih: "find_ie_at ies len eid (pos + 2 + ?n) = map_of (ies_from ies len (pos + 2 + ?n)) eid"
    if "pos + 2 + ?n \<le> len" "ies ! pos \<noteq> eid"
    using that by (intro 1 [OF _ refl refl refl]) auto
  show ?case
    by (subst find_ie_at.simps, subst ies_from.simps, use ih in \<open>auto simp: Let_def add.assoc\<close>)
qed

lemma has_wmm_at_ies_from: "has_wmm_at ies len pos = list_ex (\<lambda>(i, ie). is_wmm_ie i ie) (ies_from ies len pos)"
proof (induction ies len pos rule: has_wmm_at.induct)
  case (1 ies len pos)
  let ?n = "unat (ies ! (pos + 1))"
  have ih: "has_wmm_at ies len (pos + 2 + ?n) =
      list_ex (\<lambda>(i, ie). is_wmm_ie i ie) (ies_from ies len (pos + 2 + ?n))"
    if "pos + 2 + ?n \<le> len" "\<not> is_wmm_ie (ies ! pos) (take ?n (drop (pos + 2) ies))"
    using that by (intro 1 [OF _ refl refl refl]) auto
  show ?case
    by (subst has_wmm_at.simps, subst ies_from.simps, use ih in \<open>auto simp: Let_def add.assoc\<close>)
qed

lemma unat_of_nat_u8: "n < 256 \<Longrightarrow> unat (of_nat n :: u8) = n"
  by (simp add: unat_of_nat take_bit_nat_eq_self)

lemma ies_from_encoded:
  assumes "\<forall>e \<in> set es. length (snd e) < 256"
  shows "ies_from (pre @ concat (map ie_bytes es)) (length pre + length (concat (map ie_bytes es))) (length pre) = es"
  using assms
proof (induction es arbitrary: pre)
  case Nil
  show ?case by (subst ies_from.simps) simp
next
  case (Cons e es)
  have len: "unat (of_nat (length (snd e)) :: u8) = length (snd e)"
    using Cons.prems by (simp add: unat_of_nat_u8)
  have ih: "ies_from ((pre @ ie_bytes e) @ concat (map ie_bytes es))
      (length (pre @ ie_bytes e) + length (concat (map ie_bytes es))) (length (pre @ ie_bytes e)) = es"
    using Cons by (intro Cons.IH) auto
  have "ie_bytes e = fst e # of_nat (length (snd e)) # snd e" by (simp add: ie_bytes_def)
  then show ?case
    using ih by (subst ies_from.simps) (simp add: nth_append len ie_bytes_def add.assoc)
qed

text \<open>C29. Information elements round-trip: for elements whose bodies fit the one-byte length,
  encoding them and walking the buffer finds exactly the first element with the identifier asked
  for, and the walk for the WMM element accepts exactly when one of them is a WMM element.\<close>

theorem find_ie_encoded:
  assumes "\<forall>e \<in> set es. length (snd e) < 256"
  shows "find_ie (concat (map ie_bytes es)) (length (concat (map ie_bytes es))) eid = map_of es eid
    \<and> has_wmm_at (concat (map ie_bytes es)) (length (concat (map ie_bytes es))) 0 =
        list_ex (\<lambda>(i, ie). is_wmm_ie i ie) es"
  using ies_from_encoded [OF assms, of "[]"]
  by (simp add: find_ie_def find_ie_at_ies_from has_wmm_at_ies_from)

theorem find_ie_encoded_witness:
  "find_ie (concat (map ie_bytes [(0, [65, 66]), (1, [2, 4])])) 8 1 = Some [2, 4]"
  using find_ie_encoded [of "[(0, [65, 66]), (1, [2, 4])]" 1, THEN conjunct1]
  by (simp add: ie_bytes_def eval_nat_numeral)

lemma ies_from_bodies:
  "(eid, ie) \<in> set (ies_from ies len pos) \<Longrightarrow> len \<le> length ies \<Longrightarrow>
   \<exists>p. pos + 2 \<le> p \<and> p + length ie \<le> len \<and> ie = take (length ie) (drop p ies) \<and>
       ies ! (p - 2) = eid \<and> unat (ies ! (p - 1)) = length ie"
proof (induction ies len pos rule: ies_from.induct)
  case (1 ies len pos)
  let ?n = "unat (ies ! (pos + 1))"
  have fits: "pos + 2 \<le> len \<and> pos + 2 + ?n \<le> len"
    using "1.prems"(1) by (subst (asm) ies_from.simps) (auto split: if_splits)
  then have "(eid, ie) = (ies ! pos, take ?n (drop (pos + 2) ies)) \<or> (eid, ie) \<in> set (ies_from ies len (pos + 2 + ?n))"
    using "1.prems"(1) by (subst (asm) ies_from.simps) simp
  then show ?case
  proof
    assume e: "(eid, ie) = (ies ! pos, take ?n (drop (pos + 2) ies))"
    moreover have "?n \<le> length ies - (pos + 2)" using fits "1.prems"(2) by linarith
    ultimately have "length ie = ?n" by simp
    then show ?thesis using e fits by (intro exI [of _ "pos + 2"]) simp
  next
    assume "(eid, ie) \<in> set (ies_from ies len (pos + 2 + ?n))"
    from "1.IH" [OF fits this "1.prems"(2)] show ?thesis
      by (elim exE conjE) (rule_tac x = p in exI, simp)
  qed
qed

text \<open>C24. On any input, malformed or truncated, \<^verbatim>\<open>find_ie\<close> stays inside the buffer: a body it
  returns lies within the given length, directly after its identifier and length bytes.\<close>

theorem find_ie_in_bounds:
  assumes "find_ie ies len eid = Some ie" and "len \<le> length ies"
  shows "\<exists>p. 2 \<le> p \<and> p + length ie \<le> len \<and> ie = take (length ie) (drop p ies) \<and>
    ies ! (p - 2) = eid \<and> unat (ies ! (p - 1)) = length ie"
proof -
  have "(eid, ie) \<in> set (ies_from ies len 0)"
    using assms(1) by (simp add: find_ie_def find_ie_at_ies_from map_of_SomeD)
  from ies_from_bodies [OF this assms(2)] show ?thesis unfolding add_0 .
qed

theorem find_ie_in_bounds_witness:
  "\<exists>p. 2 \<le> p \<and> p + length [66 :: u8] \<le> 3 \<and> [66] = take (length [66 :: u8]) (drop p [5, 1, 66, 9 :: u8]) \<and>
    [5, 1, 66, 9 :: u8] ! (p - 2) = 5 \<and> unat ([5, 1, 66, 9 :: u8] ! (p - 1)) = length [66 :: u8]"
  using find_ie_in_bounds [of "[5, 1, 66, 9]" 3 5 "[66]"]
  by (simp add: find_ie_def find_ie_at.simps [of _ 3 5 0])

section \<open>Sequence numbers and channels: facts\<close>

lemma and_fff_mod: "(k :: int) AND 0xfff = k mod 4096"
proof -
  have "k AND 0xfff = take_bit 12 k" by (simp add: take_bit_eq_mask mask_eq_exp_minus_1)
  then show ?thesis by (simp add: take_bit_eq_mod)
qed

lemma uint_sn_inc: "uint (sn_inc sn) = (uint sn + 1) mod 4096"
proof -
  have "sn_inc sn = take_bit 12 (sn + 1)" by (simp add: sn_inc_def take_bit_eq_mask mask_eq_exp_minus_1)
  then have "uint (sn_inc sn) = take_bit 12 (uint (sn + 1))" by (simp add: unsigned_take_bit_eq)
  also have "uint (sn + 1) = (uint sn + 1) mod 65536" by (simp add: uint_word_ariths)
  finally show ?thesis by (simp add: take_bit_eq_mod mod_mod_cancel)
qed

lemma mod_flip: "(x :: int) mod 4096 > 2048 \<longleftrightarrow> 0 < (- x) mod 4096 \<and> (- x) mod 4096 < 2048"
  by (auto simp: zmod_zminus1_eq_if)

text \<open>Sequence-number arithmetic is arithmetic modulo 4096: \<^verbatim>\<open>ieee80211_sn_less\<close> holds exactly
  when the second number is 1 to 2047 steps ahead of the first, so it is a strict comparison within
  half the space, every number is less than its successor, and \<^verbatim>\<open>ieee80211_sn_sub\<close> is the distance.\<close>

theorem sn_window:
  assumes "uint a < 4096"
  shows "(sn_less a b \<longleftrightarrow> 0 < (uint b - uint a) mod 4096 \<and> (uint b - uint a) mod 4096 < 2048)
    \<and> \<not> (sn_less a b \<and> sn_less b a) \<and> sn_less a (sn_inc a)
    \<and> uint (sn_sub a b) = (uint a - uint b) mod 4096"
proof -
  have less: "sn_less x y \<longleftrightarrow> 0 < (uint y - uint x) mod 4096 \<and> (uint y - uint x) mod 4096 < 2048" for x y
    using mod_flip [of "uint x - uint y"] by (simp add: sn_less_def and_fff_mod)
  have "(uint (sn_inc a) - uint a) mod 4096 = 1"
    using assms by (simp add: uint_sn_inc mod_diff_left_eq)
  then have inc: "sn_less a (sn_inc a)" by (simp add: less)
  have anti: "\<not> (sn_less a b \<and> sn_less b a)"
    using mod_flip [of "uint a - uint b"] unfolding less by auto
  have "uint (sn_sub a b) = (uint a - uint b) mod 4096 mod 65536"
    by (simp add: sn_sub_def and_fff_mod uint_word_of_int)
  moreover have "(uint a - uint b) mod 4096 < 65536" "0 \<le> (uint a - uint b) mod 4096"
    by (rule less_le_trans [OF pos_mod_bound]) simp_all
  ultimately show ?thesis using inc anti less [of a b] by simp
qed

theorem sn_window_witness: "sn_less 4095 3 \<and> sn_less 4095 (sn_inc 4095) \<and> uint (sn_sub 3 4095) = 4"
  using sn_window [of 4095 3] sn_window [of 3 4095] by simp

text \<open>Channel numbers survive the trip to a frequency and back: for the fourteen channels of the
  2.4 GHz band and for every 5 GHz channel below 191, where the 6 GHz numbering takes over.\<close>

theorem channel_frequency_roundtrip:
  "(\<forall>c \<in> {1..14}. frequency_to_channel (channel_to_frequency c BAND_2GHZ) = c) \<and>
   (\<forall>c \<in> {1..190}. frequency_to_channel (channel_to_frequency c BAND_5GHZ) = c)"
  by (auto simp: frequency_to_channel_def channel_to_frequency_def c_div_def sgn_if)

theorem channel_frequency_roundtrip_witness:
  "frequency_to_channel (channel_to_frequency 36 BAND_5GHZ) = 36"
  using channel_frequency_roundtrip by auto

end
