(* ===== verification/LC_Mac.thy ===== *)
theory LC_Mac
  imports LC_Ieee
begin

text \<open>
  The state of the 802.11 layer (\<^verbatim>\<open>mac80211.c\<close>, \<^verbatim>\<open>net/mac80211.h\<close>, \<^verbatim>\<open>net/cfg80211.h\<close>) and the
  helpers every path uses.

  One hardware and its runtime are modelled; \<open>m_rt = None\<close> is a null \<^verbatim>\<open>hw->lcompat_runtime\<close>,
  and \<open>rt_listed\<close> says whether the runtime is on \<^verbatim>\<open>lcompat_ieee80211_runtimes\<close>.  A pointer to a
  channel is its band and index in the wiphy's tables.

  Code outside the repository is a parameter in two records: \<open>ops\<close>, the driver's operations
  (a null operation is None or False), and \<open>env\<close>, the host's netdev functions.  Each that
  returns a value is an arbitrary function of the history of calls, and every call is recorded in
  \<open>m_log\<close>, newest first, so statements about what the driver and the host see are statements about
  the log.  A driver operation does not change the layer's own state.
\<close>

section \<open>Control block\<close>

text \<open>What the code reads and writes of \<^verbatim>\<open>skb->cb\<close>: the receive status of a received buffer, the
  transmit information of a sent one.\<close>

datatype cbuf = Cb (rx_flag: u32) (rx_freq: int) (rx_signal: int) (tx_flags: u32) (tx_vif: bool)

instantiation cbuf :: zero
begin
definition zero_cbuf :: cbuf where "zero_cbuf = Cb 0 0 0 0 False"
instance ..
end

type_synonym skb = "cbuf sk_buff"

section \<open>Hardware tables\<close>

record ieee80211_channel =
  ch_center_freq :: int
  ch_hw_value :: int
  ch_band :: nl80211_band
  ch_flags :: u32
  ch_max_power :: int

record ieee80211_rate =
  rt_bitrate :: int
  rt_hw_value :: int
  rt_hw_value_short :: int
  rt_flags :: u32

text \<open>A null table is None; \<^verbatim>\<open>n_channels\<close> and \<^verbatim>\<open>n_bitrates\<close> are the lengths.\<close>

record supported_band =
  sbd_band :: nl80211_band
  sbd_channels :: "ieee80211_channel list option"
  sbd_bitrates :: "ieee80211_rate list option"

definition n_channels :: "supported_band \<Rightarrow> nat" where
  "n_channels sb = (case sbd_channels sb of None \<Rightarrow> 0 | Some cs \<Rightarrow> length cs)"

definition n_bitrates :: "supported_band \<Rightarrow> nat" where
  "n_bitrates sb = (case sbd_bitrates sb of None \<Rightarrow> 0 | Some rs \<Rightarrow> length rs)"

type_synonym chan_ref = "nl80211_band \<times> nat"

record chan_def =
  cd_chan :: "chan_ref option"
  cd_width :: u32
  cd_center_freq1 :: u32
  cd_center_freq2 :: u32

section \<open>Interface, station and connection data\<close>

record bss_conf =
  bc_assoc :: bool
  bc_aid :: u16
  bc_beacon_int :: u16
  bc_bssid :: mac
  bc_transmitter_bssid :: mac
  bc_basic_rates :: u32

record vif =
  vif_type :: u32
  vif_addr :: mac
  vif_cfg_assoc :: bool
  vif_cfg_aid :: u16
  vif_bss_conf :: bss_conf

record sta =
  sta_addr :: mac
  sta_txq :: "skb list option list"
  sta_bandwidth :: u8
  sta_supp_rates :: "nl80211_band \<Rightarrow> u32"
  sta_deflink_rates :: "nl80211_band \<Rightarrow> u32"

record connect_params =
  cp_ssid :: "u8 list"
  cp_ssid_len :: u8
  cp_bssid :: mac
  cp_has_bssid :: bool
  cp_frequency :: u32
  cp_auth_type :: u32
  cp_privacy :: bool

definition zero_params_conn :: "nat \<Rightarrow> connect_params" where
  "zero_params_conn n = \<lparr>cp_ssid = replicate n 0, cp_ssid_len = 0, cp_bssid = eth_zero_addr,
     cp_has_bssid = False, cp_frequency = 0, cp_auth_type = 0, cp_privacy = False\<rparr>"

record scan_result =
  sr_valid :: bool
  sr_bssid :: mac
  sr_frequency :: u32
  sr_signal_mbm :: int
  sr_tsf :: u64
  sr_beacon_interval :: u16
  sr_capability :: u16
  sr_ie_len :: u16
  sr_ies :: "u8 list"

definition zero_result :: "nat \<Rightarrow> scan_result" where
  "zero_result n = \<lparr>sr_valid = False, sr_bssid = eth_zero_addr, sr_frequency = 0, sr_signal_mbm = 0,
     sr_tsf = 0, sr_beacon_interval = 0, sr_capability = 0, sr_ie_len = 0, sr_ies = replicate n 0\<rparr>"

record wireless_info =
  wi_present :: bool
  wi_connected :: bool
  wi_wiphy_index :: u32
  wi_iftype :: u32
  wi_interface_modes :: u32
  wi_max_scan_ssids :: u32
  wi_frequency :: u32
  wi_ssid_len :: u8
  wi_ssid :: "u8 list"
  wi_bssid :: mac
  wi_phy :: u32

record scan_params =
  sp_ssids :: "(u8 list \<times> u8) list"
  sp_n_ssids :: u32

record scan_request =
  sq_channels :: "chan_ref option list"
  sq_ssids :: "(u8 list \<times> u8) list"
  sq_bssid :: mac
  sq_duration_mandatory :: bool
  sq_no_cck :: bool

datatype conn_state = DISCONNECTED | AUTHENTICATING | ASSOCIATING | CONNECTED

section \<open>Calls to the driver and the host\<close>

datatype event =
    EvTx bool skb "u8 list"
  | EvWakeTxQueue bool
  | EvMgdPrepareTx
  | EvConfig u32
  | EvConfigureFilter u32 u32
  | EvBssInfo bss_conf u32
  | EvStaAdd sta
  | EvStaRemove sta
  | EvAddInterface vif
  | EvRemoveInterface vif
  | EvStart
  | EvStop
  | EvHwScan scan_request
  | EvSwScanStart mac
  | EvSwScanComplete
  | EvSleep nat
  | EvRegister mac
  | EvUnregister
  | EvSetTrigger nat
  | EvWirelessInfo wireless_info
  | EvAdminState bool
  | EvLinkState bool
  | EvScanBegin u32
  | EvScanComplete bool
  | EvScanStore scan_result
  | EvConnectResult u32 u16
  | EvDisconnect u32 u16 bool

record ops =
  o_tx :: bool
  o_wake_tx_queue :: bool
  o_mgd_prepare_tx :: bool
  o_config :: "(event list \<Rightarrow> int) option"
  o_configure_filter :: "(event list \<Rightarrow> u32) option"
  o_bss_info_changed :: bool
  o_sta_add :: "(event list \<Rightarrow> int) option"
  o_sta_remove :: bool
  o_add_interface :: "(event list \<Rightarrow> int) option"
  o_remove_interface :: bool
  o_start :: "(event list \<Rightarrow> int) option"
  o_stop :: bool
  o_hw_scan :: "(event list \<Rightarrow> int) option"
  o_sw_scan_start :: bool
  o_sw_scan_complete :: bool

record env =
  e_register :: "event list \<Rightarrow> u32 option"
  e_set_trigger :: "event list \<Rightarrow> int"
  e_set_wireless_info :: "event list \<Rightarrow> int"
  e_scan_begin :: "event list \<Rightarrow> int"
  e_scan_store :: "event list \<Rightarrow> int"
  e_get_scan_state :: "event list \<Rightarrow> scan_result list option"
  e_max_scan_ie_len :: nat
  e_max_scan_ssids :: u32
  e_ssid_size :: nat
  e_sizeof_sta :: u64
  e_sizeof_txq :: u64
  e_sizeof_vif :: u64

section \<open>Hardware, runtime, state\<close>

record hw =
  hw_ops :: "ops option"
  hw_bands :: "nl80211_band \<Rightarrow> supported_band option"
  hw_interface_modes :: u32
  hw_max_scan_ssids :: u32
  hw_rts_threshold :: u32
  hw_queues :: int
  hw_flags :: u32
  hw_extra_tx_headroom :: int
  hw_txq_data_size :: int
  hw_sta_data_size :: int
  hw_vif_data_size :: int
  hw_perm_addr :: mac
  hw_chandef :: chan_def

record runtime =
  rt_vif :: "vif option"
  rt_txq :: "skb list option"
  rt_scan_req :: "scan_request option"
  rt_sta :: "sta option"
  rt_netdev :: "u32 option"
  rt_rx_queue :: "skb list"
  rt_listed :: bool
  rt_conn_state :: conn_state
  rt_connect_params :: connect_params
  rt_portid :: u32
  rt_beacon_interval :: u16
  rt_capability :: u16
  rt_tx_seq :: u16
  rt_scan_filter_flags :: u32
  rt_use_qos :: bool
  rt_vif_added :: bool
  rt_started :: bool
  rt_scan_filter_active :: bool

record mst = kst +
  m_hw :: hw
  m_rt :: "runtime option"
  m_log :: "event list"
  m_env :: env

definition zero_runtime :: "env \<Rightarrow> runtime" where
  "zero_runtime e = \<lparr>rt_vif = None, rt_txq = None, rt_scan_req = None, rt_sta = None, rt_netdev = None,
     rt_rx_queue = [], rt_listed = False, rt_conn_state = DISCONNECTED,
     rt_connect_params = zero_params_conn (e_ssid_size e), rt_portid = 0, rt_beacon_interval = 0,
     rt_capability = 0, rt_tx_seq = 0, rt_scan_filter_flags = 0, rt_use_qos = False,
     rt_vif_added = False, rt_started = False, rt_scan_filter_active = False\<rparr>"

abbreviation the_rt :: "mst \<Rightarrow> runtime" where
  "the_rt s \<equiv> the (m_rt s)"

definition upd_rt :: "(runtime \<Rightarrow> runtime) \<Rightarrow> mst \<Rightarrow> mst" where
  "upd_rt f s = s\<lparr>m_rt := map_option f (m_rt s)\<rparr>"

definition upd_hw :: "(hw \<Rightarrow> hw) \<Rightarrow> mst \<Rightarrow> mst" where
  "upd_hw f s = s\<lparr>m_hw := f (m_hw s)\<rparr>"

definition emit :: "event \<Rightarrow> mst \<Rightarrow> mst" where
  "emit e s = s\<lparr>m_log := e # m_log s\<rparr>"

definition poke :: "addr \<Rightarrow> u8 list \<Rightarrow> 'a kst_scheme \<Rightarrow> 'a kst_scheme" where
  "poke a bs s = s\<lparr>k_mem := store_bytes (k_mem s) a bs\<rparr>"

text \<open>Is there an operation table, and does it have this operation?\<close>

definition has_op :: "(ops \<Rightarrow> bool) \<Rightarrow> mst \<Rightarrow> bool" where
  "has_op f s = (case hw_ops (m_hw s) of None \<Rightarrow> False | Some t \<Rightarrow> f t)"

text \<open>Call an operation that returns a value: its answer is a function of the log before the call.\<close>

definition call_op :: "(ops \<Rightarrow> (event list \<Rightarrow> 'r) option) \<Rightarrow> 'r \<Rightarrow> event \<Rightarrow> mst \<Rightarrow> 'r \<times> mst" where
  "call_op f dflt e s =
     (case hw_ops (m_hw s) of
        None \<Rightarrow> (dflt, s)
      | Some t \<Rightarrow> (case f t of None \<Rightarrow> (dflt, s) | Some g \<Rightarrow> (g (m_log s), emit e s)))"

definition void_op :: "(ops \<Rightarrow> bool) \<Rightarrow> event \<Rightarrow> mst \<Rightarrow> mst" where
  "void_op f e s = (if has_op f s then emit e s else s)"

definition call_env :: "(env \<Rightarrow> event list \<Rightarrow> 'r) \<Rightarrow> event \<Rightarrow> mst \<Rightarrow> 'r \<times> mst" where
  "call_env f e s = (f (m_env s) (m_log s), emit e s)"

section \<open>Sizes\<close>

text \<open>None is the overflow the C functions report with \<^verbatim>\<open>true\<close>.\<close>

definition size_add :: "u64 \<Rightarrow> u64 \<Rightarrow> u64 option" where
  "size_add a b = (if a > SIZE_MAX - b then None else Some (a + b))"

definition size_add_ie :: "u64 \<Rightarrow> u64 \<Rightarrow> u64 option" where
  "size_add_ie tot len =
     (if len > 255 then None
      else case size_add 2 len of None \<Rightarrow> None | Some ie_len \<Rightarrow> size_add tot ie_len)"

section \<open>Wireless information\<close>

definition fill_wireless_info :: "hw \<Rightarrow> runtime \<Rightarrow> u32 \<Rightarrow> wireless_info" where
  "fill_wireless_info hw rt dev =
     \<lparr>wi_present = True,
      wi_connected = (rt_conn_state rt = CONNECTED),
      wi_wiphy_index = dev + 1,
      wi_iftype = (case rt_vif rt of Some v \<Rightarrow> vif_type v | None \<Rightarrow> 2),
      wi_interface_modes = hw_interface_modes hw,
      wi_max_scan_ssids = hw_max_scan_ssids hw,
      wi_frequency = cp_frequency (rt_connect_params rt),
      wi_ssid_len = cp_ssid_len (rt_connect_params rt),
      wi_ssid = take (unat (cp_ssid_len (rt_connect_params rt))) (cp_ssid (rt_connect_params rt)),
      wi_bssid = (if cp_has_bssid (rt_connect_params rt) then cp_bssid (rt_connect_params rt) else eth_zero_addr),
      wi_phy = dev\<rparr>"

definition update_wireless_info :: "mst \<Rightarrow> int \<times> mst" where
  "update_wireless_info s =
     (case m_rt s of
        None \<Rightarrow> (- EINVAL, s)
      | Some rt \<Rightarrow>
          (case rt_netdev rt of
             None \<Rightarrow> (- EINVAL, s)
           | Some dev \<Rightarrow> call_env e_set_wireless_info (EvWirelessInfo (fill_wireless_info (m_hw s) rt dev)) s))"

section \<open>Buffers for transmission\<close>

definition alloc_tx_skb :: "u64 \<Rightarrow> mst \<Rightarrow> skb option \<times> mst" where
  "alloc_tx_skb payload_len s =
     (if m_rt s = None then (None, s)
      else if hw_extra_tx_headroom (m_hw s) < 0 then (None, s)
      else
        let headroom = (if hw_extra_tx_headroom (m_hw s) > 0 then word_of_int (hw_extra_tx_headroom (m_hw s)) else 0)
        in if headroom > 4294967295 then (None, s)
           else case size_add headroom payload_len of
               None \<Rightarrow> (None, s)
             | Some skb_len \<Rightarrow>
                 if skb_len > 4294967295 then (None, s)
                 else case alloc_skb skb_len s of
                     (None, s) \<Rightarrow> (None, s)
                   | (Some skb, s) \<Rightarrow>
                       (Some (if headroom \<noteq> 0 then skb_reserve skb (ucast headroom) else skb), s))"

section \<open>Filters, connection parameters, channels\<close>

definition FIF_SCAN :: u32 where "FIF_SCAN = 2 OR 8"

definition configure_scan_filter :: "bool \<Rightarrow> mst \<Rightarrow> mst" where
  "configure_scan_filter enable s =
     (if m_rt s = None \<or> \<not> has_op (\<lambda>t. o_configure_filter t \<noteq> None) s then s
      else
        let changed_flags = FIF_SCAN;
            new_flags = (if enable then changed_flags else 0);
            (new_flags, s) = call_op o_configure_filter new_flags (EvConfigureFilter changed_flags new_flags) s
        in upd_rt (\<lambda>rt. rt\<lparr>rt_scan_filter_flags := new_flags, rt_scan_filter_active := enable\<rparr>) s)"

definition clear_connect_params :: "mst \<Rightarrow> mst" where
  "clear_connect_params s =
     upd_rt (\<lambda>rt. rt\<lparr>rt_connect_params := zero_params_conn (e_ssid_size (m_env s)), rt_portid := 0,
       rt_beacon_interval := 0, rt_capability := 0, rt_use_qos := False\<rparr>) s"

fun freq_index :: "ieee80211_channel list \<Rightarrow> u32 \<Rightarrow> nat \<Rightarrow> nat option" where
  "freq_index [] freq i = None"
| "freq_index (c # cs) freq i =
     (if word_of_int (ch_center_freq c) = freq then Some i else freq_index cs freq (i + 1))"

fun freq_bands :: "hw \<Rightarrow> u32 \<Rightarrow> nl80211_band list \<Rightarrow> chan_ref option" where
  "freq_bands hw freq [] = None"
| "freq_bands hw freq (b # bs) =
     (case hw_bands hw b of
        None \<Rightarrow> freq_bands hw freq bs
      | Some sb \<Rightarrow>
          (case sbd_channels sb of
             None \<Rightarrow> freq_bands hw freq bs
           | Some cs \<Rightarrow>
               (case freq_index cs freq 0 of
                  None \<Rightarrow> freq_bands hw freq bs
                | Some i \<Rightarrow> Some (b, i))))"

definition find_channel_by_freq :: "hw \<Rightarrow> u32 \<Rightarrow> chan_ref option" where
  "find_channel_by_freq hw freq = (if freq = 0 then None else freq_bands hw freq all_bands)"

text \<open>The channel a reference points to.\<close>

definition chan_at :: "hw \<Rightarrow> chan_ref \<Rightarrow> ieee80211_channel option" where
  "chan_at hw c =
     (case hw_bands hw (fst c) of
        None \<Rightarrow> None
      | Some sb \<Rightarrow>
          (case sbd_channels sb of
             None \<Rightarrow> None
           | Some cs \<Rightarrow> if snd c < length cs then Some (cs ! snd c) else None))"

definition chan_freq :: "hw \<Rightarrow> chan_ref \<Rightarrow> u32" where
  "chan_freq hw c = (case chan_at hw c of None \<Rightarrow> 0 | Some ch \<Rightarrow> word_of_int (ch_center_freq ch))"

text \<open>
  \<^verbatim>\<open>hw->wiphy->bands[hw->conf.chandef.chan->band]\<close>.  Registration sets the channel before any
  other path runs, so the code reads through it without a check; an unset channel has no band here.
\<close>

definition cur_sband :: "hw \<Rightarrow> supported_band option" where
  "cur_sband hw =
     (case cd_chan (hw_chandef hw) of
        None \<Rightarrow> None
      | Some c \<Rightarrow> (case chan_at hw c of None \<Rightarrow> None | Some ch \<Rightarrow> hw_bands hw (ch_band ch)))"

definition IEEE80211_CONF_CHANGE_CHANNEL :: u32 where "IEEE80211_CONF_CHANGE_CHANNEL = 4"

definition set_chandef :: "chan_def \<Rightarrow> mst \<Rightarrow> mst" where
  "set_chandef cd s = upd_hw (\<lambda>hw. hw\<lparr>hw_chandef := cd\<rparr>) s"

definition set_channel :: "u32 \<Rightarrow> mst \<Rightarrow> int \<times> mst" where
  "set_channel frequency s =
     (if m_rt s = None then (- EINVAL, s)
      else if frequency = 0 then (0, s)
      else case find_channel_by_freq (m_hw s) frequency of
          None \<Rightarrow> (- ENOENT, s)
        | Some c \<Rightarrow>
            if cd_chan (hw_chandef (m_hw s)) = Some c \<and> cd_center_freq1 (hw_chandef (m_hw s)) = frequency
            then (0, s)
            else
              let s = set_chandef \<lparr>cd_chan = Some c, cd_width = 1, cd_center_freq1 = chan_freq (m_hw s) c,
                         cd_center_freq2 = 0\<rparr> s
              in call_op o_config 0 (EvConfig IEEE80211_CONF_CHANGE_CHANNEL) s)"

definition default_channel :: "mst \<Rightarrow> int \<times> mst" where
  "default_channel s =
     (if cd_chan (hw_chandef (m_hw s)) \<noteq> None then (0, s)
      else
        let usable = (\<lambda>b. case hw_bands (m_hw s) b of None \<Rightarrow> False | Some sb \<Rightarrow> n_channels sb > 0);
            band = (if usable BAND_2GHZ then BAND_2GHZ else BAND_5GHZ)
        in if \<not> usable band then (- EINVAL, s)
           else (0, set_chandef \<lparr>cd_chan = Some (band, 0), cd_width = 1,
                      cd_center_freq1 = chan_freq (m_hw s) (band, 0), cd_center_freq2 = 0\<rparr> s))"

section \<open>Management transmission\<close>

definition next_seq_ctrl :: "mst \<Rightarrow> u16 \<times> mst" where
  "next_seq_ctrl s =
     (push_bit 4 (rt_tx_seq (the_rt s) AND 0x0fff), upd_rt (\<lambda>rt. rt\<lparr>rt_tx_seq := rt_tx_seq rt + 1\<rparr>) s)"

text \<open>The bytes of a buffer as the driver finds them.\<close>

definition skb_bytes :: "skb \<Rightarrow> 'a kst_scheme \<Rightarrow> u8 list" where
  "skb_bytes skb s = load_bytes (k_mem s) (sb_data skb) (unat (sb_len skb))"

definition send_mgmt :: "skb \<Rightarrow> mst \<Rightarrow> int \<times> mst" where
  "send_mgmt skb s =
     (if m_rt s = None \<or> \<not> has_op o_tx s then (- EINVAL, s)
      else
        let skb = skb\<lparr>sb_cb := Cb 0 0 0 1 (rt_vif (the_rt s) \<noteq> None)\<rparr>;
            s = void_op o_mgd_prepare_tx EvMgdPrepareTx s
        in (0, emit (EvTx False skb (skb_bytes skb s)) s))"

end
