(* ===== verification/LC_Mac_Tx.thy ===== *)
theory LC_Mac_Tx
  imports LC_Mac
begin

text \<open>
  The frames the 802.11 layer builds: authentication, association and probe requests, and data
  frames (\<^verbatim>\<open>mac80211.c\<close>).  A frame is written field by field into the bytes \<^verbatim>\<open>skb_put_zero\<close> and
  \<^verbatim>\<open>skb_put\<close> hand out, in the order of the code.
\<close>

section \<open>Rates\<close>

definition bss_ie :: "scan_result \<Rightarrow> u8 \<Rightarrow> u8 list option" where
  "bss_ie bss eid = find_ie (sr_ies bss) (unat (sr_ie_len bss)) eid"

definition bss_has_wmm :: "scan_result \<Rightarrow> bool" where
  "bss_has_wmm bss = has_wmm_at (sr_ies bss) (unat (sr_ie_len bss)) 0"

definition rate_byte :: "ieee80211_rate \<Rightarrow> u8" where
  "rate_byte r = word_of_int (c_div (rt_bitrate r) 5)"

definition match_rate :: "u8 list option \<Rightarrow> u8 \<Rightarrow> u8 option" where
  "match_rate rates rate =
     (case rates of None \<Rightarrow> None | Some rs \<Rightarrow> find (\<lambda>r. r AND 0x7f = rate) rs)"

fun supported_rates_loop ::
  "ieee80211_rate list \<Rightarrow> u8 list option \<Rightarrow> u8 list option \<Rightarrow> u8 list \<Rightarrow> u8 list \<Rightarrow> u8 list \<times> u8 list" where
  "supported_rates_loop [] scan ext supp_rates ext_rates = (supp_rates, ext_rates)"
| "supported_rates_loop (b # bs) scan ext supp_rates ext_rates =
     (let rate = rate_byte b;
          hit = (case match_rate scan rate of Some r \<Rightarrow> Some r | None \<Rightarrow> match_rate ext rate);
          allowed = (if scan \<noteq> None \<or> ext \<noteq> None then hit \<noteq> None else True);
          basic = (case hit of None \<Rightarrow> False | Some r \<Rightarrow> r AND 0x80 \<noteq> 0);
          v = rate OR (if basic then 0x80 else 0)
      in if \<not> allowed then supported_rates_loop bs scan ext supp_rates ext_rates
         else if length supp_rates < 8 then supported_rates_loop bs scan ext (supp_rates @ [v]) ext_rates
         else if length ext_rates < 16 then supported_rates_loop bs scan ext supp_rates (ext_rates @ [v])
         else supported_rates_loop bs scan ext supp_rates ext_rates)"

definition build_supported_rates :: "hw \<Rightarrow> scan_result \<Rightarrow> u8 list \<times> u8 list" where
  "build_supported_rates hw bss =
     (case cur_sband hw of
        None \<Rightarrow> ([], [])
      | Some sb \<Rightarrow>
          (case sbd_bitrates sb of
             None \<Rightarrow> ([], [])
           | Some rs \<Rightarrow> supported_rates_loop rs (bss_ie bss 1) (bss_ie bss 50) [] []))"

text \<open>\<open>\<bar>= BIT(i)\<close> for each of the first 32 rates that a listed rate matches; \<open>want\<close> is the test on
  the listed byte.\<close>

fun rates_mask_loop :: "ieee80211_rate list \<Rightarrow> nat \<Rightarrow> (u8 \<Rightarrow> bool) \<Rightarrow> u8 list \<Rightarrow> u8 list \<Rightarrow> u32 \<Rightarrow> u32" where
  "rates_mask_loop [] i want scan ext m = m"
| "rates_mask_loop (b # bs) i want scan ext m =
     (if i < 32 then
        let hit = (\<lambda>r. r AND 0x7f = rate_byte b \<and> want r);
            m = (if list_ex hit scan then m OR push_bit i 1 else m);
            m = (if list_ex hit ext then m OR push_bit i 1 else m)
        in rates_mask_loop bs (i + 1) want scan ext m
      else m)"

definition opt_bytes :: "u8 list option \<Rightarrow> u8 list" where
  "opt_bytes x = (case x of None \<Rightarrow> [] | Some bs \<Rightarrow> bs)"

definition rates_mask :: "(u8 \<Rightarrow> bool) \<Rightarrow> ieee80211_rate list \<Rightarrow> scan_result \<Rightarrow> u32" where
  "rates_mask want rs bss =
     rates_mask_loop rs 0 want (opt_bytes (bss_ie bss 1)) (opt_bytes (bss_ie bss 50)) 0"

definition basic_rates_mask :: "hw \<Rightarrow> scan_result \<Rightarrow> u32" where
  "basic_rates_mask hw bss =
     (case cur_sband hw of
        None \<Rightarrow> 0
      | Some sb \<Rightarrow>
          (case sbd_bitrates sb of
             None \<Rightarrow> 0
           | Some rs \<Rightarrow> rates_mask (\<lambda>r. r AND 0x80 \<noteq> 0) rs bss))"

definition all_rates :: "supported_band \<Rightarrow> u32" where
  "all_rates sb = (if n_bitrates sb \<ge> 32 then 4294967295 else push_bit (n_bitrates sb) 1 - 1)"

definition supported_rates_mask :: "hw \<Rightarrow> scan_result \<Rightarrow> u32" where
  "supported_rates_mask hw bss =
     (case cur_sband hw of
        None \<Rightarrow> 0
      | Some sb \<Rightarrow>
          (case sbd_bitrates sb of
             None \<Rightarrow> 0
           | Some rs \<Rightarrow>
               if sr_ie_len bss = 0 then all_rates sb
               else rates_mask (\<lambda>r. True) rs bss))"

section \<open>Authentication\<close>

definition send_auth :: "mst \<Rightarrow> int \<times> mst" where
  "send_auth s =
     (if m_rt s = None \<or> \<not> cp_has_bssid (rt_connect_params (the_rt s)) then (- EINVAL, s)
      else case alloc_tx_skb 30 s of
          (None, s) \<Rightarrow> (- ENOMEM, s)
        | (Some skb, s) \<Rightarrow>
            (case skb_put_zero skb 30 s of
               (auth, skb, s) \<Rightarrow>
                 if auth = 0 then (- ENOMEM, kfree_skb (Some skb) s)
                 else
                   let bssid = cp_bssid (rt_connect_params (the_rt s));
                       s = poke auth (le16_bytes 0x00b0) s;
                       s = poke (auth + 4) bssid s;
                       s = poke (auth + 10) (vif_addr (the (rt_vif (the_rt s)))) s;
                       s = poke (auth + 16) bssid s;
                       (seq, s) = next_seq_ctrl s;
                       s = poke (auth + 22) (le16_bytes seq) s;
                       s = poke (auth + 24) (le16_bytes 0) s;
                       s = poke (auth + 26) (le16_bytes 1) s;
                       s = poke (auth + 28) (le16_bytes 0) s
                   in send_mgmt skb s))"

section \<open>Association request\<close>

definition WMM_INFO_IE :: "u8 list" where
  "WMM_INFO_IE = [221, 7, 0x00, 0x50, 0xf2, 0x02, 0x00, 0x01, 0x00]"

text \<open>The counting loops over the zero-filled arrays: entries up to the first zero.\<close>

definition rate_count :: "nat \<Rightarrow> u8 list \<Rightarrow> nat" where
  "rate_count cap rates = length (takeWhile (\<lambda>r. r \<noteq> 0) (rates @ replicate (cap - length rates) 0))"

definition add_ie_if :: "bool \<Rightarrow> nat \<Rightarrow> u64 option \<Rightarrow> u64 option" where
  "add_ie_if c n tot = (case tot of None \<Rightarrow> None | Some t \<Rightarrow> if c then size_add_ie t (of_nat n) else Some t)"

definition assoc_total_len :: "connect_params \<Rightarrow> scan_result \<Rightarrow> nat \<Rightarrow> nat \<Rightarrow> u64 option" where
  "assoc_total_len cp bss supp_count ext_count =
     (case add_ie_if (ext_count \<noteq> 0) ext_count
             (add_ie_if (supp_count \<noteq> 0) supp_count (size_add_ie 28 (ucast (cp_ssid_len cp)))) of
        None \<Rightarrow> None
      | Some t \<Rightarrow> if bss_has_wmm bss then size_add t 9 else Some t)"

definition assoc_capability :: "runtime \<Rightarrow> u16" where
  "assoc_capability rt =
     1 OR (if cp_privacy (rt_connect_params rt) then 0x0010 else 0)
       OR (if rt_capability rt AND 0x0400 \<noteq> 0 then 0x0400 else 0)"

text \<open>The body: each group of writes at \<open>ies + pos\<close>, returning the state and the new \<open>pos\<close>.\<close>

definition put_ie :: "addr \<Rightarrow> u8 \<Rightarrow> nat \<Rightarrow> u8 list \<Rightarrow> nat \<times> mst \<Rightarrow> nat \<times> mst" where
  "put_ie ies eid n body ps =
     (let (pos, s) = ps;
          s = poke (ies + pos) [eid] s;
          s = poke (ies + pos + 1) [of_nat n] s;
          s = poke (ies + pos + 2) (take n body) s
      in (pos + 2 + n, s))"

definition send_assoc_req :: "scan_result \<Rightarrow> mst \<Rightarrow> int \<times> mst" where
  "send_assoc_req bss s =
     (if m_rt s = None \<or> \<not> cp_has_bssid (rt_connect_params (the_rt s)) then (- EINVAL, s)
      else case cur_sband (m_hw s) of
          None \<Rightarrow> (- EINVAL, s)
        | Some sband \<Rightarrow>
            (let cp = rt_connect_params (the_rt s);
                 (supp_rates, ext_rates) = build_supported_rates (m_hw s) bss;
                 supp_count = rate_count 8 supp_rates;
                 ext_count = rate_count 16 ext_rates
             in case assoc_total_len cp bss supp_count ext_count of
                  None \<Rightarrow> (- EOVERFLOW, s)
                | Some total_len \<Rightarrow>
                    if total_len > 4294967295 then (- EOVERFLOW, s)
                    else case alloc_tx_skb total_len s of
                        (None, s) \<Rightarrow> (- ENOMEM, s)
                      | (Some skb, s) \<Rightarrow>
                          (case skb_put_zero skb 28 s of
                             (assoc, skb, s) \<Rightarrow>
                               if assoc = 0 then (- ENOMEM, kfree_skb (Some skb) s)
                               else
                                 let s = poke assoc (le16_bytes 0x0000) s;
                                     s = poke (assoc + 4) (cp_bssid cp) s;
                                     s = poke (assoc + 10) (vif_addr (the (rt_vif (the_rt s)))) s;
                                     s = poke (assoc + 16) (cp_bssid cp) s;
                                     (seq, s) = next_seq_ctrl s;
                                     s = poke (assoc + 22) (le16_bytes seq) s;
                                     s = poke (assoc + 24) (le16_bytes (assoc_capability (the_rt s))) s;
                                     s = poke (assoc + 26) (le16_bytes 10) s
                                 in case skb_put skb (ucast (total_len - 28)) of
                                      (ies, skb) \<Rightarrow>
                                        if ies = 0 then (- ENOMEM, kfree_skb (Some skb) s)
                                        else
                                          let ps = put_ie ies 0 (unat (cp_ssid_len cp)) (cp_ssid cp) (0, s);
                                              ps = (if supp_count \<noteq> 0 then put_ie ies 1 supp_count supp_rates ps else ps);
                                              ps = (if ext_count \<noteq> 0 then put_ie ies 50 ext_count ext_rates ps else ps);
                                              (pos, s) = ps;
                                              (pos, s) = (if bss_has_wmm bss
                                                then (pos + 9, poke (ies + pos) WMM_INFO_IE s) else (pos, s))
                                          in if pos \<noteq> unat (total_len - 28)
                                             then (- EINVAL, kfree_skb (Some skb) s)
                                             else send_mgmt skb s)))"

section \<open>Probe request\<close>

definition probe_frame_len :: "nat \<Rightarrow> nat \<Rightarrow> u64 option" where
  "probe_frame_len ssid_len rates_count =
     add_ie_if (rates_count > 8) (rates_count - 8)
       (add_ie_if (rates_count \<noteq> 0) (min rates_count 8) (size_add_ie 24 (of_nat ssid_len)))"

definition send_probe_req :: "u8 list \<Rightarrow> u8 \<Rightarrow> mst \<Rightarrow> int \<times> mst" where
  "send_probe_req ssid ssid_len s =
     (if m_rt s = None \<or> rt_vif (the_rt s) = None \<or> cd_chan (hw_chandef (m_hw s)) = None then (- EINVAL, s)
      else case cur_sband (m_hw s) of
          None \<Rightarrow> (- EINVAL, s)
        | Some sband \<Rightarrow>
            (let rates = map rate_byte (take 16 (case sbd_bitrates sband of None \<Rightarrow> [] | Some rs \<Rightarrow> rs));
                 rates_count = length rates
             in case probe_frame_len (unat ssid_len) rates_count of
                  None \<Rightarrow> (- EOVERFLOW, s)
                | Some frame_len \<Rightarrow>
                    if frame_len > 4294967295 then (- EOVERFLOW, s)
                    else case alloc_tx_skb frame_len s of
                        (None, s) \<Rightarrow> (- ENOMEM, s)
                      | (Some skb, s) \<Rightarrow>
                          (case skb_put_zero skb 24 s of
                             (hdr, skb, s) \<Rightarrow>
                               if hdr = 0 then (- ENOMEM, kfree_skb (Some skb) s)
                               else
                                 let s = poke hdr (le16_bytes 0x0040) s;
                                     s = poke (hdr + 4) eth_broadcast_addr s;
                                     s = poke (hdr + 10) (vif_addr (the (rt_vif (the_rt s)))) s;
                                     s = poke (hdr + 16) eth_broadcast_addr s;
                                     (seq, s) = next_seq_ctrl s;
                                     s = poke (hdr + 22) (le16_bytes seq) s
                                 in case skb_put skb (ucast (frame_len - 24)) of
                                      (ies, skb) \<Rightarrow>
                                        if ies = 0 then (- ENOMEM, kfree_skb (Some skb) s)
                                        else
                                          let supp_count = min rates_count 8;
                                              ps = put_ie ies 0 (unat ssid_len) ssid (0, s);
                                              ps = (if rates_count \<noteq> 0 then put_ie ies 1 supp_count rates ps else ps);
                                              ps = (if rates_count > supp_count
                                                    then put_ie ies 50 (rates_count - supp_count) (drop supp_count rates) ps
                                                    else ps);
                                              (pos, s) = ps
                                          in if pos \<noteq> unat (frame_len - 24)
                                             then (- EINVAL, kfree_skb (Some skb) s)
                                             else send_mgmt skb s)))"

section \<open>Data frames\<close>

text \<open>\<open>eth\<close> is the Ethernet frame the host passes, \<open>n\<close> its length.\<close>

definition build_data_frame :: "u8 list \<Rightarrow> u32 \<Rightarrow> mst \<Rightarrow> int \<times> skb option \<times> mst" where
  "build_data_frame eth n s =
     (if m_rt s = None \<or> rt_vif (the_rt s) = None \<or> n < 14 then (- EINVAL, None, s)
      else if \<not> rt_started (the_rt s) \<or> \<not> has_op o_tx s then (- ENODEV, None, s)
      else if rt_conn_state (the_rt s) \<noteq> CONNECTED \<or>
        is_zero_ether_addr (bc_bssid (vif_bss_conf (the (rt_vif (the_rt s))))) then (- ENOTCONN, None, s)
      else
        let vif = the (rt_vif (the_rt s));
            qos = rt_use_qos (the_rt s);
            payload_len = (ucast n :: u64) - 14;
            hdr_len = (if qos then 26 else 24)
        in case (case size_add hdr_len 8 of None \<Rightarrow> None | Some l \<Rightarrow> size_add l payload_len) of
             None \<Rightarrow> (- EOVERFLOW, None, s)
           | Some frame_len \<Rightarrow>
               if frame_len > 4294967295 \<or> payload_len > 4294967295 then (- EOVERFLOW, None, s)
               else case alloc_tx_skb frame_len s of
                   (None, s) \<Rightarrow> (- ENOMEM, None, s)
                 | (Some skb, s) \<Rightarrow>
                     (case skb_put_zero skb 24 s of
                        (hdr, skb, s) \<Rightarrow>
                          if hdr = 0 then (- ENOMEM, None, kfree_skb (Some skb) s)
                          else
                            let s = poke hdr (le16_bytes ((0x0008 OR (if qos then 0x0080 else 0)) OR 0x0100)) s;
                                s = poke (hdr + 4) (bc_bssid (vif_bss_conf vif)) s;
                                s = poke (hdr + 10) (vif_addr vif) s;
                                s = poke (hdr + 16) (take 6 eth) s;
                                (seq, s) = next_seq_ctrl s;
                                s = poke (hdr + 22) (le16_bytes seq) s;
                                (q, skb, s) = (if qos then skb_put_zero skb 2 s else (1, skb, s))
                            in if q = 0 then (- ENOMEM, None, kfree_skb (Some skb) s)
                               else case skb_put skb 8 of
                                   (pos, skb) \<Rightarrow>
                                     if pos = 0 then (- ENOMEM, None, kfree_skb (Some skb) s)
                                     else
                                       let s = poke pos [0xaa, 0xaa, 0x03, 0x00, 0x00, 0x00] s;
                                           s = poke (pos + 6) (take 2 (drop 12 eth)) s;
                                           (_, skb, s) = skb_put_data skb (Some (drop 14 eth)) (ucast payload_len) s;
                                           skb = skb\<lparr>sb_protocol := get_unaligned_le16 (\<lambda>a. eth ! a) 12\<rparr>;
                                           skb = skb_set_queue_mapping skb 2;
                                           skb = skb\<lparr>sb_priority := 0, sb_cb := Cb 0 0 0 0 True\<rparr>
                                       in (0, Some skb, s)))"

definition netdev_send :: "u8 list \<Rightarrow> u32 \<Rightarrow> mst \<Rightarrow> int \<times> mst" where
  "netdev_send eth n s =
     (case build_data_frame eth n s of
        (ret, out, s) \<Rightarrow>
          if ret \<noteq> 0 then (ret, s)
          else
            let skb = the out;
                tid = unat (sb_priority skb AND 15);
                sta_q = (case rt_sta (the_rt s) of None \<Rightarrow> None | Some st \<Rightarrow> sta_txq st ! tid)
            in if has_op o_wake_tx_queue s \<and> (sta_q \<noteq> None \<or> rt_txq (the_rt s) \<noteq> None)
               then
                 let s = (case sta_q of
                        Some q \<Rightarrow> upd_rt (\<lambda>rt. rt\<lparr>rt_sta := map_option (\<lambda>st. st\<lparr>sta_txq := (sta_txq st)[tid := Some (q @ [skb])]\<rparr>) (rt_sta rt)\<rparr>) s
                      | None \<Rightarrow> upd_rt (\<lambda>rt. rt\<lparr>rt_txq := map_option (\<lambda>q. q @ [skb]) (rt_txq rt)\<rparr>) s)
                 in (0, emit (EvWakeTxQueue (sta_q \<noteq> None)) s)
               else (0, emit (EvTx (rt_sta (the_rt s) \<noteq> None) skb (skb_bytes skb s)) s))"

end
