(* ===== verification/LC_Mac_Conn.thy ===== *)
theory LC_Mac_Conn
  imports LC_Mac_Tx
begin

text \<open>
  Selecting a network, scanning, stations and the life of a connection (\<^verbatim>\<open>mac80211.c\<close>).
  \<^verbatim>\<open>connect_failed\<close>, \<^verbatim>\<open>connect_complete\<close> and \<^verbatim>\<open>disconnect_local\<close> are the only ways the
  connection state leaves a value other than by the handlers of received frames.
\<close>

section \<open>Selecting a BSS\<close>

definition bss_privacy_matches :: "scan_result \<Rightarrow> connect_params \<Rightarrow> bool" where
  "bss_privacy_matches bss params = ((sr_capability bss AND 0x0010 \<noteq> 0) = cp_privacy params)"

definition ssid_matches :: "scan_result \<Rightarrow> u8 list \<Rightarrow> u8 \<Rightarrow> bool" where
  "ssid_matches result ssid ssid_len =
     (case bss_ie result 0 of
        None \<Rightarrow> False
      | Some ie \<Rightarrow> if length ie \<noteq> unat ssid_len then False else ie = take (unat ssid_len) ssid)"

definition fill_scan_ssid :: "scan_result \<Rightarrow> connect_params \<Rightarrow> connect_params" where
  "fill_scan_ssid result params =
     (if cp_ssid_len params \<noteq> 0 then params
      else case bss_ie result 0 of
          None \<Rightarrow> params
        | Some ie \<Rightarrow>
            if ie = [] then params
            else
              let n = min (length ie) (length (cp_ssid params))
              in params\<lparr>cp_ssid := take n ie @ drop n (cp_ssid params), cp_ssid_len := of_nat n\<rparr>)"

definition first_choice :: "connect_params \<Rightarrow> scan_result \<Rightarrow> bool" where
  "first_choice params r =
     (if \<not> sr_valid r then False
      else if cp_has_bssid params \<and> sr_bssid r \<noteq> cp_bssid params then False
      else if cp_ssid_len params \<noteq> 0 \<and> \<not> ssid_matches r (cp_ssid params) (cp_ssid_len params) then False
      else bss_privacy_matches r params)"

definition second_choice :: "connect_params \<Rightarrow> scan_result \<Rightarrow> bool" where
  "second_choice params r =
     (if \<not> sr_valid r then False
      else if cp_ssid_len params \<noteq> 0 \<and> ssid_matches r (cp_ssid params) (cp_ssid_len params)
        then bss_privacy_matches r params
      else False)"

text \<open>\<open>scan\<close> is the host's scan table, or None when \<^verbatim>\<open>netdev_get_scan_state\<close> has none.  The result is
  the status, the parameters as left by the function, and \<^verbatim>\<open>*selected\<close>.\<close>

definition select_from :: "nat \<Rightarrow> scan_result list option \<Rightarrow> connect_params \<Rightarrow> int \<times> connect_params \<times> scan_result" where
  "select_from ie_cap scan params =
     (case scan of
        None \<Rightarrow>
          if cp_has_bssid params \<and> cp_frequency params \<noteq> 0
          then (0, params, (zero_result ie_cap)\<lparr>sr_valid := True, sr_frequency := cp_frequency params,
                  sr_bssid := cp_bssid params\<rparr>)
          else (- ENOENT, params, zero_result ie_cap)
      | Some results \<Rightarrow>
          (case find (first_choice params) results of
             Some r \<Rightarrow> (0, fill_scan_ssid r params, r)
           | None \<Rightarrow>
               (case find (second_choice params) results of
                  Some r \<Rightarrow>
                    (0, if cp_has_bssid params then params
                        else params\<lparr>cp_bssid := sr_bssid r, cp_has_bssid := True\<rparr>, r)
                | None \<Rightarrow> (- ENOENT, params, zero_result ie_cap))))"

text \<open>The callers pass \<^verbatim>\<open>&rt->connect_params\<close>, which the function updates in place.\<close>

definition select_bss :: "mst \<Rightarrow> int \<times> scan_result \<times> mst" where
  "select_bss s =
     (if m_rt s = None \<or> rt_netdev (the_rt s) = None then (- EINVAL, zero_result (e_max_scan_ie_len (m_env s)), s)
      else
        let (ret, params, sel) = select_from (e_max_scan_ie_len (m_env s)) (e_get_scan_state (m_env s) (m_log s))
              (rt_connect_params (the_rt s))
        in (ret, sel, upd_rt (\<lambda>rt. rt\<lparr>rt_connect_params := params\<rparr>) s))"

section \<open>Software scan\<close>

fun probe_ssids :: "(u8 list \<times> u8) list \<Rightarrow> mst \<Rightarrow> int \<times> mst" where
  "probe_ssids [] s = (0, s)"
| "probe_ssids ((ssid, n) # rest) s =
     (case send_probe_req ssid n s of
        (ret, s) \<Rightarrow> if ret \<noteq> 0 then (ret, s) else probe_ssids rest s)"

fun sw_scan_loop :: "chan_ref option list \<Rightarrow> (u8 list \<times> u8) list \<Rightarrow> mst \<Rightarrow> int \<times> mst" where
  "sw_scan_loop [] ssids s = (0, s)"
| "sw_scan_loop (None # chs) ssids s = sw_scan_loop chs ssids s"
| "sw_scan_loop (Some c # chs) ssids s =
     (case set_channel (chan_freq (m_hw s) c) s of
        (ret, s) \<Rightarrow>
          if ret \<noteq> 0 then (ret, s)
          else case (if ssids = [] then send_probe_req [] 0 s else probe_ssids ssids s) of
              (ret, s) \<Rightarrow>
                if ret \<noteq> 0 then (ret, s)
                else sw_scan_loop chs ssids (emit (EvSleep 60) s))"

definition run_sw_scan :: "mst \<Rightarrow> int \<times> mst" where
  "run_sw_scan s =
     (if m_rt s = None \<or> rt_scan_req (the_rt s) = None \<or> rt_vif (the_rt s) = None then (- EINVAL, s)
      else if \<not> has_op o_sw_scan_start s \<or> \<not> has_op o_sw_scan_complete s then (- EOPNOTSUPP, s)
      else
        let orig = hw_chandef (m_hw s);
            req = the (rt_scan_req (the_rt s));
            s = emit (EvSwScanStart (vif_addr (the (rt_vif (the_rt s))))) s;
            (ret, s) = sw_scan_loop (sq_channels req) (sq_ssids req) s;
            s = set_chandef orig s;
            (_, s) = call_op o_config 0 (EvConfig IEEE80211_CONF_CHANGE_CHANNEL) s
        in (ret, emit EvSwScanComplete s))"

section \<open>Stations\<close>

text \<open>\<^verbatim>\<open>skb_queue_purge\<close>: every queued buffer is freed, in order.\<close>

definition purge_queue :: "skb list \<Rightarrow> 'a kst_scheme \<Rightarrow> 'a kst_scheme" where
  "purge_queue q s = fold (\<lambda>skb. kfree_skb (Some skb)) q s"

fun free_txqs :: "skb list option list \<Rightarrow> 'a kst_scheme \<Rightarrow> 'a kst_scheme" where
  "free_txqs [] s = s"
| "free_txqs (None # qs) s = free_txqs qs s"
| "free_txqs (Some q # qs) s = free_txqs qs (kfree_obj (purge_queue q s))"

definition free_sta :: "mst \<Rightarrow> mst" where
  "free_sta s =
     (case m_rt s of
        None \<Rightarrow> s
      | Some rt \<Rightarrow>
          (case rt_sta rt of
             None \<Rightarrow> s
           | Some st \<Rightarrow> upd_rt (\<lambda>rt. rt\<lparr>rt_sta := None\<rparr>) (kfree_obj (free_txqs (sta_txq st) s))))"

text \<open>Allocate the queues; when one fails, the ones before it are freed again.\<close>

fun alloc_txqs :: "nat \<Rightarrow> nat \<Rightarrow> 'a kst_scheme \<Rightarrow> bool \<times> 'a kst_scheme" where
  "alloc_txqs 0 i s = (True, s)"
| "alloc_txqs (Suc n) i s =
     (case kzalloc_obj s of
        (None, s) \<Rightarrow> (False, (kfree_obj ^^ i) s)
      | (Some _, s) \<Rightarrow> alloc_txqs n (i + 1) s)"

definition new_sta :: "hw \<Rightarrow> connect_params \<Rightarrow> scan_result \<Rightarrow> sta" where
  "new_sta hw cp bss =
     (let rates0 = (\<lambda>_. 0 :: u32);
          rates1 = (case cur_sband hw of None \<Rightarrow> rates0 | Some sb \<Rightarrow> rates0(sbd_band sb := all_rates sb));
          m = supported_rates_mask hw bss;
          band = (case cd_chan (hw_chandef hw) of
              None \<Rightarrow> BAND_2GHZ
            | Some c \<Rightarrow> (case chan_at hw c of None \<Rightarrow> BAND_2GHZ | Some ch \<Rightarrow> ch_band ch));
          rates2 = (if m \<noteq> 0 then rates1(band := m) else rates1)
      in \<lparr>sta_addr = cp_bssid cp, sta_txq = replicate 16 (Some []), sta_bandwidth = 0,
          sta_supp_rates = rates2, sta_deflink_rates = rates2\<rparr>)"

definition alloc_sta :: "scan_result \<Rightarrow> mst \<Rightarrow> int \<times> mst" where
  "alloc_sta bss s =
     (if m_rt s = None \<or> \<not> cp_has_bssid (rt_connect_params (the_rt s)) then (- EINVAL, s)
      else if hw_sta_data_size (m_hw s) < 0 \<or> hw_txq_data_size (m_hw s) < 0 then (- EINVAL, s)
      else if size_add (e_sizeof_sta (m_env s)) (word_of_int (hw_sta_data_size (m_hw s))) = None \<or>
        size_add (e_sizeof_txq (m_env s)) (word_of_int (hw_txq_data_size (m_hw s))) = None then (- EOVERFLOW, s)
      else case kzalloc_obj s of
          (None, s) \<Rightarrow> (- ENOMEM, s)
        | (Some _, s) \<Rightarrow>
            (case alloc_txqs 16 0 s of
               (False, s) \<Rightarrow> (- ENOMEM, kfree_obj s)
             | (True, s) \<Rightarrow>
                 (0, upd_rt (\<lambda>rt. rt\<lparr>rt_sta := Some (new_sta (m_hw s) (rt_connect_params rt) bss)\<rparr>) s)))"

section \<open>The connection\<close>

definition upd_vif :: "(vif \<Rightarrow> vif) \<Rightarrow> mst \<Rightarrow> mst" where
  "upd_vif f s = upd_rt (\<lambda>rt. rt\<lparr>rt_vif := map_option f (rt_vif rt)\<rparr>) s"

definition cleared_vif :: "vif \<Rightarrow> vif" where
  "cleared_vif v =
     v\<lparr>vif_cfg_assoc := False, vif_cfg_aid := 0,
       vif_bss_conf := (vif_bss_conf v)\<lparr>bc_assoc := False, bc_aid := 0, bc_bssid := eth_zero_addr,
         bc_transmitter_bssid := eth_zero_addr, bc_beacon_int := 0, bc_basic_rates := 0\<rparr>\<rparr>"

definition vif_conf :: "mst \<Rightarrow> bss_conf" where
  "vif_conf s = vif_bss_conf (the (rt_vif (the_rt s)))"

definition set_link :: "bool \<Rightarrow> mst \<Rightarrow> mst" where
  "set_link up s = (if rt_netdev (the_rt s) \<noteq> None then emit (EvLinkState up) s else s)"

definition disconnect_local :: "u16 \<Rightarrow> u32 \<Rightarrow> bool \<Rightarrow> mst \<Rightarrow> mst" where
  "disconnect_local reason_code request_portid by_ap s =
     (if m_rt s = None \<or> rt_vif (the_rt s) = None then s
      else
        let rt = the_rt s;
            have_wireless = (rt_netdev rt \<noteq> None \<and> cp_has_bssid (rt_connect_params rt));
            s = (case rt_sta rt of None \<Rightarrow> s | Some st \<Rightarrow> void_op o_sta_remove (EvStaRemove st) s);
            s = free_sta s;
            s = upd_vif cleared_vif s;
            s = void_op o_bss_info_changed (EvBssInfo (vif_conf s) (1 OR 2 OR 4)) s;
            s = (if have_wireless then emit (EvDisconnect request_portid reason_code by_ap) s else s);
            s = upd_rt (\<lambda>rt. rt\<lparr>rt_conn_state := DISCONNECTED\<rparr>) s;
            s = clear_connect_params s;
            s = set_link False s
        in snd (update_wireless_info s))"

definition connect_failed :: "u16 \<Rightarrow> mst \<Rightarrow> mst" where
  "connect_failed status_code s =
     (if m_rt s = None then s
      else
        let request_portid = rt_portid (the_rt s);
            s = upd_rt (\<lambda>rt. rt\<lparr>rt_conn_state := DISCONNECTED\<rparr>) s;
            s = set_link False s;
            s = snd (update_wireless_info s);
            s = emit (EvConnectResult request_portid status_code) s;
            s = clear_connect_params s
        in snd (update_wireless_info s))"

definition connected_vif :: "hw \<Rightarrow> runtime \<Rightarrow> scan_result \<Rightarrow> u16 \<Rightarrow> vif \<Rightarrow> vif" where
  "connected_vif hw rt bss aid v =
     v\<lparr>vif_cfg_assoc := True, vif_cfg_aid := aid,
       vif_bss_conf := (vif_bss_conf v)\<lparr>bc_assoc := True, bc_aid := aid, bc_beacon_int := rt_beacon_interval rt,
         bc_basic_rates := basic_rates_mask hw bss, bc_bssid := cp_bssid (rt_connect_params rt),
         bc_transmitter_bssid := cp_bssid (rt_connect_params rt)\<rparr>\<rparr>"

definition connect_complete :: "scan_result \<Rightarrow> u16 \<Rightarrow> mst \<Rightarrow> int \<times> mst" where
  "connect_complete bss aid s =
     (if m_rt s = None \<or> rt_netdev (the_rt s) = None then (- EINVAL, s)
      else
        let s = (if rt_sta (the_rt s) \<noteq> None then free_sta s else s)
        in case alloc_sta bss s of
             (ret, s) \<Rightarrow>
               if ret \<noteq> 0 then (ret, s)
               else case call_op o_sta_add 0 (EvStaAdd (the (rt_sta (the_rt s)))) s of
                   (ret, s) \<Rightarrow>
                     if ret \<noteq> 0 then (ret, free_sta s)
                     else
                       let request_portid = rt_portid (the_rt s);
                           s = upd_rt (\<lambda>rt. rt\<lparr>rt_conn_state := CONNECTED\<rparr>) s;
                           s = upd_vif (connected_vif (m_hw s) (the_rt s) bss aid) s;
                           s = void_op o_bss_info_changed (EvBssInfo (vif_conf s) (2 OR 4)) s;
                           s = void_op o_bss_info_changed (EvBssInfo (vif_conf s) 1) s;
                           s = emit (EvLinkState True) s;
                           s = snd (update_wireless_info s);
                           s = emit (EvConnectResult request_portid 0) s
                       in (0, upd_rt (\<lambda>rt. rt\<lparr>rt_portid := 0\<rparr>) s))"

definition connect_prepare :: "scan_result \<Rightarrow> mst \<Rightarrow> mst" where
  "connect_prepare sel s =
     upd_rt (\<lambda>rt.
       let cp = rt_connect_params rt;
           cp = (if cp_has_bssid cp then cp else cp\<lparr>cp_bssid := sr_bssid sel, cp_has_bssid := True\<rparr>);
           cp = (if cp_frequency cp = 0 then cp\<lparr>cp_frequency := sr_frequency sel\<rparr> else cp)
       in rt\<lparr>rt_connect_params := cp, rt_beacon_interval := sr_beacon_interval sel,
             rt_capability := sr_capability sel, rt_use_qos := bss_has_wmm sel\<rparr>) s"

text \<open>The status code \<^verbatim>\<open>err_connect\<close> reports: 1 for a negative error.\<close>

definition err_connect :: "int \<Rightarrow> mst \<Rightarrow> int \<times> mst" where
  "err_connect ret s = (ret, connect_failed (if ret < 0 then 1 else word_of_int ret) s)"

definition netdev_connect :: "connect_params \<Rightarrow> u32 \<Rightarrow> mst \<Rightarrow> int \<times> mst" where
  "netdev_connect params request_portid s =
     (if m_rt s = None \<or> \<not> rt_started (the_rt s) then (- ENODEV, s)
      else if cp_privacy params then (- EOPNOTSUPP, s)
      else if cp_auth_type params \<noteq> 8 \<and> cp_auth_type params \<noteq> 0 then (- EOPNOTSUPP, s)
      else if rt_conn_state (the_rt s) \<noteq> DISCONNECTED then (- EBUSY, s)
      else
        let s = upd_rt (\<lambda>rt. rt\<lparr>rt_connect_params := params, rt_portid := request_portid\<rparr>) s
        in case select_bss s of
             (ret, sel, s) \<Rightarrow>
               if ret \<noteq> 0 then err_connect ret s
               else case set_channel (cp_frequency (rt_connect_params (the_rt (connect_prepare sel s))))
                           (connect_prepare sel s) of
                   (ret, s) \<Rightarrow>
                     if ret \<noteq> 0 then err_connect ret s
                     else
                       let s = upd_rt (\<lambda>rt. rt\<lparr>rt_conn_state := AUTHENTICATING\<rparr>) s;
                           s = snd (update_wireless_info s)
                       in case send_auth s of
                            (ret, s) \<Rightarrow> if ret \<noteq> 0 then err_connect ret s else (0, s))"

definition send_deauth :: "u16 \<Rightarrow> mst \<Rightarrow> mst" where
  "send_deauth reason_code s =
     (case alloc_tx_skb 26 s of
        (None, s) \<Rightarrow> s
      | (Some skb, s) \<Rightarrow>
          (case skb_put_zero skb 26 s of
             (deauth, skb, s) \<Rightarrow>
               if deauth = 0 then kfree_skb (Some skb) s
               else
                 let bssid = cp_bssid (rt_connect_params (the_rt s));
                     s = poke deauth (le16_bytes 0x00c0) s;
                     s = poke (deauth + 4) bssid s;
                     s = poke (deauth + 10) (vif_addr (the (rt_vif (the_rt s)))) s;
                     s = poke (deauth + 16) bssid s;
                     (seq, s) = next_seq_ctrl s;
                     s = poke (deauth + 22) (le16_bytes seq) s;
                     s = poke (deauth + 24) (le16_bytes reason_code) s
                 in snd (send_mgmt skb s)))"

definition netdev_disconnect :: "u16 \<Rightarrow> u32 \<Rightarrow> mst \<Rightarrow> int \<times> mst" where
  "netdev_disconnect reason_code request_portid s =
     (if m_rt s = None \<or> \<not> rt_started (the_rt s) then (- ENODEV, s)
      else if rt_conn_state (the_rt s) \<noteq> CONNECTED then (- ENOTCONN, s)
      else (0, disconnect_local (if reason_code \<noteq> 0 then reason_code else 3) request_portid False
                 (send_deauth reason_code s)))"

section \<open>Lookups and iteration\<close>

text \<open>\<open>addr\<close> is None for a null pointer; the answer is whether the runtime's station is returned.\<close>

definition find_sta :: "mac option \<Rightarrow> mst \<Rightarrow> sta option" where
  "find_sta addr s =
     (case m_rt s of
        None \<Rightarrow> None
      | Some rt \<Rightarrow>
          if \<not> rt_listed rt then None
          else case rt_sta rt of
              None \<Rightarrow> None
            | Some st \<Rightarrow>
                (case addr of None \<Rightarrow> Some st | Some a \<Rightarrow> if sta_addr st \<noteq> a then None else Some st))"

definition find_sta_by_ifaddr :: "mac option \<Rightarrow> mac option \<Rightarrow> mst \<Rightarrow> sta option" where
  "find_sta_by_ifaddr addr localaddr s =
     (case m_rt s of
        None \<Rightarrow> None
      | Some rt \<Rightarrow>
          (case rt_sta rt of
             None \<Rightarrow> None
           | Some st \<Rightarrow>
               if (case localaddr of None \<Rightarrow> False | Some a \<Rightarrow> vif_addr (the (rt_vif rt)) \<noteq> a) then None
               else if (case addr of None \<Rightarrow> False | Some a \<Rightarrow> sta_addr st \<noteq> a) then None
               else Some st))"

text \<open>The interfaces and stations an iterator is called on.\<close>

definition iterate_active_interfaces :: "mst \<Rightarrow> vif list" where
  "iterate_active_interfaces s =
     (case m_rt s of
        None \<Rightarrow> []
      | Some rt \<Rightarrow> if rt_vif_added rt then (case rt_vif rt of None \<Rightarrow> [] | Some v \<Rightarrow> [v]) else [])"

definition iterate_stations :: "mst \<Rightarrow> sta list" where
  "iterate_stations s =
     (case m_rt s of
        None \<Rightarrow> []
      | Some rt \<Rightarrow>
          (case rt_sta rt of None \<Rightarrow> [] | Some st \<Rightarrow> if rt_conn_state rt = CONNECTED then [st] else []))"

definition ieee80211_disconnect :: "mst \<Rightarrow> mst" where
  "ieee80211_disconnect s =
     (case m_rt s of
        None \<Rightarrow> s
      | Some rt \<Rightarrow> if rt_listed rt then disconnect_local 3 0 False s else s)"

section \<open>Scan requests\<close>

definition free_scan_req :: "mst \<Rightarrow> mst" where
  "free_scan_req s =
     (if m_rt s = None \<or> rt_scan_req (the_rt s) = None then s
      else upd_rt (\<lambda>rt. rt\<lparr>rt_scan_req := None\<rparr>) (kfree_obj (kfree_obj (kfree_obj s))))"

text \<open>Count the channels of all bands; None is the overflow of an \<^verbatim>\<open>int\<close> count.\<close>

fun count_channels :: "hw \<Rightarrow> nl80211_band list \<Rightarrow> nat \<Rightarrow> nat option" where
  "count_channels hw [] n = Some n"
| "count_channels hw (b # bs) n =
     (case hw_bands hw b of
        None \<Rightarrow> count_channels hw bs n
      | Some sb \<Rightarrow>
          if n_channels sb = 0 then count_channels hw bs n
          else if n_channels sb > 2147483647 - n then None
          else count_channels hw bs (n + n_channels sb))"

fun list_channels :: "hw \<Rightarrow> nl80211_band list \<Rightarrow> chan_ref list" where
  "list_channels hw [] = []"
| "list_channels hw (b # bs) =
     (case hw_bands hw b of
        None \<Rightarrow> []
      | Some sb \<Rightarrow> map (\<lambda>i. (b, i)) [0..<n_channels sb]) @ list_channels hw bs"

fun copy_ssids :: "nat \<Rightarrow> (u8 list \<times> u8) list \<Rightarrow> (u8 list \<times> u8) list option" where
  "copy_ssids 0 src = Some []"
| "copy_ssids (Suc n) src =
     (if unat (snd (hd src)) > 32 then None
      else map_option ((#) (take (unat (snd (hd src))) (fst (hd src)), snd (hd src))) (copy_ssids n (tl src)))"

text \<open>The three allocations, made one after the other whatever the outcome of the earlier ones.\<close>

definition kfree_opt :: "nat option \<Rightarrow> 'a kst_scheme \<Rightarrow> 'a kst_scheme" where
  "kfree_opt p s = (case p of None \<Rightarrow> s | Some _ \<Rightarrow> kfree_obj s)"

definition alloc_scan_req :: "scan_params option \<Rightarrow> mst \<Rightarrow> int \<times> mst" where
  "alloc_scan_req params s =
     (if m_rt s = None then (- EINVAL, s)
      else if rt_scan_req (the_rt s) \<noteq> None then (- EBUSY, s)
      else case count_channels (m_hw s) all_bands 0 of
          None \<Rightarrow> (- EOVERFLOW, s)
        | Some cnt \<Rightarrow>
            if cnt = 0 then (- EINVAL, s)
            else
              let (scan_req, s) = kzalloc_obj s;
                  (channels, s) = kzalloc_obj s;
                  wanted = (case params of None \<Rightarrow> 1 | Some p \<Rightarrow> if sp_n_ssids p \<noteq> 0 then sp_n_ssids p else 1);
                  ssid_count = (if wanted > e_max_scan_ssids (m_env s) then e_max_scan_ssids (m_env s) else wanted);
                  (ssids, s) = kzalloc_obj s;
                  undo = (\<lambda>s. kfree_opt scan_req (kfree_opt channels (kfree_opt ssids s)))
              in if scan_req = None \<or> channels = None \<or> ssids = None then (- ENOMEM, undo s)
                 else
                   let copied = (case params of
                         None \<Rightarrow> Some (replicate (unat ssid_count) (replicate 32 0, 0))
                       | Some p \<Rightarrow>
                           if sp_n_ssids p \<noteq> 0 then copy_ssids (unat ssid_count) (sp_ssids p)
                           else Some (replicate (unat ssid_count) (replicate 32 0, 0)))
                   in case copied of
                        None \<Rightarrow> (- EINVAL, undo s)
                      | Some ss \<Rightarrow>
                          (0, upd_rt (\<lambda>rt. rt\<lparr>rt_scan_req := Some \<lparr>sq_channels = map Some (list_channels (m_hw s) all_bands),
                                sq_ssids = ss, sq_bssid = eth_broadcast_addr, sq_duration_mandatory = False,
                                sq_no_cck = False\<rparr>\<rparr>) s))"

definition trigger_scan :: "scan_params option \<Rightarrow> u32 \<Rightarrow> mst \<Rightarrow> int \<times> mst" where
  "trigger_scan params request_portid s =
     (if m_rt s = None \<or> rt_vif (the_rt s) = None \<or> rt_netdev (the_rt s) = None then (- ENODEV, s)
      else if \<not> rt_started (the_rt s) \<or> \<not> has_op (\<lambda>t. o_hw_scan t \<noteq> None) s then (- EOPNOTSUPP, s)
      else case alloc_scan_req params s of
          (ret, s) \<Rightarrow>
            if ret \<noteq> 0 then (ret, s)
            else case call_env e_scan_begin (EvScanBegin request_portid) (configure_scan_filter True s) of
                (ret, s) \<Rightarrow>
                  if ret \<noteq> 0 then (ret, free_scan_req (configure_scan_filter False s))
                  else case call_op o_hw_scan 0 (EvHwScan (the (rt_scan_req (the_rt s)))) s of
                      (ret, s) \<Rightarrow>
                        if ret = 1 then
                          (case run_sw_scan s of
                             (ret, s) \<Rightarrow>
                               (ret, free_scan_req (emit (EvScanComplete (ret \<noteq> 0)) (configure_scan_filter False s))))
                        else if ret \<noteq> 0 then
                          (ret, free_scan_req (configure_scan_filter False (emit (EvScanComplete True) s)))
                        else (0, s))"

text \<open>\<open>aborted\<close> is \<^verbatim>\<open>info->aborted\<close>, None for a null \<^verbatim>\<open>info\<close>.\<close>

definition scan_completed :: "bool option \<Rightarrow> mst \<Rightarrow> mst" where
  "scan_completed aborted s =
     (if m_rt s = None \<or> rt_netdev (the_rt s) = None then s
      else free_scan_req (emit (EvScanComplete (case aborted of None \<Rightarrow> False | Some a \<Rightarrow> a))
             (configure_scan_filter False s)))"

end
