(* ===== verification/LC_Mac_Rx.thy ===== *)
theory LC_Mac_Rx
  imports LC_Mac_Conn
begin

text \<open>
  The receive path (\<^verbatim>\<open>mac80211.c\<close>): classification of a received frame, the handlers of management
  frames that drive the connection, conversion of data frames to Ethernet, A-MSDU splitting and the
  queue the host reads.  A received buffer's bytes are read from memory at \<open>sb_data\<close>.
\<close>

section \<open>Fields of a frame\<close>

definition fr16 :: "addr \<Rightarrow> 'a kst_scheme \<Rightarrow> u16" where
  "fr16 a s = get_unaligned_le16 (k_mem s) a"

definition fr64 :: "addr \<Rightarrow> 'a kst_scheme \<Rightarrow> u64" where
  "fr64 a s = ucast (get_unaligned_le32 (k_mem s) a) OR push_bit 32 (ucast (get_unaligned_le32 (k_mem s) (a + 4)))"

definition fr_mac :: "addr \<Rightarrow> 'a kst_scheme \<Rightarrow> mac" where
  "fr_mac a s = load_bytes (k_mem s) a 6"

text \<open>\<^verbatim>\<open>frame_control\<close>, \<^verbatim>\<open>addr1\<close>/\<^verbatim>\<open>da\<close>, \<^verbatim>\<open>addr2\<close>/\<^verbatim>\<open>sa\<close>, \<^verbatim>\<open>addr3\<close>/\<^verbatim>\<open>bssid\<close> at their offsets.\<close>

abbreviation hdr_fc :: "skb \<Rightarrow> 'a kst_scheme \<Rightarrow> u16" where "hdr_fc skb s \<equiv> fr16 (sb_data skb) s"
abbreviation hdr_addr1 :: "skb \<Rightarrow> 'a kst_scheme \<Rightarrow> mac" where "hdr_addr1 skb s \<equiv> fr_mac (sb_data skb + 4) s"
abbreviation hdr_addr2 :: "skb \<Rightarrow> 'a kst_scheme \<Rightarrow> mac" where "hdr_addr2 skb s \<equiv> fr_mac (sb_data skb + 10) s"
abbreviation hdr_addr3 :: "skb \<Rightarrow> 'a kst_scheme \<Rightarrow> mac" where "hdr_addr3 skb s \<equiv> fr_mac (sb_data skb + 16) s"

section \<open>Scan results\<close>

text \<open>\<^verbatim>\<open>sizeof(struct ieee80211_mgmt)\<close> is 40 (the beacon body, padded to 16, after 24 bytes); the
  variable part of a beacon or probe response starts at 36.\<close>

definition store_scan_result :: "skb \<Rightarrow> mst \<Rightarrow> int \<times> mst" where
  "store_scan_result skb s =
     (if m_rt s = None \<or> rt_netdev (the_rt s) = None \<or> \<not> lcompat_skb_valid_bounds skb \<or> sb_len skb < 40
      then (- EINVAL, s)
      else if \<not> is_beacon (hdr_fc skb s) \<and> \<not> is_probe_resp (hdr_fc skb s) then (- EINVAL, s)
      else if sb_len skb \<le> 36 then (- EINVAL, s)
      else
        let a = sb_data skb;
            freq = rx_freq (sb_cb skb);
            ie_len = min (unat (sb_len skb) - 36) (e_max_scan_ie_len (m_env s));
            result = \<lparr>sr_valid = True, sr_bssid = hdr_addr3 skb s,
              sr_frequency = (if freq \<noteq> 0 then word_of_int freq else cd_center_freq1 (hw_chandef (m_hw s))),
              sr_signal_mbm = rx_signal (sb_cb skb) * 100,
              sr_tsf = fr64 (a + 24) s, sr_beacon_interval = fr16 (a + 32) s, sr_capability = fr16 (a + 34) s,
              sr_ie_len = of_nat ie_len,
              sr_ies = load_bytes (k_mem s) (a + 36) ie_len @ replicate (e_max_scan_ie_len (m_env s) - ie_len) 0\<rparr>
        in call_env e_scan_store (EvScanStore result) s)"

section \<open>Management frames\<close>

definition mgmt_matches :: "skb \<Rightarrow> mst \<Rightarrow> bool" where
  "mgmt_matches skb s =
     (if m_rt s = None then False
      else if hdr_addr1 skb s \<noteq> vif_addr (the (rt_vif (the_rt s))) then False
      else if \<not> cp_has_bssid (rt_connect_params (the_rt s)) then True
      else hdr_addr3 skb s = cp_bssid (rt_connect_params (the_rt s)))"

text \<open>What both handlers use when the network is no longer in the scan table.\<close>

definition fallback_bss :: "mst \<Rightarrow> scan_result" where
  "fallback_bss s =
     (zero_result (e_max_scan_ie_len (m_env s)))\<lparr>sr_valid := True,
        sr_frequency := cp_frequency (rt_connect_params (the_rt s)),
        sr_bssid := cp_bssid (rt_connect_params (the_rt s)),
        sr_beacon_interval := rt_beacon_interval (the_rt s), sr_capability := rt_capability (the_rt s)\<rparr>"

definition selected_or_fallback :: "mst \<Rightarrow> scan_result \<times> mst" where
  "selected_or_fallback s =
     (case select_bss s of (ret, sel, s) \<Rightarrow> (if ret < 0 then fallback_bss s else sel, s))"

definition handle_auth_rx :: "skb \<Rightarrow> mst \<Rightarrow> bool \<times> mst" where
  "handle_auth_rx skb s =
     (if sb_len skb < 30 then (False, s)
      else if rt_conn_state (the_rt s) \<noteq> AUTHENTICATING \<or> \<not> mgmt_matches skb s then (True, s)
      else
        let status_code = fr16 (sb_data skb + 28) s;
            transaction = fr16 (sb_data skb + 26) s
        in if status_code \<noteq> 0 \<or> transaction \<noteq> 2 then (True, connect_failed status_code s)
           else
             let (selected, s) = selected_or_fallback s;
                 s = upd_rt (\<lambda>rt. rt\<lparr>rt_conn_state := ASSOCIATING\<rparr>) s
             in case send_assoc_req selected s of
                  (ret, s) \<Rightarrow> (True, if ret < 0 then connect_failed 1 s else s))"

definition handle_assoc_resp_rx :: "skb \<Rightarrow> mst \<Rightarrow> bool \<times> mst" where
  "handle_assoc_resp_rx skb s =
     (if sb_len skb < 30 then (False, s)
      else if rt_conn_state (the_rt s) \<noteq> ASSOCIATING \<or> \<not> mgmt_matches skb s then (True, s)
      else
        let status_code = fr16 (sb_data skb + 26) s;
            aid = fr16 (sb_data skb + 28) s AND 0x3fff
        in if status_code \<noteq> 0 then (True, connect_failed status_code s)
           else
             let (selected, s) = selected_or_fallback s
             in case connect_complete selected aid s of
                  (ret, s) \<Rightarrow> (True, if ret < 0 then connect_failed 1 s else s))"

definition handle_disconnect_rx :: "skb \<Rightarrow> mst \<Rightarrow> bool \<times> mst" where
  "handle_disconnect_rx skb s =
     (if sb_len skb < 26 then (False, s)
      else if rt_conn_state (the_rt s) = DISCONNECTED \<or> \<not> mgmt_matches skb s then (True, s)
      else (True, disconnect_local (fr16 (sb_data skb + 24) s) 0 True s))"

definition handle_mgmt_rx :: "skb \<Rightarrow> mst \<Rightarrow> bool \<times> mst" where
  "handle_mgmt_rx skb s =
     (let fc = hdr_fc skb s
      in if m_rt s = None \<or> \<not> lcompat_skb_valid_bounds skb \<or> sb_len skb < 24 then (False, s)
         else if is_beacon fc \<or> is_probe_resp fc then
           (True, if rt_scan_req (the_rt s) \<noteq> None then snd (store_scan_result skb s) else s)
         else if is_probe_req fc then (True, s)
         else if is_auth fc then handle_auth_rx skb s
         else if is_assoc_resp fc then handle_assoc_resp_rx skb s
         else if is_deauth fc then handle_disconnect_rx skb s
         else if is_disassoc fc then handle_disconnect_rx skb s
         else (False, s))"

section \<open>Data frames\<close>

definition data_bssid :: "skb \<Rightarrow> mst \<Rightarrow> mac option" where
  "data_bssid skb s =
     (let fc = hdr_fc skb s
      in if \<not> has_tods fc \<and> has_fromds fc then Some (hdr_addr2 skb s)
         else if has_tods fc \<and> \<not> has_fromds fc then Some (hdr_addr1 skb s)
         else if \<not> has_tods fc \<and> \<not> has_fromds fc then Some (hdr_addr3 skb s)
         else None)"

definition rx_data_matches_bss :: "skb \<Rightarrow> mst \<Rightarrow> bool" where
  "rx_data_matches_bss skb s =
     (if m_rt s = None \<or> rt_vif (the_rt s) = None \<or> rt_conn_state (the_rt s) \<noteq> CONNECTED \<or>
        \<not> cp_has_bssid (rt_connect_params (the_rt s)) then False
      else if has_tods (hdr_fc skb s) \<or> \<not> has_fromds (hdr_fc skb s) then False
      else (case data_bssid skb s of
          None \<Rightarrow> False
        | Some b \<Rightarrow>
            if \<not> ether_addr_equal b (cp_bssid (rt_connect_params (the_rt s))) then False
            else if \<not> ether_addr_equal (hdr_addr1 skb s) (vif_addr (the (rt_vif (the_rt s)))) \<and>
              \<not> is_multicast_ether_addr (hdr_addr1 skb s) then False
            else True))"

text \<open>The protocol to store, already in network order, and the bytes to skip; None is \<^verbatim>\<open>false\<close>.\<close>

definition snap_to_ethertype :: "addr \<Rightarrow> u32 \<Rightarrow> 'a kst_scheme \<Rightarrow> (u16 \<times> u32) option" where
  "snap_to_ethertype payload payload_len s =
     (if payload_len < 8 then None
      else
        let ethertype = get_unaligned_be16 (k_mem s) (payload + 6);
            head6 = load_bytes (k_mem s) payload 6
        in if head6 = [0xaa, 0xaa, 0x03, 0x00, 0x00, 0x00] \<and> ethertype \<noteq> 0x80f3 \<and> ethertype \<noteq> 0x8137
           then Some (cpu_to_be16 ethertype, 8)
           else if head6 = [0xaa, 0xaa, 0x03, 0x00, 0x00, 0xf8] then Some (cpu_to_be16 ethertype, 8)
           else None)"

definition data_to_ethernet :: "skb \<Rightarrow> mst \<Rightarrow> int \<times> skb \<times> mst" where
  "data_to_ethernet skb s =
     (if \<not> lcompat_skb_valid_bounds skb \<or> sb_len skb < 24 + 8 then (- EINVAL, skb, s)
      else
        let fc = hdr_fc skb s;
            tods = has_tods fc;
            fromds = has_fromds fc;
            hdr_len = data_hdr_len fc
        in if fc AND 0x4000 \<noteq> 0 then (- EOPNOTSUPP, skb, s)
           else if \<not> is_data_present fc \<or> (tods \<and> fromds) then (- EINVAL, skb, s)
           else if sb_len skb < hdr_len + 8 then (- EINVAL, skb, s)
           else
             let (dst, src) =
                   (if \<not> tods \<and> fromds then (hdr_addr1 skb s, hdr_addr3 skb s)
                    else if tods \<and> \<not> fromds then (hdr_addr3 skb s, hdr_addr2 skb s)
                    else (hdr_addr1 skb s, hdr_addr2 skb s));
                 payload = sb_data skb + unat hdr_len;
                 payload_len = sb_len skb - hdr_len
             in case snap_to_ethertype payload payload_len s of
                  None \<Rightarrow> (- EINVAL, skb, s)
                | Some (proto, skip) \<Rightarrow>
                    let payload_len = payload_len - skip;
                        s = poke (sb_data skb + 14) (load_bytes (k_mem s) (payload + unat skip) (unat payload_len)) s;
                        s = poke (sb_data skb) dst s;
                        s = poke (sb_data skb + 6) src s;
                        s = poke (sb_data skb + 12) (le16_bytes proto) s;
                        (skb, s) = skb_trim skb (14 + payload_len) s
                    in (0, skb\<lparr>sb_protocol := proto\<rparr>, s))"

definition is_amsdu :: "skb \<Rightarrow> u32 \<Rightarrow> mst \<Rightarrow> bool" where
  "is_amsdu skb hdr_len s =
     (if sb_len skb < hdr_len \<or> hdr_len < 24 + 2 then False
      else k_mem s (sb_data skb + unat hdr_len - 2) AND 0x80 \<noteq> 0)"

definition build_eth_skb :: "mac \<Rightarrow> mac \<Rightarrow> addr \<Rightarrow> u32 \<Rightarrow> mst \<Rightarrow> skb option \<times> mst" where
  "build_eth_skb dst src payload payload_len s =
     (case snap_to_ethertype payload payload_len s of
        None \<Rightarrow> (None, s)
      | Some (proto, skip) \<Rightarrow>
          let eth_payload_len = payload_len - skip
          in if (ucast eth_payload_len :: u64) > 4294967295 - 14 then (None, s)
             else case alloc_skb (14 + ucast eth_payload_len) s of
                 (None, s) \<Rightarrow> (None, s)
               | (Some skb, s) \<Rightarrow>
                   (case skb_put_zero skb 14 s of
                      (eth, skb, s) \<Rightarrow>
                        if eth = 0 then (None, kfree_skb (Some skb) s)
                        else
                          let s = poke eth dst s;
                              s = poke (eth + 6) src s;
                              s = poke (eth + 12) (le16_bytes proto) s
                          in if eth_payload_len = 0 then (Some (skb\<lparr>sb_protocol := proto\<rparr>), s)
                             else case skb_put_data skb
                                 (Some (load_bytes (k_mem s) (payload + unat skip) (unat eth_payload_len)))
                                 eth_payload_len s of
                               (p, skb, s) \<Rightarrow>
                                 if p = 0 then (None, kfree_skb (Some skb) s)
                                 else (Some (skb\<lparr>sb_protocol := proto\<rparr>), s)))"

text \<open>One round of the loop: the subframe whose header is at \<open>pos\<close>, of which \<open>remaining\<close> bytes are
  left.  The first component is how far the payload and its padding reach, None when the code
  leaves the loop.\<close>

definition amsdu_sub :: "addr \<Rightarrow> u32 \<Rightarrow> u32 \<Rightarrow> mst \<Rightarrow> u32 option \<times> u32 \<times> mst" where
  "amsdu_sub pos remaining queued s =
     (let dst = fr_mac pos s;
          src = fr_mac (pos + 6) s;
          msdu_len = (ucast (get_unaligned_be16 (k_mem s) (pos + 12)) :: u32);
          pos = pos + 14;
          remaining = remaining - 14
      in if msdu_len = 0 \<or> msdu_len > remaining then (None, queued, s)
         else
           let (eth_skb, s) = build_eth_skb dst src pos msdu_len s;
               (queued, s) = (case eth_skb of
                   None \<Rightarrow> (queued, s)
                 | Some b \<Rightarrow> (queued + 1, upd_rt (\<lambda>rt. rt\<lparr>rt_rx_queue := rt_rx_queue rt @ [b]\<rparr>) s));
               subframe_len = 14 + msdu_len;
               padded_len = (subframe_len + 3) AND NOT 3
           in (if padded_len < subframe_len \<or> padded_len - 14 > remaining then None else Some (padded_len - 14),
               queued, s))"

lemma amsdu_sub_adv: "amsdu_sub pos remaining queued s = (Some adv, q, s') \<Longrightarrow> \<not> adv > remaining - 14"
  by (auto simp: amsdu_sub_def Let_def split: if_splits prod.splits)

lemma amsdu_decreases:
  "(r :: u32) \<ge> 14 \<Longrightarrow> \<not> p > r - 14 \<Longrightarrow> unat (r - 14 - p) < unat r"
  by (simp add: word_le_nat_alt word_less_nat_alt unat_sub_if')

function amsdu_loop :: "addr \<Rightarrow> u32 \<Rightarrow> u32 \<Rightarrow> mst \<Rightarrow> u32 \<times> mst" where
  "amsdu_loop pos remaining queued s =
     (if remaining \<ge> 14 then
        (case amsdu_sub pos remaining queued s of
           (None, queued, s) \<Rightarrow> (queued, s)
         | (Some adv, queued, s) \<Rightarrow> amsdu_loop (pos + 14 + unat adv) (remaining - 14 - adv) queued s)
      else (queued, s))"
  by pat_completeness auto
termination
  by (relation "measure (\<lambda>(pos, remaining, queued, s). unat remaining)")
    (rule wf_measure, clarsimp, rule amsdu_decreases, assumption, drule sym, drule amsdu_sub_adv, simp)

declare amsdu_loop.simps [simp del]

definition enqueue_amsdu :: "skb \<Rightarrow> u32 \<Rightarrow> mst \<Rightarrow> int \<times> mst" where
  "enqueue_amsdu skb hdr_len s =
     (if m_rt s = None \<or> sb_len skb < hdr_len then (- EINVAL, s)
      else case amsdu_loop (sb_data skb + unat hdr_len) (sb_len skb - hdr_len) 0 s of
          (queued, s) \<Rightarrow> (if queued \<noteq> 0 then 0 else - EINVAL, s))"

section \<open>Entry points\<close>

text \<open>The tail of the handler, for a data frame of the station's BSS.\<close>

definition rx_data :: "skb \<Rightarrow> mst \<Rightarrow> mst" where
  "rx_data skb s =
     (let hdr_len = data_hdr_len (hdr_fc skb s);
          (done, s) = (if is_amsdu skb hdr_len s
            then (let (ret, s) = enqueue_amsdu skb hdr_len s in (ret = 0, s)) else (False, s))
      in if done then kfree_skb (Some skb) s
         else case data_to_ethernet skb s of
             (ret, skb, s) \<Rightarrow>
               if ret \<noteq> 0 then kfree_skb (Some skb) s
               else upd_rt (\<lambda>rt. rt\<lparr>rt_rx_queue := rt_rx_queue rt @ [skb]\<rparr>) s)"

definition rx_irqsafe :: "skb \<Rightarrow> mst \<Rightarrow> mst" where
  "rx_irqsafe skb s =
     (if m_rt s = None \<or> \<not> lcompat_skb_valid_bounds skb then kfree_skb (Some skb) s
      else if rx_flag (sb_cb skb) AND (1 OR 16) \<noteq> 0 then kfree_skb (Some skb) s
      else if hw_flags (m_hw s) AND 2 \<noteq> 0 \<and> sb_len skb \<le> 4 then kfree_skb (Some skb) s
      else
        let (skb, s) = (if hw_flags (m_hw s) AND 2 \<noteq> 0 then skb_trim skb (sb_len skb - 4) s else (skb, s));
            fc = hdr_fc skb s
        in if sb_len skb \<ge> 2 \<and> is_ctl fc then kfree_skb (Some skb) s
           else if sb_len skb < 24 then kfree_skb (Some skb) s
           else if is_mgmt fc then (let (_, s) = handle_mgmt_rx skb s in kfree_skb (Some skb) s)
           else if is_ctl fc then kfree_skb (Some skb) s
           else if \<not> is_data_present fc then kfree_skb (Some skb) s
           else if \<not> rx_data_matches_bss skb s then kfree_skb (Some skb) s
           else rx_data skb s)"

text \<open>The result carries the bytes copied to the host's buffer of \<open>n\<close> bytes.\<close>

definition netdev_recv :: "u32 \<Rightarrow> mst \<Rightarrow> int \<times> u8 list \<times> mst" where
  "netdev_recv n s =
     (case m_rt s of
        None \<Rightarrow> (- EINVAL, [], s)
      | Some rt \<Rightarrow>
          (case rt_rx_queue rt of
             [] \<Rightarrow> (- EAGAIN, [], s)
           | skb # rest \<Rightarrow>
               let s = upd_rt (\<lambda>rt. rt\<lparr>rt_rx_queue := rest\<rparr>) s
               in if n < sb_len skb then (- EMSGSIZE, [], kfree_skb (Some skb) s)
                  else (sint (sb_len skb), skb_bytes skb s, kfree_skb (Some skb) s)))"

end
