(* ===== verification/LC_Mac_Reg.thy ===== *)
theory LC_Mac_Reg
  imports LC_Mac_Rx
begin

text \<open>
  Hardware and interfaces coming and going: \<^verbatim>\<open>ieee80211_alloc_hw\<close>, \<^verbatim>\<open>free_hw\<close>, \<^verbatim>\<open>register_hw\<close>,
  \<^verbatim>\<open>unregister_hw\<close> and the virtual interface (\<^verbatim>\<open>mac80211.c\<close>), the transmit status hand-over, and
  the template frames of \<^verbatim>\<open>net/mac80211.h\<close>.
\<close>

section \<open>The interface\<close>

definition new_vif :: "hw \<Rightarrow> vif" where
  "new_vif hw =
     \<lparr>vif_type = 2, vif_addr = hw_perm_addr hw, vif_cfg_assoc = False, vif_cfg_aid = 0,
      vif_bss_conf = \<lparr>bc_assoc = False, bc_aid = 0, bc_beacon_int = 0, bc_bssid = eth_zero_addr,
        bc_transmitter_bssid = eth_zero_addr, bc_basic_rates = 0\<rparr>\<rparr>"

definition alloc_vif :: "mst \<Rightarrow> int \<times> mst" where
  "alloc_vif s =
     (if m_rt s = None then (- EINVAL, s)
      else if hw_vif_data_size (m_hw s) < 0 \<or> hw_txq_data_size (m_hw s) < 0 then (- EINVAL, s)
      else if size_add (e_sizeof_vif (m_env s)) (word_of_int (hw_vif_data_size (m_hw s))) = None \<or>
        size_add (e_sizeof_txq (m_env s)) (word_of_int (hw_txq_data_size (m_hw s))) = None then (- EOVERFLOW, s)
      else
        let (v, s) = kzalloc_obj s;
            (q, s) = kzalloc_obj s
        in if v = None \<or> q = None
           then (- ENOMEM, upd_rt (\<lambda>rt. rt\<lparr>rt_vif := None, rt_txq := None\<rparr>) (kfree_opt q (kfree_opt v s)))
           else (0, upd_rt (\<lambda>rt. rt\<lparr>rt_vif := Some (new_vif (m_hw s)), rt_txq := Some []\<rparr>) s))"

definition free_vif :: "mst \<Rightarrow> mst" where
  "free_vif s =
     (case m_rt s of
        None \<Rightarrow> s
      | Some rt \<Rightarrow>
          let s = (case rt_txq rt of None \<Rightarrow> s | Some q \<Rightarrow> kfree_obj (purge_queue q s));
              s = (case rt_vif rt of None \<Rightarrow> s | Some _ \<Rightarrow> kfree_obj s)
          in upd_rt (\<lambda>rt. rt\<lparr>rt_txq := None, rt_vif := None\<rparr>) s)"

section \<open>Allocating the hardware\<close>

text \<open>\<open>hw0\<close> stands for the zeroed structures; the three objects are the hardware, the wiphy and the
  driver's private area.\<close>

definition alloc_hw :: "ops option \<Rightarrow> hw \<Rightarrow> 'a kst_scheme \<Rightarrow> hw option \<times> 'a kst_scheme" where
  "alloc_hw t hw0 s =
     (case kzalloc_obj s of
        (None, s) \<Rightarrow> (None, s)
      | (Some _, s) \<Rightarrow>
          (case kzalloc_obj s of
             (None, s) \<Rightarrow> (None, kfree_obj s)
           | (Some _, s) \<Rightarrow>
               (case kzalloc_obj s of
                  (None, s) \<Rightarrow> (None, kfree_obj (kfree_obj s))
                | (Some _, s) \<Rightarrow>
                    (Some (hw0\<lparr>hw_ops := t, hw_queues := 4, hw_rts_threshold := 2347\<rparr>), s))))"

section \<open>Registration\<close>

definition free_runtime :: "mst \<Rightarrow> mst" where
  "free_runtime s = kfree_obj (s\<lparr>m_rt := None\<rparr>)"

definition err_runtime :: "int \<Rightarrow> mst \<Rightarrow> int \<times> mst" where
  "err_runtime ret s = (ret, free_runtime s)"

definition err_vif :: "int \<Rightarrow> mst \<Rightarrow> int \<times> mst" where
  "err_vif ret s = err_runtime ret (free_vif s)"

definition unregister_netdev :: "mst \<Rightarrow> mst" where
  "unregister_netdev s =
     (if rt_netdev (the_rt s) \<noteq> None
      then upd_rt (\<lambda>rt. rt\<lparr>rt_netdev := None\<rparr>) (emit EvUnregister s) else s)"

definition err_netdev :: "int \<Rightarrow> mst \<Rightarrow> int \<times> mst" where
  "err_netdev ret s = err_vif ret (unregister_netdev s)"

definition remove_vif :: "mst \<Rightarrow> mst" where
  "remove_vif s =
     (let s = (if rt_vif_added (the_rt s)
               then void_op o_remove_interface (EvRemoveInterface (the (rt_vif (the_rt s)))) s else s)
      in upd_rt (\<lambda>rt. rt\<lparr>rt_vif_added := False\<rparr>) s)"

definition err_remove_vif :: "int \<Rightarrow> mst \<Rightarrow> int \<times> mst" where
  "err_remove_vif ret s = err_netdev ret (remove_vif s)"

text \<open>The three \<^verbatim>\<open>netdev_set_trigger_*\<close> calls, each stopping at the first failure.\<close>

fun set_triggers :: "nat list \<Rightarrow> mst \<Rightarrow> int \<times> mst" where
  "set_triggers [] s = (0, s)"
| "set_triggers (k # ks) s =
     (case call_env e_set_trigger (EvSetTrigger k) s of
        (ret, s) \<Rightarrow> if ret \<noteq> 0 then (ret, s) else set_triggers ks s)"

definition register_start :: "mst \<Rightarrow> int \<times> mst" where
  "register_start s =
     (case call_op o_add_interface 0 (EvAddInterface (the (rt_vif (the_rt s)))) s of
        (ret, s) \<Rightarrow>
          if ret \<noteq> 0 then err_netdev ret s
          else
            let s = upd_rt (\<lambda>rt. rt\<lparr>rt_vif_added := True\<rparr>) s
            in case call_op o_start 0 EvStart s of
                 (ret, s) \<Rightarrow>
                   if ret \<noteq> 0 then err_remove_vif ret s
                   else
                     let s = upd_rt (\<lambda>rt. rt\<lparr>rt_started := True\<rparr>) s;
                         s = emit (EvAdminState True) s;
                         s = emit (EvLinkState False) s
                     in (0, upd_rt (\<lambda>rt. rt\<lparr>rt_listed := True\<rparr>) s))"

definition register_hw :: "mst \<Rightarrow> int \<times> mst" where
  "register_hw s =
     (if hw_ops (m_hw s) = None then (- EINVAL, s)
      else case default_channel s of
          (ret, s) \<Rightarrow>
            if ret \<noteq> 0 then (ret, s)
            else case kzalloc_obj s of
                (None, s) \<Rightarrow> (- ENOMEM, s)
              | (Some _, s) \<Rightarrow>
                  (case alloc_vif (s\<lparr>m_rt := Some (zero_runtime (m_env s))\<rparr>) of
                     (ret, s) \<Rightarrow>
                       if ret \<noteq> 0 then err_runtime ret s
                       else case call_env e_register (EvRegister (hw_perm_addr (m_hw s))) s of
                           (None, s) \<Rightarrow> err_vif (- ENOMEM) s
                         | (Some dev, s) \<Rightarrow>
                             (let s = upd_rt (\<lambda>rt. rt\<lparr>rt_netdev := Some dev\<rparr>) s
                              in case call_env e_set_wireless_info
                                     (EvWirelessInfo (fill_wireless_info (m_hw s) (the_rt s) dev)) s of
                                   (ret, s) \<Rightarrow>
                                     if ret \<noteq> 0 then err_netdev ret s
                                     else case set_triggers [0, 1, 2] s of
                                         (ret, s) \<Rightarrow>
                                           if ret \<noteq> 0 then err_netdev ret s else register_start s)))"

definition unregister_hw :: "mst \<Rightarrow> mst" where
  "unregister_hw s =
     (if m_rt s = None then s
      else
        let s = upd_rt (\<lambda>rt. rt\<lparr>rt_listed := False\<rparr>) s;
            s = (if rt_netdev (the_rt s) \<noteq> None then emit (EvAdminState False) s else s);
            s = (if rt_conn_state (the_rt s) \<noteq> DISCONNECTED then disconnect_local 3 0 False s else s);
            s = (if rt_started (the_rt s) then void_op o_stop EvStop s else s);
            s = upd_rt (\<lambda>rt. rt\<lparr>rt_started := False\<rparr>) s;
            s = remove_vif s;
            s = unregister_netdev s;
            s = configure_scan_filter False s;
            s = free_scan_req s;
            s = free_sta s;
            s = purge_queue (rt_rx_queue (the_rt s)) s;
            s = free_vif s
        in free_runtime s)"

definition free_hw :: "mst \<Rightarrow> mst" where
  "free_hw s =
     (let s = (if m_rt s \<noteq> None then unregister_hw s else s)
      in kfree_obj (kfree_obj (kfree_obj s)))"

section \<open>Transmit status\<close>

text \<open>\<open>queue_work\<close> is the answer of the work queue; the work itself frees the buffer and the item.\<close>

definition tx_status_irqsafe :: "skb option \<Rightarrow> bool \<Rightarrow> 'a kst_scheme \<Rightarrow> skb option \<times> 'a kst_scheme" where
  "tx_status_irqsafe skb queue_work s =
     (case skb of
        None \<Rightarrow> (None, s)
      | Some b \<Rightarrow>
          (case kzalloc_obj s of
             (None, s) \<Rightarrow> (None, kfree_skb (Some b) s)
           | (Some _, s) \<Rightarrow>
               if \<not> queue_work then (None, kfree_obj (kfree_skb (Some b) s)) else (Some b, s)))"

definition tx_status_work :: "skb option \<Rightarrow> 'a kst_scheme \<Rightarrow> 'a kst_scheme" where
  "tx_status_work skb s = kfree_obj (kfree_skb skb s)"

section \<open>Template frames\<close>

definition extra_tx_headroom :: "hw \<Rightarrow> u64" where
  "extra_tx_headroom hw = (if hw_extra_tx_headroom hw \<le> 0 then 0 else word_of_int (hw_extra_tx_headroom hw))"

definition alloc_helper_skb :: "hw \<Rightarrow> u64 \<Rightarrow> u64 \<Rightarrow> 'a kst_scheme \<Rightarrow> skb option \<times> 'a kst_scheme" where
  "alloc_helper_skb hw payload_len tailroom s =
     (let headroom = extra_tx_headroom hw
      in case (case size_add headroom payload_len of None \<Rightarrow> None | Some l \<Rightarrow> size_add l tailroom) of
           None \<Rightarrow> (None, s)
         | Some skb_len \<Rightarrow>
             if skb_len > 4294967295 \<or> headroom > 4294967295 then (None, s)
             else case alloc_skb skb_len s of
                 (None, s) \<Rightarrow> (None, s)
               | (Some skb, s) \<Rightarrow> (Some (if headroom \<noteq> 0 then skb_reserve skb (ucast headroom) else skb), s))"

definition vif_bssid :: "vif option \<Rightarrow> mac option" where
  "vif_bssid v =
     (case v of
        None \<Rightarrow> None
      | Some v \<Rightarrow>
          if \<not> is_zero_ether_addr (bc_bssid (vif_bss_conf v)) then Some (bc_bssid (vif_bss_conf v))
          else Some (vif_addr v))"

definition copy_addr :: "mac option \<Rightarrow> bool \<Rightarrow> mac" where
  "copy_addr src broadcast_if_null =
     (case src of
        Some a \<Rightarrow> a
      | None \<Rightarrow> if broadcast_if_null then eth_broadcast_addr else eth_zero_addr)"

definition fill_3addr :: "addr \<Rightarrow> u16 \<Rightarrow> mac option \<Rightarrow> mac option \<Rightarrow> mac option \<Rightarrow> 'a kst_scheme \<Rightarrow> 'a kst_scheme" where
  "fill_3addr hdr fc a1 a2 a3 s =
     (let s = poke hdr (le16_bytes fc) s;
          s = poke (hdr + 4) (copy_addr a1 True) s;
          s = poke (hdr + 10) (copy_addr a2 False) s
      in poke (hdr + 16) (copy_addr a3 True) s)"

text \<open>The common shape of the helpers: allocate, put a zeroed header, fill the addresses, put the
  bytes after it.\<close>

definition frame_get ::
  "hw \<Rightarrow> u64 \<Rightarrow> u64 \<Rightarrow> u16 \<Rightarrow> mac option \<Rightarrow> mac option \<Rightarrow> mac option \<Rightarrow> (skb \<Rightarrow> 'a kst_scheme \<Rightarrow> addr \<times> skb \<times> 'a kst_scheme)
   \<Rightarrow> 'a kst_scheme \<Rightarrow> skb option \<times> 'a kst_scheme" where
  "frame_get hw payload_len tailroom fc a1 a2 a3 tail s =
     (case alloc_helper_skb hw payload_len tailroom s of
        (None, s) \<Rightarrow> (None, s)
      | (Some skb, s) \<Rightarrow>
          (case skb_put_zero skb 24 s of
             (hdr, skb, s) \<Rightarrow>
               if hdr = 0 then (None, kfree_skb (Some skb) s)
               else case tail skb (fill_3addr hdr fc a1 a2 a3 s) of
                   (p, skb, s) \<Rightarrow> if p = 0 then (None, kfree_skb (Some skb) s) else (Some skb, s)))"

definition no_tail :: "skb \<Rightarrow> 'a kst_scheme \<Rightarrow> addr \<times> skb \<times> 'a kst_scheme" where
  "no_tail skb s = (1, skb, s)"

definition with_vif :: "vif option \<Rightarrow> skb option \<times> 'a kst_scheme \<Rightarrow> skb option \<times> 'a kst_scheme" where
  "with_vif v r = (map_option (\<lambda>skb. skb\<lparr>sb_cb := Cb (rx_flag (sb_cb skb)) (rx_freq (sb_cb skb)) (rx_signal (sb_cb skb))
      (tx_flags (sb_cb skb)) (v \<noteq> None)\<rparr>) (fst r), snd r)"

definition probereq_get :: "hw \<Rightarrow> mac option \<Rightarrow> u8 list option \<Rightarrow> u64 \<Rightarrow> u64 \<Rightarrow> 'a kst_scheme \<Rightarrow> skb option \<times> 'a kst_scheme" where
  "probereq_get hw src_addr ssid ssid_len tailroom s =
     (if ssid_len > 255 then (None, s)
      else case size_add 24 (2 + ssid_len) of
          None \<Rightarrow> (None, s)
        | Some frame_len \<Rightarrow>
            frame_get hw frame_len tailroom 0x0040 None src_addr None
              (\<lambda>skb s. case skb_put skb (ucast (2 + ssid_len)) of
                 (ie, skb) \<Rightarrow>
                   if ie = 0 then (0, skb, s)
                   else (ie, skb, poke (ie + 2) (case ssid of None \<Rightarrow> [] | Some b \<Rightarrow> take (unat ssid_len) b)
                           (poke ie [0, ucast ssid_len] s))) s)"

definition proberesp_get :: "hw \<Rightarrow> vif option \<Rightarrow> 'a kst_scheme \<Rightarrow> skb option \<times> 'a kst_scheme" where
  "proberesp_get hw v s = with_vif v (frame_get hw 24 0 0x0050 None (map_option vif_addr v) (vif_bssid v) no_tail s)"

definition beacon_get_tim :: "hw \<Rightarrow> vif option \<Rightarrow> 'a kst_scheme \<Rightarrow> skb option \<times> 'a kst_scheme" where
  "beacon_get_tim hw v s = with_vif v (frame_get hw 24 0 0x0080 None (map_option vif_addr v) (vif_bssid v) no_tail s)"

definition pspoll_get :: "hw \<Rightarrow> vif option \<Rightarrow> 'a kst_scheme \<Rightarrow> skb option \<times> 'a kst_scheme" where
  "pspoll_get hw v s =
     with_vif v (frame_get hw 24 0 (0x0004 OR 0x00a0) (vif_bssid v) (map_option vif_addr v) (vif_bssid v) no_tail s)"

definition nullfunc_get :: "hw \<Rightarrow> vif option \<Rightarrow> bool \<Rightarrow> 'a kst_scheme \<Rightarrow> skb option \<times> 'a kst_scheme" where
  "nullfunc_get hw v qos s =
     with_vif v (frame_get hw (24 + (if qos then 2 else 0)) 0 (0x0008 OR 0x0100 OR (if qos then 0x00c0 else 0x0040))
       (vif_bssid v) (map_option vif_addr v) (vif_bssid v)
       (\<lambda>skb s. if qos then skb_put_zero skb 2 s else (1, skb, s)) s)"

end
