(* ===== verification/LC_Mac_Inv.thy ===== *)
theory LC_Mac_Inv
  imports LC_Mac_Reg
begin

text \<open>
  The connection as a state machine.  The first part shows that building and sending frames,
  channels and wireless information leave the connection data alone; the second states the invariant
  of the runtime and that every entry point of the layer keeps it; the third is the step relation of
  the entry points and what holds in every reachable state.
\<close>

section \<open>What sending leaves alone\<close>

text \<open>\<open>core\<close> forgets the sequence counter; \<open>mcore\<close> is what frame building never changes.\<close>

definition core :: "runtime \<Rightarrow> runtime" where
  "core rt = rt\<lparr>rt_tx_seq := 0\<rparr>"

definition mcore :: "mst \<Rightarrow> runtime option \<times> env \<times> ops option" where
  "mcore s = (map_option core (m_rt s), m_env s, hw_ops (m_hw s))"

lemma mst_more: "kst.more s = kst.more t \<Longrightarrow> m_rt s = m_rt t \<and> m_env s = m_env t \<and> m_hw s = m_hw t \<and> m_log s = m_log t"
  for s t :: mst
  by (cases s; cases t) simp

lemma mcore_more: "kst.more s = kst.more t \<Longrightarrow> mcore s = mcore t"
  using mst_more [of s t] by (simp add: mcore_def)

lemma poke_more [simp]: "kst.more (poke a bs s) = kst.more s"
  by (simp add: poke_def)

lemma mcore_poke [simp]: "mcore (poke a bs s) = mcore s"
  by (rule mcore_more) simp

lemma mcore_kfree_skb [simp]: "mcore (kfree_skb b s) = mcore s"
  by (rule mcore_more) (rule kfree_skb_more)

lemma mcore_kfree_obj [simp]: "mcore (kfree_obj s) = mcore s"
  by (rule mcore_more) (rule kfree_obj_more)

lemma mcore_alloc_skb [simp]: "mcore (snd (alloc_skb n s)) = mcore s"
  by (rule mcore_more) (rule alloc_skb_more)

lemma mcore_put_zero [simp]: "mcore (snd (snd (skb_put_zero b n s))) = mcore s"
  by (rule mcore_more) (rule skb_put_zero_more)

lemma mcore_put_data [simp]: "mcore (snd (snd (skb_put_data b bs n s))) = mcore s"
  by (rule mcore_more) (rule skb_put_data_more)

lemma mcore_trim [simp]: "mcore (snd (skb_trim b n s)) = mcore s"
  by (rule mcore_more) (rule skb_trim_more)

lemma mcore_kzalloc [simp]: "mcore (snd (kzalloc_obj s)) = mcore s"
  by (rule mcore_more) (rule kzalloc_obj_more)

lemma mcore_emit [simp]: "mcore (emit e s) = mcore s"
  by (simp add: emit_def mcore_def)

lemma mcore_void_op [simp]: "mcore (void_op f e s) = mcore s"
  by (simp add: void_op_def)

lemma mcore_call_op [simp]: "mcore (snd (call_op f d e s)) = mcore s"
  by (simp add: call_op_def split: option.splits)

lemma mcore_call_env [simp]: "mcore (snd (call_env f e s)) = mcore s"
  by (simp add: call_env_def)

lemma mcore_set_chandef [simp]: "mcore (set_chandef c s) = mcore s"
  by (simp add: mcore_def set_chandef_def upd_hw_def)

lemma mcore_next_seq [simp]: "mcore (snd (next_seq_ctrl s)) = mcore s"
  by (cases "m_rt s") (simp_all add: next_seq_ctrl_def mcore_def upd_rt_def core_def)

text \<open>The simplifier's view of a chain of calls: projections instead of patterns.\<close>

lemmas chain_simps = Let_def split_beta

lemma mcore_alloc_tx [simp]: "mcore (snd (alloc_tx_skb n s)) = mcore s"
  by (simp add: alloc_tx_skb_def chain_simps split: option.split)

lemma mcore_send_mgmt [simp]: "mcore (snd (send_mgmt b s)) = mcore s"
  by (simp add: send_mgmt_def chain_simps)

lemma mcore_update_info [simp]: "mcore (snd (update_wireless_info s)) = mcore s"
  by (simp add: update_wireless_info_def split: option.split)

lemma mcore_set_channel [simp]: "mcore (snd (set_channel f s)) = mcore s"
  by (simp add: set_channel_def chain_simps split: option.split)

lemma mcore_send_auth [simp]: "mcore (snd (send_auth s)) = mcore s"
  by (simp add: send_auth_def chain_simps split: option.split)

lemma mcore_send_deauth [simp]: "mcore (send_deauth c s) = mcore s"
  by (simp add: send_deauth_def chain_simps split: option.split)

lemma mcore_put_ie [simp]: "mcore (snd (put_ie a e n b ps)) = mcore (snd ps)"
  by (simp add: put_ie_def chain_simps)

lemma mcore_send_assoc [simp]: "mcore (snd (send_assoc_req bss s)) = mcore s"
  by (simp add: send_assoc_req_def chain_simps split: option.split)

lemma mcore_send_probe [simp]: "mcore (snd (send_probe_req ssid n s)) = mcore s"
  by (simp add: send_probe_req_def chain_simps split: option.split)

section \<open>Updates of the connection data\<close>

definition upd_core :: "(runtime \<Rightarrow> runtime) \<Rightarrow> runtime option \<times> env \<times> ops option \<Rightarrow> runtime option \<times> env \<times> ops option" where
  "upd_core f c = (map_option f (fst c), snd c)"

lemma mcore_upd_rt: "(\<And>rt. core (f rt) = f (core rt)) \<Longrightarrow> mcore (upd_rt f s) = upd_core f (mcore s)"
  by (cases "m_rt s") (simp_all add: mcore_def upd_rt_def upd_core_def)

lemma mcore_upd_rt_core: "(\<And>rt. core (f rt) = core rt) \<Longrightarrow> mcore (upd_rt f s) = mcore s"
  by (cases "m_rt s") (simp_all add: mcore_def upd_rt_def)

lemma mcore_mem_update [simp]: "mcore (s\<lparr>k_mem := m\<rparr>) = mcore s"
  by (rule mcore_more) simp

lemma mcore_purge [simp]: "mcore (purge_queue q s) = mcore s"
  by (induction q arbitrary: s) (simp_all add: purge_queue_def)

lemma mcore_free_txqs [simp]: "mcore (free_txqs qs s) = mcore s"
  by (induction qs s rule: free_txqs.induct) simp_all

lemma mcore_alloc_txqs [simp]: "mcore (snd (alloc_txqs n i s)) = mcore s"
proof (induction n i s rule: alloc_txqs.induct)
  case (2 n i s)
  have "mcore ((kfree_obj ^^ j) t) = mcore t" for j t by (induction j) simp_all
  moreover obtain r s1 where k: "kzalloc_obj s = (r, s1)" by (cases "kzalloc_obj s")
  moreover have "mcore s1 = mcore s" using mcore_kzalloc [of s] k by simp
  ultimately show ?case using 2 by (cases r) auto
qed simp

definition no_sta :: "runtime \<Rightarrow> runtime" where "no_sta rt = rt\<lparr>rt_sta := None\<rparr>"

definition clear_rt :: "env \<Rightarrow> runtime \<Rightarrow> runtime" where
  "clear_rt e rt = rt\<lparr>rt_conn_state := DISCONNECTED, rt_connect_params := zero_params_conn (e_ssid_size e),
     rt_portid := 0, rt_beacon_interval := 0, rt_capability := 0, rt_use_qos := False\<rparr>"

definition down_rt :: "env \<Rightarrow> runtime \<Rightarrow> runtime" where
  "down_rt e rt = clear_rt e (rt\<lparr>rt_sta := None, rt_vif := map_option cleared_vif (rt_vif rt)\<rparr>)"

lemma core_comm: "core (no_sta rt) = no_sta (core rt)" "core (clear_rt e rt) = clear_rt e (core rt)"
  "core (down_rt e rt) = down_rt e (core rt)"
  by (simp_all add: core_def no_sta_def clear_rt_def down_rt_def)

lemma mcore_env: "m_env s = fst (snd (mcore s))"
  by (simp add: mcore_def)

lemma mcore_Some: "m_rt s = Some rt \<Longrightarrow> fst (mcore s) = Some (core rt)"
  by (simp add: mcore_def)

lemma mcore_None_iff: "m_rt s = None \<longleftrightarrow> fst (mcore s) = None"
  by (simp add: mcore_def)

lemma mcore_free_sta: "mcore (free_sta s) = upd_core no_sta (mcore s)"
proof (cases "m_rt s")
  case None
  then show ?thesis by (simp add: free_sta_def upd_core_def mcore_def)
next
  case (Some rt)
  show ?thesis
  proof (cases "rt_sta rt")
    case None
    then have "no_sta (core rt) = core rt" by (simp add: no_sta_def core_def)
    then show ?thesis using Some None by (simp add: free_sta_def upd_core_def mcore_def)
  next
    case (Some st)
    have "mcore (upd_rt no_sta t) = upd_core no_sta (mcore t)" for t
      by (rule mcore_upd_rt) (simp add: core_comm)
    then show ?thesis using Some \<open>m_rt s = Some rt\<close> by (simp add: free_sta_def no_sta_def [abs_def])
  qed
qed

lemma mcore_set_link [simp]: "mcore (set_link up s) = mcore s"
  by (simp add: set_link_def)

lemma mcore_upd_vif: "mcore (upd_vif f s) = upd_core (\<lambda>rt. rt\<lparr>rt_vif := map_option f (rt_vif rt)\<rparr>) (mcore s)"
  unfolding upd_vif_def by (rule mcore_upd_rt) (simp add: core_def)

lemma upd_core_comp: "upd_core f (upd_core g c) = upd_core (f \<circ> g) c"
  by (simp add: upd_core_def option.map_comp)

lemma upd_core_snd [simp]: "snd (upd_core f c) = snd c"
  by (simp add: upd_core_def)

lemma mcore_clear_params:
  "mcore (clear_connect_params s) =
     upd_core (\<lambda>rt. rt\<lparr>rt_connect_params := zero_params_conn (e_ssid_size (fst (snd (mcore s)))), rt_portid := 0,
       rt_beacon_interval := 0, rt_capability := 0, rt_use_qos := False\<rparr>) (mcore s)"
  unfolding clear_connect_params_def mcore_env by (rule mcore_upd_rt) (simp add: core_def)

lemma mcore_set_state: "mcore (upd_rt (\<lambda>rt. rt\<lparr>rt_conn_state := c\<rparr>) s) = upd_core (\<lambda>rt. rt\<lparr>rt_conn_state := c\<rparr>) (mcore s)"
  by (rule mcore_upd_rt) (simp add: core_def)

lemmas mcore_upds = mcore_free_sta mcore_upd_vif mcore_clear_params mcore_set_state upd_core_comp

lemma mcore_connect_failed:
  "mcore (connect_failed code s) = upd_core (clear_rt (m_env s)) (mcore s)"
proof (cases "m_rt s")
  case None
  then show ?thesis by (simp add: connect_failed_def upd_core_def mcore_def)
next
  case (Some rt)
  then show ?thesis
    by (simp add: connect_failed_def Let_def mcore_upds o_def clear_rt_def [abs_def] mcore_env)
qed

lemma mcore_disconnect_local:
  "mcore (disconnect_local reason portid by_ap s) =
     (if m_rt s = None \<or> rt_vif (the_rt s) = None then mcore s else upd_core (down_rt (m_env s)) (mcore s))"
  by (cases "rt_sta (the_rt s)")
    (auto simp: disconnect_local_def Let_def mcore_upds o_def down_rt_def [abs_def] clear_rt_def no_sta_def
      mcore_env)

section \<open>The invariant and the edges\<close>

text \<open>
  A runtime is consistent when it has its interface and network device; a station exists exactly
  while connected, which is also exactly when the interface says it is associated, with the BSSID of
  the connection; the target is known in every state but the disconnected one, where neither target
  nor pending request is left over.
\<close>

definition conn_ok :: "runtime \<Rightarrow> bool" where
  "conn_ok rt =
     (rt_netdev rt \<noteq> None \<and>
      (case rt_vif rt of
         None \<Rightarrow> False
       | Some v \<Rightarrow>
           (vif_cfg_assoc v \<longleftrightarrow> rt_conn_state rt = CONNECTED) \<and>
           (bc_assoc (vif_bss_conf v) \<longleftrightarrow> rt_conn_state rt = CONNECTED) \<and>
           (rt_conn_state rt = CONNECTED \<longrightarrow> bc_bssid (vif_bss_conf v) = cp_bssid (rt_connect_params rt))) \<and>
      (rt_sta rt \<noteq> None \<longleftrightarrow> rt_conn_state rt = CONNECTED) \<and>
      (cp_has_bssid (rt_connect_params rt) \<longleftrightarrow> rt_conn_state rt \<noteq> DISCONNECTED) \<and>
      (rt_conn_state rt = DISCONNECTED \<or> rt_conn_state rt = CONNECTED \<longrightarrow> rt_portid rt = 0))"

definition conn_inv :: "mst \<Rightarrow> bool" where
  "conn_inv s = (case m_rt s of None \<Rightarrow> True | Some rt \<Rightarrow> conn_ok rt)"

definition conn_of :: "mst \<Rightarrow> conn_state" where
  "conn_of s = (case m_rt s of None \<Rightarrow> DISCONNECTED | Some rt \<Rightarrow> rt_conn_state rt)"

definition conn_edge :: "conn_state \<Rightarrow> conn_state \<Rightarrow> bool" where
  "conn_edge c c' =
     (c' = c \<or> c' = DISCONNECTED \<or> (c = DISCONNECTED \<and> c' = AUTHENTICATING) \<or>
      (c = AUTHENTICATING \<and> c' = ASSOCIATING) \<or> (c = ASSOCIATING \<and> c' = CONNECTED))"

definition good_step :: "mst \<Rightarrow> mst \<Rightarrow> bool" where
  "good_step s s' = (conn_inv s \<longrightarrow> conn_inv s' \<and> conn_edge (conn_of s) (conn_of s'))"

lemma core_fields [simp]:
  "rt_conn_state (core rt) = rt_conn_state rt" "rt_vif (core rt) = rt_vif rt" "rt_sta (core rt) = rt_sta rt"
  "rt_connect_params (core rt) = rt_connect_params rt" "rt_netdev (core rt) = rt_netdev rt"
  "rt_scan_req (core rt) = rt_scan_req rt" "rt_started (core rt) = rt_started rt" "rt_portid (core rt) = rt_portid rt"
  by (simp_all add: core_def)

lemma conn_ok_core [simp]: "conn_ok (core rt) = conn_ok rt"
  by (cases "rt_vif rt") (simp_all add: conn_ok_def)

lemma conn_inv_mcore: "conn_inv s \<longleftrightarrow> (case fst (mcore s) of None \<Rightarrow> True | Some rt \<Rightarrow> conn_ok rt)"
  by (simp add: conn_inv_def mcore_def split: option.split)

lemma conn_of_mcore: "conn_of s = (case fst (mcore s) of None \<Rightarrow> DISCONNECTED | Some rt \<Rightarrow> rt_conn_state rt)"
  by (simp add: conn_of_def mcore_def split: option.split)

lemmas good_step_mcore = good_step_def conn_inv_mcore conn_of_mcore

lemma good_same: "mcore s' = mcore s \<Longrightarrow> good_step s s'"
  by (simp add: good_step_mcore conn_edge_def)

lemma good_clear:
  "mcore s' = upd_core (clear_rt e) (mcore s) \<Longrightarrow> conn_of s \<noteq> CONNECTED \<Longrightarrow> good_step s s'"
  by (auto simp: good_step_mcore upd_core_def conn_edge_def conn_ok_def clear_rt_def zero_params_conn_def
      split: option.splits)

lemma good_down: "mcore s' = upd_core (down_rt e) (mcore s) \<Longrightarrow> good_step s s'"
  by (auto simp: good_step_mcore upd_core_def conn_edge_def conn_ok_def down_rt_def clear_rt_def
      zero_params_conn_def cleared_vif_def split: option.splits)

lemma good_connect_failed: "conn_of s \<noteq> CONNECTED \<Longrightarrow> good_step s (connect_failed c s)"
  by (rule good_clear [OF mcore_connect_failed])

lemma good_disconnect_local: "good_step s (disconnect_local r p b s)"
  using mcore_disconnect_local [of r p b s] by (auto intro: good_same good_down split: if_splits)

section \<open>The handlers\<close>

definition keeps_bssid :: "connect_params \<Rightarrow> connect_params \<Rightarrow> bool" where
  "keeps_bssid cp cp' = (cp_has_bssid cp \<longrightarrow> cp_has_bssid cp' \<and> cp_bssid cp' = cp_bssid cp)"

lemma fill_scan_ssid_keeps:
  "cp_has_bssid (fill_scan_ssid r cp) = cp_has_bssid cp" "cp_bssid (fill_scan_ssid r cp) = cp_bssid cp"
  by (simp_all add: fill_scan_ssid_def Let_def split: option.split)

lemma select_from_keeps: "keeps_bssid cp (fst (snd (select_from n scan cp)))"
  by (auto simp: select_from_def keeps_bssid_def fill_scan_ssid_keeps split: option.split)

lemma mcore_select_bss:
  "\<exists>g. mcore (snd (snd (select_bss s))) = upd_core (\<lambda>rt. rt\<lparr>rt_connect_params := g (rt_connect_params rt)\<rparr>) (mcore s) \<and>
     (\<forall>cp. keeps_bssid cp (g cp))"
proof (cases "m_rt s = None \<or> rt_netdev (the_rt s) = None")
  case True
  then show ?thesis
    by (intro exI [of _ "\<lambda>cp. cp"]) (auto simp: select_bss_def upd_core_def keeps_bssid_def option.map_ident)
next
  case False
  let ?g = "\<lambda>cp. fst (snd (select_from (e_max_scan_ie_len (m_env s)) (e_get_scan_state (m_env s) (m_log s)) cp))"
  let ?h = "\<lambda>rt. rt\<lparr>rt_connect_params := ?g (rt_connect_params (the_rt s))\<rparr>"
  have "mcore (upd_rt ?h s) = upd_core ?h (mcore s)"
    by (rule mcore_upd_rt) (simp add: core_def)
  moreover obtain rt where "m_rt s = Some rt" using False by auto
  ultimately have "mcore (snd (snd (select_bss s))) = upd_core (\<lambda>rt. rt\<lparr>rt_connect_params := ?g (rt_connect_params rt)\<rparr>) (mcore s)"
    using False by (auto simp: select_bss_def split_beta upd_core_def mcore_def)
  then show ?thesis using select_from_keeps by (intro exI [of _ ?g]) simp
qed

lemma good_then: "good_step s t \<Longrightarrow> mcore u = mcore t \<Longrightarrow> good_step s u"
  by (simp add: good_step_mcore)

lemma alloc_sta_cases:
  assumes "alloc_sta bss s = (ret, s')"
  shows "(ret \<noteq> 0 \<and> mcore s' = mcore s) \<or>
    (ret = 0 \<and> (\<exists>st. mcore s' = upd_core (\<lambda>rt. rt\<lparr>rt_sta := Some st\<rparr>) (mcore s)))"
proof -
  obtain o1 s1 where k: "kzalloc_obj s = (o1, s1)" by (cases "kzalloc_obj s")
  obtain ok s2 where q: "alloc_txqs 16 0 s1 = (ok, s2)" by (cases "alloc_txqs 16 0 s1")
  have m: "mcore s2 = mcore s" using mcore_kzalloc [of s] mcore_alloc_txqs [of 16 0 s1] by (simp add: k q)
  have m1: "mcore s1 = mcore s" using mcore_kzalloc [of s] by (simp add: k)
  let ?f = "\<lambda>rt. rt\<lparr>rt_sta := Some (new_sta (m_hw s2) (rt_connect_params rt) bss)\<rparr>"
  have "mcore (upd_rt ?f s2) = upd_core ?f (mcore s2)" by (rule mcore_upd_rt) (simp add: core_def)
  moreover have "upd_core ?f (mcore s2) =
      upd_core (\<lambda>rt. rt\<lparr>rt_sta := Some (new_sta (m_hw s2) (rt_connect_params (the (fst (mcore s2)))) bss)\<rparr>) (mcore s2)"
    by (cases "fst (mcore s2)") (simp_all add: upd_core_def)
  ultimately have good: "\<exists>st. mcore (upd_rt ?f s2) = upd_core (\<lambda>rt. rt\<lparr>rt_sta := Some st\<rparr>) (mcore s)"
    using m by auto
  show ?thesis
  proof (cases "m_rt s = None \<or> \<not> cp_has_bssid (rt_connect_params (the_rt s)) \<or>
      hw_sta_data_size (m_hw s) < 0 \<or> hw_txq_data_size (m_hw s) < 0 \<or>
      size_add (e_sizeof_sta (m_env s)) (word_of_int (hw_sta_data_size (m_hw s))) = None \<or>
      size_add (e_sizeof_txq (m_env s)) (word_of_int (hw_txq_data_size (m_hw s))) = None")
    case True
    then show ?thesis using assms by (auto simp: alloc_sta_def errno_defs split: if_splits)
  next
    case False
    then have "alloc_sta bss s =
       (case o1 of None \<Rightarrow> (- ENOMEM, s1)
         | Some _ \<Rightarrow> (if ok then (0, upd_rt ?f s2) else (- ENOMEM, kfree_obj s2)))"
      by (auto simp: alloc_sta_def k q split: option.split)
    then show ?thesis using assms good m m1 by (auto simp: errno_defs split: option.splits if_splits)
  qed
qed

lemma good_connect_complete:
  assumes "conn_of s = ASSOCIATING" and "connect_complete bss aid s = (ret, s')"
  shows "good_step s s' \<and> (ret \<noteq> 0 \<longrightarrow> conn_inv s \<longrightarrow> mcore s' = mcore s)"
proof (cases "conn_inv s \<and> m_rt s \<noteq> None")
  case False
  then have "m_rt s = None \<or> \<not> conn_inv s" by blast
  then show ?thesis
    using assms by (auto simp: connect_complete_def good_step_def conn_of_def)
next
  case True
  then obtain rt where rt: "m_rt s = Some rt" by auto
  have ok: "conn_ok rt" and as: "rt_conn_state rt = ASSOCIATING"
    using True assms(1) rt by (simp_all add: conn_inv_def conn_of_def)
  then have sta: "rt_sta rt = None" and dev: "rt_netdev rt \<noteq> None" by (auto simp: conn_ok_def)
  obtain r1 s1 where a: "alloc_sta bss s = (r1, s1)" by (cases "alloc_sta bss s")
  obtain r2 s2 where c: "call_op o_sta_add 0 (EvStaAdd (the (rt_sta (the_rt s1)))) s1 = (r2, s2)"
    by (cases "call_op o_sta_add 0 (EvStaAdd (the (rt_sta (the_rt s1)))) s1")
  have m2: "mcore s2 = mcore s1" using mcore_call_op [of o_sta_add 0 _ s1] c by (metis snd_conv)
  have base: "fst (mcore s) = Some (core rt)" by (rule mcore_Some [OF rt])
  show ?thesis
  proof (cases "r1 = 0")
    case False
    then have "mcore s1 = mcore s" using alloc_sta_cases [OF a] by auto
    moreover have "s' = s1" "ret = r1" using assms(2) False a rt sta dev by (simp_all add: connect_complete_def)
    ultimately show ?thesis using good_same by simp
  next
    case alloc: True
    then obtain st where m1: "mcore s1 = upd_core (\<lambda>rt. rt\<lparr>rt_sta := Some st\<rparr>) (mcore s)"
      using alloc_sta_cases [OF a] by auto
    show ?thesis
    proof (cases "r2 = 0")
      case False
      then have "s' = free_sta s2" "ret = r2"
        using assms(2) a alloc c rt sta dev by (simp_all add: connect_complete_def)
      moreover have "no_sta (core rt\<lparr>rt_sta := Some st\<rparr>) = core rt" using sta by (simp add: no_sta_def core_def)
      ultimately have "mcore s' = mcore s"
        using base m1 m2 by (simp add: mcore_free_sta upd_core_def prod_eq_iff)
      then show ?thesis using good_same by simp
    next
      case True
      let ?up = "\<lambda>f t. mcore (upd_rt f t) = upd_core f (mcore t)"
      have p0: "?up (\<lambda>rt. rt\<lparr>rt_portid := 0\<rparr>) t" for t by (rule mcore_upd_rt) (simp add: core_def)
      have "\<exists>v0. mcore s' = upd_core (\<lambda>rt. rt\<lparr>rt_conn_state := CONNECTED,
          rt_vif := map_option v0 (rt_vif rt), rt_portid := 0\<rparr>) (mcore s1) \<and>
          (\<forall>v. vif_cfg_assoc (v0 v) \<and> bc_assoc (vif_bss_conf (v0 v)) \<and>
               bc_bssid (vif_bss_conf (v0 v)) = cp_bssid (rt_connect_params rt))"
      proof -
        have "m_rt s2 \<noteq> None" using m1 m2 base by (simp add: mcore_None_iff upd_core_def)
        then obtain r where r: "m_rt s2 = Some r" by auto
        have "fst (mcore s2) = Some (core r)" by (rule mcore_Some [OF r])
        then have "core r = core rt\<lparr>rt_sta := Some st\<rparr>" using base m1 m2 by (simp add: upd_core_def)
        then have "rt_connect_params (core r) = rt_connect_params (core rt\<lparr>rt_sta := Some st\<rparr>)" by simp
        then have cpr: "rt_connect_params r = rt_connect_params rt" by simp
        let ?t = "upd_rt (\<lambda>rt. rt\<lparr>rt_conn_state := CONNECTED\<rparr>) s2"
        have the: "rt_connect_params (the_rt ?t) = rt_connect_params rt" by (simp add: upd_rt_def r cpr)
        have "mcore s' = upd_core (\<lambda>rt. rt\<lparr>rt_portid := 0\<rparr>)
            (upd_core (\<lambda>rt. rt\<lparr>rt_vif := map_option (connected_vif (m_hw ?t) (the_rt ?t) bss aid) (rt_vif rt)\<rparr>)
              (mcore ?t))"
          using assms(2) a alloc c True rt sta dev by (auto simp: connect_complete_def Let_def p0 mcore_upd_vif)
        also have "\<dots> = upd_core (\<lambda>rt. rt\<lparr>rt_conn_state := CONNECTED,
            rt_vif := map_option (connected_vif (m_hw ?t) (the_rt ?t) bss aid) (rt_vif rt), rt_portid := 0\<rparr>) (mcore s1)"
          by (simp add: mcore_set_state upd_core_comp o_def m2)
        finally show ?thesis
          by (intro exI [of _ "connected_vif (m_hw ?t) (the_rt ?t) bss aid"] conjI allI)
            (assumption, simp_all add: connected_vif_def the)
      qed
      then show ?thesis
        using base ok m1 as True assms(2) a alloc c rt sta dev
        by (auto simp: good_step_mcore upd_core_def conn_edge_def conn_ok_def connect_complete_def Let_def split: option.splits)
    qed
  qed
qed

text \<open>What the invariant and the edges look at; queues and scan requests are not part of it.\<close>

definition cview_rt :: "runtime \<Rightarrow> u32 option \<times> vif option \<times> bool \<times> conn_state \<times> connect_params \<times> u32" where
  "cview_rt rt = (rt_netdev rt, rt_vif rt, rt_sta rt \<noteq> None, rt_conn_state rt, rt_connect_params rt, rt_portid rt)"

definition cview :: "mst \<Rightarrow> (u32 option \<times> vif option \<times> bool \<times> conn_state \<times> connect_params \<times> u32) option" where
  "cview s = map_option cview_rt (m_rt s)"

lemma cview_mcore: "mcore s = mcore t \<Longrightarrow> cview s = cview t"
proof -
  assume "mcore s = mcore t"
  then have "map_option core (m_rt s) = map_option core (m_rt t)" by (simp add: mcore_def)
  moreover have "cview_rt rt = cview_rt (core rt)" for rt by (simp add: cview_rt_def)
  ultimately show ?thesis by (cases "m_rt s"; cases "m_rt t") (simp_all add: cview_def, metis)
qed

lemma cview_rt_ok: "cview_rt a = cview_rt b \<Longrightarrow> conn_ok a = conn_ok b \<and> rt_conn_state a = rt_conn_state b"
  by (cases "rt_vif b") (simp_all add: cview_rt_def conn_ok_def)

lemma cview_inv: "cview s = cview t \<Longrightarrow> conn_inv s = conn_inv t \<and> conn_of s = conn_of t"
  by (cases "m_rt s"; cases "m_rt t") (simp_all add: cview_def conn_inv_def conn_of_def, erule cview_rt_ok)

lemma good_cview: "cview s' = cview s \<Longrightarrow> good_step s s'"
  using cview_inv [of s' s] by (simp add: good_step_def conn_edge_def)

lemma good_trans_cview: "good_step s t \<Longrightarrow> cview u = cview t \<Longrightarrow> good_step s u"
  using cview_inv [of u t] by (simp add: good_step_def)

lemma good_pre_cview: "cview s = cview t \<Longrightarrow> good_step t u \<Longrightarrow> good_step s u"
  using cview_inv [of s t] by (simp add: good_step_def)

lemma cview_upd_rt: "(\<And>rt. cview_rt (f rt) = cview_rt rt) \<Longrightarrow> cview (upd_rt f s) = cview s"
  by (simp add: cview_def upd_rt_def option.map_comp o_def)

lemma cview_more: "kst.more s = kst.more t \<Longrightarrow> cview s = cview t" for s t :: mst
  using mst_more [of s t] by (simp add: cview_def)

lemmas cview_of_mcore = cview_mcore [OF mcore_poke] cview_mcore [OF mcore_emit] cview_mcore [OF mcore_alloc_skb]
  cview_mcore [OF mcore_put_zero] cview_mcore [OF mcore_put_data] cview_mcore [OF mcore_trim]
  cview_mcore [OF mcore_kzalloc] cview_mcore [OF mcore_kfree_skb] cview_mcore [OF mcore_kfree_obj]
  cview_mcore [OF mcore_call_op] cview_mcore [OF mcore_call_env] cview_mcore [OF mcore_set_chandef]
  cview_mcore [OF mcore_send_probe] cview_mcore [OF mcore_set_channel] cview_mcore [OF mcore_alloc_tx]
  cview_mcore [OF mcore_next_seq] cview_mcore [OF mcore_void_op] cview_mcore [OF mcore_send_deauth]
  cview_mcore [OF mcore_send_auth] cview_mcore [OF mcore_update_info]

lemma cview_rx_append [simp]: "cview (upd_rt (\<lambda>rt. rt\<lparr>rt_rx_queue := f (rt_rx_queue rt)\<rparr>) s) = cview s"
  by (rule cview_upd_rt) (simp add: cview_rt_def)

lemma cview_filter [simp]: "cview (configure_scan_filter b s) = cview s"
proof -
  have "cview (upd_rt (\<lambda>rt. rt\<lparr>rt_scan_filter_flags := x, rt_scan_filter_active := b\<rparr>) t) = cview t" for x t
    by (rule cview_upd_rt) (simp add: cview_rt_def)
  then show ?thesis by (simp add: configure_scan_filter_def chain_simps cview_of_mcore)
qed

lemma cview_free_scan_req [simp]: "cview (free_scan_req s) = cview s"
proof -
  have "cview (upd_rt (\<lambda>rt. rt\<lparr>rt_scan_req := None\<rparr>) t) = cview t" for t
    by (rule cview_upd_rt) (simp add: cview_rt_def)
  then show ?thesis by (simp add: free_scan_req_def cview_of_mcore)
qed

lemma cview_alloc_scan_req [simp]: "cview (snd (alloc_scan_req ps s)) = cview s"
proof -
  have "cview (upd_rt (\<lambda>rt. rt\<lparr>rt_scan_req := r\<rparr>) t) = cview t" for r t
    by (rule cview_upd_rt) (simp add: cview_rt_def)
  moreover have "cview (kfree_opt p t) = cview t" for p t
    by (simp add: kfree_opt_def cview_of_mcore split: option.split)
  ultimately show ?thesis
    by (simp add: alloc_scan_req_def chain_simps cview_of_mcore split: option.split)
qed

lemma mcore_probe_ssids [simp]: "mcore (snd (probe_ssids xs s)) = mcore s"
proof (induction xs s rule: probe_ssids.induct)
  case (2 ssid n rest s)
  then show ?case using mcore_send_probe [of ssid n s] by (cases "send_probe_req ssid n s") auto
qed simp

lemma mcore_sw_scan_loop [simp]: "mcore (snd (sw_scan_loop chs ss s)) = mcore s"
proof (induction chs ss s rule: sw_scan_loop.induct)
  case (3 c chs ss s)
  obtain r1 s1 where c: "set_channel (chan_freq (m_hw s) c) s = (r1, s1)"
    by (cases "set_channel (chan_freq (m_hw s) c) s")
  obtain r2 s2 where p: "(if ss = [] then send_probe_req [] 0 s1 else probe_ssids ss s1) = (r2, s2)"
    by (cases "if ss = [] then send_probe_req [] 0 s1 else probe_ssids ss s1")
  have "mcore s1 = mcore s" using mcore_set_channel [of _ s] c by (metis snd_conv)
  moreover have "mcore s2 = mcore s1"
    using p by (cases "ss = []") (simp, metis snd_conv mcore_send_probe, simp, metis snd_conv mcore_probe_ssids)
  ultimately show ?case using 3 [OF c [symmetric] _ p [symmetric]] by (auto simp: c p)
qed simp_all

lemma cview_run_sw_scan [simp]: "cview (snd (run_sw_scan s)) = cview s"
  by (simp add: run_sw_scan_def chain_simps cview_of_mcore cview_mcore [OF mcore_sw_scan_loop])

lemma cview_trigger_scan: "cview (snd (trigger_scan ps p s)) = cview s"
  by (simp add: trigger_scan_def chain_simps cview_of_mcore)

lemma cview_scan_completed: "cview (scan_completed a s) = cview s"
  by (simp add: scan_completed_def cview_of_mcore)

lemma cview_store [simp]: "cview (snd (store_scan_result b s)) = cview s"
  by (simp add: store_scan_result_def chain_simps cview_of_mcore)

lemma cview_netdev_recv: "cview (snd (snd (netdev_recv n s))) = cview s"
proof -
  have "cview (upd_rt (\<lambda>rt. rt\<lparr>rt_rx_queue := q\<rparr>) t) = cview t" for q t
    by (rule cview_upd_rt) (simp add: cview_rt_def)
  then show ?thesis by (simp add: netdev_recv_def chain_simps cview_of_mcore split: option.split list.split)
qed

lemma mcore_build_data [simp]: "mcore (snd (snd (build_data_frame e n s))) = mcore s"
  by (simp add: build_data_frame_def chain_simps split: option.split)

lemma cview_netdev_send: "cview (snd (netdev_send e n s)) = cview s"
proof -
  have "cview (upd_rt (\<lambda>rt. rt\<lparr>rt_sta := map_option f (rt_sta rt)\<rparr>) t) = cview t"
    "cview (upd_rt (\<lambda>rt. rt\<lparr>rt_txq := g (rt_txq rt)\<rparr>) t) = cview t" for f g t
    by (rule cview_upd_rt, simp add: cview_rt_def)+
  then show ?thesis
    by (simp add: netdev_send_def chain_simps cview_of_mcore cview_mcore [OF mcore_build_data] split: option.split)
qed

section \<open>The receive path\<close>

lemma mcore_build_eth [simp]: "mcore (snd (build_eth_skb d r a n s)) = mcore s"
  by (simp add: build_eth_skb_def chain_simps split: option.split)

lemma cview_amsdu_sub [simp]: "cview (snd (snd (amsdu_sub pos remaining queued s))) = cview s"
proof -
  have be: "cview (snd (build_eth_skb d r a n t)) = cview t" for d r a n t
    by (rule cview_mcore) simp
  have q: "cview (upd_rt (\<lambda>rt. rt\<lparr>rt_rx_queue := rt_rx_queue rt @ [x]\<rparr>) t) = cview t" for x t
    by (rule cview_upd_rt) (simp add: cview_rt_def)
  show ?thesis by (simp add: amsdu_sub_def chain_simps be q split: option.split)
qed

lemma cview_amsdu_loop [simp]: "cview (snd (amsdu_loop pos remaining queued s)) = cview s"
proof (induction pos remaining queued s rule: amsdu_loop.induct)
  case (1 pos remaining queued s)
  obtain adv q t where sub: "amsdu_sub pos remaining queued s = (adv, q, t)"
    by (cases "amsdu_sub pos remaining queued s")
  then have "cview t = cview s" using cview_amsdu_sub [of pos remaining queued s] by (simp del: cview_amsdu_sub)
  then show ?case
    using 1 sub by (subst amsdu_loop.simps) (cases adv, auto)
qed

lemma cview_enqueue_amsdu [simp]: "cview (snd (enqueue_amsdu b h s)) = cview s"
  by (simp add: enqueue_amsdu_def chain_simps)

lemma mcore_data_to_ethernet [simp]: "mcore (snd (snd (data_to_ethernet b s))) = mcore s"
  by (simp add: data_to_ethernet_def chain_simps split: option.split)

lemma good_selected:
  assumes "selected_or_fallback s = (sel, t)" and "conn_inv s" and "conn_of s \<noteq> DISCONNECTED" and "conn_of s \<noteq> CONNECTED"
  shows "conn_inv t" "conn_of t = conn_of s"
proof -
  have t: "t = snd (snd (select_bss s))" using assms(1) by (auto simp: selected_or_fallback_def split: prod.splits)
  obtain g where g: "mcore t = upd_core (\<lambda>rt. rt\<lparr>rt_connect_params := g (rt_connect_params rt)\<rparr>) (mcore s)"
    "\<forall>cp. keeps_bssid cp (g cp)" using mcore_select_bss [of s] t by auto
  show "conn_of t = conn_of s" unfolding conn_of_mcore g(1) by (simp add: upd_core_def split: option.split)
  show "conn_inv t"
    using assms(2-4) g(2) unfolding conn_inv_mcore conn_of_mcore g(1)
    by (auto simp: upd_core_def conn_ok_def keeps_bssid_def split: option.splits)
qed

lemma assoc_state:
  assumes "conn_inv t" and "conn_of t = AUTHENTICATING"
  shows "conn_inv (upd_rt (\<lambda>rt. rt\<lparr>rt_conn_state := ASSOCIATING\<rparr>) t)"
    and "conn_of (upd_rt (\<lambda>rt. rt\<lparr>rt_conn_state := ASSOCIATING\<rparr>) t) = ASSOCIATING"
  using assms unfolding conn_inv_mcore conn_of_mcore mcore_set_state
  by (auto simp: upd_core_def conn_ok_def split: option.splits)

lemma the_rt_state: "m_rt s \<noteq> None \<Longrightarrow> rt_conn_state (the_rt s) = conn_of s"
  by (auto simp: conn_of_def)

lemma conn_of_connect_failed: "conn_of (connect_failed c s) = DISCONNECTED"
  unfolding conn_of_mcore mcore_connect_failed by (simp add: upd_core_def clear_rt_def split: option.split)

lemma good_step_via:
  assumes "conn_inv s" and "conn_inv t" and "conn_of t = conn_of s \<or> conn_edge (conn_of s) (conn_of t)" and "conn_of t \<noteq> CONNECTED"
  shows "good_step s t" "good_step s (connect_failed c t)"
  using assms good_connect_failed [of t c] by (auto simp: good_step_def conn_edge_def conn_of_connect_failed)

lemma good_handle_auth: "m_rt s \<noteq> None \<Longrightarrow> good_step s (snd (handle_auth_rx b s))"
proof (cases "sb_len b < 30 \<or> rt_conn_state (the_rt s) \<noteq> AUTHENTICATING \<or> \<not> mgmt_matches b s")
  case True
  then show ?thesis by (auto simp: handle_auth_rx_def intro: good_same)
next
  case False
  assume rt: "m_rt s \<noteq> None"
  have st: "conn_of s = AUTHENTICATING" using False the_rt_state [OF rt] by simp
  let ?code = "fr16 (sb_data b + 28) s"
  show ?thesis
  proof (cases "?code \<noteq> 0 \<or> fr16 (sb_data b + 26) s \<noteq> 2")
    case True
    then have "snd (handle_auth_rx b s) = connect_failed ?code s" using False by (auto simp: handle_auth_rx_def)
    then show ?thesis using good_connect_failed [of s] st by simp
  next
    case ok: False
    obtain sel t where sel: "selected_or_fallback s = (sel, t)" by (cases "selected_or_fallback s")
    let ?t = "upd_rt (\<lambda>rt. rt\<lparr>rt_conn_state := ASSOCIATING\<rparr>) t"
    obtain r u where u: "send_assoc_req sel ?t = (r, u)" by (cases "send_assoc_req sel ?t")
    have mu: "mcore u = mcore ?t" using mcore_send_assoc [of sel ?t] u by (metis snd_conv)
    have res: "snd (handle_auth_rx b s) = (if r < 0 then connect_failed 1 u else u)"
      using False ok by (simp add: handle_auth_rx_def sel u Let_def)
    show ?thesis
    proof (cases "conn_inv s")
      case inv: True
      note s1 = good_selected [OF sel inv]
      have s2: "conn_inv ?t" "conn_of ?t = ASSOCIATING" using s1 st assoc_state [of t] by auto
      then have s3: "conn_inv u" "conn_of u = ASSOCIATING" using cview_inv [OF cview_mcore [OF mu]] by auto
      have e: "conn_of u = conn_of s \<or> conn_edge (conn_of s) (conn_of u)" "conn_of u \<noteq> CONNECTED"
        using st s3(2) by (simp_all add: conn_edge_def)
      show ?thesis unfolding res using good_step_via [OF inv s3(1) e] by simp
    qed (simp add: good_step_def)
  qed
qed

lemma good_handle_assoc: "m_rt s \<noteq> None \<Longrightarrow> good_step s (snd (handle_assoc_resp_rx b s))"
proof (cases "sb_len b < 30 \<or> rt_conn_state (the_rt s) \<noteq> ASSOCIATING \<or> \<not> mgmt_matches b s")
  case True
  then show ?thesis by (auto simp: handle_assoc_resp_rx_def intro: good_same)
next
  case False
  assume rt: "m_rt s \<noteq> None"
  have st: "conn_of s = ASSOCIATING" using False the_rt_state [OF rt] by simp
  let ?code = "fr16 (sb_data b + 26) s" and ?aid = "fr16 (sb_data b + 28) s AND 0x3fff"
  show ?thesis
  proof (cases "?code \<noteq> 0")
    case True
    then have "snd (handle_assoc_resp_rx b s) = connect_failed ?code s" using False by (auto simp: handle_assoc_resp_rx_def)
    then show ?thesis using good_connect_failed [of s] st by simp
  next
    case ok: False
    obtain sel t where sel: "selected_or_fallback s = (sel, t)" by (cases "selected_or_fallback s")
    obtain r u where u: "connect_complete sel ?aid t = (r, u)" by (cases "connect_complete sel ?aid t")
    have res: "snd (handle_assoc_resp_rx b s) = (if r < 0 then connect_failed 1 u else u)"
      using False ok by (simp add: handle_assoc_resp_rx_def sel u Let_def)
    show ?thesis
    proof (cases "conn_inv s")
      case inv: True
      note s1 = good_selected [OF sel inv]
      have t: "conn_inv t" "conn_of t = ASSOCIATING" using s1 st by auto
      have g: "good_step t u" and same: "r \<noteq> 0 \<Longrightarrow> mcore u = mcore t"
        using good_connect_complete [OF t(2) u] t(1) by auto
      have gu: "good_step s u" using g t st inv by (simp add: good_step_def)
      show ?thesis
      proof (cases "r < 0")
        case True
        then have m: "mcore u = mcore t" using same by simp
        have v: "conn_inv u" "conn_of u = ASSOCIATING"
          using t m by (simp_all add: conn_inv_mcore conn_of_mcore)
        have e: "conn_of u = conn_of s \<or> conn_edge (conn_of s) (conn_of u)" "conn_of u \<noteq> CONNECTED"
          using st v(2) by simp_all
        show ?thesis unfolding res using good_step_via [OF inv v(1) e] True by simp
      next
        case False
        then show ?thesis using gu unfolding res by simp
      qed
    qed (simp add: good_step_def)
  qed
qed

lemma good_handle_disconnect: "good_step s (snd (handle_disconnect_rx b s))"
  by (simp add: handle_disconnect_rx_def good_disconnect_local good_same)

lemma good_handle_mgmt: "good_step s (snd (handle_mgmt_rx b s))"
proof -
  have st: "good_step s (snd (store_scan_result b s))" by (rule good_cview) (rule cview_store)
  show ?thesis using good_handle_auth [of s b] good_handle_assoc [of s b] good_handle_disconnect [of s b] st
    by (simp add: handle_mgmt_rx_def Let_def good_same)
qed

lemma cview_rx_data: "cview (rx_data b s) = cview s"
proof -
  have k: "cview (kfree_skb x t) = cview t" for x t by (rule cview_mcore) simp
  have q: "cview (upd_rt (\<lambda>rt. rt\<lparr>rt_rx_queue := rt_rx_queue rt @ [x]\<rparr>) t) = cview t" for x t
    by (rule cview_upd_rt) (simp add: cview_rt_def)
  have d: "cview (snd (snd (data_to_ethernet x t))) = cview t" for x t by (rule cview_mcore) simp
  show ?thesis by (simp add: rx_data_def chain_simps k q d)
qed

lemma good_rx: "good_step s (rx_irqsafe b s)"
proof -
  have K: "cview t = cview s \<Longrightarrow> good_step s (kfree_skb x t)" for x t
    by (rule good_cview) (simp add: cview_of_mcore)
  obtain c t where p: "(if hw_flags (m_hw s) AND 2 \<noteq> 0 then skb_trim b (sb_len b - 4) s else (b, s)) = (c, t)"
    by (cases "if hw_flags (m_hw s) AND 2 \<noteq> 0 then skb_trim b (sb_len b - 4) s else (b, s)")
  have t: "cview t = cview s"
    using p cview_mcore [OF mcore_trim [of b "sb_len b - 4" s]] by (metis snd_conv)
  have m: "good_step s (kfree_skb x (snd (handle_mgmt_rx c t)))" for x
    by (rule good_trans_cview [OF good_pre_cview [OF t [symmetric] good_handle_mgmt]]) (simp add: cview_of_mcore)
  have "good_step s (rx_data c t)" by (rule good_cview) (simp only: cview_rx_data t)
  then show ?thesis
    unfolding rx_irqsafe_def p Let_def split_conv by (simp add: K m t split_beta)
qed

section \<open>Connecting and disconnecting\<close>

lemma good_netdev_disconnect: "good_step s (snd (netdev_disconnect c p s))"
  using good_pre_cview [OF cview_mcore [OF mcore_send_deauth [symmetric]] good_disconnect_local]
  by (simp add: netdev_disconnect_def good_same)

lemma good_ieee80211_disconnect: "good_step s (ieee80211_disconnect s)"
  by (simp add: ieee80211_disconnect_def good_disconnect_local good_same split: option.split)

text \<open>
  \<open>same_iface s t\<close>: from \<open>s\<close> to \<open>t\<close> the runtime kept its interface, station and network device.  While
  a connection is being prepared only the parameters and the state move.
\<close>

definition iface :: "mst \<Rightarrow> (vif option \<times> bool \<times> u32 option) option" where
  "iface s = map_option (\<lambda>rt. (rt_vif rt, rt_sta rt \<noteq> None, rt_netdev rt)) (m_rt s)"

lemma iface_mcore: "iface s = map_option (\<lambda>rt. (rt_vif rt, rt_sta rt \<noteq> None, rt_netdev rt)) (fst (mcore s))"
  by (simp add: iface_def mcore_def option.map_comp o_def)

lemma iface_same: "mcore s = mcore t \<Longrightarrow> iface s = iface t"
  by (simp add: iface_mcore)

lemma iface_upd_rt:
  "(\<And>rt. rt_vif (f rt) = rt_vif rt \<and> rt_sta (f rt) = rt_sta rt \<and> rt_netdev (f rt) = rt_netdev rt) \<Longrightarrow>
     iface (upd_rt f s) = iface s"
  by (simp add: iface_def upd_rt_def option.map_comp o_def)

lemma iface_select_bss: "iface (snd (snd (select_bss s))) = iface s"
  using mcore_select_bss [of s] unfolding iface_mcore
  by (auto simp: upd_core_def option.map_comp o_def)

lemma good_failed_iface:
  assumes "iface t = iface s" and "conn_of s \<noteq> CONNECTED"
  shows "good_step s (connect_failed c t)"
  using assms unfolding good_step_mcore mcore_connect_failed iface_mcore
  by (auto simp: upd_core_def conn_edge_def conn_ok_def clear_rt_def zero_params_conn_def split: option.splits)

lemma good_auth_iface:
  assumes "iface t = iface s" and "conn_of s = DISCONNECTED"
    and "\<And>rt. m_rt t = Some rt \<Longrightarrow> rt_conn_state rt = AUTHENTICATING \<and> cp_has_bssid (rt_connect_params rt)"
  shows "good_step s t"
  using assms unfolding good_step_def conn_inv_def conn_of_def iface_def
  by (auto simp: conn_edge_def conn_ok_def split: option.splits)

lemma prepared:
  "m_rt (connect_prepare sel s) = Some rt \<Longrightarrow> cp_has_bssid (rt_connect_params rt)"
  by (auto simp: connect_prepare_def upd_rt_def Let_def)

lemma good_netdev_connect: "good_step s (snd (netdev_connect ps portid s))"
proof (cases "m_rt s = None \<or> \<not> rt_started (the_rt s) \<or> cp_privacy ps \<or>
    (cp_auth_type ps \<noteq> 8 \<and> cp_auth_type ps \<noteq> 0) \<or> rt_conn_state (the_rt s) \<noteq> DISCONNECTED")
  case True
  then have "snd (netdev_connect ps portid s) = s" by (auto simp: netdev_connect_def)
  then show ?thesis by (simp add: good_same)
next
  case go: False
  then have d: "conn_of s = DISCONNECTED" using the_rt_state [of s] by simp
  let ?s1 = "upd_rt (\<lambda>rt. rt\<lparr>rt_connect_params := ps, rt_portid := portid\<rparr>) s"
  obtain r2 sel s2 where sel: "select_bss ?s1 = (r2, sel, s2)" by (cases "select_bss ?s1")
  let ?s3 = "connect_prepare sel s2"
  let ?f = "cp_frequency (rt_connect_params (the_rt ?s3))"
  obtain r4 s4 where chan: "set_channel ?f ?s3 = (r4, s4)" by (cases "set_channel ?f ?s3")
  let ?s5 = "upd_rt (\<lambda>rt. rt\<lparr>rt_conn_state := AUTHENTICATING\<rparr>) s4"
  let ?s6 = "snd (update_wireless_info ?s5)"
  obtain r7 s7 where auth: "send_auth ?s6 = (r7, s7)" by (cases "send_auth ?s6")
  have m4: "mcore s4 = mcore ?s3" using mcore_set_channel [of ?f ?s3] chan by simp
  have m7: "mcore s7 = mcore ?s5" using mcore_send_auth [of ?s6] auth by simp
  have i1: "iface ?s1 = iface s" by (rule iface_upd_rt) simp
  have i2: "iface s2 = iface s" using iface_select_bss [of ?s1] sel i1 by simp
  have i3: "iface ?s3 = iface s2" unfolding connect_prepare_def by (rule iface_upd_rt) (simp add: Let_def)
  have i4: "iface s4 = iface s" using iface_same [OF m4] i3 i2 by simp
  have i5: "iface ?s5 = iface s4" by (rule iface_upd_rt) simp
  have i7: "iface s7 = iface s" using iface_same [OF m7] i5 i4 by simp
  have ok7: "rt_conn_state rt = AUTHENTICATING \<and> cp_has_bssid (rt_connect_params rt)" if "m_rt s7 = Some rt" for rt
  proof -
    have "fst (mcore s7) = Some (core rt)" using that by (rule mcore_Some)
    then obtain r5 where r5: "fst (mcore s4) = Some r5" "core rt = r5\<lparr>rt_conn_state := AUTHENTICATING\<rparr>"
      unfolding m7 mcore_set_state by (auto simp: upd_core_def)
    then obtain r3 where r3: "m_rt ?s3 = Some r3" "r5 = core r3" unfolding m4 by (auto simp: mcore_def)
    have "rt_conn_state (core rt) = AUTHENTICATING \<and> cp_has_bssid (rt_connect_params (core rt))"
      unfolding r5(2) using prepared [OF r3(1)] r3(2) by simp
    then show ?thesis by simp
  qed
  have nc: "conn_of s \<noteq> CONNECTED" using d by simp
  note fail = good_failed_iface [OF _ nc]
  have "snd (netdev_connect ps portid s) =
     (if r2 \<noteq> 0 then snd (err_connect r2 s2) else if r4 \<noteq> 0 then snd (err_connect r4 s4)
      else if r7 \<noteq> 0 then snd (err_connect r7 s7) else s7)"
    using go by (clarsimp simp: netdev_connect_def sel chan auth Let_def simp del: not_None_eq)
  moreover have "good_step s s7" using good_auth_iface [OF i7 d ok7] .
  ultimately show ?thesis
    using fail [OF i2] fail [OF i4] fail [OF i7] by (simp add: err_connect_def)
qed

section \<open>The entry points as a step relation\<close>

text \<open>
  One constructor per function the driver or the host calls on a registered device.  The driver's
  callbacks and the host's services answer through the state's oracles, so every behaviour of theirs is
  covered.
\<close>

inductive mac_step :: "mst \<Rightarrow> mst \<Rightarrow> bool" where
  step_connect: "mac_step s (snd (netdev_connect ps portid s))"
| step_disconnect: "mac_step s (snd (netdev_disconnect code portid s))"
| step_driver_disconnect: "mac_step s (ieee80211_disconnect s)"
| step_rx: "mac_step s (rx_irqsafe skb s)"
| step_send: "mac_step s (snd (netdev_send frame n s))"
| step_recv: "mac_step s (snd (snd (netdev_recv n s)))"
| step_scan: "mac_step s (snd (trigger_scan params portid s))"
| step_scan_completed: "mac_step s (scan_completed info s)"

inductive mac_run :: "mst \<Rightarrow> mst \<Rightarrow> bool" where
  run_refl: "mac_run s s"
| run_step: "mac_run s t \<Longrightarrow> mac_step t u \<Longrightarrow> mac_run s u"

lemma good_mac_step: "mac_step s t \<Longrightarrow> good_step s t"
  by (erule mac_step.cases)
    (simp_all add: good_netdev_connect good_netdev_disconnect good_ieee80211_disconnect good_rx
      good_cview cview_netdev_send cview_netdev_recv cview_trigger_scan cview_scan_completed)

lemma mac_run_inv: "mac_run s t \<Longrightarrow> conn_inv s \<Longrightarrow> conn_inv t"
  by (induction rule: mac_run.induct) (auto dest: good_mac_step simp: good_step_def)

end
