(* ===== verification/LC_Mac_Own.thy ===== *)
theory LC_Mac_Own
  imports LC_Mac_Inv
begin

text \<open>
  What a registration holds: the network device, the interface added to the driver and the started
  driver, read off the history of calls, and the objects allocated.  Every failure of
  \<^verbatim>\<open>ieee80211_register_hw\<close> and the unregistration give all of it back.
\<close>

section \<open>Held resources, from the history\<close>

text \<open>A call counts when the answer it got, a function of the history before it, was a success.\<close>

fun dev_count :: "env \<Rightarrow> event list \<Rightarrow> int" where
  "dev_count e [] = 0"
| "dev_count e (ev # l) = dev_count e l +
     (case ev of EvRegister _ \<Rightarrow> (if e_register e l \<noteq> None then 1 else 0) | EvUnregister \<Rightarrow> - 1 | _ \<Rightarrow> 0)"

definition answered_0 :: "(event list \<Rightarrow> int) option \<Rightarrow> event list \<Rightarrow> bool" where
  "answered_0 f l = (case f of None \<Rightarrow> False | Some g \<Rightarrow> g l = 0)"

fun if_count :: "ops \<Rightarrow> event list \<Rightarrow> int" where
  "if_count t [] = 0"
| "if_count t (ev # l) = if_count t l +
     (case ev of EvAddInterface _ \<Rightarrow> (if answered_0 (o_add_interface t) l then 1 else 0)
       | EvRemoveInterface _ \<Rightarrow> - 1 | _ \<Rightarrow> 0)"

fun start_count :: "ops \<Rightarrow> event list \<Rightarrow> int" where
  "start_count t [] = 0"
| "start_count t (ev # l) = start_count t l +
     (case ev of EvStart \<Rightarrow> (if answered_0 (o_start t) l then 1 else 0) | EvStop \<Rightarrow> - 1 | _ \<Rightarrow> 0)"

definition devs :: "mst \<Rightarrow> int" where "devs s = dev_count (m_env s) (m_log s)"
definition ifs :: "mst \<Rightarrow> int" where "ifs s = if_count (the (hw_ops (m_hw s))) (m_log s)"
definition starts :: "mst \<Rightarrow> int" where "starts s = start_count (the (hw_ops (m_hw s))) (m_log s)"

text \<open>A driver that can add an interface or start can also remove it and stop, and only then.\<close>

definition paired_ops :: "mst \<Rightarrow> bool" where
  "paired_ops s =
     (case hw_ops (m_hw s) of
        None \<Rightarrow> True
      | Some t \<Rightarrow> (o_add_interface t \<noteq> None \<longleftrightarrow> o_remove_interface t) \<and> (o_start t \<noteq> None \<longleftrightarrow> o_stop t))"

text \<open>Everything a registration holds, with what the account depends on.\<close>

datatype holding = Holding (ho_objects: int) (ho_devices: int) (ho_interfaces: int) (ho_starts: int)

instantiation holding :: "{plus, minus}"
begin
fun plus_holding :: "holding \<Rightarrow> holding \<Rightarrow> holding" where
  "plus_holding (Holding a b c d) (Holding a' b' c' d') = Holding (a + a') (b + b') (c + c') (d + d')"
fun minus_holding :: "holding \<Rightarrow> holding \<Rightarrow> holding" where
  "minus_holding (Holding a b c d) (Holding a' b' c' d') = Holding (a - a') (b - b') (c - c') (d - d')"
instance ..
end

lemma holding_simps [simp]:
  "x - Holding a b c d = x + Holding (- a) (- b) (- c) (- d)"
  "x + Holding a b c d + Holding a' b' c' d' = x + Holding (a + a') (b + b') (c + c') (d + d')"
  "x + Holding 0 0 0 0 = x"
  by (cases x, simp)+

definition account :: "mst \<Rightarrow> holding" where
  "account s = Holding (k_live s) (devs s) (ifs s) (starts s)"

definition frame :: "mst \<Rightarrow> ops option \<times> env" where
  "frame s = (hw_ops (m_hw s), m_env s)"

lemma paired_frame: "frame s = frame t \<Longrightarrow> paired_ops s = paired_ops t"
  by (simp add: frame_def paired_ops_def)

lemmas account_simps = account_def frame_def devs_def ifs_def starts_def

definition neutral :: "event \<Rightarrow> bool" where
  "neutral e = (case e of EvRegister _ \<Rightarrow> False | EvUnregister \<Rightarrow> False | EvAddInterface _ \<Rightarrow> False
     | EvRemoveInterface _ \<Rightarrow> False | EvStart \<Rightarrow> False | EvStop \<Rightarrow> False | _ \<Rightarrow> True)"

lemma account_emit: "neutral e \<Longrightarrow> account (emit e s) = account s" "frame (emit e s) = frame s"
  by (cases e) (simp_all add: account_simps emit_def neutral_def)

lemma m_rt_emit [simp]: "m_rt (emit e s) = m_rt s"
  by (simp add: emit_def)

lemma account_upd_rt [simp]: "account (upd_rt f s) = account s" "frame (upd_rt f s) = frame s"
  "m_rt (upd_rt f s) = map_option f (m_rt s)"
  by (simp_all add: account_simps upd_rt_def)

lemma account_kfree [simp]: "account (kfree_obj s) = account s - Holding 1 0 0 0" "frame (kfree_obj s) = frame s"
  "m_rt (kfree_obj s) = m_rt s"
  by (simp_all add: account_simps kfree_obj_def)

lemma free_runtime_account: "account (free_runtime s) = account s - Holding 1 0 0 0" "frame (free_runtime s) = frame s"
  "m_rt (free_runtime s) = None"
  by (simp_all add: free_runtime_def account_simps kfree_obj_def)

section \<open>The cleanup labels\<close>

text \<open>A runtime as \<^verbatim>\<open>register_hw\<close> leaves it: interface and queue present, nothing else owned.\<close>

definition fresh_rt :: "runtime \<Rightarrow> bool" where
  "fresh_rt rt = (rt_txq rt = Some [] \<and> rt_vif rt \<noteq> None \<and> rt_sta rt = None \<and> rt_scan_req rt = None \<and>
     rt_rx_queue rt = [] \<and> rt_conn_state rt = DISCONNECTED)"

lemma free_vif_account:
  assumes "m_rt s = Some rt" and "rt_txq rt = Some []" and "rt_vif rt \<noteq> None"
  shows "account (free_vif s) = account s - Holding 2 0 0 0" "frame (free_vif s) = frame s"
  using assms by (auto simp: free_vif_def purge_queue_def)

lemma err_vif_account:
  assumes "m_rt s = Some rt" and "rt_txq rt = Some []" and "rt_vif rt \<noteq> None" and "err_vif r s = (ret, t)"
  shows "m_rt t = None \<and> account t = account s - Holding 3 0 0 0 \<and> frame t = frame s \<and> ret = r"
  using assms(4) free_vif_account [OF assms(1-3)] free_runtime_account [of "free_vif s"]
  by (auto simp: err_vif_def err_runtime_def)

lemma unregister_netdev_account:
  assumes "m_rt s = Some rt" and "rt_netdev rt \<noteq> None"
  shows "account (unregister_netdev s) = account s - Holding 0 1 0 0" "frame (unregister_netdev s) = frame s"
    "m_rt (unregister_netdev s) = Some (rt\<lparr>rt_netdev := None\<rparr>)"
  using assms by (simp_all add: unregister_netdev_def) (simp_all add: account_simps emit_def)

lemma err_netdev_account:
  assumes "m_rt s = Some rt" and "rt_txq rt = Some []" and "rt_vif rt \<noteq> None" and "rt_netdev rt \<noteq> None"
    and "err_netdev r s = (ret, t)"
  shows "m_rt t = None \<and> account t = account s - Holding 3 1 0 0 \<and> frame t = frame s \<and> ret = r"
  using err_vif_account [OF unregister_netdev_account(3) [OF assms(1,4)]] assms(2,3,5)
    unregister_netdev_account [OF assms(1,4)]
  by (auto simp: err_netdev_def)

text \<open>The interface counts as added when the driver has the operation.\<close>

definition has_if :: "mst \<Rightarrow> int" where
  "has_if s = (case hw_ops (m_hw s) of None \<Rightarrow> 0 | Some t \<Rightarrow> if o_add_interface t \<noteq> None then 1 else 0)"

definition has_start :: "mst \<Rightarrow> int" where
  "has_start s = (case hw_ops (m_hw s) of None \<Rightarrow> 0 | Some t \<Rightarrow> if o_start t \<noteq> None then 1 else 0)"

lemma has_frame: "frame s = frame t \<Longrightarrow> has_if s = has_if t \<and> has_start s = has_start t"
  by (simp add: frame_def has_if_def has_start_def)

lemma remove_vif_account:
  assumes "m_rt s = Some rt" and "rt_vif_added rt" and "paired_ops s"
  shows "account (remove_vif s) = account s - Holding 0 0 (has_if s) 0" "frame (remove_vif s) = frame s"
    "m_rt (remove_vif s) = Some (rt\<lparr>rt_vif_added := False\<rparr>)"
  using assms
  by (auto simp: remove_vif_def Let_def void_op_def has_op_def has_if_def paired_ops_def split: option.splits)
    (auto simp: account_simps emit_def)

lemma stop_account:
  assumes "paired_ops s"
  shows "account (void_op o_stop EvStop s) = account s - Holding 0 0 0 (has_start s)"
    "frame (void_op o_stop EvStop s) = frame s" "m_rt (void_op o_stop EvStop s) = m_rt s"
  using assms
  by (auto simp: void_op_def has_op_def has_start_def paired_ops_def split: option.splits)
    (auto simp: account_simps emit_def)

section \<open>Registration\<close>

lemma kzalloc_account:
  "kzalloc_obj s = (Some p, t) \<Longrightarrow> account t = account s + Holding 1 0 0 0 \<and> frame t = frame s \<and> m_rt t = m_rt s"
  "kzalloc_obj s = (None, t) \<Longrightarrow> account t = account s \<and> frame t = frame s \<and> m_rt t = m_rt s"
  for s t :: mst
  by (auto simp: kzalloc_obj_def account_simps split: if_splits)

lemma alloc_vif_account:
  assumes "alloc_vif s = (ret, t)" and "m_rt s = Some rt" and "rt_vif rt = None" and "rt_txq rt = None"
  shows "frame t = frame s \<and>
     (if ret = 0 then account t = account s + Holding 2 0 0 0 \<and> (\<exists>h. m_rt t = Some (rt\<lparr>rt_vif := Some (new_vif h), rt_txq := Some []\<rparr>))
      else account t = account s \<and> m_rt t = Some rt)"
proof -
  consider (neg) "hw_vif_data_size (m_hw s) < 0 \<or> hw_txq_data_size (m_hw s) < 0"
    | (big) "\<not> (hw_vif_data_size (m_hw s) < 0 \<or> hw_txq_data_size (m_hw s) < 0)"
        "size_add (e_sizeof_vif (m_env s)) (word_of_int (hw_vif_data_size (m_hw s))) = None \<or>
         size_add (e_sizeof_txq (m_env s)) (word_of_int (hw_txq_data_size (m_hw s))) = None"
    | (ok) "\<not> (hw_vif_data_size (m_hw s) < 0 \<or> hw_txq_data_size (m_hw s) < 0)"
        "\<not> (size_add (e_sizeof_vif (m_env s)) (word_of_int (hw_vif_data_size (m_hw s))) = None \<or>
         size_add (e_sizeof_txq (m_env s)) (word_of_int (hw_txq_data_size (m_hw s))) = None)"
    by argo
  then show ?thesis
  proof cases
    case neg
    have "alloc_vif s = (- EINVAL, s)" unfolding alloc_vif_def if_P [OF neg] using assms(2) by simp
    then show ?thesis using assms by (simp add: errno_defs)
  next
    case big
    have "alloc_vif s = (- EOVERFLOW, s)"
      unfolding alloc_vif_def if_not_P [OF big(1)] if_P [OF big(2)] using assms(2) by simp
    then show ?thesis using assms by (simp add: errno_defs)
  next
  case ok
  obtain v s1 where v: "kzalloc_obj s = (v, s1)" by (cases "kzalloc_obj s")
  obtain q s2 where q: "kzalloc_obj s1 = (q, s2)" by (cases "kzalloc_obj s1")
  have kv: "account s1 = account s + Holding (if v = None then 0 else 1) 0 0 0 \<and> frame s1 = frame s \<and> m_rt s1 = m_rt s"
    by (cases v) (use kzalloc_account(1) [of s _ s1] kzalloc_account(2) [of s s1] v in simp_all)
  have kq: "account s2 = account s1 + Holding (if q = None then 0 else 1) 0 0 0 \<and> frame s2 = frame s1 \<and> m_rt s2 = m_rt s1"
    by (cases q) (use kzalloc_account(1) [of s1 _ s2] kzalloc_account(2) [of s1 s2] q in simp_all)
  have rt0: "rt\<lparr>rt_vif := None, rt_txq := None\<rparr> = rt" using assms(3,4) by simp
  have "(ret, t) = (if v = None \<or> q = None
       then (- ENOMEM, upd_rt (\<lambda>rt. rt\<lparr>rt_vif := None, rt_txq := None\<rparr>) (kfree_opt q (kfree_opt v s2)))
       else (0, upd_rt (\<lambda>rt. rt\<lparr>rt_vif := Some (new_vif (m_hw s2)), rt_txq := Some []\<rparr>) s2))"
    using assms(1,2) unfolding alloc_vif_def if_not_P [OF ok(1)] if_not_P [OF ok(2)] by (simp add: v q Let_def)
  then show ?thesis
    using kv kq assms(2) by (cases v; cases q) (auto simp: kfree_opt_def errno_defs rt0)
  qed
qed

lemma set_triggers_account:
  "set_triggers ks s = (ret, t) \<Longrightarrow> account t = account s \<and> frame t = frame s \<and> m_rt t = m_rt s"
proof (induction ks s arbitrary: ret t rule: set_triggers.induct)
  case (2 k ks s)
  let ?e = "emit (EvSetTrigger k) s"
  have "account ?e = account s \<and> frame ?e = frame s \<and> m_rt ?e = m_rt s"
    by (simp add: account_emit neutral_def)
  moreover have "set_triggers (k # ks) s =
      (if e_set_trigger (m_env s) (m_log s) \<noteq> 0 then (e_set_trigger (m_env s) (m_log s), ?e) else set_triggers ks ?e)"
    by (simp add: call_env_def)
  moreover have "e_set_trigger (m_env s) (m_log s) = 0 \<Longrightarrow> set_triggers ks ?e = (ret, t) \<Longrightarrow>
      account t = account ?e \<and> frame t = frame ?e \<and> m_rt t = m_rt ?e"
    by (rule "2.IH") (simp_all add: call_env_def)
  ultimately show ?case using "2.prems" by (auto split: if_splits)
qed simp

lemma register_call_account:
  assumes "call_env e_register (EvRegister a) s = (d, t)"
  shows "frame t = frame s \<and> m_rt t = m_rt s \<and>
    account t = account s + Holding 0 (if d = None then 0 else 1) 0 0"
  using assms by (auto simp: call_env_def account_simps emit_def)

lemma add_if_account:
  assumes "call_op o_add_interface 0 (EvAddInterface v) s = (ret, t)"
  shows "frame t = frame s \<and> m_rt t = m_rt s \<and>
    account t = account s + Holding 0 0 (if ret = 0 then has_if s else 0) 0"
  using assms by (auto simp: call_op_def account_simps emit_def has_if_def answered_0_def split: option.splits)

lemma start_account:
  assumes "call_op o_start 0 EvStart s = (ret, t)"
  shows "frame t = frame s \<and> m_rt t = m_rt s \<and>
    account t = account s + Holding 0 0 0 (if ret = 0 then has_start s else 0)"
  using assms by (auto simp: call_op_def account_simps emit_def has_start_def answered_0_def split: option.splits)

lemma err_remove_vif_account:
  assumes "m_rt s = Some rt" and "fresh_rt rt" and "rt_netdev rt \<noteq> None" and "rt_vif_added rt" and "paired_ops s"
    and "err_remove_vif r s = (ret, t)"
  shows "m_rt t = None \<and> account t = account s - Holding 3 1 (has_if s) 0 \<and> frame t = frame s \<and> ret = r"
proof -
  have "m_rt t = None \<and> account t = account (remove_vif s) - Holding 3 1 0 0 \<and> frame t = frame (remove_vif s) \<and> ret = r"
    by (rule err_netdev_account [OF remove_vif_account(3) [OF assms(1,4,5)]])
      (use assms in \<open>simp_all add: fresh_rt_def err_remove_vif_def\<close>)
  then show ?thesis using remove_vif_account [OF assms(1,4,5)] by simp
qed

lemma register_start_account:
  assumes "register_start s = (ret, t)" and "m_rt s = Some rt" and "fresh_rt rt" and "rt_netdev rt \<noteq> None"
    and "paired_ops s"
  shows "frame t = frame s \<and>
    (if ret = 0 then account t = account s + Holding 0 0 (has_if s) (has_start s) \<and>
        m_rt t = Some (rt\<lparr>rt_vif_added := True, rt_started := True, rt_listed := True\<rparr>)
     else account t = account s - Holding 3 1 0 0 \<and> m_rt t = None)"
proof -
  obtain r1 s1 where a: "call_op o_add_interface 0 (EvAddInterface (the (rt_vif (the_rt s)))) s = (r1, s1)"
    by (cases "call_op o_add_interface 0 (EvAddInterface (the (rt_vif (the_rt s)))) s")
  note a1 = add_if_account [OF a]
  let ?s2 = "upd_rt (\<lambda>rt. rt\<lparr>rt_vif_added := True\<rparr>) s1"
  obtain r2 s3 where b: "call_op o_start 0 EvStart ?s2 = (r2, s3)" by (cases "call_op o_start 0 EvStart ?s2")
  note b1 = start_account [OF b]
  show ?thesis
  proof (cases "r1 = 0")
    case False
    then have "err_netdev r1 s1 = (ret, t)" using assms(1) by (simp add: register_start_def a)
    then have "m_rt t = None \<and> account t = account s1 - Holding 3 1 0 0 \<and> frame t = frame s1 \<and> ret = r1"
      using err_netdev_account [of s1 rt r1 ret t] assms a1 by (simp add: fresh_rt_def)
    then show ?thesis using False a1 by simp
  next
    case ok: True
    have rt3: "m_rt s3 = Some (rt\<lparr>rt_vif_added := True\<rparr>)" and f3: "frame s3 = frame s"
      using b1 a1 assms(2) by simp_all
    have p3: "paired_ops s3" and h3: "has_if s3 = has_if s"
      using paired_frame [OF f3] has_frame [OF f3] assms(5) by simp_all
    have h2: "has_start ?s2 = has_start s" using has_frame [of ?s2 s] a1 by simp
    show ?thesis
    proof (cases "r2 = 0")
      case False
      then have "err_remove_vif r2 s3 = (ret, t)" using assms(1) ok by (simp add: register_start_def a b)
      then have "m_rt t = None \<and> account t = account s3 - Holding 3 1 (has_if s3) 0 \<and> frame t = frame s3 \<and> ret = r2"
        using err_remove_vif_account [OF rt3 _ _ _ p3] assms(3,4) by (simp add: fresh_rt_def)
      then show ?thesis using False ok a1 b1 h3 f3 by simp
    next
      case True
      then have "t = upd_rt (\<lambda>rt. rt\<lparr>rt_listed := True\<rparr>) (emit (EvLinkState False)
          (emit (EvAdminState True) (upd_rt (\<lambda>rt. rt\<lparr>rt_started := True\<rparr>) s3)))" "ret = 0"
        using assms(1) ok by (simp_all add: register_start_def a b)
      then show ?thesis using True ok a1 b1 h2 f3 rt3 assms(2) by (simp add: account_emit neutral_def)
    qed
  qed
qed

definition registered_rt :: "runtime \<Rightarrow> bool" where
  "registered_rt rt = (fresh_rt rt \<and> conn_ok rt \<and> rt_vif_added rt \<and> rt_started rt \<and> rt_listed rt)"

lemma default_channel_account:
  "default_channel s = (ret, t) \<Longrightarrow> account t = account s \<and> frame t = frame s \<and> m_rt t = m_rt s"
  by (auto simp: default_channel_def Let_def account_simps set_chandef_def upd_hw_def split: if_splits)

lemma account_new_rt: "account (s\<lparr>m_rt := r\<rparr>) = account s" "frame (s\<lparr>m_rt := r\<rparr>) = frame s"
  by (simp_all add: account_simps)

lemma wireless_account:
  "call_env e_set_wireless_info (EvWirelessInfo w) s = (ret, t) \<Longrightarrow>
     account t = account s \<and> frame t = frame s \<and> m_rt t = m_rt s"
  by (auto simp: call_env_def account_emit neutral_def)

lemma register_hw_account:
  assumes reg: "register_hw s = (ret, t)" and none: "m_rt s = None" and paired: "paired_ops s"
  shows "frame t = frame s \<and>
    (if ret = 0 then account t = account s + Holding 3 1 (has_if s) (has_start s) \<and>
        (\<exists>rt. m_rt t = Some rt \<and> registered_rt rt)
     else account t = account s \<and> m_rt t = None)"
proof (cases "hw_ops (m_hw s) = None")
  case True
  then show ?thesis using reg none by (simp add: register_hw_def errno_defs)
next
  case ops: False
  obtain r1 s1 where c1: "default_channel s = (r1, s1)" by (cases "default_channel s")
  note f1 = default_channel_account [OF c1]
  obtain p s2 where c2: "kzalloc_obj s1 = (p, s2)" by (cases "kzalloc_obj s1")
  have f2: "account s2 = account s1 + Holding (if p = None then 0 else 1) 0 0 0 \<and> frame s2 = frame s1 \<and> m_rt s2 = m_rt s1"
    by (cases p) (use kzalloc_account(1) [of s1 _ s2] kzalloc_account(2) [of s1 s2] c2 in simp_all)
  let ?rt = "zero_runtime (m_env s2)" and ?s3 = "s2\<lparr>m_rt := Some (zero_runtime (m_env s2))\<rparr>"
  obtain r4 s4 where c4: "alloc_vif ?s3 = (r4, s4)" by (cases "alloc_vif ?s3")
  have z0: "rt_vif ?rt = None" "rt_txq ?rt = None" by (simp_all add: zero_runtime_def)
  have f4: "frame s4 = frame s2 \<and> (if r4 = 0 then account s4 = account s2 + Holding 2 0 0 0 \<and>
       (\<exists>h. m_rt s4 = Some (?rt\<lparr>rt_vif := Some (new_vif h), rt_txq := Some []\<rparr>)) else account s4 = account s2 \<and> m_rt s4 = Some ?rt)"
    using alloc_vif_account [OF c4 _ z0] by (simp add: account_new_rt)
  obtain d s5 where c5: "call_env e_register (EvRegister (hw_perm_addr (m_hw s4))) s4 = (d, s5)"
    by (cases "call_env e_register (EvRegister (hw_perm_addr (m_hw s4))) s4")
  note f5 = register_call_account [OF c5]
  have early: "ret \<noteq> 0 \<and> frame t = frame s \<and> account t = account s \<and> m_rt t = None"
    if bad: "r1 \<noteq> 0 \<or> p = None \<or> r4 \<noteq> 0 \<or> d = None"
  proof -
    consider "r1 \<noteq> 0" | "r1 = 0" "p = None" | "r1 = 0" "p \<noteq> None" "r4 \<noteq> 0"
      | "r1 = 0" "p \<noteq> None" "r4 = 0" "d = None" using bad by blast
    then show ?thesis
    proof cases
      case 1
      then show ?thesis using reg ops f1 none by (simp add: register_hw_def c1)
    next
      case 2
      then show ?thesis using reg ops f1 f2 none by (simp add: register_hw_def c1 c2 errno_defs)
    next
      case 3
      then have "err_runtime r4 s4 = (ret, t)" using reg ops by (auto simp: register_hw_def c1 c2 c4)
      then show ?thesis using 3 f1 f2 f4 free_runtime_account [of s4] by (auto simp: err_runtime_def)
    next
      case 4
      then have e: "err_vif (- ENOMEM) s5 = (ret, t)" using reg ops by (auto simp: register_hw_def c1 c2 c4 c5)
      obtain h where h: "m_rt s4 = Some (?rt\<lparr>rt_vif := Some (new_vif h), rt_txq := Some []\<rparr>)" using 4 f4 by auto
      show ?thesis using err_vif_account [OF _ _ _ e] f1 f2 f4 f5 4 h by (simp add: errno_defs)
    qed
  qed
  show ?thesis
  proof (cases "r1 \<noteq> 0 \<or> p = None \<or> r4 \<noteq> 0 \<or> d = None")
    case True
    then show ?thesis using early by simp
  next
    case False
    then obtain dev where dev: "d = Some dev" and z: "r1 = 0" "p \<noteq> None" "r4 = 0" by auto
    obtain h where h: "m_rt s4 = Some (?rt\<lparr>rt_vif := Some (new_vif h), rt_txq := Some []\<rparr>)" using z f4 by auto
    let ?s6 = "upd_rt (\<lambda>rt. rt\<lparr>rt_netdev := Some dev\<rparr>) s5"
    let ?r = "?rt\<lparr>rt_vif := Some (new_vif h), rt_txq := Some [], rt_netdev := Some dev\<rparr>"
    let ?w = "fill_wireless_info (m_hw ?s6) (the_rt ?s6) dev"
    obtain r7 s7 where c7: "call_env e_set_wireless_info (EvWirelessInfo ?w) ?s6 = (r7, s7)"
      by (cases "call_env e_set_wireless_info (EvWirelessInfo ?w) ?s6")
    note f7 = wireless_account [OF c7]
    obtain r8 s8 where c8: "set_triggers [0, 1, 2] s7 = (r8, s8)" by (cases "set_triggers [0, 1, 2] s7")
    note f8 = set_triggers_account [OF c8]
    have rt7: "m_rt s7 = Some ?r" and rt8: "m_rt s8 = Some ?r" using f8 f7 f5 h by simp_all
    have ac: "account s7 = account s + Holding 3 1 0 0" "frame s7 = frame s"
      "account s8 = account s + Holding 3 1 0 0" "frame s8 = frame s"
      using f1 f2 f4 f5 f7 f8 z dev by simp_all
    have fresh: "fresh_rt ?r" by (simp add: fresh_rt_def zero_runtime_def)
    have reg7: "(ret, t) = (if r7 \<noteq> 0 then err_netdev r7 s7 else if r8 \<noteq> 0 then err_netdev r8 s8 else register_start s8)"
    proof -
      obtain q where q: "p = Some q" using z(2) by auto
      show ?thesis using reg ops z(1,3) unfolding register_hw_def c1
        by (cases "r7 = 0") (simp_all add: c2 [unfolded q] c4 c5 [unfolded dev] Let_def c7 c8 del: account_upd_rt(3) set_triggers.simps One_nat_def)
    qed
    consider "r7 \<noteq> 0" | "r7 = 0" "r8 \<noteq> 0" | "r7 = 0" "r8 = 0" by blast
    then show ?thesis
    proof cases
      case 1
      then have e: "err_netdev r7 s7 = (ret, t)" using reg7 by simp
      show ?thesis using err_netdev_account [OF rt7 _ _ _ e] 1 ac by simp
    next
      case 2
      then have e: "err_netdev r8 s8 = (ret, t)" using reg7 by simp
      show ?thesis using err_netdev_account [OF rt8 _ _ _ e] 2 ac by simp
    next
      case 3
      then have e: "register_start s8 = (ret, t)" using reg7 by simp
      have p8: "paired_ops s8" using paired_frame [OF ac(4)] paired by simp
      have "conn_ok (?r\<lparr>rt_vif_added := True, rt_started := True, rt_listed := True\<rparr>)"
        by (simp add: conn_ok_def zero_runtime_def new_vif_def zero_params_conn_def)
      then have "registered_rt (?r\<lparr>rt_vif_added := True, rt_started := True, rt_listed := True\<rparr>)"
        using fresh by (simp add: registered_rt_def fresh_rt_def)
      then show ?thesis
        using register_start_account [OF e rt8 fresh _ p8] ac has_frame [OF ac(4)]
        by (cases "ret = 0") auto
    qed
  qed
qed

end
