(* ===== verification/LC_Mac_Quiet.thy ===== *)
theory LC_Mac_Quiet
  imports LC_Mac_Own
begin

text \<open>
  No entry point of a registered device registers, adds an interface or starts the driver: what the
  registration holds is the same in every reachable state, and unregistering gives it back.
\<close>

section \<open>The registration's part of the state\<close>

definition reg_flags :: "runtime \<Rightarrow> u32 option \<times> bool \<times> bool \<times> bool" where
  "reg_flags rt = (rt_netdev rt, rt_vif_added rt, rt_started rt, rt_listed rt)"

definition regs :: "mst \<Rightarrow> (ops option \<times> env) \<times> int \<times> int \<times> int \<times> (u32 option \<times> bool \<times> bool \<times> bool) option" where
  "regs s = (frame s, devs s, ifs s, starts s, map_option reg_flags (m_rt s))"

lemma regs_more: "kst.more s = kst.more t \<Longrightarrow> regs s = regs t" for s t :: mst
  using mst_more [of s t] by (simp add: regs_def account_simps)

lemma regs_upd: "(\<And>rt. reg_flags (f rt) = reg_flags rt) \<Longrightarrow> regs (upd_rt f s) = regs s"
  by (simp add: regs_def account_simps upd_rt_def option.map_comp o_def)

lemma regs_emit: "neutral e \<Longrightarrow> regs (emit e s) = regs s"
  using account_emit [of e s] by (simp add: regs_def account_def)

lemma regs_call_op: "neutral e \<Longrightarrow> regs (snd (call_op f d e s)) = regs s"
  by (simp add: call_op_def regs_emit split: option.splits)

lemma regs_call_env: "neutral e \<Longrightarrow> regs (snd (call_env f e s)) = regs s"
  by (simp add: call_env_def regs_emit)

lemma regs_void_op: "neutral e \<Longrightarrow> regs (void_op f e s) = regs s"
  by (simp add: void_op_def regs_emit)

lemmas quiet = regs_upd regs_emit regs_call_op regs_call_env regs_void_op reg_flags_def neutral_def chain_simps

section \<open>Every operation\<close>

lemma regs_poke [simp]: "regs (poke a bs s) = regs s"
  by (rule regs_more) simp

lemma regs_mem [simp]: "regs (s\<lparr>k_mem := m\<rparr>) = regs s"
  by (rule regs_more) simp

lemma regs_kfree_skb [simp]: "regs (kfree_skb b s) = regs s"
  by (rule regs_more) (rule kfree_skb_more)

lemma regs_kfree_obj [simp]: "regs (kfree_obj s) = regs s"
  by (rule regs_more) (rule kfree_obj_more)

lemma regs_alloc_skb [simp]: "regs (snd (alloc_skb n s)) = regs s"
  by (rule regs_more) (rule alloc_skb_more)

lemma regs_put_zero [simp]: "regs (snd (snd (skb_put_zero b n s))) = regs s"
  by (rule regs_more) (rule skb_put_zero_more)

lemma regs_put_data [simp]: "regs (snd (snd (skb_put_data b bs n s))) = regs s"
  by (rule regs_more) (rule skb_put_data_more)

lemma regs_trim [simp]: "regs (snd (skb_trim b n s)) = regs s"
  by (rule regs_more) (rule skb_trim_more)

lemma regs_kzalloc [simp]: "regs (snd (kzalloc_obj s)) = regs s"
  by (rule regs_more) (rule kzalloc_obj_more)

lemma regs_set_chandef [simp]: "regs (set_chandef c s) = regs s"
  by (simp add: regs_def account_simps set_chandef_def upd_hw_def)

lemma regs_kfree_opt [simp]: "regs (kfree_opt p s) = regs s"
  by (simp add: kfree_opt_def split: option.split)

lemma regs_next_seq [simp]: "regs (snd (next_seq_ctrl s)) = regs s"
  by (simp add: next_seq_ctrl_def quiet)

lemma regs_alloc_tx [simp]: "regs (snd (alloc_tx_skb n s)) = regs s"
  by (simp add: alloc_tx_skb_def quiet split: option.split)

lemma regs_send_mgmt [simp]: "regs (snd (send_mgmt b s)) = regs s"
  by (simp add: send_mgmt_def quiet)

lemma regs_update_info [simp]: "regs (snd (update_wireless_info s)) = regs s"
  by (simp add: update_wireless_info_def quiet split: option.split)

lemma regs_set_channel [simp]: "regs (snd (set_channel f s)) = regs s"
  by (simp add: set_channel_def quiet split: option.split)

lemma regs_send_auth [simp]: "regs (snd (send_auth s)) = regs s"
  by (simp add: send_auth_def quiet split: option.split)

lemma regs_send_deauth [simp]: "regs (send_deauth c s) = regs s"
  by (simp add: send_deauth_def quiet split: option.split)

lemma regs_put_ie [simp]: "regs (snd (put_ie a e n b ps)) = regs (snd ps)"
  by (simp add: put_ie_def quiet)

lemma regs_send_assoc [simp]: "regs (snd (send_assoc_req bss s)) = regs s"
  by (simp add: send_assoc_req_def quiet split: option.split)

lemma regs_send_probe [simp]: "regs (snd (send_probe_req ssid n s)) = regs s"
  by (simp add: send_probe_req_def quiet split: option.split)

lemma regs_filter [simp]: "regs (configure_scan_filter b s) = regs s"
  by (simp add: configure_scan_filter_def quiet)

lemma regs_clear_params [simp]: "regs (clear_connect_params s) = regs s"
  by (simp add: clear_connect_params_def quiet)

lemma regs_upd_vif [simp]: "regs (upd_vif f s) = regs s"
  by (simp add: upd_vif_def quiet)

lemma regs_purge [simp]: "regs (purge_queue q s) = regs s"
  by (induction q arbitrary: s) (simp_all add: purge_queue_def)

lemma regs_free_txqs [simp]: "regs (free_txqs qs s) = regs s"
  by (induction qs s rule: free_txqs.induct) simp_all

lemma regs_alloc_txqs [simp]: "regs (snd (alloc_txqs n i s)) = regs s"
proof (induction n i s rule: alloc_txqs.induct)
  case (2 n i s)
  have "regs ((kfree_obj ^^ j) t) = regs t" for j t by (induction j) simp_all
  moreover obtain r s1 where k: "kzalloc_obj s = (r, s1)" by (cases "kzalloc_obj s")
  moreover have "regs s1 = regs s" using regs_kzalloc [of s] k by simp
  ultimately show ?case using 2 by (cases r) auto
qed simp

lemma regs_free_sta [simp]: "regs (free_sta s) = regs s"
  by (simp add: free_sta_def quiet split: option.split)

lemma regs_alloc_sta [simp]: "regs (snd (alloc_sta b s)) = regs s"
  by (simp add: alloc_sta_def quiet split: option.split bool.split)

lemma regs_set_link [simp]: "regs (set_link b s) = regs s"
  by (simp add: set_link_def quiet)

lemma regs_select_bss [simp]: "regs (snd (snd (select_bss s))) = regs s"
  by (simp add: select_bss_def quiet)

lemma regs_disconnect_local [simp]: "regs (disconnect_local r p b s) = regs s"
  by (simp add: disconnect_local_def quiet split: option.split)

lemma regs_connect_failed [simp]: "regs (connect_failed c s) = regs s"
  by (simp add: connect_failed_def quiet split: option.split)

lemma regs_connect_complete [simp]: "regs (snd (connect_complete b a s)) = regs s"
  by (simp add: connect_complete_def quiet split: option.split)

lemma regs_connect_prepare [simp]: "regs (connect_prepare b s) = regs s"
  by (simp add: connect_prepare_def quiet)

lemma regs_netdev_connect [simp]: "regs (snd (netdev_connect ps p s)) = regs s"
  by (simp add: netdev_connect_def err_connect_def quiet)

lemma regs_netdev_disconnect [simp]: "regs (snd (netdev_disconnect c p s)) = regs s"
  by (simp add: netdev_disconnect_def quiet)

lemma regs_ieee80211_disconnect [simp]: "regs (ieee80211_disconnect s) = regs s"
  by (simp add: ieee80211_disconnect_def split: option.split)

lemma regs_probe_ssids [simp]: "regs (snd (probe_ssids xs s)) = regs s"
proof (induction xs s rule: probe_ssids.induct)
  case (2 ssid n rest s)
  then show ?case using regs_send_probe [of ssid n s] by (cases "send_probe_req ssid n s") auto
qed simp

lemma regs_sw_scan_loop [simp]: "regs (snd (sw_scan_loop chs ss s)) = regs s"
proof (induction chs ss s rule: sw_scan_loop.induct)
  case (3 c chs ss s)
  obtain r1 s1 where c: "set_channel (chan_freq (m_hw s) c) s = (r1, s1)"
    by (cases "set_channel (chan_freq (m_hw s) c) s")
  obtain r2 s2 where p: "(if ss = [] then send_probe_req [] 0 s1 else probe_ssids ss s1) = (r2, s2)"
    by (cases "if ss = [] then send_probe_req [] 0 s1 else probe_ssids ss s1")
  have "regs s1 = regs s" using regs_set_channel [of _ s] c by (metis snd_conv)
  moreover have "regs s2 = regs s1"
    using p by (cases "ss = []") (simp, metis snd_conv regs_send_probe, simp, metis snd_conv regs_probe_ssids)
  ultimately show ?case using 3 [OF c [symmetric] _ p [symmetric]] by (auto simp: c p regs_emit neutral_def)
qed simp_all

lemma regs_run_sw_scan [simp]: "regs (snd (run_sw_scan s)) = regs s"
  by (simp add: run_sw_scan_def quiet)

lemma regs_free_scan_req [simp]: "regs (free_scan_req s) = regs s"
  by (simp add: free_scan_req_def quiet)

lemma regs_alloc_scan_req [simp]: "regs (snd (alloc_scan_req ps s)) = regs s"
  by (simp add: alloc_scan_req_def quiet split: option.split)

lemma regs_trigger_scan [simp]: "regs (snd (trigger_scan ps p s)) = regs s"
  by (simp add: trigger_scan_def quiet)

lemma regs_scan_completed [simp]: "regs (scan_completed a s) = regs s"
  by (simp add: scan_completed_def quiet)

lemma regs_build_data [simp]: "regs (snd (snd (build_data_frame e n s))) = regs s"
  by (simp add: build_data_frame_def quiet split: option.split)

lemma regs_netdev_send [simp]: "regs (snd (netdev_send e n s)) = regs s"
  by (simp add: netdev_send_def quiet split: option.split)

lemma regs_netdev_recv [simp]: "regs (snd (snd (netdev_recv n s))) = regs s"
  by (simp add: netdev_recv_def quiet split: option.split list.split)

section \<open>The receive path\<close>

lemma regs_store [simp]: "regs (snd (store_scan_result b s)) = regs s"
  by (simp add: store_scan_result_def quiet)

lemma regs_selected [simp]: "regs (snd (selected_or_fallback s)) = regs s"
  by (simp add: selected_or_fallback_def quiet)

lemma regs_handle_auth [simp]: "regs (snd (handle_auth_rx b s)) = regs s"
  by (simp add: handle_auth_rx_def quiet)

lemma regs_handle_assoc [simp]: "regs (snd (handle_assoc_resp_rx b s)) = regs s"
  by (simp add: handle_assoc_resp_rx_def quiet)

lemma regs_handle_disconnect [simp]: "regs (snd (handle_disconnect_rx b s)) = regs s"
  by (simp add: handle_disconnect_rx_def quiet)

lemma regs_handle_mgmt [simp]: "regs (snd (handle_mgmt_rx b s)) = regs s"
  by (simp add: handle_mgmt_rx_def quiet)

lemma regs_build_eth [simp]: "regs (snd (build_eth_skb d r a n s)) = regs s"
  by (simp add: build_eth_skb_def quiet split: option.split)

lemma regs_amsdu_sub [simp]: "regs (snd (snd (amsdu_sub pos remaining queued s))) = regs s"
  by (simp add: amsdu_sub_def quiet split: option.split)

lemma regs_amsdu_loop [simp]: "regs (snd (amsdu_loop pos remaining queued s)) = regs s"
proof (induction pos remaining queued s rule: amsdu_loop.induct)
  case (1 pos remaining queued s)
  obtain adv q t where sub: "amsdu_sub pos remaining queued s = (adv, q, t)"
    by (cases "amsdu_sub pos remaining queued s")
  then have "regs t = regs s" using regs_amsdu_sub [of pos remaining queued s] by (simp del: regs_amsdu_sub)
  then show ?case
    using 1 sub by (subst amsdu_loop.simps) (cases adv, auto)
qed

lemma regs_enqueue_amsdu [simp]: "regs (snd (enqueue_amsdu b h s)) = regs s"
  by (simp add: enqueue_amsdu_def quiet)

lemma regs_data_to_ethernet [simp]: "regs (snd (snd (data_to_ethernet b s))) = regs s"
  by (simp add: data_to_ethernet_def quiet split: option.split)

lemma regs_rx_data [simp]: "regs (rx_data b s) = regs s"
  by (simp add: rx_data_def quiet)

lemma regs_rx [simp]: "regs (rx_irqsafe b s) = regs s"
proof -
  obtain c t where p: "(if hw_flags (m_hw s) AND 2 \<noteq> 0 then skb_trim b (sb_len b - 4) s else (b, s)) = (c, t)"
    by (cases "if hw_flags (m_hw s) AND 2 \<noteq> 0 then skb_trim b (sb_len b - 4) s else (b, s)")
  have "regs t = regs s" using p regs_trim [of b "sb_len b - 4" s] by (metis snd_conv)
  then show ?thesis unfolding rx_irqsafe_def p Let_def split_conv by (simp add: split_beta)
qed

lemma regs_mac_step: "mac_step s t \<Longrightarrow> regs t = regs s"
  by (erule mac_step.cases) simp_all

lemma regs_mac_run: "mac_run s t \<Longrightarrow> regs t = regs s"
  by (induction rule: mac_run.induct) (simp_all add: regs_mac_step)

end
