(* ===== verification/LC_Mac_Thms.thy ===== *)
theory LC_Mac_Thms
  imports LC_Mac_Quiet
begin

text \<open>
  The properties of the 802.11 layer as a whole: registration is all or nothing, unregistration gives
  back what registration took, and the connection keeps its invariant and its legal edges in every
  reachable state.
\<close>

section \<open>Unregistration\<close>

lemma held_account:
  "account t = account s + Holding a b c d \<Longrightarrow>
     k_live t = k_live s + a \<and> devs t = devs s + b \<and> ifs t = ifs s + c \<and> starts t = starts s + d"
  by (simp add: account_def)

lemma regs_held: "regs t = regs s \<Longrightarrow> frame t = frame s \<and> devs t = devs s \<and> ifs t = ifs s \<and> starts t = starts s \<and>
    map_option reg_flags (m_rt t) = map_option reg_flags (m_rt s)"
  by (simp add: regs_def)

definition up_flags :: "mst \<Rightarrow> bool" where
  "up_flags s = (case m_rt s of None \<Rightarrow> False | Some rt \<Rightarrow> rt_netdev rt \<noteq> None \<and> rt_vif_added rt \<and> rt_started rt)"

lemma up_flags_regs: "regs t = regs s \<Longrightarrow> up_flags t = up_flags s"
  by (cases "m_rt t"; cases "m_rt s") (auto simp: regs_def up_flags_def reg_flags_def)

text \<open>The first half of \<^verbatim>\<open>unregister_hw\<close>, up to the driver being stopped, and the second.\<close>

definition unreg_quiesce :: "mst \<Rightarrow> mst" where
  "unreg_quiesce s =
     (let s = upd_rt (\<lambda>rt. rt\<lparr>rt_listed := False\<rparr>) s;
          s = (if rt_netdev (the_rt s) \<noteq> None then emit (EvAdminState False) s else s)
      in if rt_conn_state (the_rt s) \<noteq> DISCONNECTED then disconnect_local 3 0 False s else s)"

definition unreg_drop :: "mst \<Rightarrow> mst" where
  "unreg_drop s =
     (let s = configure_scan_filter False s;
          s = free_scan_req s;
          s = free_sta s;
          s = purge_queue (rt_rx_queue (the_rt s)) s
      in free_runtime (free_vif s))"

lemma unregister_hw_split:
  "m_rt s \<noteq> None \<Longrightarrow> unregister_hw s =
     (let s = unreg_quiesce s;
          s = (if rt_started (the_rt s) then void_op o_stop EvStop s else s)
      in unreg_drop (unregister_netdev (remove_vif (upd_rt (\<lambda>rt. rt\<lparr>rt_started := False\<rparr>) s))))"
  unfolding unregister_hw_def unreg_quiesce_def unreg_drop_def Let_def by (simp del: not_None_eq)

lemma quiesce_held:
  assumes "up_flags s"
  shows "frame (unreg_quiesce s) = frame s" "devs (unreg_quiesce s) = devs s" "ifs (unreg_quiesce s) = ifs s"
    "starts (unreg_quiesce s) = starts s" "up_flags (unreg_quiesce s)"
proof -
  let ?s1 = "upd_rt (\<lambda>rt. rt\<lparr>rt_listed := False\<rparr>) s"
  have r: "regs (unreg_quiesce s) = regs ?s1"
    by (simp add: unreg_quiesce_def Let_def regs_emit neutral_def del: account_upd_rt(3))
  have "up_flags ?s1" using assms by (auto simp: up_flags_def split: option.splits)
  then show "up_flags (unreg_quiesce s)" using up_flags_regs [OF r] by simp
  show "frame (unreg_quiesce s) = frame s" "devs (unreg_quiesce s) = devs s" "ifs (unreg_quiesce s) = ifs s"
    "starts (unreg_quiesce s) = starts s"
    using regs_held [OF r] account_upd_rt(1) [of "\<lambda>rt. rt\<lparr>rt_listed := False\<rparr>" s] by (simp_all add: account_def)
qed

lemma drop_held: "devs (unreg_drop s) = devs s \<and> ifs (unreg_drop s) = ifs s \<and> starts (unreg_drop s) = starts s \<and>
    m_rt (unreg_drop s) = None"
proof -
  have f: "regs (free_vif t) = regs t" for t
    by (simp add: free_vif_def quiet split: option.split)
  let ?t = "free_vif (purge_queue (rt_rx_queue (the_rt (free_sta (free_scan_req (configure_scan_filter False s)))))
      (free_sta (free_scan_req (configure_scan_filter False s))))"
  have "regs ?t = regs s" by (simp add: f)
  moreover have "unreg_drop s = free_runtime ?t" by (simp add: unreg_drop_def Let_def)
  moreover have "account (free_runtime ?t) = account ?t + Holding (- 1) 0 0 0" using free_runtime_account [of ?t] by simp
  ultimately show ?thesis using regs_held [of ?t s] free_runtime_account(3) [of ?t] held_account by simp
qed

lemma unregister_held:
  assumes up: "up_flags s" and paired: "paired_ops s"
  shows "m_rt (unregister_hw s) = None \<and> devs (unregister_hw s) = devs s - 1 \<and>
    ifs (unregister_hw s) = ifs s - has_if s \<and> starts (unregister_hw s) = starts s - has_start s"
proof -
  let ?q = "unreg_quiesce s"
  let ?v = "void_op o_stop EvStop ?q"
  let ?u = "upd_rt (\<lambda>rt. rt\<lparr>rt_started := False\<rparr>) ?v"
  note q = quiesce_held [OF up]
  obtain rt where rt: "m_rt ?q = Some rt" "rt_netdev rt \<noteq> None" "rt_vif_added rt" "rt_started rt"
    using q(5) by (auto simp: up_flags_def split: option.splits)
  have pq: "paired_ops ?q" using paired_frame [OF q(1)] paired by simp
  note v = stop_account [OF pq]
  have fu: "frame ?u = frame s" using v q by simp
  have pu: "paired_ops ?u" using paired_frame [OF fu] paired by simp
  have ru: "m_rt ?u = Some (rt\<lparr>rt_started := False\<rparr>)" using v rt by simp
  note w = remove_vif_account [OF ru _ pu]
  have w': "m_rt (remove_vif ?u) = Some (rt\<lparr>rt_started := False, rt_vif_added := False\<rparr>)" using w rt(3) by simp
  note n = unregister_netdev_account [OF w']
  have "account (unregister_netdev (remove_vif ?u)) = account ?q + Holding 0 (- 1) (- has_if s) (- has_start s)"
    using n w v rt has_frame [OF fu] has_frame [OF q(1)] by simp
  from held_account [OF this] have "devs (unregister_netdev (remove_vif ?u)) = devs s - 1 \<and>
      ifs (unregister_netdev (remove_vif ?u)) = ifs s - has_if s \<and>
      starts (unregister_netdev (remove_vif ?u)) = starts s - has_start s"
    using q by simp
  moreover have "unregister_hw s = unreg_drop (unregister_netdev (remove_vif ?u))"
  proof -
    have some: "m_rt s \<noteq> None" using up by (auto simp: up_flags_def split: option.splits)
    have "rt_started (the_rt ?q)" using rt by simp
    then show ?thesis using unregister_hw_split [OF some] unfolding Let_def by (simp only: if_True)
  qed
  ultimately show ?thesis
    using drop_held [of "unregister_netdev (remove_vif ?u)"] by simp
qed

lemma registered_up: "m_rt s = Some rt \<Longrightarrow> registered_rt rt \<Longrightarrow> up_flags s"
  by (auto simp: up_flags_def registered_rt_def conn_ok_def)

lemma registered_inv: "m_rt s = Some rt \<Longrightarrow> registered_rt rt \<Longrightarrow> conn_inv s"
  by (auto simp: conn_inv_def registered_rt_def)

lemma unregister_fresh:
  assumes rt: "m_rt s = Some rt" and reg: "registered_rt rt"
  shows "k_live (unregister_hw s) = k_live s - 3"
proof -
  have f: "rt_txq rt = Some []" "rt_vif rt \<noteq> None" "rt_sta rt = None" "rt_scan_req rt = None" "rt_rx_queue rt = []"
    "rt_conn_state rt = DISCONNECTED"
    using reg by (simp_all add: registered_rt_def fresh_rt_def)
  define like where "like = (\<lambda>t :: mst. k_live t = k_live s \<and> (\<exists>r. m_rt t = Some r \<and> rt_txq r = Some [] \<and>
    rt_vif r \<noteq> None \<and> rt_sta r = None \<and> rt_scan_req r = None \<and> rt_rx_queue r = [] \<and> rt_conn_state r = DISCONNECTED))"
  have like_emit: "like (emit e t) = like t" for e t by (simp add: like_def emit_def)
  have like_upd: "like t \<Longrightarrow> like (upd_rt g t)"
    if "\<And>r. rt_txq (g r) = rt_txq r \<and> rt_vif (g r) = rt_vif r \<and> rt_sta (g r) = rt_sta r \<and>
       rt_scan_req (g r) = rt_scan_req r \<and> rt_rx_queue (g r) = rt_rx_queue r \<and> rt_conn_state (g r) = rt_conn_state r" for g t
    using that by (auto simp: like_def upd_rt_def)
  have l0: "like s" using rt f by (simp add: like_def)
  have st: "like t \<Longrightarrow> rt_conn_state (the_rt t) = DISCONNECTED" for t by (auto simp: like_def)
  have l1: "like (upd_rt (\<lambda>rt. rt\<lparr>rt_listed := False\<rparr>) s)" by (rule like_upd [OF _ l0]) simp
  have lq: "like (unreg_quiesce s)" using l1 by (simp add: unreg_quiesce_def Let_def like_emit st del: account_upd_rt(3))
  have lv: "like t \<Longrightarrow> like (void_op o_stop EvStop t)" for t by (simp add: void_op_def like_emit)
  have lr: "like t \<Longrightarrow> like (remove_vif t)" for t
    unfolding remove_vif_def Let_def by (rule like_upd) (simp_all add: void_op_def like_emit)
  have ln: "like t \<Longrightarrow> like (unregister_netdev t)" for t
    unfolding unregister_netdev_def by (simp, intro impI, rule like_upd) (simp_all add: like_emit)
  have lc: "like t \<Longrightarrow> like (configure_scan_filter False t)" for t
    unfolding configure_scan_filter_def Let_def split_beta
    by (simp, intro impI, rule like_upd) (simp_all add: call_op_def like_emit split: option.split)
  have drop: "like t \<Longrightarrow> k_live (unreg_drop t) = k_live s - 3" for t
  proof -
    assume "like t"
    then have c: "like (configure_scan_filter False t)" by (rule lc)
    then obtain r where r: "m_rt (configure_scan_filter False t) = Some r" "rt_txq r = Some []" "rt_vif r \<noteq> None"
      "rt_sta r = None" "rt_scan_req r = None" "rt_rx_queue r = []" by (auto simp: like_def)
    have d: "unreg_drop t = free_runtime (free_vif (configure_scan_filter False t))"
      using r by (simp add: unreg_drop_def Let_def free_scan_req_def free_sta_def purge_queue_def)
    have "account (free_runtime (free_vif (configure_scan_filter False t))) =
        account (configure_scan_filter False t) + Holding (- 3) 0 0 0"
      using free_vif_account [OF r(1,2,3)] free_runtime_account(1) [of "free_vif (configure_scan_filter False t)"] by simp
    from held_account [OF this] show ?thesis using c d by (simp add: like_def)
  qed
  have ls: "like (upd_rt (\<lambda>rt. rt\<lparr>rt_started := False\<rparr>) t)" if "like t" for t
    by (rule like_upd [OF _ that]) simp
  have some: "m_rt s \<noteq> None" using rt by simp
  let ?t = "if rt_started (the_rt (unreg_quiesce s)) then void_op o_stop EvStop (unreg_quiesce s) else unreg_quiesce s"
  have "like ?t" using lq lv by simp
  then show ?thesis unfolding unregister_hw_split [OF some] Let_def by (intro drop ln lr ls)
qed

text \<open>
  The witnesses register one hardware: a channel on 2.4 GHz, a driver whose operations all answer 0, a
  host that accepts everything and knows one access point.
\<close>

definition demo_result :: scan_result where
  "demo_result = (zero_result 8)\<lparr>sr_valid := True, sr_bssid := [2, 0, 0, 0, 0, 1], sr_frequency := 2412,
     sr_capability := 1, sr_ie_len := 3, sr_ies := [0, 1, 65, 0, 0, 0, 0, 0]\<rparr>"

definition demo_ops :: ops where
  "demo_ops = \<lparr>o_tx = True, o_wake_tx_queue = False, o_mgd_prepare_tx = False, o_config = Some (\<lambda>_. 0),
     o_configure_filter = None, o_bss_info_changed = True, o_sta_add = Some (\<lambda>_. 0), o_sta_remove = True,
     o_add_interface = Some (\<lambda>_. 0), o_remove_interface = True, o_start = Some (\<lambda>_. 0), o_stop = True,
     o_hw_scan = None, o_sw_scan_start = False, o_sw_scan_complete = False\<rparr>"

definition demo_env :: env where
  "demo_env = \<lparr>e_register = (\<lambda>_. Some 1), e_set_trigger = (\<lambda>_. 0), e_set_wireless_info = (\<lambda>_. 0),
     e_scan_begin = (\<lambda>_. 0), e_scan_store = (\<lambda>_. 0), e_get_scan_state = (\<lambda>_. Some [demo_result]),
     e_max_scan_ie_len = 8, e_max_scan_ssids = 4, e_ssid_size = 32, e_sizeof_sta = 64, e_sizeof_txq = 64,
     e_sizeof_vif = 64\<rparr>"

definition demo_hw :: hw where
  "demo_hw = \<lparr>hw_ops = Some demo_ops,
     hw_bands = (\<lambda>b. if b = BAND_2GHZ then Some \<lparr>sbd_band = BAND_2GHZ,
        sbd_channels = Some [\<lparr>ch_center_freq = 2412, ch_hw_value = 1, ch_band = BAND_2GHZ, ch_flags = 0, ch_max_power = 20\<rparr>],
        sbd_bitrates = Some [\<lparr>rt_bitrate = 10, rt_hw_value = 0, rt_hw_value_short = 0, rt_flags = 0\<rparr>]\<rparr> else None),
     hw_interface_modes = 4, hw_max_scan_ssids = 4, hw_rts_threshold = 2347, hw_queues = 4, hw_flags = 0,
     hw_extra_tx_headroom = 0, hw_txq_data_size = 0, hw_sta_data_size = 0, hw_vif_data_size = 0,
     hw_perm_addr = [2, 0, 0, 0, 0, 9],
     hw_chandef = \<lparr>cd_chan = None, cd_width = 0, cd_center_freq1 = 0, cd_center_freq2 = 0\<rparr>\<rparr>"

definition demo_st :: mst where
  "demo_st = \<lparr>k_mem = (\<lambda>_. 0), k_pages = [], k_pools = (\<lambda>_. None), k_calls = 0, k_obj = (\<lambda>_. True),
     k_malloc = (\<lambda>_ _. 0), k_frames = (\<lambda>n _. (n + 1) * 65536), k_live = 3, k_freed = [],
     m_hw = demo_hw, m_rt = None, m_log = [], m_env = demo_env\<rparr>"

lemmas demo_defs = demo_st_def demo_hw_def demo_env_def demo_ops_def

lemma demo_paired: "paired_ops demo_st" "m_rt demo_st = None" "has_if demo_st = 1" "has_start demo_st = 1"
  by (simp_all add: paired_ops_def has_if_def has_start_def demo_defs)

lemma demo_registers: "fst (register_hw demo_st) = 0"
  by (simp add: register_hw_def default_channel_def n_channels_def Let_def chan_freq_def set_chandef_def upd_hw_def
      kzalloc_obj_def alloc_vif_def upd_rt_def call_env_def emit_def register_start_def call_op_def size_add_def
      SIZE_MAX_def demo_defs)

section \<open>Properties\<close>

text \<open>
  C4. Registering the hardware is all or nothing.  On success the runtime exists, disconnected and
  consistent, and exactly three objects, one network device and, when the driver has the operations, one
  added interface and one start are held.  On any failure nothing is held: the runtime is gone, the
  object count is what it was, and every device registered and interface added has been given back.
\<close>

theorem register_all_or_nothing:
  assumes "register_hw s = (ret, t)" and "m_rt s = None" and "paired_ops s"
  shows "if ret = 0
     then account t = account s + Holding 3 1 (has_if s) (has_start s) \<and> (\<exists>rt. m_rt t = Some rt \<and> registered_rt rt)
     else account t = account s \<and> m_rt t = None"
  using register_hw_account [OF assms] by simp

theorem register_all_or_nothing_witness:
  "account (snd (register_hw demo_st)) = account demo_st + Holding 3 1 1 1"
  using register_all_or_nothing [of demo_st 0 "snd (register_hw demo_st)"] demo_registers demo_paired
  by (simp add: prod_eq_iff)

text \<open>
  C5. Whatever happens on a registered device, unregistering it gives back the network device, the added
  interface and the start, and the runtime is gone; with nothing in between the objects are back too.
\<close>

theorem unregister_gives_back:
  assumes "register_hw s0 = (0, s)" and "m_rt s0 = None" and "paired_ops s0" and "mac_run s t"
  shows "m_rt (unregister_hw t) = None \<and> devs (unregister_hw t) = devs s0 \<and> ifs (unregister_hw t) = ifs s0 \<and>
    starts (unregister_hw t) = starts s0 \<and> k_live (unregister_hw s) = k_live s0"
proof -
  note r = register_hw_account [OF assms(1-3)]
  then obtain rt where rt: "m_rt s = Some rt" "registered_rt rt" by auto
  have a: "account s = account s0 + Holding 3 1 (has_if s0) (has_start s0)" and f: "frame s = frame s0" using r by auto
  note m = regs_held [OF regs_mac_run [OF assms(4)]]
  have ft: "frame t = frame s0" using m f by simp
  have up: "up_flags t" using up_flags_regs [OF regs_mac_run [OF assms(4)]] registered_up [OF rt] by simp
  have "paired_ops t" using paired_frame [OF ft] assms(3) by simp
  from unregister_held [OF up this] held_account [OF a] m has_frame [OF ft] unregister_fresh [OF rt]
  show ?thesis by simp
qed

abbreviation "demo_up \<equiv> snd (register_hw demo_st)"

lemma demo_up: "register_hw demo_st = (0, demo_up)"
  using demo_registers by (simp add: prod_eq_iff)

theorem unregister_gives_back_witness:
  "devs (unregister_hw (ieee80211_disconnect demo_up)) = devs demo_st \<and> k_live (unregister_hw demo_up) = k_live demo_st"
  using unregister_gives_back [OF demo_up demo_paired(2,1) run_step [OF run_refl step_driver_disconnect]] by blast

text \<open>
  C1. In every reachable state of a registered device the connection is consistent: a station exists
  exactly while connected, which is when the interface says it is associated, with the BSSID of the
  connection; the target is known exactly when not disconnected; no request is pending when disconnected
  or connected.  And each step moves the connection along a legal edge only: disconnected to
  authenticating to associating to connected, or back to disconnected.
\<close>

theorem connection_invariant:
  assumes "register_hw s0 = (0, s)" and "m_rt s0 = None" and "paired_ops s0" and "mac_run s t" and "mac_step t u"
  shows "conn_inv u \<and> conn_edge (conn_of t) (conn_of u)"
proof -
  obtain rt where "m_rt s = Some rt" "registered_rt rt" using register_hw_account [OF assms(1-3)] by auto
  then have "conn_inv s" by (rule registered_inv)
  then have "conn_inv t" by (rule mac_run_inv [OF assms(4)])
  then show ?thesis using good_mac_step [OF assms(5)] by (simp add: good_step_def)
qed

theorem connection_invariant_witness:
  "conn_inv (snd (netdev_connect (zero_params_conn 32) 7 demo_up))"
  using connection_invariant [OF demo_up demo_paired(2,1) run_refl step_connect] by blast

end
