(* ===== verification/LC_Mac_Frames.thy ===== *)
theory LC_Mac_Frames
  imports LC_Mac_Thms
begin

text \<open>
  The bytes of the frames the 802.11 layer builds, and what it reads from the frames it receives:
  the contents of a data frame made from an Ethernet frame, the Ethernet frame made from a data
  frame, the round trip between the two, and the splitting of an aggregate into its subframes.
\<close>

section \<open>Fields in memory\<close>

text \<open>\<open>holds m a bs\<close>: the bytes \<open>bs\<close> lie at \<open>a\<close>; a concatenation lies there field by field.\<close>

definition holds :: "(addr \<Rightarrow> u8) \<Rightarrow> addr \<Rightarrow> u8 list \<Rightarrow> bool" where
  "holds m a bs = (load_bytes m a (length bs) = bs)"

lemma holds_Nil [simp]: "holds m a []"
  by (simp add: holds_def)

lemma holds_append: "holds m a (xs @ ys) = (holds m a xs \<and> holds m (a + length xs) ys)"
  by (simp add: holds_def load_bytes_add)

lemma holds_Cons: "holds m a (x # xs) = (m a = x \<and> holds m (a + 1) xs)"
proof -
  have "load_bytes m a (Suc (length xs)) = m a # load_bytes m (a + 1) (length xs)"
    by (simp add: load_bytes_def upt_conv_Cons del: upt_Suc)
  then show ?thesis by (simp add: holds_def)
qed

lemma holds_same: "holds (store_bytes m a bs) a bs"
  by (simp add: holds_def mem_simps)

lemma holds_other: "a + length xs \<le> b \<or> b + length bs \<le> a \<Longrightarrow> holds (store_bytes m b bs) a xs = holds m a xs"
  by (simp add: holds_def mem_simps)

lemma holds_zero:
  assumes "b \<le> a" and "a + n \<le> b + k"
  shows "holds (store_bytes m b (replicate k 0)) a (replicate n 0)"
  using assms by (auto simp: holds_def store_bytes_def intro!: nth_equalityI)

lemma holds_load: "holds m a bs \<Longrightarrow> n = length bs \<Longrightarrow> load_bytes m a n = bs"
  by (simp add: holds_def)

lemma holds_load_self: "holds m a (load_bytes m a n)"
  by (simp add: holds_def)

text \<open>Every byte of a 16-bit field as \<^verbatim>\<open>get_unaligned\<close> reads it.\<close>

lemma holds_le16: "holds m a (le16_bytes v) \<Longrightarrow> get_unaligned_le16 m a = v"
  by (simp add: le16_bytes_def holds_Cons get_le16_bytes)

lemma holds_be16: "holds m a (be16_bytes v) \<Longrightarrow> get_unaligned_be16 m a = v"
  by (simp add: be16_bytes_def holds_Cons get_be16_bytes)

lemmas field_simps' = holds_append holds_same holds_other

lemma skb_linear_holds: "lin_len skb = length bs \<Longrightarrow> (skb_linear skb s = bs) = holds (k_mem s) (sb_data skb) bs"
  by (simp add: skb_linear_def holds_def)

lemma k_mem_poke [simp]: "k_mem (poke a bs s) = store_bytes (k_mem s) a bs"
  by (simp add: poke_def)

lemma k_mem_upd_rt [simp]: "k_mem (upd_rt f s) = k_mem s"
  by (simp add: upd_rt_def)

section \<open>Adding to a buffer\<close>

text \<open>A request that is not refused adds its bytes behind the linear data.\<close>

lemma put_room:
  assumes "skb_wf skb" and "unat (sb_tail skb) + unat n \<le> unat (sb_end skb)" and "sb_data_len skb = 0"
  shows "skb_put skb n = (sb_data skb + lin_len skb, skb\<lparr>sb_tail := sb_tail skb + n, sb_len := sb_len skb + n\<rparr>)"
    and "skb_wf (skb\<lparr>sb_tail := sb_tail skb + n, sb_len := sb_len skb + n\<rparr>)"
    and "lin_len (skb\<lparr>sb_tail := sb_tail skb + n, sb_len := sb_len skb + n\<rparr>) = lin_len skb + unat n"
    and "unat (sb_tail skb + n) = unat (sb_tail skb) + unat n"
proof -
  have wf: "sb_head skb \<noteq> 0" "sb_head skb \<le> sb_data skb" "(sb_data skb - sb_head skb) + lin_len skb = unat (sb_tail skb)"
    "lin_len skb = unat (sb_len skb)"
    using assms(1,3) by (simp_all add: skb_wf_def lin_len_def)
  have len: "unat (sb_len skb) + unat n < 2 ^ 32" using wf assms(2) u32_bound [of "sb_end skb"] by simp
  show p: "skb_put skb n = (sb_data skb + lin_len skb, skb\<lparr>sb_tail := sb_tail skb + n, sb_len := sb_len skb + n\<rparr>)"
    using skb_put_cases [OF assms(1), of n] assms(2) len wf by simp
  show "skb_wf (skb\<lparr>sb_tail := sb_tail skb + n, sb_len := sb_len skb + n\<rparr>)"
    using skb_put_wf [OF assms(1), of n] by (simp add: p)
  show "lin_len (skb\<lparr>sb_tail := sb_tail skb + n, sb_len := sb_len skb + n\<rparr>) = lin_len skb + unat n"
    using len assms(3) by (simp add: lin_len_def unat_add_small)
  show "unat (sb_tail skb + n) = unat (sb_tail skb) + unat n"
    using assms(2) u32_bound [of "sb_end skb"] by (simp add: unat_add_small)
qed

text \<open>
  A transmit buffer: empty, with exactly the requested room behind the driver's headroom.  Its block
  could only be at address 0 if the page allocator handed out that address.
\<close>

definition empty_with_room :: "skb \<Rightarrow> nat \<Rightarrow> bool" where
  "empty_with_room skb n =
     (skb_wf skb \<and> sb_len skb = 0 \<and> sb_data_len skb = 0 \<and> unat (sb_tail skb) + n = unat (sb_end skb))"

lemma alloc_skb_fresh:
  assumes "alloc_skb n s = (Some skb, s')" and "sb_head skb \<noteq> 0"
  shows "empty_with_room skb (unat n) \<and> unat n \<le> 4294967295 \<and> sb_tail skb = 0 \<and> sb_data skb = sb_head skb"
proof -
  have n: "\<not> n > 4294967295" and e: "skb = zero_skb\<lparr>sb_head_page := sb_head_page skb, sb_head := sb_head skb,
      sb_data := sb_head skb, sb_end := ucast n\<rparr>"
    using assms(1) by (auto simp: alloc_skb_def Let_def split: prod.splits option.splits if_splits)
  have le: "unat n \<le> 4294967295" using n by (simp add: word_less_nat_alt)
  then have u: "unat (ucast n :: u32) = unat n" by (simp add: unsigned_ucast_eq take_bit_nat_eq_self)
  have f: "sb_len skb = 0" "sb_data_len skb = 0" "sb_tail skb = 0" "sb_end skb = ucast n" "sb_data skb = sb_head skb"
    by (subst e, simp add: zero_skb_def)+
  show ?thesis using assms(2) le u f by (simp add: empty_with_room_def skb_wf_def lin_len_def)
qed

lemma alloc_tx_fresh:
  assumes "alloc_tx_skb n s = (Some skb, s')" and "sb_head skb \<noteq> 0"
  shows "empty_with_room skb (unat n)"
proof -
  define h :: u64 where "h = (if hw_extra_tx_headroom (m_hw s) > 0 then word_of_int (hw_extra_tx_headroom (m_hw s)) else 0)"
  have "\<exists>l b. size_add h n = Some l \<and> \<not> l > 4294967295 \<and> alloc_skb l s = (Some b, s') \<and>
      skb = (if h \<noteq> 0 then skb_reserve b (ucast h) else b) \<and> \<not> h > 4294967295"
    using assms(1) unfolding alloc_tx_skb_def h_def [symmetric] Let_def
    by (auto split: if_splits option.splits prod.splits)
  then obtain l b where l: "size_add h n = Some l" "\<not> l > 4294967295" "alloc_skb l s = (Some b, s')"
    and r: "skb = (if h \<noteq> 0 then skb_reserve b (ucast h) else b)" and hb: "\<not> h > 4294967295" by blast
  have hd: "sb_head b \<noteq> 0" using r assms(2) by (auto simp: skb_reserve_def split: if_splits)
  note f = alloc_skb_fresh [OF l(3) hd]
  have "\<not> h > 18446744073709551615 - n" "l = h + n" using l(1) by (auto simp: size_add_def SIZE_MAX_def split: if_splits)
  then have sum: "unat l = unat h + unat n"
    using u64_bound [of n] by (simp add: word_less_nat_alt unat_plus_if' unat_sub_if' split: if_splits)
  have uh: "unat (ucast h :: u32) = unat h"
    using hb by (simp add: unsigned_ucast_eq take_bit_nat_eq_self word_less_nat_alt)
  show ?thesis
  proof (cases "h = 0")
    case True
    then show ?thesis using f r sum by simp
  next
    case False
    have wf: "skb_wf b" "sb_len b = 0" "sb_data_len b = 0" "sb_tail b = 0" "unat (sb_end b) = unat l"
      using f by (auto simp: empty_with_room_def)
    have "skb = b\<lparr>sb_data := sb_data b + unat h, sb_tail := ucast h\<rparr>"
      using r False skb_wf_valid [OF wf(1)] wf uh sum by (simp add: skb_reserve_def word_less_nat_alt)
    then show ?thesis
      using skb_reserve_wf [OF wf(1), of "ucast h"] r False wf uh sum by (simp add: empty_with_room_def)
  qed
qed

text \<open>
  \<open>filled skb s r bs\<close>: the buffer is linear, its bytes are \<open>bs\<close>, and \<open>r\<close> more fit behind them.
  Each operation of a frame builder is a step on \<open>r\<close> and \<open>bs\<close>.
\<close>

definition filled :: "skb \<Rightarrow> 'a kst_scheme \<Rightarrow> nat \<Rightarrow> u8 list \<Rightarrow> bool" where
  "filled skb s r bs =
     (skb_wf skb \<and> sb_data_len skb = 0 \<and> lin_len skb = length bs \<and> holds (k_mem s) (sb_data skb) bs \<and>
      unat (sb_tail skb) + r = unat (sb_end skb))"

lemma filled_linear: "filled skb s r bs \<Longrightarrow> skb_linear skb s = bs"
  by (simp add: filled_def skb_linear_def holds_def)

lemma filled_bytes: "filled skb s r bs \<Longrightarrow> skb_bytes skb s = bs"
  by (auto simp: filled_def skb_bytes_def holds_def lin_len_def)

lemma filled_empty: "empty_with_room skb r \<Longrightarrow> filled skb s r []"
  by (simp add: filled_def empty_with_room_def lin_len_def)

lemma filled_cong: "filled skb s r bs \<Longrightarrow> k_mem s' = k_mem s \<Longrightarrow> filled skb s' r bs"
  by (simp add: filled_def)

lemma filled_fields:
  assumes "filled skb s r bs" and "sb_head skb' = sb_head skb" and "sb_data skb' = sb_data skb"
    and "sb_tail skb' = sb_tail skb" and "sb_end skb' = sb_end skb" and "sb_len skb' = sb_len skb"
    and "sb_data_len skb' = sb_data_len skb"
  shows "filled skb' s r bs"
  using assms by (auto simp: filled_def skb_wf_def lin_len_def)

definition overlay :: "nat \<Rightarrow> u8 list \<Rightarrow> u8 list \<Rightarrow> u8 list" where
  "overlay i xs bs = take i bs @ xs @ drop (i + length xs) bs"

lemma filled_poke:
  assumes "filled skb s r bs" and "i + length xs \<le> length bs"
  shows "filled skb (poke (sb_data skb + i) xs s) r (overlay i xs bs)"
proof -
  let ?m = "store_bytes (k_mem s) (sb_data skb + i) xs"
  have len: "length (take i bs) = i" "length (take (length xs) (drop i bs)) = length xs" using assms(2) by simp_all
  have bs: "take i bs @ take (length xs) (drop i bs) @ drop (i + length xs) bs = bs"
    by (metis append_take_drop_id drop_drop add.commute)
  have "holds (k_mem s) (sb_data skb) (take i bs @ take (length xs) (drop i bs) @ drop (i + length xs) bs)"
    unfolding bs using assms(1) by (simp add: filled_def)
  then have "holds (k_mem s) (sb_data skb) (take i bs)"
    "holds (k_mem s) (sb_data skb + i + length xs) (drop (i + length xs) bs)"
    using len by (simp_all add: holds_append add.assoc del: length_take)
  then have "holds ?m (sb_data skb) (overlay i xs bs)"
    using len by (simp add: overlay_def holds_append holds_same holds_other add.assoc del: length_take)
  moreover have "length (overlay i xs bs) = length bs" using assms(2) by (simp add: overlay_def)
  ultimately show ?thesis using assms(1) by (simp add: filled_def)
qed

lemma filled_put:
  fixes s :: "'a kst_scheme"
  assumes "filled skb s r bs" and "unat n \<le> r"
  obtains skb' where "skb_put skb n = (sb_data skb + length bs, skb')" and "sb_data skb' = sb_data skb"
    and "sb_data skb \<noteq> 0" and "holds (k_mem s) (sb_data skb) bs"
    and "\<And>xs (s' :: 'a kst_scheme). length xs = unat n \<Longrightarrow> holds (k_mem s') (sb_data skb) (bs @ xs)
      \<Longrightarrow> filled skb' s' (r - unat n) (bs @ xs)"
proof -
  have f: "skb_wf skb" "sb_data_len skb = 0" "lin_len skb = length bs" "unat (sb_tail skb) + r = unat (sb_end skb)"
    "holds (k_mem s) (sb_data skb) bs"
    using assms(1) by (simp_all add: filled_def)
  have r: "unat (sb_tail skb) + unat n \<le> unat (sb_end skb)" using f(4) assms(2) by simp
  note p = put_room [OF f(1) r f(2)]
  have "sb_data skb \<noteq> 0" using f(1) by (auto simp: skb_wf_def)
  then show thesis using that [of "skb\<lparr>sb_tail := sb_tail skb + n, sb_len := sb_len skb + n\<rparr>"] p f r assms(2)
    by (simp add: filled_def)
qed

lemma filled_put_zero:
  fixes s :: "'a kst_scheme"
  assumes "filled skb s r bs" and "unat n \<le> r"
  shows "\<exists>skb' s'. skb_put_zero skb n s = (sb_data skb + length bs, skb', s') \<and> sb_data skb' = sb_data skb \<and>
    sb_data skb \<noteq> 0 \<and> filled skb' s' (r - unat n) (bs @ replicate (unat n) 0) \<and>
    s' = s\<lparr>k_mem := store_bytes (k_mem s) (sb_data skb + length bs) (replicate (unat n) 0)\<rparr> \<and> kst.more s' = kst.more s"
proof -
  obtain skb' where p: "skb_put skb n = (sb_data skb + length bs, skb')" "sb_data skb' = sb_data skb" "sb_data skb \<noteq> 0"
    "holds (k_mem s) (sb_data skb) bs"
    "\<And>xs (s' :: 'a kst_scheme). length xs = unat n \<Longrightarrow> holds (k_mem s') (sb_data skb) (bs @ xs)
      \<Longrightarrow> filled skb' s' (r - unat n) (bs @ xs)"
    by (rule filled_put [OF assms(1,2)]) blast
  have "filled skb' (s\<lparr>k_mem := store_bytes (k_mem s) (sb_data skb + length bs) (replicate (unat n) 0)\<rparr>) (r - unat n)
      (bs @ replicate (unat n) 0)"
    using p(4) by (intro p(5)) (simp_all add: holds_append holds_same holds_other)
  then show ?thesis using p(1-3) by (simp add: skb_put_zero_def)
qed

lemma filled_put_data:
  fixes s :: "'a kst_scheme"
  assumes "filled skb s r bs" and "unat n \<le> r" and "length xs = unat n"
  shows "\<exists>skb' s'. skb_put_data skb (Some xs) n s = (sb_data skb + length bs, skb', s') \<and> sb_data skb' = sb_data skb \<and>
    sb_data skb \<noteq> 0 \<and> filled skb' s' (r - unat n) (bs @ xs) \<and>
    s' = s\<lparr>k_mem := store_bytes (k_mem s) (sb_data skb + length bs) xs\<rparr> \<and> kst.more s' = kst.more s"
proof -
  obtain skb' where p: "skb_put skb n = (sb_data skb + length bs, skb')" "sb_data skb' = sb_data skb" "sb_data skb \<noteq> 0"
    "holds (k_mem s) (sb_data skb) bs"
    "\<And>xs (s' :: 'a kst_scheme). length xs = unat n \<Longrightarrow> holds (k_mem s') (sb_data skb) (bs @ xs)
      \<Longrightarrow> filled skb' s' (r - unat n) (bs @ xs)"
    by (rule filled_put [OF assms(1,2)]) blast
  have "filled skb' (s\<lparr>k_mem := store_bytes (k_mem s) (sb_data skb + length bs) (xs)\<rparr>) (r - unat n)
      (bs @ xs)"
    using p(4) assms(3) by (intro p(5)) (simp_all add: holds_append holds_same holds_other)
  then show ?thesis using p(1-3) assms(3) by (simp add: skb_put_data_def)
qed

lemma filled_put_raw:
  fixes s :: "'a kst_scheme"
  assumes "filled skb s r bs" and "unat n \<le> r"
  shows "\<exists>skb'. skb_put skb n = (sb_data skb + length bs, skb') \<and> sb_data skb' = sb_data skb \<and> sb_data skb \<noteq> 0 \<and>
    filled skb' s (r - unat n) (bs @ load_bytes (k_mem s) (sb_data skb + length bs) (unat n))"
proof -
  obtain skb' where p: "skb_put skb n = (sb_data skb + length bs, skb')" "sb_data skb' = sb_data skb" "sb_data skb \<noteq> 0"
    "holds (k_mem s) (sb_data skb) bs"
    "\<And>xs (s' :: 'a kst_scheme). length xs = unat n \<Longrightarrow> holds (k_mem s') (sb_data skb) (bs @ xs)
      \<Longrightarrow> filled skb' s' (r - unat n) (bs @ xs)"
    by (rule filled_put [OF assms(1,2)]) blast
  have "filled skb' s (r - unat n) (bs @ load_bytes (k_mem s) (sb_data skb + length bs) (unat n))"
    using p(4) by (intro p(5)) (simp_all add: holds_append holds_load_self)
  then show ?thesis using p(1-3) by simp
qed

section \<open>Data frames\<close>

definition RFC1042 :: "u8 list" where "RFC1042 = [0xaa, 0xaa, 0x03, 0x00, 0x00, 0x00]"

text \<open>
  The frame for the access point \<open>bssid\<close>, from \<open>own\<close>: frame control with the to-DS bit, duration 0,
  receiver, transmitter and destination, sequence control, for QoS a control field of 0, the SNAP
  header, and the Ethernet frame from its type on.
\<close>

definition data_frame :: "bool \<Rightarrow> mac \<Rightarrow> mac \<Rightarrow> u16 \<Rightarrow> u8 list \<Rightarrow> u8 list" where
  "data_frame qos bssid own seq eth =
     le16_bytes (if qos then 0x0188 else 0x0108) @ [0, 0] @ bssid @ own @ take 6 eth @ le16_bytes seq @
     (if qos then [0, 0] else []) @ RFC1042 @ drop 12 eth"

definition data_frame_len :: "bool \<Rightarrow> nat \<Rightarrow> nat" where
  "data_frame_len qos n = (if qos then n + 20 else n + 18)"

lemma length_data_frame:
  "length bssid = 6 \<Longrightarrow> length own = 6 \<Longrightarrow> 14 \<le> length eth \<Longrightarrow>
    length (data_frame qos bssid own seq eth) = data_frame_len qos (length eth)"
  by (simp add: data_frame_def data_frame_len_def RFC1042_def)

definition header24 :: "u16 \<Rightarrow> mac \<Rightarrow> mac \<Rightarrow> mac \<Rightarrow> u16 \<Rightarrow> u8 list" where
  "header24 fc a1 a2 a3 seq = le16_bytes fc @ [0, 0] @ a1 @ a2 @ a3 @ le16_bytes seq"

text \<open>The five fields the builders write into 24 zero bytes.\<close>

lemma overlay_header:
  assumes "length a1 = 6" "length a2 = 6" "length a3 = 6"
  shows "overlay 22 (le16_bytes seq) (overlay 16 a3 (overlay 10 a2 (overlay 4 a1
    (overlay 0 (le16_bytes fc) (replicate 24 0 @ bs))))) = header24 fc a1 a2 a3 seq @ bs"
  using assms by (simp add: overlay_def header24_def numeral_eq_Suc)

lemma filled_header:
  assumes "filled skb s r (replicate 24 0 @ bs)" and "length a1 = 6" "length a2 = 6" "length a3 = 6"
  shows "filled skb (poke (sb_data skb + 22) (le16_bytes seq) (upd_rt f (poke (sb_data skb + 16) a3
    (poke (sb_data skb + 10) a2 (poke (sb_data skb + 4) a1 (poke (sb_data skb) (le16_bytes fc) s))))))
    r (header24 fc a1 a2 a3 seq @ bs)"
proof -
  have 1: "filled skb (poke (sb_data skb) (le16_bytes fc) s) r (overlay 0 (le16_bytes fc) (replicate 24 0 @ bs))"
    using filled_poke [OF assms(1), of 0] by simp
  have 2: "filled skb (poke (sb_data skb + 4) a1 (poke (sb_data skb) (le16_bytes fc) s)) r
      (overlay 4 a1 (overlay 0 (le16_bytes fc) (replicate 24 0 @ bs)))"
    by (rule filled_poke [OF 1]) (simp add: overlay_def assms)
  have 3: "filled skb (poke (sb_data skb + 10) a2 (poke (sb_data skb + 4) a1 (poke (sb_data skb) (le16_bytes fc) s))) r
      (overlay 10 a2 (overlay 4 a1 (overlay 0 (le16_bytes fc) (replicate 24 0 @ bs))))"
    by (rule filled_poke [OF 2]) (simp add: overlay_def assms)
  have 4: "filled skb (poke (sb_data skb + 16) a3 (poke (sb_data skb + 10) a2 (poke (sb_data skb + 4) a1
      (poke (sb_data skb) (le16_bytes fc) s)))) r
      (overlay 16 a3 (overlay 10 a2 (overlay 4 a1 (overlay 0 (le16_bytes fc) (replicate 24 0 @ bs)))))"
    by (rule filled_poke [OF 3]) (simp add: overlay_def assms)
  have 5: "filled skb (upd_rt f (poke (sb_data skb + 16) a3 (poke (sb_data skb + 10) a2 (poke (sb_data skb + 4) a1
      (poke (sb_data skb) (le16_bytes fc) s))))) r
      (overlay 16 a3 (overlay 10 a2 (overlay 4 a1 (overlay 0 (le16_bytes fc) (replicate 24 0 @ bs)))))"
    by (rule filled_cong [OF 4]) simp
  show ?thesis
    unfolding overlay_header [OF assms(2-4), symmetric]
    by (rule filled_poke [OF 5]) (simp add: overlay_def assms)
qed

lemma m_rt_poke [simp]: "m_rt (poke a bs s) = m_rt s"
  by (simp add: poke_def)

lemma m_rt_of_more: "kst.more s = kst.more t \<Longrightarrow> m_rt s = m_rt t" for s t :: mst
  using mst_more by blast

lemma alloc_tx_more: "kst.more (snd (alloc_tx_skb n s)) = kst.more s"
  by (simp add: alloc_tx_skb_def chain_simps alloc_skb_more split: option.split)

lemma next_seq_ctrl_pair:
  "next_seq_ctrl s = (push_bit 4 (rt_tx_seq (the_rt s) AND 0x0fff), upd_rt (\<lambda>rt. rt\<lparr>rt_tx_seq := rt_tx_seq rt + 1\<rparr>) s)"
  by (simp add: next_seq_ctrl_def)

definition seq_of :: "runtime \<Rightarrow> u16" where
  "seq_of rt = push_bit 4 (rt_tx_seq rt AND 0x0fff)"

text \<open>The guards of \<^verbatim>\<open>lcompat_ieee80211_build_data_frame\<close> before it allocates.\<close>

definition data_tx_ready :: "runtime \<Rightarrow> vif \<Rightarrow> mst \<Rightarrow> bool" where
  "data_tx_ready rt vif s =
     (rt_started rt \<and> has_op o_tx s \<and> rt_conn_state rt = CONNECTED \<and>
      \<not> is_zero_ether_addr (bc_bssid (vif_bss_conf vif)))"

lemma data_frame_len_fits:
  fixes n :: u32
  assumes "\<not> n < 14"
  shows "(case size_add (if qos then 26 else 24) 8 of None \<Rightarrow> None | Some l \<Rightarrow> size_add l ((ucast n :: u64) - 14))
      = Some (word_of_nat (data_frame_len qos (unat n)))"
    and "unat (word_of_nat (data_frame_len qos (unat n)) :: u64) = data_frame_len qos (unat n)"
    and "\<not> (ucast n :: u64) - 14 > 4294967295"
    and "unat (ucast ((ucast n :: u64) - 14) :: u32) = unat n - 14"
proof -
  have n: "14 \<le> unat n" "unat n \<le> 4294967295" using assms u32_bound [of n] by (simp_all add: word_less_nat_alt)
  have u: "unat ((ucast n :: u64) - 14) = unat n - 14"
    using n by (simp add: unat_sub_if' ucast_u32_u64)
  show len: "unat (word_of_nat (data_frame_len qos (unat n)) :: u64) = data_frame_len qos (unat n)"
    using n by (simp add: data_frame_len_def unat_of_nat take_bit_nat_eq_self)
  show "\<not> (ucast n :: u64) - 14 > 4294967295" using n u by (simp add: word_less_nat_alt)
  show "unat (ucast ((ucast n :: u64) - 14) :: u32) = unat n - 14"
    using n u by (simp add: unsigned_ucast_eq take_bit_nat_eq_self)
  have s': "size_add k x = Some (k + x)" if "unat k \<le> 34" "unat x \<le> 4294967295" for k x
    using that by (simp add: size_add_def SIZE_MAX_def word_less_nat_alt unat_sub_if')
  have s: "size_add k ((ucast n :: u64) - 14) = Some (k + ((ucast n :: u64) - 14))" if "unat k \<le> 34" for k
    by (rule s') (use n u that in simp_all)
  have e: "k + ((ucast n :: u64) - 14) = word_of_nat m" if "unat k + (unat n - 14) = m" "m < 2 ^ 64" for k m
    using that u by (simp add: word_unat_eq_iff unat_word_ariths unat_of_nat take_bit_nat_eq_self)
  show "(case size_add (if qos then 26 else 24) 8 of None \<Rightarrow> None | Some l \<Rightarrow> size_add l ((ucast n :: u64) - 14))
      = Some (word_of_nat (data_frame_len qos (unat n)))"
    using s [of 32] s [of 34] e [of 32 "unat n + 18"] e [of 34 "unat n + 20"] n
    by (auto simp: size_add_def [of 26] size_add_def [of 24] SIZE_MAX_def data_frame_len_def)
qed

lemma build_data_frame_runs:
  assumes g: "m_rt s = Some rt" "rt_vif rt = Some vif" "\<not> n < 14" "data_tx_ready rt vif s"
    and addr: "length (bc_bssid (vif_bss_conf vif)) = 6" "length (vif_addr vif) = 6" "length eth = unat n"
    and fits: "data_frame_len (rt_use_qos rt) (unat n) \<le> 4294967295"
    and alloc: "alloc_tx_skb (word_of_nat (data_frame_len (rt_use_qos rt) (unat n))) s = (Some skb0, s0)"
    and head: "sb_head skb0 \<noteq> 0"
  shows "\<exists>skb s'. build_data_frame eth n s = (0, Some skb, s') \<and>
    filled skb s' 0 (data_frame (rt_use_qos rt) (bc_bssid (vif_bss_conf vif)) (vif_addr vif) (seq_of rt) eth) \<and>
    sb_protocol skb = get_unaligned_le16 (\<lambda>a. eth ! a) 12"
proof -
  let ?qos = "rt_use_qos rt" and ?N = "data_frame_len (rt_use_qos rt) (unat n)"
  let ?fc = "if ?qos then 0x0188 else 0x0108 :: u16" and ?h = "if ?qos then [0, 0] else [] :: u8 list"
  let ?bss = "bc_bssid (vif_bss_conf vif)" and ?L = "word_of_nat ?N"
  let ?up = "\<lambda>rt. rt\<lparr>rt_tx_seq := rt_tx_seq rt + 1\<rparr>"
  have n: "14 \<le> unat n" using g(3) by (simp add: word_less_nat_alt)
  note len = data_frame_len_fits(1,2) [OF g(3), of ?qos] data_frame_len_fits(3,4) [OF g(3)]
  have N: "?N = 24 + length ?h + 8 + (unat n - 14)" using n by (simp add: data_frame_len_def)
  have f0: "filled skb0 s0 ?N []"
    using alloc_tx_fresh [OF alloc head] filled_empty len(2) by simp
  have rt0: "m_rt s0 = Some rt"
    using g(1) m_rt_of_more [OF alloc_tx_more, of ?L s] alloc by simp
  obtain skb1 s1 where p1: "skb_put_zero skb0 24 s0 = (sb_data skb0, skb1, s1)" "sb_data skb1 = sb_data skb0"
    "sb_data skb0 \<noteq> 0" "filled skb1 s1 (?N - 24) (replicate 24 0)" "kst.more s1 = kst.more s0"
    using filled_put_zero [OF f0, of 24] N by auto
  have rt1: "m_rt s1 = Some rt" using m_rt_of_more [OF p1(5)] rt0 by simp
  define s2 where "s2 = poke (sb_data skb1 + 22) (le16_bytes (seq_of rt)) (upd_rt ?up (poke (sb_data skb1 + 16) (take 6 eth)
    (poke (sb_data skb1 + 10) (vif_addr vif) (poke (sb_data skb1 + 4) ?bss (poke (sb_data skb1) (le16_bytes ?fc) s1)))))"
  let ?b2 = "header24 ?fc ?bss (vif_addr vif) (take 6 eth) (seq_of rt)"
  have f2: "filled skb1 s2 (?N - 24) ?b2"
    using filled_header [of skb1 s1 "?N - 24" "[]" ?bss "vif_addr vif" "take 6 eth" "seq_of rt" ?up ?fc] p1(4) addr n
    by (simp add: s2_def)
  have lb2: "length ?b2 = 24" using addr n by (simp add: header24_def)
  define qr where "qr = (if ?qos then skb_put_zero skb1 2 s2 else (1, skb1, s2))"
  obtain q skb3 s3 where p3: "qr = (q, skb3, s3)" "q \<noteq> 0" "sb_data skb3 = sb_data skb1" "filled skb3 s3 (?N - 24 - length ?h) (?b2 @ ?h)"
  proof (cases ?qos)
    case True
    have "replicate 2 (0 :: u8) = [0, 0]" by (simp add: numeral_2_eq_2)
    then show thesis using filled_put_zero [OF f2, of 2] N that True by (auto simp: qr_def)
  next
    case False
    then show thesis using f2 that by (auto simp: qr_def)
  qed
  obtain skb4 where p4: "skb_put skb3 8 = (sb_data skb3 + length (?b2 @ ?h), skb4)" "sb_data skb4 = sb_data skb3"
      "sb_data skb3 \<noteq> 0"
    "filled skb4 s3 (?N - 24 - length ?h - 8) ((?b2 @ ?h) @ load_bytes (k_mem s3) (sb_data skb3 + length (?b2 @ ?h)) 8)"
    using filled_put_raw [OF p3(4), of 8] N by auto
  define k where "k = length (?b2 @ ?h)"
  define s5 where "s5 = poke (sb_data skb4 + (k + 6)) (take 2 (drop 12 eth)) (poke (sb_data skb4 + k) RFC1042 s3)"
  have f5: "filled skb4 s5 (?N - 24 - length ?h - 8) (?b2 @ ?h @ RFC1042 @ take 2 (drop 12 eth))"
  proof -
    let ?raw = "load_bytes (k_mem s3) (sb_data skb3 + length (?b2 @ ?h)) 8"
    have a: "filled skb4 (poke (sb_data skb4 + k) RFC1042 s3) (?N - 24 - length ?h - 8)
        (overlay k RFC1042 ((?b2 @ ?h) @ ?raw))"
      by (rule filled_poke [OF p4(4)]) (simp add: k_def RFC1042_def)
    have b: "filled skb4 s5 (?N - 24 - length ?h - 8) (overlay (k + 6) (take 2 (drop 12 eth)) (overlay k RFC1042 ((?b2 @ ?h) @ ?raw)))"
      unfolding s5_def by (rule filled_poke [OF a]) (simp add: overlay_def k_def RFC1042_def addr n)
    have "overlay (k + 6) (take 2 (drop 12 eth)) (overlay k RFC1042 ((?b2 @ ?h) @ ?raw))
        = ?b2 @ ?h @ RFC1042 @ take 2 (drop 12 eth)"
      using n addr by (simp add: overlay_def k_def RFC1042_def)
    then show ?thesis using b by simp
  qed
  obtain pos skb6 s6 where p6: "skb_put_data skb4 (Some (drop 14 eth)) (ucast ((ucast n :: u64) - 14)) s5 = (pos, skb6, s6)"
    "filled skb6 s6 0 ((?b2 @ ?h @ RFC1042 @ take 2 (drop 12 eth)) @ drop 14 eth)"
    using filled_put_data [OF f5, of "ucast ((ucast n :: u64) - 14)" "drop 14 eth"] N len(4) addr by auto
  have bytes: "(?b2 @ ?h @ RFC1042 @ take 2 (drop 12 eth)) @ drop 14 eth = data_frame ?qos ?bss (vif_addr vif) (seq_of rt) eth"
  proof -
    have "take 2 (drop 12 eth) @ drop 14 eth = drop 12 eth"
      using append_take_drop_id [of 2 "drop 12 eth"] by simp
    then show ?thesis by (simp add: data_frame_def header24_def)
  qed
  let ?out = "skb_set_queue_mapping (skb6\<lparr>sb_protocol := get_unaligned_le16 (\<lambda>a. eth ! a) 12\<rparr>) 2\<lparr>sb_priority := 0, sb_cb := Cb 0 0 0 0 True\<rparr>"
  have out: "filled ?out s6 0 (data_frame ?qos ?bss (vif_addr vif) (seq_of rt) eth)"
    using p6(2) unfolding bytes by (rule filled_fields) (simp_all add: skb_set_queue_mapping_def)
  have fc: "(0x0008 OR (if ?qos then 0x0080 else 0)) OR 0x0100 = ?fc" by simp
  have seq: "next_seq_ctrl t = (seq_of rt, upd_rt ?up t)" if "m_rt t = Some rt" for t
    using that by (simp add: next_seq_ctrl_pair seq_of_def)
  have guard: "\<not> (m_rt s = None \<or> rt_vif rt = None \<or> n < 14)" "\<not> (\<not> rt_started rt \<or> \<not> has_op o_tx s)"
    "\<not> (rt_conn_state rt \<noteq> CONNECTED \<or> is_zero_ether_addr ?bss)" "the (rt_vif rt) = vif"
    "\<not> (?L > (4294967295 :: u64) \<or> (ucast n :: u64) - 14 > 4294967295)" "the_rt s = rt"
    using g fits len(2,3) by (simp_all add: data_tx_ready_def word_less_nat_alt)
  have s2: "next_seq_ctrl (poke (sb_data skb0 + 16) (take 6 eth) (poke (sb_data skb0 + 10) (vif_addr vif)
      (poke (sb_data skb0 + 4) ?bss (poke (sb_data skb0) (le16_bytes ?fc) s1)))) = (seq_of rt,
      upd_rt ?up (poke (sb_data skb0 + 16) (take 6 eth) (poke (sb_data skb0 + 10) (vif_addr vif)
      (poke (sb_data skb0 + 4) ?bss (poke (sb_data skb0) (le16_bytes ?fc) s1)))))"
    by (rule seq) (simp add: rt1)
  have s2': "poke (sb_data skb0 + 22) (le16_bytes (seq_of rt)) (upd_rt ?up (poke (sb_data skb0 + 16) (take 6 eth)
      (poke (sb_data skb0 + 10) (vif_addr vif) (poke (sb_data skb0 + 4) ?bss (poke (sb_data skb0) (le16_bytes ?fc) s1))))) = s2"
    by (simp add: s2_def p1(2))
  have s5: "poke (sb_data skb3 + k + 6) (take 2 (drop 12 eth)) (poke (sb_data skb3 + k) [0xaa, 0xaa, 0x03, 0x00, 0x00, 0x00] s3) = s5"
    by (simp add: s5_def p4(2) RFC1042_def add.assoc)
  have nz: "sb_data skb3 + k \<noteq> 0" using p4(3) by simp
  have "build_data_frame eth n s = (0, Some ?out, s6)"
    unfolding build_data_frame_def if_not_P [OF guard(1)] if_not_P [OF guard(2)] guard(4) if_not_P [OF guard(3)] Let_def
      guard(6) len(1) option.case if_not_P [OF guard(5)] alloc p1(1) prod.case if_not_P [OF p1(3)] fc s2 s2'
      p3(1) [unfolded qr_def] if_not_P [OF p3(2)] p4(1) [folded k_def] if_not_P [OF nz] s5 p6(1) by (rule refl)
  then show ?thesis using out by (simp add: skb_set_queue_mapping_def)
qed

lemma put_zero_no_block: "sb_head skb = 0 \<Longrightarrow> skb_put_zero skb n s = (0, skb, s)"
  by (simp add: skb_put_zero_def skb_put_def lcompat_skb_valid_bounds_def)

lemma build_data_frame_refused:
  assumes "m_rt s = Some rt" "rt_vif rt = Some vif"
  shows "n < 14 \<Longrightarrow> build_data_frame eth n s = (- EINVAL, None, s)"
    and "\<not> n < 14 \<Longrightarrow> \<not> rt_started rt \<or> \<not> has_op o_tx s \<Longrightarrow> build_data_frame eth n s = (- ENODEV, None, s)"
    and "\<not> n < 14 \<Longrightarrow> rt_started rt \<Longrightarrow> has_op o_tx s \<Longrightarrow> \<not> data_tx_ready rt vif s \<Longrightarrow>
      build_data_frame eth n s = (- ENOTCONN, None, s)"
    and "\<not> n < 14 \<Longrightarrow> data_tx_ready rt vif s \<Longrightarrow> data_frame_len (rt_use_qos rt) (unat n) > 4294967295 \<Longrightarrow>
      build_data_frame eth n s = (- EOVERFLOW, None, s)"
proof -
  show "n < 14 \<Longrightarrow> build_data_frame eth n s = (- EINVAL, None, s)"
    and "\<not> n < 14 \<Longrightarrow> \<not> rt_started rt \<or> \<not> has_op o_tx s \<Longrightarrow> build_data_frame eth n s = (- ENODEV, None, s)"
    and "\<not> n < 14 \<Longrightarrow> rt_started rt \<Longrightarrow> has_op o_tx s \<Longrightarrow> \<not> data_tx_ready rt vif s \<Longrightarrow>
      build_data_frame eth n s = (- ENOTCONN, None, s)"
    using assms by (auto simp: build_data_frame_def data_tx_ready_def)
  assume a: "\<not> n < 14" "data_tx_ready rt vif s" "data_frame_len (rt_use_qos rt) (unat n) > 4294967295"
  have "(word_of_nat (data_frame_len (rt_use_qos rt) (unat n)) :: u64) > 4294967295"
    using a(3) data_frame_len_fits(2) [OF a(1), of "rt_use_qos rt"] by (simp add: word_less_nat_alt)
  then show "build_data_frame eth n s = (- EOVERFLOW, None, s)"
    using assms a(1,2) data_frame_len_fits(1) [OF a(1), of "rt_use_qos rt"]
    by (simp add: build_data_frame_def data_tx_ready_def Let_def)
qed

lemma build_data_frame_no_memory:
  assumes g: "m_rt s = Some rt" "rt_vif rt = Some vif" "\<not> n < 14" "data_tx_ready rt vif s"
    and fits: "data_frame_len (rt_use_qos rt) (unat n) \<le> 4294967295"
    and alloc: "alloc_tx_skb (word_of_nat (data_frame_len (rt_use_qos rt) (unat n))) s = (b, s0)"
    and b: "case b of None \<Rightarrow> True | Some skb0 \<Rightarrow> sb_head skb0 = 0"
  shows "\<exists>s'. build_data_frame eth n s = (- ENOMEM, None, s')"
proof -
  have "\<not> (word_of_nat (data_frame_len (rt_use_qos rt) (unat n)) :: u64) > 4294967295"
    using fits data_frame_len_fits(2) [OF g(3), of "rt_use_qos rt"] by (simp add: word_less_nat_alt)
  then show ?thesis
    using g alloc b data_frame_len_fits(1) [OF g(3), of "rt_use_qos rt"] data_frame_len_fits(3) [OF g(3)]
    by (auto simp: build_data_frame_def data_tx_ready_def Let_def put_zero_no_block split: option.splits)
qed

section \<open>A connected device\<close>

text \<open>The state the witnesses below run on.\<close>

definition demo_vif :: vif where
  "demo_vif = (new_vif demo_hw)\<lparr>vif_bss_conf := (vif_bss_conf (new_vif demo_hw))\<lparr>bc_bssid := [2, 0, 0, 0, 0, 1]\<rparr>\<rparr>"

definition demo_rt :: runtime where
  "demo_rt = (zero_runtime demo_env)\<lparr>rt_vif := Some demo_vif, rt_started := True, rt_conn_state := CONNECTED, rt_tx_seq := 5\<rparr>"

definition demo_link :: mst where "demo_link = demo_st\<lparr>m_rt := Some demo_rt\<rparr>"

definition demo_eth :: "u8 list" where
  "demo_eth = [2, 0, 0, 0, 0, 7, 2, 0, 0, 0, 0, 9, 8, 0, 0x45, 1]"

lemma demo_link_alloc: "\<exists>b t. alloc_tx_skb 34 demo_link = (Some b, t) \<and> sb_head b \<noteq> 0"
  by (simp add: alloc_tx_skb_def demo_link_def demo_defs size_add_def SIZE_MAX_def alloc_skb_def kzalloc_obj_def
      dev_alloc_pages_def get_order_def PAGE_SIZE_def lcompat_page_alloc_def sizeof_page_def alloc_frames_bytes_def
      page_address_def page_at_def Let_def)

lemma demo_link_facts: "m_rt demo_link = Some demo_rt" "rt_vif demo_rt = Some demo_vif"
    "length (bc_bssid (vif_bss_conf demo_vif)) = 6" "length (vif_addr demo_vif) = 6" "length demo_eth = unat (16 :: u32)"
    "data_tx_ready demo_rt demo_vif demo_link" "\<not> (16 :: u32) < 14"
  by (simp_all add: demo_link_def demo_rt_def demo_vif_def new_vif_def zero_runtime_def demo_defs demo_eth_def
      data_tx_ready_def is_zero_ether_addr_def ETH_ALEN_def has_op_def upt_rec)

lemma demo_link_builds: "\<exists>skb t. build_data_frame demo_eth 16 demo_link = (0, Some skb, t)"
proof -
  have len: "data_frame_len (rt_use_qos demo_rt) (unat (16 :: u32)) = 34"
    by (simp add: demo_rt_def zero_runtime_def data_frame_len_def)
  obtain b t where "alloc_tx_skb (word_of_nat (data_frame_len (rt_use_qos demo_rt) (unat (16 :: u32)))) demo_link = (Some b, t)"
    "sb_head b \<noteq> 0" using demo_link_alloc unfolding len by auto
  from build_data_frame_runs [OF demo_link_facts(1,2,7,6,3-5) _ this] len show ?thesis by auto
qed

text \<open>
  C2. Every outcome of building a data frame from an Ethernet frame: the refusals in the order of the
  code, a frame that would pass 32 bits is an overflow, and otherwise the allocation fails or the
  result is a well-formed buffer that holds exactly the 802.11 frame, to the last byte of the payload.
\<close>

theorem data_frame_contents:
  assumes "m_rt s = Some rt" "rt_vif rt = Some vif"
    and "length (bc_bssid (vif_bss_conf vif)) = 6" "length (vif_addr vif) = 6" "length eth = unat n"
  shows "case build_data_frame eth n s of (ret, out, s') \<Rightarrow>
    if n < 14 then ret = - EINVAL \<and> out = None
    else if \<not> rt_started rt \<or> \<not> has_op o_tx s then ret = - ENODEV \<and> out = None
    else if \<not> data_tx_ready rt vif s then ret = - ENOTCONN \<and> out = None
    else if data_frame_len (rt_use_qos rt) (unat n) > 4294967295 then ret = - EOVERFLOW \<and> out = None
    else (case out of
        None \<Rightarrow> ret = - ENOMEM
      | Some skb \<Rightarrow> ret = 0 \<and> skb_wf skb \<and> skb_linear skb s' =
          data_frame (rt_use_qos rt) (bc_bssid (vif_bss_conf vif)) (vif_addr vif) (seq_of rt) eth)"
proof (cases "\<not> n < 14 \<and> data_tx_ready rt vif s \<and> \<not> data_frame_len (rt_use_qos rt) (unat n) > 4294967295")
  case False
  then show ?thesis
    using build_data_frame_refused [OF assms(1,2), of n eth] by (auto split: if_splits)
next
  case True
  obtain b s0 where alloc: "alloc_tx_skb (word_of_nat (data_frame_len (rt_use_qos rt) (unat n))) s = (b, s0)"
    by (cases "alloc_tx_skb (word_of_nat (data_frame_len (rt_use_qos rt) (unat n))) s")
  show ?thesis
  proof (cases "case b of None \<Rightarrow> True | Some skb0 \<Rightarrow> sb_head skb0 = 0")
    case fail: True
    then show ?thesis
      using build_data_frame_no_memory [OF assms(1,2) _ _ _ alloc, of eth] True by (auto simp: data_tx_ready_def)
  next
    case ok: False
    then obtain skb0 where b: "b = Some skb0" "sb_head skb0 \<noteq> 0" by (cases b) auto
    obtain skb s' where r: "build_data_frame eth n s = (0, Some skb, s')"
      "filled skb s' 0 (data_frame (rt_use_qos rt) (bc_bssid (vif_bss_conf vif)) (vif_addr vif) (seq_of rt) eth)"
      using build_data_frame_runs [OF assms(1,2) _ _ assms(3-5) _ alloc [unfolded b(1)] b(2)] True by auto
    have "skb_wf skb" using r(2) by (simp add: filled_def)
    with r(1) filled_linear [OF r(2)] True show ?thesis by (auto simp: data_tx_ready_def)
  qed
qed

theorem data_frame_contents_witness:
  "case build_data_frame demo_eth 16 demo_link of (ret, out, s') \<Rightarrow>
     ret = 0 \<and> skb_linear (the out) s' =
       [8, 1, 0, 0, 2, 0, 0, 0, 0, 1, 2, 0, 0, 0, 0, 9, 2, 0, 0, 0, 0, 7, 0x50, 0, 0xaa, 0xaa, 3, 0, 0, 0, 8, 0, 0x45, 1]"
proof -
  obtain skb t where b: "build_data_frame demo_eth 16 demo_link = (0, Some skb, t)" using demo_link_builds by blast
  have "data_frame (rt_use_qos demo_rt) (bc_bssid (vif_bss_conf demo_vif)) (vif_addr demo_vif) (seq_of demo_rt) demo_eth =
      [8, 1, 0, 0, 2, 0, 0, 0, 0, 1, 2, 0, 0, 0, 0, 9, 2, 0, 0, 0, 0, 7, 0x50, 0, 0xaa, 0xaa, 3, 0, 0, 0, 8, 0, 0x45, 1]"
    by (simp add: data_frame_def demo_rt_def demo_vif_def new_vif_def zero_runtime_def demo_defs demo_eth_def seq_of_def
        le16_bytes_def RFC1042_def)
  moreover have "data_frame_len (rt_use_qos demo_rt) (unat (16 :: u32)) \<le> 4294967295"
    "rt_started demo_rt" "has_op o_tx demo_link"
    using demo_link_facts(6) by (simp_all add: demo_rt_def zero_runtime_def data_frame_len_def data_tx_ready_def)
  ultimately show ?thesis
    using data_frame_contents [OF demo_link_facts(1-5)] demo_link_facts(6,7) b by (auto split: if_splits)
qed

section \<open>From a data frame to an Ethernet frame\<close>

definition BRIDGE_TUNNEL :: "u8 list" where "BRIDGE_TUNNEL = [0xaa, 0xaa, 0x03, 0x00, 0x00, 0xf8]"

text \<open>
  What the conversion means, over the bytes of the frame: the checks, destination and source as the
  two DS bits say, and the bytes behind the encapsulation header from the type on.
\<close>

definition snap_ok :: "u8 list \<Rightarrow> bool" where
  "snap_ok rest =
     (let et = get_unaligned_be16 (\<lambda>i. rest ! i) 6
      in (take 6 rest = RFC1042 \<and> et \<noteq> 0x80f3 \<and> et \<noteq> 0x8137) \<or> take 6 rest = BRIDGE_TUNNEL)"

definition ethernet_of :: "u8 list \<Rightarrow> int + u8 list" where
  "ethernet_of bs =
     (if length bs < 32 then Inl EINVAL
      else
        let fc = get_unaligned_le16 (\<lambda>i. bs ! i) 0;
            hl = unat (data_hdr_len fc);
            mac = (\<lambda>i. take 6 (drop i bs));
            ends = (if \<not> has_tods fc \<and> has_fromds fc then mac 4 @ mac 16
                    else if has_tods fc \<and> \<not> has_fromds fc then mac 16 @ mac 10
                    else mac 4 @ mac 10);
            rest = drop hl bs
        in if fc AND 0x4000 \<noteq> 0 then Inl EOPNOTSUPP
           else if \<not> is_data_present fc \<or> (has_tods fc \<and> has_fromds fc) then Inl EINVAL
           else if length bs < hl + 8 then Inl EINVAL
           else if snap_ok rest then Inr (ends @ drop 6 rest) else Inl EINVAL)"

text \<open>
  The code reads \<open>sb_len\<close> bytes from the data pointer on, whether or not they are linear: the window of the
  buffer.  Without fragments it is the linear part; with fragments the window runs past the linear
  part, into whatever lies behind it, and its bytes are not those of the fragments.
\<close>

definition skb_window :: "'c sk_buff \<Rightarrow> 'a kst_scheme \<Rightarrow> u8 list" where
  "skb_window skb s = load_bytes (k_mem s) (sb_data skb) (unat (sb_len skb))"

lemma window_linear: "sb_data_len skb = 0 \<Longrightarrow> skb_window skb s = skb_linear skb s"
  by (simp add: skb_window_def skb_linear_def lin_len_def)

lemma window_past_linear:
  assumes "skb_wf skb"
  shows "skb_window skb s =
    skb_linear skb s @ load_bytes (k_mem s) (sb_data skb + lin_len skb) (unat (sb_data_len skb))"
proof -
  have "unat (sb_len skb) = lin_len skb + unat (sb_data_len skb)" using assms by (simp add: skb_wf_def lin_len_def)
  then show ?thesis by (simp add: skb_window_def skb_linear_def load_bytes_add)
qed

lemma holds_part:
  assumes "holds m a bs" and "i + n \<le> length bs"
  shows "load_bytes m (a + i) n = take n (drop i bs)"
proof -
  have "load_bytes m a (length bs) = bs" using assms(1) by (simp add: holds_def)
  then have "take n (drop i bs) = take n (drop i (load_bytes m a (length bs)))" by simp
  then show ?thesis using assms(2) by simp
qed

lemma holds_nth: "holds m a bs \<Longrightarrow> i < length bs \<Longrightarrow> m (a + i) = bs ! i"
  using holds_part [of m a bs i 1] by (simp add: load_bytes_def take_Suc_conv_app_nth Cons_nth_drop_Suc [symmetric])

lemma data_hdr_len_bounds: "24 \<le> unat (data_hdr_len fc) \<and> unat (data_hdr_len fc) \<le> 36"
  by (simp add: data_hdr_len_def)

lemma u8_high_bit: "8 \<le> n \<Longrightarrow> \<not> bit (x :: u8) n"
  by (auto dest: bit_imp_le_length)

lemma be16_nth:
  "6 + 2 \<le> length rest \<Longrightarrow> le16_bytes (cpu_to_be16 (get_unaligned_be16 (\<lambda>i. rest ! i) 6)) = take 2 (drop 6 rest)"
proof -
  assume l: "6 + 2 \<le> length rest"
  have "take 2 (drop 6 rest) = [rest ! 6, rest ! 7]"
    using l by (simp add: take_Suc_conv_app_nth numeral_2_eq_2)
  moreover have "be16_bytes (get_unaligned_be16 (\<lambda>i. rest ! i) 6) = [rest ! 6, rest ! 7]"
    unfolding be16_bytes_def get_unaligned_be16_def
    by (auto intro!: bit_word_eqI simp: bit_simps u8_high_bit)
  ultimately show ?thesis by (simp add: le16_bytes_cpu_to_be16)
qed

lemma snap_load:
  assumes "load_bytes (k_mem s) p n = rest" and "8 \<le> n" and "\<not> pl < 8"
  shows "snap_to_ethertype p pl s =
    (if snap_ok rest then Some (cpu_to_be16 (get_unaligned_be16 (\<lambda>i. rest ! i) 6), 8) else None)"
proof -
  have h: "load_bytes (k_mem s) p 6 = take 6 rest" using assms(1,2) by (auto simp: min_def)
  have "rest ! i = k_mem s (p + i)" if "i < 8" for i using assms(1,2) that by auto
  from this [of 6] this [of 7] have e: "get_unaligned_be16 (k_mem s) (p + 6) = get_unaligned_be16 (\<lambda>i. rest ! i) 6"
    by (simp add: get_unaligned_be16_def ac_simps)
  show ?thesis
    using assms(3) by (auto simp: snap_to_ethertype_def Let_def h e snap_ok_def RFC1042_def BRIDGE_TUNNEL_def)
qed

lemma snap_refines:
  assumes "holds (k_mem s) (sb_data skb) bs" and "hl + 8 \<le> length bs" and "\<not> pl < 8"
  shows "snap_to_ethertype (sb_data skb + hl) pl s =
    (if snap_ok (drop hl bs) then Some (cpu_to_be16 (get_unaligned_be16 (\<lambda>i. drop hl bs ! i) 6), 8) else None)"
  using snap_load [of s "sb_data skb + hl" "length bs - hl" "drop hl bs" pl] holds_part [OF assms(1), of hl "length bs - hl"]
    assms(2,3) by simp

text \<open>The stores of the conversion leave the Ethernet frame at the front of the buffer.\<close>

lemma ethernet_stores:
  assumes "length dst = 6" "length src = 6" "length ty = 2"
  shows "load_bytes (k_mem (poke (sb_data skb + 12) ty (poke (sb_data skb + 6) src (poke (sb_data skb) dst
    (poke (sb_data skb + 14) body s))))) (sb_data skb) (14 + length body) = dst @ src @ ty @ body"
proof -
  have "holds (k_mem (poke (sb_data skb + 12) ty (poke (sb_data skb + 6) src (poke (sb_data skb) dst
      (poke (sb_data skb + 14) body s))))) (sb_data skb) (dst @ src @ ty @ body)"
    using assms by (simp add: holds_append holds_same holds_other ac_simps)
  then show ?thesis using assms by (simp add: holds_def)
qed

lemma ethernet_of_shorter: "ethernet_of bs = Inr eth \<Longrightarrow> length eth \<le> length bs"
  using data_hdr_len_bounds [of "get_unaligned_le16 ((!) bs) 0"] by (auto simp: ethernet_of_def Let_def split: if_splits)

lemma data_to_ethernet_window:
  assumes "skb_wf skb" and bs: "bs = skb_window skb s"
  shows "case data_to_ethernet skb s of (ret, skb', s') \<Rightarrow>
    (case ethernet_of bs of
       Inl e \<Rightarrow> ret = - e \<and> skb' = skb \<and> s' = s
     | Inr eth \<Rightarrow> ret = 0 \<and> skb_wf skb' \<and> skb_window skb' s' = eth \<and> skb_linear skb' s' = take (lin_len skb) eth \<and>
         sb_protocol skb' = get_unaligned_le16 (\<lambda>i. eth ! i) 12)"
proof -
  define d fc hl where "d = sb_data skb" and "fc = hdr_fc skb s" and "hl = unat (data_hdr_len fc)"
  note wf = assms(1)
  have len: "unat (sb_len skb) = length bs" and h: "holds (k_mem s) (sb_data skb) bs"
    by (simp_all add: bs skb_window_def holds_load_self)
  have v: "lcompat_skb_valid_bounds skb" by (rule skb_wf_valid [OF wf])
  have short: "sb_len skb < 24 + 8 \<longleftrightarrow> length bs < 32" using len by (simp add: word_less_nat_alt)
  show ?thesis
  proof (cases "length bs < 32")
    case True
    then show ?thesis using v short by (simp add: data_to_ethernet_def ethernet_of_def)
  next
    case False
    have ne: "bs \<noteq> []" using False by auto
    have fc: "fc = get_unaligned_le16 (\<lambda>i. bs ! i) 0"
      using holds_nth [OF h, of 0] holds_nth [OF h, of 1] False ne
      by (simp add: fc_def fr16_def get_unaligned_le16_def)
    have hlb: "24 \<le> hl" "hl \<le> 36" using data_hdr_len_bounds [of fc] by (simp_all add: hl_def)
    have mac: "fr_mac (sb_data skb + i) s = take 6 (drop i bs)" if "i + 6 \<le> 32" for i
      using holds_part [OF h, of i 6] False that by (simp add: fr_mac_def)
    have hshort: "sb_len skb < data_hdr_len fc + 8 \<longleftrightarrow> length bs < hl + 8"
      using len hlb by (simp add: word_less_nat_alt hl_def unat_word_ariths)
    show ?thesis
    proof (cases "fc AND 0x4000 \<noteq> 0 \<or> (\<not> is_data_present fc \<or> (has_tods fc \<and> has_fromds fc)) \<or> length bs < hl + 8")
      case True
      then show ?thesis
        using v short False hshort
        by (auto simp: data_to_ethernet_def ethernet_of_def Let_def fc [symmetric] fc_def [symmetric] hl_def [symmetric])
    next
      case ok: False
      from ok have l8: "hl + 8 \<le> length bs" by simp
      have pl: "unat (sb_len skb - data_hdr_len fc) = length bs - hl"
        using ok len by (simp add: hl_def unat_sub_le word_le_nat_alt)
      then have pl8: "\<not> sb_len skb - data_hdr_len fc < 8" using l8 by (simp add: word_less_nat_alt)
      then have snap: "snap_to_ethertype (sb_data skb + hl) (sb_len skb - data_hdr_len fc) s =
          (if snap_ok (drop hl bs) then Some (cpu_to_be16 (get_unaligned_be16 (\<lambda>i. drop hl bs ! i) 6), 8) else None)"
        using snap_refines [OF h, of hl] ok by simp
      show ?thesis
      proof (cases "snap_ok (drop hl bs)")
        case no: False
        then show ?thesis
          using v short False hshort ok snap
          by (simp add: data_to_ethernet_def ethernet_of_def Let_def fc [symmetric] fc_def [symmetric] hl_def [symmetric]
              split_beta)
      next
        case yes: True
        define et where "et = get_unaligned_be16 (\<lambda>i. drop hl bs ! i) 6"
        define body where "body = drop (hl + 8) bs"
        define ends where "ends = (if \<not> has_tods fc \<and> has_fromds fc then (take 6 (drop 4 bs), take 6 (drop 16 bs))
          else if has_tods fc \<and> \<not> has_fromds fc then (take 6 (drop 16 bs), take 6 (drop 10 bs))
          else (take 6 (drop 4 bs), take 6 (drop 10 bs)))"
        define s4 where "s4 = poke (sb_data skb + 12) (le16_bytes (cpu_to_be16 et)) (poke (sb_data skb + 6) (snd ends)
          (poke (sb_data skb) (fst ends) (poke (sb_data skb + 14) body s)))"
        define plen where "plen = sb_len skb - data_hdr_len fc - 8"
        have plen: "unat plen = length body"
          using pl l8 by (simp add: plen_def body_def unat_sub_le word_le_nat_alt)
        have body: "load_bytes (k_mem s) (sb_data skb + hl + 8) (unat plen) = body"
          using holds_part [OF h, of "hl + 8" "unat plen"] ok plen by (simp add: body_def add.assoc)
        have endl: "length (fst ends) = 6" "length (snd ends) = 6" using False by (auto simp: ends_def)
        have fit: "14 + length body \<le> length bs" using ok hlb by (simp add: body_def)
        obtain skb' s' where tr: "skb_trim skb (14 + plen) s4 = (skb', s')" by (cases "skb_trim skb (14 + plen) s4")
        have l14: "unat (14 + plen) = 14 + length body" "14 + plen \<le> sb_len skb"
          using plen fit len u32_bound [of "sb_len skb"] by (simp_all add: unat_word_ariths word_le_nat_alt)
        define eth where "eth = fst ends @ snd ends @ le16_bytes (cpu_to_be16 et) @ body"
        have lth: "length eth = 14 + length body" using endl by (simp add: eth_def)
        have st: "load_bytes (k_mem s4) (sb_data skb) (14 + length body) = eth"
          unfolding s4_def eth_def by (rule ethernet_stores [OF endl length_le16_bytes])
        note tc = skb_trim_cases [OF wf l14(2) tr]
        have win: "skb_window skb' s' = eth" using tc st l14(1) by (simp add: skb_window_def)
        have "lin_len skb' = min (length eth) (lin_len skb)" using tc l14(1) lth by (simp add: lin_len_def)
        then have lin: "skb_linear skb' s' = take (lin_len skb) eth"
          using tc holds_part [of "k_mem s4" "sb_data skb" eth 0] st lth
          by (simp add: skb_linear_def holds_def min_def)
        have run: "data_to_ethernet skb s = (0, skb'\<lparr>sb_protocol := cpu_to_be16 et\<rparr>, s')"
          using v short False hshort ok snap yes tr
          by (simp add: data_to_ethernet_def Let_def fc_def [symmetric] hl_def [symmetric] mac et_def [symmetric]
              plen_def [symmetric] body s4_def ends_def split: if_splits)
        have ty: "le16_bytes (cpu_to_be16 et) @ body = drop 6 (drop hl bs)"
        proof -
          have "drop 6 (drop hl bs) = take 2 (drop 6 (drop hl bs)) @ drop (hl + 8) bs"
            using append_take_drop_id [of 2 "drop 6 (drop hl bs)"] by (simp add: add.commute)
          then show ?thesis using be16_nth [of "drop hl bs"] l8 by (simp add: et_def body_def)
        qed
        have conv: "ethernet_of bs = Inr (fst ends @ snd ends @ drop 6 (drop hl bs))"
          using ok yes False by (simp add: ethernet_of_def Let_def fc [symmetric] hl_def [symmetric] ends_def)
        have prot: "get_unaligned_le16 (\<lambda>i. eth ! i) 12 = cpu_to_be16 et"
          by (rule get_le16_bytes) (simp_all add: eth_def nth_append endl le16_bytes_def)
        have "skb_wf skb'" by (rule skb_trim_wf [OF wf tr])
        then show ?thesis
          using win lin prot unfolding run conv ty [symmetric] eth_def [symmetric]
          by (simp add: skb_wf_def skb_linear_def skb_window_def lin_len_def)
      qed
    qed
  qed
qed

text \<open>The same for a buffer under construction.\<close>

lemma data_to_ethernet_refines:
  assumes "filled skb s r bs"
  shows "case data_to_ethernet skb s of (ret, skb', s') \<Rightarrow>
    (case ethernet_of bs of
       Inl e \<Rightarrow> ret = - e \<and> skb' = skb \<and> s' = s
     | Inr eth \<Rightarrow> ret = 0 \<and> skb_wf skb' \<and> skb_linear skb' s' = eth \<and>
         sb_protocol skb' = get_unaligned_le16 (\<lambda>i. eth ! i) 12)"
proof -
  have f: "skb_wf skb" "sb_data_len skb = 0" "lin_len skb = length bs" using assms by (simp_all add: filled_def)
  have bs: "bs = skb_window skb s" using filled_linear [OF assms] window_linear [OF f(2), of s] by simp
  have "take (lin_len skb) eth = eth" if "ethernet_of bs = Inr eth" for eth
    using ethernet_of_shorter [OF that] f(3) by simp
  then show ?thesis
    using data_to_ethernet_window [OF f(1) bs] by (auto split: prod.splits sum.splits)
qed

lemma build_data_frame_filled:
  assumes "m_rt s = Some rt" "rt_vif rt = Some vif"
    and "length (bc_bssid (vif_bss_conf vif)) = 6" "length (vif_addr vif) = 6" "length eth = unat n"
    and "build_data_frame eth n s = (0, Some skb, s')"
  shows "14 \<le> length eth \<and>
    filled skb s' 0 (data_frame (rt_use_qos rt) (bc_bssid (vif_bss_conf vif)) (vif_addr vif) (seq_of rt) eth)"
proof -
  note refused = build_data_frame_refused [OF assms(1,2), of n eth]
  have n: "\<not> n < 14" using refused(1) assms(6) by auto
  have ready: "data_tx_ready rt vif s" using refused(2,3) n assms(6) by fastforce
  have fits: "data_frame_len (rt_use_qos rt) (unat n) \<le> 4294967295"
    using refused(4) [OF n ready] assms(6) by (cases "data_frame_len (rt_use_qos rt) (unat n) > 4294967295") auto
  obtain b s0 where alloc: "alloc_tx_skb (word_of_nat (data_frame_len (rt_use_qos rt) (unat n))) s = (b, s0)"
    by (cases "alloc_tx_skb (word_of_nat (data_frame_len (rt_use_qos rt) (unat n))) s")
  have "\<not> (case b of None \<Rightarrow> True | Some skb0 \<Rightarrow> sb_head skb0 = 0)"
    using build_data_frame_no_memory [OF assms(1,2) n ready fits alloc, of eth] assms(6) by auto
  then obtain skb0 where b: "b = Some skb0" "sb_head skb0 \<noteq> 0" by (cases b) auto
  show ?thesis
    using build_data_frame_runs [OF assms(1,2) n ready assms(3-5) fits alloc [unfolded b(1)] b(2)] assms(5,6) n
    by (auto simp: word_less_nat_alt)
qed

lemma ethernet_of_data_frame:
  assumes "length bssid = 6" "length own = 6" "14 \<le> length eth"
  shows "ethernet_of (data_frame qos bssid own seq eth) =
    (if get_unaligned_be16 (\<lambda>i. eth ! i) 12 \<in> {0x80f3, 0x8137} then Inl EINVAL
     else Inr (take 6 eth @ own @ drop 12 eth))"
proof -
  let ?bs = "data_frame qos bssid own seq eth" and ?v = "if qos then 0x0188 else 0x0108 :: u16"
  let ?hl = "if qos then 26 else 24 :: nat"
  have fc: "get_unaligned_le16 (\<lambda>i. ?bs ! i) 0 = ?v"
    by (rule get_le16_bytes) (simp_all add: data_frame_def le16_bytes_def nth_append)
  have bits: "has_tods ?v" "\<not> has_fromds ?v" "is_data_present ?v" "?v AND 0x4000 = 0" "unat (data_hdr_len ?v) = ?hl"
    by (simp_all add: frame_defs data_hdr_len_def fc_type_def)
  have len: "length ?bs = ?hl + 8 + (length eth - 14)" using assms by (simp add: data_frame_def RFC1042_def)
  have rest: "drop ?hl ?bs = RFC1042 @ drop 12 eth"
    using assms by (simp add: data_frame_def)
  have "(RFC1042 @ drop 12 eth) ! (6 + i) = eth ! (12 + i)" for i
    using assms(3) by (simp add: nth_append RFC1042_def)
  from this [of 0] this [of 1] have et: "get_unaligned_be16 (\<lambda>i. (RFC1042 @ drop 12 eth) ! i) 6 = get_unaligned_be16 (\<lambda>i. eth ! i) 12"
    by (simp add: get_unaligned_be16_def)
  have "take 6 (drop 16 ?bs) = take 6 eth" "take 6 (drop 10 ?bs) = own"
    using assms by (simp_all add: data_frame_def)
  then show ?thesis
    using bits len unfolding ethernet_of_def fc Let_def bits(5) rest snap_ok_def et
    by (auto simp: RFC1042_def BRIDGE_TUNNEL_def)
qed

text \<open>
  C10. What the device transmits it would itself accept as a frame towards the distribution system: the
  frame built from an Ethernet frame converts back to that frame, with the source address replaced
  by the address of the interface, except that the two protocols \<^verbatim>\<open>snap_to_ethertype\<close> rejects
  under this header (0x80f3 and 0x8137) are sent and not accepted.
\<close>

theorem data_frame_roundtrip:
  assumes "m_rt s = Some rt" "rt_vif rt = Some vif"
    and "length (bc_bssid (vif_bss_conf vif)) = 6" "length (vif_addr vif) = 6" "length eth = unat n"
    and "build_data_frame eth n s = (0, Some skb, s1)"
  shows "case data_to_ethernet skb s1 of (ret, skb', s') \<Rightarrow>
    if get_unaligned_be16 (\<lambda>i. eth ! i) 12 \<in> {0x80f3, 0x8137} then ret = - EINVAL \<and> skb' = skb \<and> s' = s1
    else ret = 0 \<and> skb_wf skb' \<and> skb_linear skb' s' = take 6 eth @ vif_addr vif @ drop 12 eth"
  using data_to_ethernet_refines [of skb s1 0] build_data_frame_filled [OF assms] ethernet_of_data_frame [OF assms(3,4)]
  by (fastforce split: prod.splits if_splits)

theorem data_frame_roundtrip_witness:
  "case data_to_ethernet (the (fst (snd (build_data_frame demo_eth 16 demo_link)))) (snd (snd (build_data_frame demo_eth 16 demo_link)))
     of (ret, skb, s') \<Rightarrow> ret = 0 \<and> skb_linear skb s' = demo_eth"
proof -
  obtain skb t where b: "build_data_frame demo_eth 16 demo_link = (0, Some skb, t)" using demo_link_builds by blast
  have "get_unaligned_be16 (\<lambda>i. demo_eth ! i) 12 \<notin> {0x80f3, 0x8137}"
    "take 6 demo_eth @ vif_addr demo_vif @ drop 12 demo_eth = demo_eth"
    by (simp_all add: demo_eth_def get_unaligned_be16_def demo_vif_def new_vif_def demo_defs)
  then show ?thesis using data_frame_roundtrip [OF demo_link_facts(1-5) b] b by (auto split: prod.splits)
qed

text \<open>
  C9. Converting a received data frame to an Ethernet frame, in place, is the abstract conversion of
  the \<open>sb_len\<close> bytes at the data pointer: the checks in the order of the code, each with its error and without
  effect, destination and source as the DS bits say, and the buffer left well formed and trimmed to
  exactly the Ethernet frame, with its protocol field read from the type.  For a buffer without
  fragments (\<open>window_linear\<close>) these bytes are its contents, before and after.  With fragments they are not: the
  code has no test for them, takes what lies behind the linear part for the rest of the frame and
  moves bytes there, and the linear part that is left is only a prefix of the Ethernet frame.
\<close>

theorem received_ethernet:
  assumes "skb_wf skb"
  shows "case data_to_ethernet skb s of (ret, skb', s') \<Rightarrow>
    (case ethernet_of (skb_window skb s) of
       Inl e \<Rightarrow> ret = - e \<and> skb' = skb \<and> s' = s
     | Inr eth \<Rightarrow> ret = 0 \<and> skb_wf skb' \<and> skb_window skb' s' = eth \<and> skb_linear skb' s' = take (lin_len skb) eth \<and>
         sb_protocol skb' = get_unaligned_le16 (\<lambda>i. eth ! i) 12)"
  by (rule data_to_ethernet_window [OF assms refl])

text \<open>A frame from the access point: receiver, BSSID, and the source behind it.\<close>

definition demo_rx_bytes :: "u8 list" where
  "demo_rx_bytes = [8, 2, 0, 0, 2, 0, 0, 0, 0, 9, 2, 0, 0, 0, 0, 1, 2, 0, 0, 0, 0, 7, 0x50, 0,
     0xaa, 0xaa, 3, 0, 0, 0, 8, 0, 0x45, 1]"

definition demo_rx :: skb where
  "demo_rx = zero_skb\<lparr>sb_head := 4096, sb_data := 4096, sb_end := 64, sb_tail := 34, sb_len := 34\<rparr>"

definition demo_rx_st :: mst where
  "demo_rx_st = demo_link\<lparr>k_mem := store_bytes (\<lambda>_. 0) 4096 demo_rx_bytes\<rparr>"

lemma demo_rx_facts: "skb_wf demo_rx" "sb_data_len demo_rx = 0" "skb_linear demo_rx demo_rx_st = demo_rx_bytes"
    "lin_len demo_rx = 34"
  by (simp_all add: demo_rx_def zero_skb_def skb_wf_def lin_len_def skb_linear_def demo_rx_st_def
      load_store_same demo_rx_bytes_def)

lemma demo_rx_ethernet: "ethernet_of demo_rx_bytes = Inr [2, 0, 0, 0, 0, 9, 2, 0, 0, 0, 0, 7, 8, 0, 0x45, 1]"
  by code_simp

theorem received_ethernet_witness:
  "case data_to_ethernet demo_rx demo_rx_st of (ret, skb, s') \<Rightarrow>
     ret = 0 \<and> skb_linear skb s' = [2, 0, 0, 0, 0, 9, 2, 0, 0, 0, 0, 7, 8, 0, 0x45, 1] \<and> sb_protocol skb = 8"
  using received_ethernet [OF demo_rx_facts(1), of demo_rx_st]
  by (simp add: window_linear [OF demo_rx_facts(2)] demo_rx_facts(3,4) demo_rx_ethernet get_unaligned_le16_def split_beta)

end
