(* ===== verification/LC_Mac_Amsdu.thy ===== *)
theory LC_Mac_Amsdu
  imports LC_Mac_Frames "HOL-Library.Sublist"
begin

text \<open>
  The splitting of an aggregate (A-MSDU): \<^verbatim>\<open>lcompat_ieee80211_enqueue_amsdu\<close> against a function on
  the bytes of the frame.  Every subframe becomes a buffer of its own on the receive queue; the
  blocks the allocator hands out meanwhile are apart from the frame and from one another.
\<close>

section \<open>Subframes of a byte string\<close>

definition msdu_frame :: "mac \<Rightarrow> mac \<Rightarrow> u8 list \<Rightarrow> u8 list option" where
  "msdu_frame dst src body =
     (if length body < 8 \<or> \<not> snap_ok body then None else Some (dst @ src @ drop 6 body))"

definition be16_at :: "u8 list \<Rightarrow> nat \<Rightarrow> nat" where
  "be16_at bs i = unat (get_unaligned_be16 (\<lambda>k. bs ! k) i)"

text \<open>Length of a subframe with its padding to a multiple of four.\<close>

definition padded :: "nat \<Rightarrow> nat" where
  "padded n = 4 * ((n + 3) div 4)"

lemma padded_ge: "n \<le> padded n"
  by (simp add: padded_def)

function subframes :: "u8 list \<Rightarrow> (mac \<times> mac \<times> u8 list) list" where
  "subframes bs =
     (if length bs < 14 then []
      else
        let n = be16_at bs 12
        in if n = 0 \<or> n > length bs - 14 then []
           else (take 6 bs, take 6 (drop 6 bs), take n (drop 14 bs)) #
             (if padded (14 + n) > length bs then [] else subframes (drop (padded (14 + n)) bs)))"
  by pat_completeness auto
termination
proof (relation "measure length", simp)
  fix bs :: "u8 list" and n
  assume "\<not> length bs < 14" "n = be16_at bs 12" "\<not> (n = 0 \<or> n > length bs - 14)" "\<not> padded (14 + n) > length bs"
  then show "(drop (padded (14 + n)) bs, bs) \<in> measure length"
    using padded_ge [of "14 + n"] by simp
qed

declare subframes.simps [simp del]

definition take_frame :: "mac \<times> mac \<times> u8 list \<Rightarrow> u8 list option" where
  "take_frame x = (case x of (dst, src, body) \<Rightarrow> msdu_frame dst src body)"

text \<open>The Ethernet frames of an aggregate: a subframe without a proper encapsulation header is skipped.\<close>

definition amsdu_frames :: "u8 list \<Rightarrow> u8 list list" where
  "amsdu_frames bs = List.map_filter take_frame (subframes bs)"

section \<open>The allocator during a run\<close>

text \<open>
  What the host's frame allocator promises for the calls of one run, those before call \<open>c\<close>: blocks
  are not null, and apart from the pages in use, from the received frame at \<open>lo\<close>, and from one another.
\<close>

definition apart :: "addr \<Rightarrow> nat \<Rightarrow> addr \<Rightarrow> nat \<Rightarrow> bool" where
  "apart a n b k = (a + n \<le> b \<or> b + k \<le> a)"

definition good_blocks :: "addr \<Rightarrow> nat \<Rightarrow> nat \<Rightarrow> 'a kst_scheme \<Rightarrow> bool" where
  "good_blocks lo n c s =
     (\<forall>i sz. k_calls s \<le> i \<and> i < c \<and> unat sz \<le> 4294967296 \<longrightarrow>
        frames_fresh (k_frames s i sz) sz s \<and> apart (k_frames s i sz) (unat sz) lo n \<and>
        (\<forall>j sz'. i < j \<and> j < c \<and> unat sz' \<le> 4294967296 \<longrightarrow>
           apart (k_frames s i sz) (unat sz) (k_frames s j sz') (unat sz')))"

lemma good_blocks_mono:
  "good_blocks lo n c s \<Longrightarrow> k_calls s \<le> k_calls s' \<Longrightarrow> k_frames s' = k_frames s \<Longrightarrow> k_pages s' = k_pages s \<Longrightarrow>
    good_blocks lo n c s'"
  by (auto simp: good_blocks_def frames_fresh_def)

lemma good_blocks_page:
  assumes "good_blocks lo n c s" and "k_calls s \<le> i" and "i < k_calls s'" and "unat sz \<le> 4294967296" and "i < c"
    and "k_frames s' = k_frames s" and "k_pages s' = k_pages s @ [(p, pg)]"
    and "pg_addr pg = k_frames s i sz" and "pg_size pg = sz"
  shows "good_blocks lo n c s'"
  unfolding good_blocks_def
proof (intro allI impI conjI)
  fix j and sz' :: u64
  assume j: "k_calls s' \<le> j \<and> j < c \<and> unat sz' \<le> 4294967296"
  then have g: "k_calls s \<le> j" "i < j" using assms(2,3) by simp_all
  have old: "frames_fresh (k_frames s j sz') sz' s" "apart (k_frames s j sz') (unat sz') lo n"
    "apart (k_frames s i sz) (unat sz) (k_frames s j sz') (unat sz')"
    using assms(1,2,4,5) j g by (auto simp: good_blocks_def)
  show "frames_fresh (k_frames s' j sz') sz' s'"
    using old(1,3) by (auto simp: frames_fresh_def assms(6-9) apart_def)
  show "apart (k_frames s' j sz') (unat sz') lo n" using old(2) by (simp add: assms(6))
  fix j' and sz'' :: u64
  assume "j < j' \<and> j' < c \<and> unat sz'' \<le> 4294967296"
  then show "apart (k_frames s' j sz') (unat sz') (k_frames s' j' sz'') (unat sz'')"
    using assms(1,6) j g by (auto simp: good_blocks_def)
qed

section \<open>One allocation\<close>

lemma block_size_le: "unat n \<le> 4294967296 \<Longrightarrow> unat (block_size n) \<le> 4294967296"
proof -
  assume n: "unat n \<le> 4294967296"
  have "(2 :: nat) ^ get_order n \<le> 2 ^ 20" by (rule power_increasing) (use get_order_small [OF n] in auto)
  then show ?thesis using block_size_unat(1) [OF n] by simp
qed

lemma alloc_skb_block:
  assumes "pages_wf s" and "alloc_skb n s = (b, s')" and "unat n \<le> 4294967295" and "n \<noteq> 0"
  defines "sz \<equiv> block_size n" and "a \<equiv> k_frames s (k_calls s + 2) (block_size n)"
  shows "k_mem s' = k_mem s \<and> k_frames s' = k_frames s \<and> k_obj s' = k_obj s \<and> k_calls s \<le> k_calls s' \<and>
    k_calls s' \<le> k_calls s + 3 \<and>
    (case b of
       None \<Rightarrow> k_pages s' = k_pages s \<and> (\<exists>i. \<not> k_obj s i)
     | Some skb \<Rightarrow> sb_head skb = a \<and> k_calls s' = k_calls s + 3 \<and>
         (\<exists>p pg. k_pages s' = k_pages s @ [(p, pg)] \<and> pg_addr pg = a \<and> pg_size pg = sz \<and> pg_refcnt pg \<noteq> 0 \<and>
            p = k_calls s + 1))"
proof (cases "k_obj s (k_calls s)")
  case False
  then show ?thesis using assms(2) by (auto simp: alloc_skb_def kzalloc_obj_def)
next
  case True
  define s1 where "s1 = snd (kzalloc_obj s)"
  have s1: "kzalloc_obj s = (Some (k_calls s), s1)" "k_calls s1 = k_calls s + 1" "k_frames s1 = k_frames s"
    "k_obj s1 = k_obj s" "k_mem s1 = k_mem s" "k_pages s1 = k_pages s"
    using True by (simp_all add: s1_def kzalloc_obj_def)
  have wf1: "pages_wf s1" by (rule pages_wf_calls [OF assms(1) _ s1(6) s1(2)]) simp
  have le: "unat n \<le> 4294967296" "\<not> n > 4294967295" using assms(3) by (simp_all add: word_less_nat_alt)
  obtain r s2 where d: "dev_alloc_pages (get_order n) s1 = (r, s2)" by (cases "dev_alloc_pages (get_order n) s1")
  have pa: "lcompat_page_alloc None (block_size n) s1 = (r, s2)"
    using d get_order_small [OF le(1)] by (simp add: dev_alloc_pages_def block_size_def)
  have sz: "alloc_size (block_size n) = block_size n" using block_size_unat(3) [OF le(1)] by (simp add: alloc_size_def)
  have small: "\<not> block_size n > SIZE_MAX - sizeof_page"
    using block_size_le [OF le(1)] by (simp add: SIZE_MAX_def sizeof_page_def word_less_nat_alt)
  have keep: "k_mem s2 = k_mem s1" "k_frames s2 = k_frames s1" "k_obj s2 = k_obj s1"
    using page_alloc_mem [OF pa] page_alloc_frames [of None "block_size n" s1] pa
    by (auto simp: lcompat_page_alloc_def kzalloc_obj_def alloc_frames_bytes_def Let_def split: if_splits)
  show ?thesis
  proof (cases r)
    case None
    have "\<not> k_obj s1 (k_calls s1)" "k_calls s2 = k_calls s1 + 1"
      using pa small block_size_unat(3) [OF le(1)] None
      by (auto simp: lcompat_page_alloc_def kzalloc_obj_def alloc_frames_bytes_def Let_def split: if_splits)
    then show ?thesis
      using assms(2,4) s1 d None le(2) keep page_alloc_cases [OF pa] by (auto simp: alloc_skb_def kfree_obj_def)
  next
    case (Some p)
    note c = page_alloc_cases [OF pa]
    have addr: "page_address (Some p) s2 = a"
      using dev_alloc_block(5) [OF wf1 le(1) d [unfolded Some]] by (simp add: a_def s1)
    show ?thesis
      using assms(2,4) s1 d Some le(2) keep c addr by (auto simp: alloc_skb_def Let_def sz a_def sz_def)
  qed
qed

section \<open>One subframe\<close>

text \<open>A buffer that holds the frame \<open>fr\<close> inside a page of its own.\<close>

definition delivered :: "mst \<Rightarrow> skb \<Rightarrow> u8 list \<Rightarrow> bool" where
  "delivered s b fr =
     ((\<exists>r. filled b s r fr) \<and> sb_protocol b = get_unaligned_le16 (\<lambda>i. fr ! i) 12 \<and>
      (\<exists>p pg. (p, pg) \<in> set (k_pages s) \<and> pg_addr pg \<le> sb_data b \<and>
         sb_data b + length fr \<le> pg_addr pg + unat (pg_size pg)))"

text \<open>Writes inside a fresh block, under a page list that only grows, disturb nothing delivered.\<close>

lemma delivered_keep:
  assumes "delivered s b fr" and "frames_fresh a sz s" and "set (k_pages s) \<subseteq> set (k_pages s')"
    and "\<And>x. x < a \<or> a + unat sz \<le> x \<Longrightarrow> k_mem s' x = k_mem s x"
  shows "delivered s' b fr"
proof -
  obtain r p pg where d: "filled b s r fr" "(p, pg) \<in> set (k_pages s)" "pg_addr pg \<le> sb_data b"
    "sb_data b + length fr \<le> pg_addr pg + unat (pg_size pg)" using assms(1) by (auto simp: delivered_def)
  have ap: "pg_addr pg + unat (pg_size pg) \<le> a \<or> a + unat sz \<le> pg_addr pg"
    using assms(2) d(2) by (auto simp: frames_fresh_def list_all_iff)
  have "load_bytes (k_mem s') (sb_data b) (length fr) = load_bytes (k_mem s) (sb_data b) (length fr)"
    by (rule load_bytes_cong, rule assms(4)) (use ap d(3,4) in linarith)
  then have "filled b s' r fr" using d(1) by (simp add: filled_def holds_def)
  then show ?thesis using assms(1,3) d unfolding delivered_def by blast
qed

lemma load_keep:
  assumes "apart a (unat sz) lo n" and "\<And>x. x < a \<or> a + unat sz \<le> x \<Longrightarrow> m' x = m x"
  shows "load_bytes m' lo n = load_bytes m lo n"
  by (rule load_bytes_cong, rule assms(2)) (use assms(1) in \<open>auto simp: apart_def\<close>)

text \<open>The header and the payload of one Ethernet frame, in a fresh buffer.\<close>

lemma filled_ethernet:
  assumes "filled skb s (14 + length body) []" and "length dst = 6" "length src = 6" "length ty = 2"
    and "length body = unat m" and "length body < 4294967296 - 14"
  defines "s2 \<equiv> \<lambda>s1. poke (sb_data skb + 12) ty (poke (sb_data skb + 6) src (poke (sb_data skb) dst s1))"
  shows "\<exists>skb1 s1. skb_put_zero skb 14 s = (sb_data skb, skb1, s1) \<and> sb_data skb \<noteq> 0 \<and> kst.more s1 = kst.more s \<and>
    (\<exists>mm. s1 = s\<lparr>k_mem := mm\<rparr>) \<and> filled skb1 (s2 s1) (length body) (dst @ src @ ty) \<and> sb_data skb1 = sb_data skb \<and>
    (\<forall>x. x < sb_data skb \<or> sb_data skb + 14 \<le> x \<longrightarrow> k_mem (s2 s1) x = k_mem s x)"
proof -
  obtain skb1 s1 where p: "skb_put_zero skb 14 s = (sb_data skb, skb1, s1)" "sb_data skb1 = sb_data skb" "sb_data skb \<noteq> 0"
    "filled skb1 s1 (length body) (replicate 14 0)" "kst.more s1 = kst.more s"
    "s1 = s\<lparr>k_mem := store_bytes (k_mem s) (sb_data skb) (replicate 14 0)\<rparr>"
    using filled_put_zero [OF assms(1), of 14] by auto
  have a: "filled skb1 (poke (sb_data skb1 + 0) dst s1) (length body) (overlay 0 dst (replicate 14 0))"
    by (rule filled_poke [OF p(4)]) (simp add: assms)
  have b: "filled skb1 (poke (sb_data skb1 + 6) src (poke (sb_data skb1 + 0) dst s1)) (length body)
      (overlay 6 src (overlay 0 dst (replicate 14 0)))"
    by (rule filled_poke [OF a]) (simp add: assms overlay_def)
  have c: "filled skb1 (poke (sb_data skb1 + 12) ty (poke (sb_data skb1 + 6) src (poke (sb_data skb1 + 0) dst s1))) (length body)
      (overlay 12 ty (overlay 6 src (overlay 0 dst (replicate 14 0))))"
    by (rule filled_poke [OF b]) (simp add: assms overlay_def)
  have "overlay 12 ty (overlay 6 src (overlay 0 dst (replicate 14 0))) = dst @ src @ ty"
    using assms(2-4) by (simp add: overlay_def)
  moreover have "k_mem (s2 s1) x = k_mem s x" if "x < sb_data skb \<or> sb_data skb + 14 \<le> x" for x
    using that assms(2-4) by (auto simp: s2_def p(6) store_bytes_def)
  ultimately show ?thesis using p c by (auto simp: s2_def)
qed

text \<open>What a step on the receive path keeps: the answers of the host, the driver's state, the received frame.\<close>

definition kept :: "addr \<Rightarrow> nat \<Rightarrow> nat \<Rightarrow> mst \<Rightarrow> mst \<Rightarrow> bool" where
  "kept lo n c s s' =
     (k_obj s' = k_obj s \<and> k_calls s \<le> k_calls s' \<and> load_bytes (k_mem s') lo n = load_bytes (k_mem s) lo n \<and>
      (\<forall>b fr. delivered s b fr \<longrightarrow> delivered s' b fr) \<and>
      (pages_wf s \<and> good_blocks lo n c s \<longrightarrow> pages_wf s' \<and> good_blocks lo n c s'))"

lemma kept_refl: "kept lo n c s s"
  by (simp add: kept_def)

lemma kept_trans: "kept lo n c s t \<Longrightarrow> kept lo n c t u \<Longrightarrow> kept lo n c s u"
  by (auto simp: kept_def)

lemma kept_same:
  assumes "k_obj s' = k_obj s" "k_calls s \<le> k_calls s'" "k_mem s' = k_mem s" "k_pages s' = k_pages s" "k_frames s' = k_frames s"
  shows "kept lo n c s s'"
  using assms pages_wf_calls [of s "k_calls s'" s'] good_blocks_mono [of lo n c s s']
  by (auto simp: kept_def delivered_def filled_def)

lemma kept_block:
  assumes "pages_wf s" "good_blocks lo n c s" and "unat sz \<le> 4294967296" "sz \<noteq> 0" and "k_calls s' = k_calls s + 3" "k_calls s' \<le> c"
    and "k_frames s' = k_frames s" "k_obj s' = k_obj s" and "k_pages s' = k_pages s @ [(k_calls s + 1, pg)]"
    and "pg_addr pg = k_frames s (k_calls s + 2) sz" "pg_size pg = sz" "pg_refcnt pg \<noteq> 0"
    and "\<And>x. x < pg_addr pg \<or> pg_addr pg + unat sz \<le> x \<Longrightarrow> k_mem s' x = k_mem s x"
  shows "kept lo n c s s'"
proof -
  let ?a = "k_frames s (k_calls s + 2) sz"
  have fresh: "frames_fresh ?a sz s" "apart ?a (unat sz) lo n" using assms(2,3,5,6) by (auto simp: good_blocks_def)
  have mem: "x < ?a \<or> ?a + unat sz \<le> x \<Longrightarrow> k_mem s' x = k_mem s x" for x using assms(10,13) by simp
  have g: "good_blocks lo n c s'"
    by (rule good_blocks_page [OF assms(2), of "k_calls s + 2" s' sz "k_calls s + 1" pg]) (use assms in simp_all)
  have "page_range_ok pg" using assms(4,10-12) fresh(1) by (simp add: page_range_ok_def frames_fresh_def)
  moreover have "list_all (\<lambda>(q, h). page_disjoint h pg) (k_pages s)"
    using fresh(1) by (auto simp: frames_fresh_def page_disjoint_def list_all_iff assms(10,11))
  ultimately have "pages_wf s'" using assms(5,9) by (intro pages_wf_snoc [OF assms(1), of "k_calls s + 1" pg]) simp_all
  moreover have "delivered s' b fr" if "delivered s b fr" for b fr
    by (rule delivered_keep [OF that fresh(1)]) (use assms(9) mem in auto)
  moreover have "load_bytes (k_mem s') lo n = load_bytes (k_mem s) lo n" by (rule load_keep [OF fresh(2) mem])
  ultimately show ?thesis using g assms(5,8) by (simp add: kept_def)
qed

lemma build_eth_result:
  assumes wf: "pages_wf s" "good_blocks lo n c s"
    and src: "load_bytes (k_mem s) pay (unat plen) = body" "lo \<le> pay" "pay + unat plen \<le> lo + n" "unat plen \<le> 65535"
    and mac: "length dst = 6" "length src = 6"
    and run: "build_eth_skb dst src pay plen s = (out, s')" "k_calls s + 3 \<le> c"
  shows "kept lo n c s s' \<and> k_calls s' \<le> k_calls s + 3 \<and> kst.more s' = kst.more s \<and>
    (case out of
       None \<Rightarrow> msdu_frame dst src body = None \<or> (\<exists>i. \<not> k_obj s i)
     | Some b \<Rightarrow> \<exists>fr. msdu_frame dst src body = Some fr \<and> delivered s' b fr)"
proof (cases "msdu_frame dst src body")
  case None
  have lb: "length body = unat plen" using src(1) by auto
  have "snap_to_ethertype pay plen s = None"
  proof (cases "plen < 8")
    case False
    then show ?thesis
      using snap_load [OF src(1) _ False] None lb by (auto simp: msdu_frame_def word_less_nat_alt)
  qed (simp add: snap_to_ethertype_def)
  then have "out = None" "s' = s" using run(1) by (auto simp: build_eth_skb_def)
  then show ?thesis using None kept_refl by simp
next
  case (Some fr)
  define et where "et = get_unaligned_be16 (\<lambda>i. body ! i) 6"
  define ty where "ty = le16_bytes (cpu_to_be16 et)"
  define m where "m = plen - 8"
  define N where "N = 14 + (ucast m :: u64)"
  have lb: "length body = unat plen" using src(1) by auto
  have l8: "8 \<le> length body" "snap_ok body" "fr = dst @ src @ drop 6 body"
    using Some by (auto simp: msdu_frame_def split: if_splits)
  have nlt: "\<not> plen < 8" using l8(1) lb by (simp add: word_less_nat_alt)
  have snap: "snap_to_ethertype pay plen s = Some (cpu_to_be16 et, 8)"
    using snap_load [OF src(1) _ nlt] l8 lb by (simp add: et_def)
  have m: "unat m = length (drop 8 body)" using l8(1) lb by (simp add: m_def unat_sub_le word_le_nat_alt)
  have msmall: "unat m \<le> 65527" using m lb src(4) by simp
  have N: "unat N = 14 + length (drop 8 body)" "N \<noteq> 0" "unat N \<le> 4294967295" "\<not> (ucast m :: u64) > 4294967295 - 14"
    using msmall m by (simp_all add: N_def unat_word_ariths ucast_u32_u64 word_less_nat_alt word_unat_eq_iff)
  have frb: "fr = dst @ src @ ty @ drop 8 body"
  proof -
    have "drop 6 body = take 2 (drop 6 body) @ drop 8 body"
      using append_take_drop_id [of 2 "drop 6 body"] by simp
    then show ?thesis using be16_nth [of body] l8 by (simp add: ty_def et_def)
  qed
  have tyl: "length ty = 2" by (simp add: ty_def)
  have prot: "cpu_to_be16 et = get_unaligned_le16 (\<lambda>i. fr ! i) 12"
    by (rule sym, rule get_le16_bytes) (simp_all add: frb nth_append mac ty_def le16_bytes_def)
  obtain o1 :: "skb option" and s1 where al: "alloc_skb N s = (o1, s1)" by (cases "alloc_skb N s :: skb option \<times> mst")
  note blk = alloc_skb_block [OF wf(1) al N(3,2)]
  have more1: "kst.more s1 = kst.more s" using alloc_skb_more [of N s] al by (metis snd_conv)
  show ?thesis
  proof (cases o1)
    case no: None
    have "out = None" "s' = s1"
      using run(1) snap al no N(4) by (auto simp: build_eth_skb_def m_def N_def)
    then show ?thesis using blk no more1 kept_same [of s1 s] by auto
  next
    case b0: (Some skb0)
    let ?sz = "block_size N" and ?a = "k_frames s (k_calls s + 2) (block_size N)"
    have N32: "unat N \<le> 4294967296" using N(3) by simp
    obtain pg where b: "sb_head skb0 = ?a" "k_calls s1 = k_calls s + 3" "k_pages s1 = k_pages s @ [(k_calls s + 1, pg)]"
      "pg_addr pg = ?a" "pg_size pg = ?sz" "pg_refcnt pg \<noteq> 0" "k_mem s1 = k_mem s" "k_frames s1 = k_frames s"
      "k_obj s1 = k_obj s" using blk b0 by auto
    define fin where "fin = (\<lambda>t skb'. k_calls t = k_calls s1 \<and> k_pages t = k_pages s1 \<and> k_frames t = k_frames s1 \<and>
      k_obj t = k_obj s1 \<and> kst.more t = kst.more s \<and> filled skb' t 0 fr \<and> sb_data skb' = ?a \<and>
      (\<forall>x. x < ?a \<or> ?a + unat N \<le> x \<longrightarrow> k_mem t x = k_mem s x))"
    have finish: ?thesis if "out = Some (skb'\<lparr>sb_protocol := cpu_to_be16 et\<rparr>)" "fin s' skb'" for skb'
    proof -
      have k: "k_calls s' = k_calls s + 3" "k_pages s' = k_pages s @ [(k_calls s + 1, pg)]" "k_frames s' = k_frames s"
        "k_obj s' = k_obj s" "kst.more s' = kst.more s" "filled skb' s' 0 fr" "sb_data skb' = ?a"
        using that(2) b by (simp_all add: fin_def)
      have k8: "k_mem s' x = k_mem s x" if "x < ?a \<or> ?a + unat N \<le> x" for x
        using \<open>fin s' skb'\<close> that unfolding fin_def by blast
      have "kept lo n c s s'"
        by (rule kept_block [OF wf block_size_le [OF N32] block_size_unat(3) [OF N32] k(1) _ k(3,4,2) b(4-6)])
          (use k(1) k8 run(2) block_size_unat(2) [OF N32] b(4) in auto)
      moreover have "length fr = unat N" using N(1) tyl mac by (simp add: frb)
      then have "delivered s' (skb'\<lparr>sb_protocol := cpu_to_be16 et\<rparr>) fr"
      proof -
        assume len: "length fr = unat N"
        let ?b = "skb'\<lparr>sb_protocol := cpu_to_be16 et\<rparr>"
        have "(k_calls s + 1, pg) \<in> set (k_pages s')" "pg_addr pg \<le> sb_data ?b"
          "sb_data ?b + length fr \<le> pg_addr pg + unat (pg_size pg)"
          using k(2,7) b(4,5) block_size_unat(2) [OF N32] len by simp_all
        moreover have "filled ?b s' 0 fr" by (rule filled_fields [OF k(6)]) simp_all
        moreover have "sb_protocol ?b = get_unaligned_le16 (\<lambda>i. fr ! i) 12" using prot by simp
        ultimately show "delivered s' ?b fr" unfolding delivered_def by blast
      qed
      ultimately show ?thesis using that(1) Some k(1,5) by simp
    qed
    have fresh: "frames_fresh ?a ?sz s" "apart ?a (unat ?sz) lo n"
      using wf(2) run(2) block_size_le [OF N32] by (auto simp: good_blocks_def)
    have hd: "sb_head skb0 \<noteq> 0" using b(1) fresh(1) by (simp add: frames_fresh_def)
    note al0 = al [unfolded b0]
    have e: "empty_with_room skb0 (unat N)" "sb_data skb0 = ?a" using alloc_skb_fresh [OF al0 hd] b(1) by auto
    have f0: "filled skb0 s1 (14 + length (drop 8 body)) []" using filled_empty [OF e(1)] N(1) by simp
    have lt14: "length (drop 8 body) < 4294967296 - 14" using msmall m by simp
    obtain skb1 s2 mm where p: "skb_put_zero skb0 14 s1 = (sb_data skb0, skb1, s2)" "sb_data skb0 \<noteq> 0" "s2 = s1\<lparr>k_mem := mm\<rparr>"
      "filled skb1 (poke (sb_data skb0 + 12) ty (poke (sb_data skb0 + 6) src (poke (sb_data skb0) dst s2))) (length (drop 8 body))
         (dst @ src @ ty)" "sb_data skb1 = sb_data skb0"
      "\<And>x. x < sb_data skb0 \<or> sb_data skb0 + 14 \<le> x \<Longrightarrow>
         k_mem (poke (sb_data skb0 + 12) ty (poke (sb_data skb0 + 6) src (poke (sb_data skb0) dst s2))) x = k_mem s1 x"
      "kst.more s2 = kst.more s1"
      using filled_ethernet [OF f0 mac tyl m [symmetric] lt14] by blast
    define s3 where "s3 = poke (sb_data skb0 + 12) ty (poke (sb_data skb0 + 6) src (poke (sb_data skb0) dst s2))"
    note p' = p(4,6) [folded s3_def]
    have s3: "k_calls s3 = k_calls s1" "k_pages s3 = k_pages s1" "k_frames s3 = k_frames s1" "k_obj s3 = k_obj s1"
      "kst.more s3 = kst.more s"
      using p(7) more1 by (simp_all add: s3_def poke_def p(3))
    have pay: "load_bytes (k_mem s3) (pay + 8) (unat m) = drop 8 body"
    proof -
      have "load_bytes (k_mem s3) (pay + 8) (unat m) = load_bytes (k_mem s) (pay + 8) (unat m)"
        by (rule load_bytes_cong, unfold p'(2) [symmetric] b(7) [symmetric], rule p'(2))
          (use fresh(2) e(2) src m lb l8(1) block_size_unat(2) [OF N32] N(1) in \<open>auto simp: apart_def\<close>)
      also have "\<dots> = drop 8 body" using src(1) m lb l8(1) by auto
      finally show ?thesis .
    qed
    have start: "build_eth_skb dst src pay plen s =
        (if m = 0 then (Some (skb1\<lparr>sb_protocol := cpu_to_be16 et\<rparr>), s3)
         else case skb_put_data skb1 (Some (drop 8 body)) m s3 of
           (q, skb, t) \<Rightarrow> if q = 0 then (None, kfree_skb (Some skb) t) else (Some (skb\<lparr>sb_protocol := cpu_to_be16 et\<rparr>), t))"
      using snap al0 N(4) p(1,2) pay
      by (simp add: build_eth_skb_def m_def [symmetric] N_def [symmetric] ty_def [symmetric] s3_def Let_def)
    show ?thesis
    proof (cases "m = 0")
      case True
      have "drop 8 body = []" using m True by simp
      then have "fin s3 skb1" using p p' s3 e(2) b(7) frb N(1) by (simp add: fin_def)
      moreover have "out = Some (skb1\<lparr>sb_protocol := cpu_to_be16 et\<rparr>)" "s' = s3" using run(1) start True by simp_all
      ultimately show ?thesis using finish [of skb1] by blast
    next
      case False
      obtain skb2 s4 where d: "skb_put_data skb1 (Some (drop 8 body)) m s3 = (sb_data skb1 + 14, skb2, s4)"
        "sb_data skb2 = sb_data skb1" "filled skb2 s4 0 ((dst @ src @ ty) @ drop 8 body)" "kst.more s4 = kst.more s3"
        "s4 = s3\<lparr>k_mem := store_bytes (k_mem s3) (sb_data skb1 + 14) (drop 8 body)\<rparr>"
        using filled_put_data [OF p'(1), of m "drop 8 body"] m mac tyl by auto
      have "k_mem s4 x = k_mem s x" if "x < ?a \<or> ?a + unat N \<le> x" for x
        using that p'(2) [of x] b(7) e(2) p(5) N(1) by (auto simp: d(5) store_bytes_def)
      moreover have "k_calls s4 = k_calls s1" "k_pages s4 = k_pages s1" "k_frames s4 = k_frames s1" "k_obj s4 = k_obj s1"
        using s3 by (simp_all add: d(5))
      ultimately have "fin s4 skb2" using d(2-4) s3(5) e(2) p(5) frb by (simp add: fin_def)
      moreover have "out = Some (skb2\<lparr>sb_protocol := cpu_to_be16 et\<rparr>)" "s' = s4" using run(1) start False d(1) by simp_all
      ultimately show ?thesis using finish [of skb2] by blast
    qed
  qed
qed

section \<open>The loop\<close>

lemma align4:
  assumes "unat (x + 3 :: u32) = unat x + 3"
  shows "unat ((x + 3) AND NOT 3) = padded (unat x)"
proof -
  define w where "w = x + 3"
  have three: "(3 :: u32) = mask 2" by (simp add: mask_eq_exp_minus_1)
  have "w AND NOT 3 = push_bit 2 (drop_bit 2 w)"
  proof (rule bit_word_eqI)
    fix n assume "n < LENGTH(32)"
    then show "bit (w AND NOT 3) n = bit (push_bit 2 (drop_bit 2 w)) n"
      unfolding three by (cases "2 \<le> n") (auto simp: bit_simps le_add_diff_inverse simp del: mask_numeral add_2_eq_Suc)
  qed
  then have "unat (w AND NOT 3) = take_bit 32 (4 * ((unat x + 3) div 4))"
    using assms by (simp only: w_def unsigned_push_bit_eq unat_drop_bit_eq push_bit_eq_mult [of 2 "_ :: nat"]
        drop_bit_eq_div [of 2 "_ :: nat"]) (simp add: mult.commute)
  moreover have "4 * ((unat x + 3) div 4) < 2 ^ 32"
    using u32_bound [of "x + 3"] assms by simp
  ultimately show ?thesis by (simp add: w_def padded_def take_bit_nat_eq_self)
qed

lemma subframes_short: "length bs < 14 \<Longrightarrow> subframes bs = []"
  by (simp add: subframes.simps)

lemma subframes_bad: "be16_at bs 12 = 0 \<or> be16_at bs 12 > length bs - 14 \<Longrightarrow> subframes bs = []"
  by (subst subframes.simps) (auto simp: Let_def)

lemma subframes_good:
  "14 \<le> length bs \<Longrightarrow> be16_at bs 12 \<noteq> 0 \<Longrightarrow> be16_at bs 12 \<le> length bs - 14 \<Longrightarrow>
    subframes bs = (take 6 bs, take 6 (drop 6 bs), take (be16_at bs 12) (drop 14 bs)) #
      (if padded (14 + be16_at bs 12) > length bs then [] else subframes (drop (padded (14 + be16_at bs 12)) bs))"
  by (subst subframes.simps) (simp add: Let_def)

text \<open>The length field of the subframe at \<open>pos\<close>.\<close>

lemma amsdu_len:
  assumes "load_bytes (k_mem s) pos (unat rem) = cur" and "14 \<le> unat rem"
  shows "unat (ucast (get_unaligned_be16 (k_mem s) (pos + 12)) :: u32) = be16_at cur 12" and "be16_at cur 12 \<le> 65535"
proof -
  have byte: "cur ! i = k_mem s (pos + i)" if "i < unat rem" for i using assms(1) that by auto
  have e: "get_unaligned_be16 (k_mem s) (pos + 12) = get_unaligned_be16 (\<lambda>k. cur ! k) 12"
    using byte [of 12] byte [of 13] assms(2) by (simp add: get_unaligned_be16_def ac_simps)
  have small: "unat (get_unaligned_be16 (\<lambda>k. cur ! k) 12) < 65536"
    using unsigned_less [of "get_unaligned_be16 (\<lambda>k. cur ! k) 12", where 'a = nat] by simp
  have "take_bit 32 (unat (get_unaligned_be16 (\<lambda>k. cur ! k) 12)) = unat (get_unaligned_be16 (\<lambda>k. cur ! k) 12)"
    by (rule take_bit_nat_eq_self, rule less_le_trans [OF small]) simp
  then show "unat (ucast (get_unaligned_be16 (k_mem s) (pos + 12)) :: u32) = be16_at cur 12"
    by (simp only: be16_at_def e unsigned_ucast_eq) simp
  show "be16_at cur 12 \<le> 65535" unfolding be16_at_def using small by linarith
qed

lemma amsdu_sub_bad:
  assumes "load_bytes (k_mem s) pos (unat rem) = cur" and "14 \<le> unat rem"
    and "be16_at cur 12 = 0 \<or> be16_at cur 12 > length cur - 14"
  shows "amsdu_sub pos rem q s = (None, q, s)"
proof -
  define ml where "ml = (ucast (get_unaligned_be16 (k_mem s) (pos + 12)) :: u32)"
  have len: "length cur = unat rem" using assms(1) by auto
  have "unat (rem - 14) = unat rem - 14" using assms(2) by (simp add: unat_sub_le word_le_nat_alt)
  then have "ml = 0 \<or> ml > rem - 14"
    using assms(3) amsdu_len(1) [OF assms(1,2)] len by (auto simp: word_less_nat_alt ml_def [symmetric] unat_eq_0)
  then show ?thesis by (auto simp: amsdu_sub_def Let_def ml_def [symmetric])
qed

text \<open>One round: the subframe at \<open>pos\<close>, by the bytes that are left.\<close>

lemma amsdu_sub_result:
  fixes s :: mst
  assumes wf: "pages_wf s" "good_blocks lo n c s" "k_calls s + 3 \<le> c" "m_rt s \<noteq> None"
    and cur: "load_bytes (k_mem s) pos (unat rem) = cur" "lo \<le> pos" "pos + unat rem \<le> lo + n" "14 \<le> unat rem"
    and ok: "be16_at cur 12 \<noteq> 0" "be16_at cur 12 \<le> length cur - 14"
    and run: "amsdu_sub pos rem q s = (adv, q', s')"
  defines "N \<equiv> be16_at cur 12"
  shows "\<exists>out t. kept lo n c s s' \<and> k_calls s' \<le> k_calls s + 3 \<and> kst.more t = kst.more s \<and>
    (case out of
       None \<Rightarrow> s' = t \<and> q' = q \<and>
         (take_frame (take 6 cur, take 6 (drop 6 cur), take N (drop 14 cur)) = None \<or> (\<exists>i. \<not> k_obj s i))
     | Some b \<Rightarrow> s' = upd_rt (\<lambda>rt. rt\<lparr>rt_rx_queue := rt_rx_queue rt @ [b]\<rparr>) t \<and> q' = q + 1 \<and>
         (\<exists>fr. take_frame (take 6 cur, take 6 (drop 6 cur), take N (drop 14 cur)) = Some fr \<and> delivered s' b fr)) \<and>
    (if padded (14 + N) > length cur then adv = None
     else \<exists>a. adv = Some a \<and> 14 + unat a = padded (14 + N) \<and> unat (rem - 14 - a) = length cur - padded (14 + N))"
proof -
  have len: "length cur = unat rem" using cur(1) by auto
  define ml where "ml = (ucast (get_unaligned_be16 (k_mem s) (pos + 12)) :: u32)"
  have ml: "unat ml = N" "unat ml \<le> 65535"
    using amsdu_len [OF cur(1,4)] by (simp_all add: ml_def N_def)
  have r14: "unat (rem - 14) = unat rem - 14" using cur(4) by (simp add: unat_sub_le word_le_nat_alt)
  have go: "\<not> (ml = 0 \<or> ml > rem - 14)"
    using ok len ml(1) r14 by (auto simp: word_less_nat_alt N_def)
  have d: "fr_mac pos s = take 6 cur" "fr_mac (pos + 6) s = take 6 (drop 6 cur)"
    using cur(1,4) by (auto simp: fr_mac_def min_def)
  have Nle: "N \<le> unat rem - 14" using ok(2) len by (simp add: N_def)
  have body: "load_bytes (k_mem s) (pos + 14) (unat ml) = take N (drop 14 cur)"
    using cur(1) Nle ml(1) by (auto simp: min_def)
  obtain out t where b: "build_eth_skb (take 6 cur) (take 6 (drop 6 cur)) (pos + 14) ml s = (out, t)"
    by (cases "build_eth_skb (take 6 cur) (take 6 (drop 6 cur)) (pos + 14) ml s")
  have res: "kept lo n c s t \<and> k_calls t \<le> k_calls s + 3 \<and> kst.more t = kst.more s \<and>
    (case out of
       None \<Rightarrow> msdu_frame (take 6 cur) (take 6 (drop 6 cur)) (take N (drop 14 cur)) = None \<or> (\<exists>i. \<not> k_obj s i)
     | Some b \<Rightarrow> \<exists>fr. msdu_frame (take 6 cur) (take 6 (drop 6 cur)) (take N (drop 14 cur)) = Some fr \<and> delivered t b fr)"
    by (rule build_eth_result [OF wf(1,2) body _ _ ml(2) _ _ b wf(3)]) (use cur len ml(1) Nle in auto)
  define u where "u = (\<lambda>b. upd_rt (\<lambda>rt. rt\<lparr>rt_rx_queue := rt_rx_queue rt @ [b]\<rparr>) t)"
  have u: "kept lo n c t (u b)" "k_calls (u b) = k_calls t" "delivered (u b) x y = delivered t x y" for b x y
    by (auto simp: u_def upd_rt_def delivered_def filled_def intro!: kept_same)
  have P: "unat (14 + ml + 3) = unat (14 + ml) + 3" "unat (14 + ml) = 14 + N"
    using ml by (simp_all add: unat_word_ariths)
  define pl where "pl = ((14 + ml + 3) AND NOT 3 :: u32)"
  have pl: "unat pl = padded (14 + N)" using align4 [OF P(1)] P(2) by (simp add: pl_def)
  have pl14: "14 + N \<le> unat pl" using padded_ge [of "14 + N"] pl by simp
  have adv: "(pl < 14 + ml \<or> pl - 14 > rem - 14) = (padded (14 + N) > length cur)"
    using pl pl14 P(2) r14 len cur(4) by (auto simp: word_less_nat_alt unat_sub_le word_le_nat_alt)
  have run': "(if pl < 14 + ml \<or> pl - 14 > rem - 14 then None else Some (pl - 14)) = adv"
    "(case out of None \<Rightarrow> (q, t) | Some b \<Rightarrow> (q + 1, u b)) = (q', s')"
    using run go b by (auto simp: amsdu_sub_def Let_def ml_def [symmetric] d pl_def u_def split: option.splits)
  have last: "if padded (14 + N) > length cur then adv = None
     else \<exists>a. adv = Some a \<and> 14 + unat a = padded (14 + N) \<and> unat (rem - 14 - a) = length cur - padded (14 + N)"
    using run'(1) adv pl pl14 len r14 by (auto simp: unat_sub_le word_le_nat_alt)
  show ?thesis
  proof (cases out)
    case None
    then show ?thesis using res run'(2) last by (intro exI [of _ out] exI [of _ t]) (auto simp: take_frame_def)
  next
    case (Some x)
    then have "s' = u x" "q' = q + 1" using run'(2) by auto
    then show ?thesis using Some res last u kept_trans [of lo n c s t "u x"]
      by (intro exI [of _ out] exI [of _ t]) (auto simp: take_frame_def u_def)
  qed
qed

lemma amsdu_loop_result:
  assumes "pages_wf s" "good_blocks lo n c s" "m_rt s = Some rt" "k_calls s + 3 * length (subframes cur) \<le> c"
    and "load_bytes (k_mem s) pos (unat rem) = cur" "lo \<le> pos" "pos + unat rem \<le> lo + n"
    and "amsdu_loop pos rem q s = (q', s')"
  shows "\<exists>new frames. m_rt s' = Some (rt\<lparr>rt_rx_queue := rt_rx_queue rt @ new\<rparr>) \<and> q' = q + word_of_nat (length new) \<and>
    list_all2 (delivered s') new frames \<and> subseq frames (List.map_filter take_frame (subframes cur)) \<and>
    ((\<forall>i. k_obj s i) \<longrightarrow> frames = List.map_filter take_frame (subframes cur)) \<and> kept lo n c s s'"
  using assms
proof (induction pos rem q s arbitrary: rt cur rule: amsdu_loop.induct)
  case (1 pos rem q s)
  note prem = "1.prems"
  have len: "length cur = unat rem" using prem(5) by auto
  show ?case
  proof (cases "14 \<le> unat rem \<and> be16_at cur 12 \<noteq> 0 \<and> be16_at cur 12 \<le> length cur - 14")
    case False
    have "amsdu_loop pos rem q s = (q, s)"
    proof (cases "14 \<le> unat rem")
      case r: True
      then have "amsdu_sub pos rem q s = (None, q, s)" using amsdu_sub_bad [OF prem(5) r] False by auto
      then show ?thesis using r by (subst amsdu_loop.simps) simp
    next
      case r: False
      then show ?thesis by (subst amsdu_loop.simps) (simp add: word_le_nat_alt)
    qed
    moreover have "subframes cur = []" using False len subframes_short subframes_bad by (metis leI not_le)
    ultimately show ?thesis using prem(3,8) kept_refl by (intro exI [of _ "[]"]) (simp add: List.map_filter_def)
  next
    case True
    define N where "N = be16_at cur 12"
    define P where "P = padded (14 + N)"
    let ?sub = "(take 6 cur, take 6 (drop 6 cur), take N (drop 14 cur))"
    have subs: "subframes cur = ?sub # (if P > length cur then [] else subframes (drop P cur))"
      using subframes_good [of cur] True len by (simp add: N_def P_def)
    obtain adv q1 s1 where run: "amsdu_sub pos rem q s = (adv, q1, s1)" by (cases "amsdu_sub pos rem q s")
    have c3: "k_calls s + 3 \<le> c" using prem(4) subs by simp
    obtain out t where r: "kept lo n c s s1" "k_calls s1 \<le> k_calls s + 3" "kst.more t = kst.more s"
      "case out of
       None \<Rightarrow> s1 = t \<and> q1 = q \<and> (take_frame ?sub = None \<or> (\<exists>i. \<not> k_obj s i))
     | Some b \<Rightarrow> s1 = upd_rt (\<lambda>rt. rt\<lparr>rt_rx_queue := rt_rx_queue rt @ [b]\<rparr>) t \<and> q1 = q + 1 \<and>
         (\<exists>fr. take_frame ?sub = Some fr \<and> delivered s1 b fr)"
      "if P > length cur then adv = None
       else \<exists>a. adv = Some a \<and> 14 + unat a = P \<and> unat (rem - 14 - a) = length cur - P"
      using amsdu_sub_result [OF prem(1,2) c3 _ prem(5-7) _ _ _ run] True prem(3) unfolding P_def N_def by auto
    have rtt: "m_rt t = Some rt" using m_rt_of_more [OF r(3)] prem(3) by simp
    define one where "one = (case out of None \<Rightarrow> [] | Some b \<Rightarrow> [b])"
    define fr1 where "fr1 = (if out = None then [] else [the (take_frame ?sub)])"
    have q1: "q1 = q + word_of_nat (length one)" using r(4) by (auto simp: one_def split: option.splits)
    have rt1: "m_rt s1 = Some (rt\<lparr>rt_rx_queue := rt_rx_queue rt @ one\<rparr>)"
      using r(4) rtt by (auto simp: one_def upd_rt_def split: option.splits)
    have d1: "list_all2 (delivered s1) one fr1"
      using r(4) by (auto simp: one_def fr1_def split: option.splits)
    have sq1: "subseq fr1 (List.map_filter take_frame [?sub])"
      using r(4) by (auto simp: fr1_def List.map_filter_def split: option.splits)
    have all1: "fr1 = List.map_filter take_frame [?sub]" if "\<forall>i. k_obj s i"
      using r(4) that by (auto simp: fr1_def List.map_filter_def split: option.splits)
    have cons: "List.map_filter take_frame (?sub # xs) = List.map_filter take_frame [?sub] @ List.map_filter take_frame xs" for xs
      by (simp add: List.map_filter_def)
    show ?thesis
    proof (cases "P > length cur")
      case stop: True
      then have "amsdu_loop pos rem q s = (q1, s1)"
        using r(5) True run by (subst amsdu_loop.simps) (simp add: word_le_nat_alt)
      then show ?thesis
        using prem(8) rt1 q1 d1 sq1 all1 r(1) subs stop by (intro exI [of _ one] exI [of _ fr1]) auto
    next
      case go: False
      then obtain a where a: "adv = Some a" "14 + unat a = P" "unat (rem - 14 - a) = length cur - P" using r(5) by auto
      have loop: "amsdu_loop (pos + P) (rem - 14 - a) q1 s1 = (q', s')"
        using prem(8) True run a(1) unfolding a(2) [symmetric]
        by (subst (asm) amsdu_loop.simps) (simp add: word_le_nat_alt add.assoc)
      have k1: "pages_wf s1" "good_blocks lo n c s1" using r(1) prem(1,2) by (auto simp: kept_def)
      have same: "load_bytes (k_mem s1) lo n = load_bytes (k_mem s) lo n" using r(1) by (simp add: kept_def)
      have part: "load_bytes (k_mem s1) (pos + P) (length cur - P) = drop P cur"
      proof -
        have sl: "load_bytes m (pos + P) (length cur - P) = take (length cur - P) (drop (pos + P - lo) (load_bytes m lo n))" for m
          using prem(6,7) go len by (simp add: min_def)
        then have "load_bytes (k_mem s1) (pos + P) (length cur - P) = load_bytes (k_mem s) (pos + P) (length cur - P)"
          by (simp only: sl same)
        then show ?thesis using prem(5) len by auto
      qed
      have cnt: "k_calls s1 + 3 * length (subframes (drop P cur)) \<le> c" using prem(4) subs go r(2) by simp
      have ge: "rem \<ge> 14" using True by (simp add: word_le_nat_alt)
      have p: "pos + 14 + unat a = pos + P" using a(2) by simp
      obtain new frames where ih: "m_rt s' = Some (rt\<lparr>rt_rx_queue := rt_rx_queue rt @ one @ new\<rparr>)"
        "q' = q1 + word_of_nat (length new)" "list_all2 (delivered s') new frames"
        "subseq frames (List.map_filter take_frame (subframes (drop P cur)))"
        "(\<forall>i. k_obj s1 i) \<longrightarrow> frames = List.map_filter take_frame (subframes (drop P cur))" "kept lo n c s1 s'"
        using "1.IH" [OF ge run [symmetric] a(1) refl k1 rt1 cnt, unfolded p a(3), OF part] prem(6,7) loop go len by auto
      have d: "list_all2 (delivered s') (one @ new) (fr1 @ frames)"
        using ih(6) ih(3) d1 by (intro list_all2_appendI) (auto simp: kept_def elim!: list_all2_mono)
      have m: "List.map_filter take_frame (subframes cur) =
          List.map_filter take_frame [?sub] @ List.map_filter take_frame (subframes (drop P cur))"
        unfolding subs if_not_P [OF go] by (rule cons)
      have ko: "k_obj s1 = k_obj s" using r(1) by (simp add: kept_def)
      have sq: "subseq (fr1 @ frames) (List.map_filter take_frame (subframes cur))"
        unfolding m by (rule list_emb_append_mono [OF sq1 ih(4)])
      have al: "(\<forall>i. k_obj s i) \<longrightarrow> fr1 @ frames = List.map_filter take_frame (subframes cur)"
        unfolding m using ih(5) [unfolded ko] all1 by blast
      have q: "q' = q + word_of_nat (length (one @ new))" by (simp add: ih(2) q1)
      from ih(1) q d sq al kept_trans [OF r(1) ih(6)] show ?thesis by blast
    qed
  qed
qed

lemma subframes_count: "length (subframes bs) \<le> length bs"
proof (induction bs rule: subframes.induct)
  case (1 bs)
  show ?case
  proof (cases "14 \<le> length bs \<and> be16_at bs 12 \<noteq> 0 \<and> be16_at bs 12 \<le> length bs - 14")
    case False
    then show ?thesis using subframes_short subframes_bad by (metis leI list.size(3) not_le zero_le)
  next
    case True
    define P where "P = padded (14 + be16_at bs 12)"
    have "14 \<le> P" using padded_ge [of "14 + be16_at bs 12"] by (simp add: P_def)
    moreover have "\<not> P > length bs \<Longrightarrow> length (subframes (drop P bs)) \<le> length (drop P bs)"
      unfolding P_def by (rule "1.IH") (use True in auto)
    ultimately show ?thesis
      using True by (cases "P > length bs") (auto simp: subframes_good P_def [symmetric])
  qed
qed

section \<open>The aggregate\<close>

text \<open>
  C3. Splitting an aggregate delivers its subframes: the buffers appended to the receive queue hold,
  in order, the Ethernet frames of the subframes, none invented or altered by the buffers that follow;
  subframes are missing only where their header is refused or an allocation failed, and with no
  failed allocation all of them are there.  The result is 0 exactly when something was queued, and
  the received frame itself is left as it was.  The subframes are those of the \<open>sb_len\<close> bytes at the data
  pointer, the window the code walks; that is the contents of the frame when it has no fragments
  (\<open>window_linear\<close>).  The code does not test for fragments: with them the window runs past the linear part
  (\<open>window_past_linear\<close>), and bytes that are not of the frame are delivered as subframes.
  Hypotheses: the header length is within the frame, the page list is well formed, and the allocator's
  blocks are apart from the pages in use, from the window and from one another (\<open>good_blocks\<close>).
\<close>

theorem amsdu_delivered:
  assumes "m_rt s = Some rt" "pages_wf s" "hl \<le> sb_len skb"
    and "good_blocks (sb_data skb) (unat (sb_len skb))
           (k_calls s + 3 * length (subframes (drop (unat hl) (skb_window skb s)))) s"
    and "enqueue_amsdu skb hl s = (ret, s')"
  shows "\<exists>new frames. m_rt s' = Some (rt\<lparr>rt_rx_queue := rt_rx_queue rt @ new\<rparr>) \<and>
    list_all2 (\<lambda>b fr. skb_wf b \<and> skb_linear b s' = fr \<and> sb_protocol b = get_unaligned_le16 (\<lambda>i. fr ! i) 12) new frames \<and>
    subseq frames (amsdu_frames (drop (unat hl) (skb_window skb s))) \<and>
    ((\<forall>i. k_obj s i) \<longrightarrow> frames = amsdu_frames (drop (unat hl) (skb_window skb s))) \<and>
    ret = (if new = [] then - EINVAL else 0) \<and> skb_window skb s' = skb_window skb s"
proof -
  let ?bs = "skb_window skb s" and ?cur = "drop (unat hl) (skb_window skb s)"
  have hl: "unat hl \<le> unat (sb_len skb)" using assms(3) by (simp add: word_le_nat_alt)
  have r: "unat (sb_len skb - hl) = unat (sb_len skb) - unat hl" using assms(3) by (simp add: unat_sub_le)
  have cur: "load_bytes (k_mem s) (sb_data skb + unat hl) (unat (sb_len skb - hl)) = ?cur"
    by (simp add: skb_window_def r)
  have nlt: "\<not> sb_len skb < hl" using assms(3) by simp
  obtain q where q: "amsdu_loop (sb_data skb + unat hl) (sb_len skb - hl) 0 s = (q, s')"
    "ret = (if q \<noteq> 0 then 0 else - EINVAL)"
    using assms(1,5) nlt by (auto simp: enqueue_amsdu_def split: prod.splits)
  obtain new frames where l: "m_rt s' = Some (rt\<lparr>rt_rx_queue := rt_rx_queue rt @ new\<rparr>)"
    "q = 0 + word_of_nat (length new)" "list_all2 (delivered s') new frames"
    "subseq frames (List.map_filter take_frame (subframes ?cur))"
    "(\<forall>i. k_obj s i) \<longrightarrow> frames = List.map_filter take_frame (subframes ?cur)"
    "kept (sb_data skb) (unat (sb_len skb)) (k_calls s + 3 * length (subframes ?cur)) s s'"
    using amsdu_loop_result [OF assms(2,4,1) order_refl cur _ _ q(1)] hl r by auto
  have "length new \<le> length (subframes ?cur)"
    using list_all2_lengthD [OF l(3)] list_emb_length [OF l(4)] length_filter_le by (fastforce simp: List.map_filter_def intro: le_trans)
  also have "\<dots> \<le> unat (sb_len skb)" using subframes_count [of ?cur] by (simp add: skb_window_def)
  finally have "length new < 2 ^ 32" using u32_bound [of "sb_len skb"] by simp
  then have "(word_of_nat (length new) :: u32) = 0 \<longleftrightarrow> new = []"
    by (simp add: word_unat_eq_iff unat_of_nat take_bit_nat_eq_self)
  then have "ret = (if new = [] then - EINVAL else 0)" using q(2) l(2) by simp
  moreover have "skb_window skb s' = ?bs" using l(6) by (simp add: kept_def skb_window_def)
  moreover have "list_all2 (\<lambda>b fr. skb_wf b \<and> skb_linear b s' = fr \<and> sb_protocol b = get_unaligned_le16 (\<lambda>i. fr ! i) 12) new frames"
    using l(3) by (rule list_all2_mono) (auto simp: delivered_def filled_def skb_linear_def holds_def)
  ultimately show ?thesis using l(1,4,5) unfolding amsdu_frames_def by blast
qed

text \<open>An aggregate of two subframes behind a QoS header, the first one padded.\<close>

definition demo_sub :: "u8 \<Rightarrow> u8 list \<Rightarrow> u8 list" where
  "demo_sub x body = [2, 0, 0, 0, 0, 9, 2, 0, 0, 0, 0, x, 0, word_of_nat (length body + 8), 0xaa, 0xaa, 3, 0, 0, 0, 8, 0] @ body"

definition demo_agg_bytes :: "u8 list" where
  "demo_agg_bytes = [0x88, 2, 0, 0, 2, 0, 0, 0, 0, 9, 2, 0, 0, 0, 0, 1, 2, 0, 0, 0, 0, 7, 0x50, 0, 0x80, 0] @
     demo_sub 7 [1, 2, 3] @ [0, 0, 0] @ demo_sub 8 [4, 5]"

definition demo_agg :: skb where
  "demo_agg = zero_skb\<lparr>sb_head := 4096, sb_data := 4096, sb_end := 128, sb_tail := 78, sb_len := 78\<rparr>"

definition demo_agg_st :: mst where
  "demo_agg_st = demo_link\<lparr>k_mem := store_bytes (\<lambda>_. 0) 4096 demo_agg_bytes, k_frames := (\<lambda>i _. (i + 1) * 8589934592)\<rparr>"

lemma demo_agg_facts: "m_rt demo_agg_st = Some demo_rt" "pages_wf demo_agg_st"
    "(26 :: u32) \<le> sb_len demo_agg" "skb_window demo_agg demo_agg_st = demo_agg_bytes" "\<forall>i. k_obj demo_agg_st i"
    "unat (sb_len demo_agg) = 78" "sb_data demo_agg = 4096"
  by (simp_all add: demo_agg_def zero_skb_def skb_window_def demo_agg_st_def demo_link_def demo_st_def
      load_store_same demo_agg_bytes_def demo_sub_def pages_wf_def)

lemma demo_agg_blocks:
  assumes "c \<le> 1000"
  shows "good_blocks 4096 78 c demo_agg_st"
proof -
  have "(i + 1) * 8589934592 + unat (sz :: u64) \<le> (j + 1) * 8589934592" if "i < j" "unat sz \<le> 4294967296" for i j :: nat and sz
  proof -
    have "(i + 1) * 8589934592 + 8589934592 \<le> (j + 1) * 8589934592" using that(1) by simp
    then show ?thesis using that(2) by simp
  qed
  moreover have "(i + 1) * 8589934592 + unat (sz :: u64) < 2 ^ 64" if "i < c" "unat sz \<le> 4294967296" for i and sz
    using that assms by simp
  ultimately show ?thesis
    by (auto simp: good_blocks_def frames_fresh_def apart_def demo_agg_st_def demo_link_def demo_st_def)
qed

lemma demo_agg_frames: "amsdu_frames (drop 26 demo_agg_bytes) =
    [[2, 0, 0, 0, 0, 9, 2, 0, 0, 0, 0, 7, 8, 0, 1, 2, 3], [2, 0, 0, 0, 0, 9, 2, 0, 0, 0, 0, 8, 8, 0, 4, 5]]"
  by code_simp

theorem amsdu_delivered_witness:
  "case enqueue_amsdu demo_agg 26 demo_agg_st of (ret, s') \<Rightarrow> ret = 0 \<and>
     map (\<lambda>b. skb_linear b s') (rt_rx_queue (the (m_rt s'))) =
       [[2, 0, 0, 0, 0, 9, 2, 0, 0, 0, 0, 7, 8, 0, 1, 2, 3], [2, 0, 0, 0, 0, 9, 2, 0, 0, 0, 0, 8, 8, 0, 4, 5]]"
proof -
  obtain ret s' where r: "enqueue_amsdu demo_agg 26 demo_agg_st = (ret, s')" by (cases "enqueue_amsdu demo_agg 26 demo_agg_st")
  have "k_calls demo_agg_st + 3 * length (subframes (drop 26 demo_agg_bytes)) \<le> 1000"
    using subframes_count [of "drop 26 demo_agg_bytes"]
    by (simp add: demo_agg_st_def demo_link_def demo_st_def demo_agg_bytes_def demo_sub_def)
  note blocks = demo_agg_blocks [OF this]
  obtain new frames where n: "m_rt s' = Some (demo_rt\<lparr>rt_rx_queue := rt_rx_queue demo_rt @ new\<rparr>)"
    "list_all2 (\<lambda>b fr. skb_wf b \<and> skb_linear b s' = fr \<and> sb_protocol b = get_unaligned_le16 (\<lambda>i. fr ! i) 12) new frames"
    "frames = amsdu_frames (drop 26 demo_agg_bytes)" "ret = (if new = [] then - EINVAL else 0)"
    using amsdu_delivered [OF demo_agg_facts(1-3) _ r, unfolded demo_agg_facts(4,6,7)] demo_agg_facts(5) blocks by auto
  have "map (\<lambda>b. skb_linear b s') new = frames"
    using n(2) by (auto simp: list_all2_conv_all_nth intro!: nth_equalityI)
  moreover have "rt_rx_queue demo_rt = []" by (simp add: demo_rt_def zero_runtime_def)
  ultimately show ?thesis using n(1,3,4) r demo_agg_frames by auto
qed

end
