(* ===== verification/LC_Mac_Mgmt.thy ===== *)
theory LC_Mac_Mgmt
  imports LC_Mac_Frames
begin

text \<open>
  The bytes of the management frames the station transmits: authentication, and the association
  request, whose length is computed before its elements are written.
\<close>

section \<open>Writing elements\<close>

lemma overlay_behind: "overlay (length xs + i) bs (xs @ ys) = xs @ overlay i bs ys"
  by (simp add: overlay_def)

text \<open>
  \<open>writing skb r pre tot s0 ps wr\<close>: behind the bytes \<open>pre\<close> of the frame, \<open>wr\<close> of the \<open>tot\<close> bytes of
  the body are written, \<open>ps\<close> being the position and the state; \<open>s0\<close> is the state before.
\<close>

definition writing :: "skb \<Rightarrow> nat \<Rightarrow> u8 list \<Rightarrow> nat \<Rightarrow> mst \<Rightarrow> nat \<times> mst \<Rightarrow> u8 list \<Rightarrow> bool" where
  "writing skb r pre tot s0 ps wr =
     (fst ps = length wr \<and> kst.more (snd ps) = kst.more s0 \<and>
      (\<exists>rest. length wr + length rest = tot \<and> filled skb (snd ps) r (pre @ wr @ rest)))"

lemma writing_poke:
  assumes "writing skb r pre tot s0 (pos, s) wr" and "length wr + length xs \<le> tot" and "ies = sb_data skb + length pre"
    and "pos' = pos + length xs"
  shows "writing skb r pre tot s0 (pos', poke (ies + pos) xs s) (wr @ xs)"
proof -
  obtain rest where w: "pos = length wr" "kst.more s = kst.more s0" "length wr + length rest = tot"
    "filled skb s r (pre @ wr @ rest)" using assms(1) by (auto simp: writing_def)
  have "filled skb (poke (sb_data skb + (length pre + pos)) xs s) r (overlay (length pre + pos) xs (pre @ wr @ rest))"
    by (rule filled_poke [OF w(4)]) (use w assms(2) in simp)
  moreover have "overlay (length pre + pos) xs (pre @ wr @ rest) = pre @ (wr @ xs) @ drop (length xs) rest"
    using overlay_behind [of pre pos xs "wr @ rest"] overlay_behind [of wr 0 xs rest] by (simp add: w(1) overlay_def)
  ultimately show ?thesis
    using w assms(2-4) by (auto simp: writing_def add.assoc intro!: exI [of _ "drop (length xs) rest"])
qed

lemma writing_ie:
  assumes "writing skb r pre tot s0 ps wr" and "length wr + 2 + n \<le> tot" and "ies = sb_data skb + length pre"
    and "n \<le> length body"
  shows "writing skb r pre tot s0 (put_ie ies eid n body ps) (wr @ ie_bytes (eid, take n body))"
proof -
  obtain pos s where ps: "ps = (pos, s)" by (cases ps)
  have a: "writing skb r pre tot s0 (pos + 1, poke (ies + pos) [eid] s) (wr @ [eid])"
    by (rule writing_poke [OF assms(1) [unfolded ps] _ assms(3)]) (use assms(2) in simp_all)
  have b: "writing skb r pre tot s0 (pos + 2, poke (ies + (pos + 1)) [of_nat n] (poke (ies + pos) [eid] s)) ((wr @ [eid]) @ [of_nat n])"
    by (rule writing_poke [OF a _ assms(3)]) (use assms(2) in simp_all)
  have c: "writing skb r pre tot s0 (pos + 2 + n, poke (ies + (pos + 2)) (take n body)
      (poke (ies + (pos + 1)) [of_nat n] (poke (ies + pos) [eid] s))) (((wr @ [eid]) @ [of_nat n]) @ take n body)"
    by (rule writing_poke [OF b _ assms(3)]) (use assms(2,4) in simp_all)
  then show ?thesis using assms(4) by (simp add: put_ie_def ps Let_def ie_bytes_def add.assoc min.absorb2)
qed

text \<open>Starting: \<^verbatim>\<open>skb_put\<close> hands out the body; ending: all of it is written.\<close>

lemma writing_start: "filled skb s r (pre @ raw) \<Longrightarrow> writing skb r pre (length raw) s (0, s) []"
  by (auto simp: writing_def)

lemma writing_end: "writing skb r pre tot s0 (pos, s) wr \<Longrightarrow> length wr = tot \<Longrightarrow>
    pos = tot \<and> filled skb s r (pre @ wr) \<and> kst.more s = kst.more s0"
  by (auto simp: writing_def)

section \<open>Sending\<close>

lemma send_mgmt_sends:
  assumes "filled skb s r bs" and "m_rt s = Some rt"
  shows "send_mgmt skb s =
    (if has_op o_tx s
     then (0, emit (EvTx False (skb\<lparr>sb_cb := Cb 0 0 0 1 (rt_vif rt \<noteq> None)\<rparr>) bs) (void_op o_mgd_prepare_tx EvMgdPrepareTx s))
     else (- EINVAL, s))"
proof -
  have "skb_bytes (skb\<lparr>sb_cb := x\<rparr>) t = bs" if "k_mem t = k_mem s" for x and t :: mst
    by (rule filled_bytes [OF filled_cong [OF filled_fields [OF assms(1)] that]]) simp_all
  moreover have "k_mem (void_op f e s) = k_mem s" for f e by (simp add: void_op_def emit_def)
  ultimately show ?thesis using assms(2) by (simp add: send_mgmt_def Let_def)
qed

text \<open>The frame that was handed to the driver last, and the calls before it.\<close>

definition sent :: "mst \<Rightarrow> u8 list \<Rightarrow> bool" where
  "sent s bs = (\<exists>sta skb l. m_log s = EvTx sta skb bs # l)"

text \<open>The sequence counter moves on when the header is written.\<close>

definition next_seq :: "mst \<Rightarrow> mst" where
  "next_seq s = upd_rt (\<lambda>rt. rt\<lparr>rt_tx_seq := rt_tx_seq rt + 1\<rparr>) s"

lemma next_seq_more: "kst.more s = kst.more t \<Longrightarrow> kst.more (next_seq s) = kst.more (next_seq t)" for s t :: mst
  by (cases s; cases t) (simp add: next_seq_def upd_rt_def)

lemma next_seq_ctrl_of: "m_rt s = Some rt \<Longrightarrow> next_seq_ctrl s = (seq_of rt, next_seq s)"
  by (simp add: next_seq_ctrl_pair seq_of_def next_seq_def)

lemma more_poke_next: "kst.more (poke a bs (next_seq s)) = kst.more (next_seq s)"
  by (simp add: poke_def)

text \<open>The zeroed start of a frame and the header fields the builders write into it.\<close>

lemma header_written:
  assumes "filled skb0 s0 r []" and "unat n = 24 + k" "24 + k \<le> r" and "m_rt s0 = Some rt"
    and "length a1 = 6" "length a2 = 6" "length a3 = 6"
  obtains skb1 s1 where "skb_put_zero skb0 n s0 = (sb_data skb0, skb1, s1)" "sb_data skb0 \<noteq> 0" "sb_data skb1 = sb_data skb0"
    "m_rt s1 = Some rt"
    "filled skb1 (poke (sb_data skb0 + 22) (le16_bytes (seq_of rt)) (next_seq (poke (sb_data skb0 + 16) a3
      (poke (sb_data skb0 + 10) a2 (poke (sb_data skb0 + 4) a1 (poke (sb_data skb0) (le16_bytes fc) s1)))))) (r - (24 + k))
      (header24 fc a1 a2 a3 (seq_of rt) @ replicate k 0)"
    "kst.more (poke (sb_data skb0 + 22) (le16_bytes (seq_of rt)) (next_seq (poke (sb_data skb0 + 16) a3
      (poke (sb_data skb0 + 10) a2 (poke (sb_data skb0 + 4) a1 (poke (sb_data skb0) (le16_bytes fc) s1)))))) = kst.more (next_seq s0)"
proof -
  obtain skb1 s1 where p: "skb_put_zero skb0 n s0 = (sb_data skb0, skb1, s1)" "sb_data skb1 = sb_data skb0" "sb_data skb0 \<noteq> 0"
    "filled skb1 s1 (r - (24 + k)) (replicate (24 + k) 0)" "kst.more s1 = kst.more s0"
    using filled_put_zero [OF assms(1), of n] assms(2,3) by auto
  have f: "filled skb1 s1 (r - (24 + k)) (replicate 24 0 @ replicate k 0)" using p(4) by (simp only: replicate_add)
  show thesis
  proof (rule that [OF p(1,3,2)])
    show "m_rt s1 = Some rt" using m_rt_of_more [OF p(5)] assms(4) by simp
    show "filled skb1 (poke (sb_data skb0 + 22) (le16_bytes (seq_of rt)) (next_seq (poke (sb_data skb0 + 16) a3
      (poke (sb_data skb0 + 10) a2 (poke (sb_data skb0 + 4) a1 (poke (sb_data skb0) (le16_bytes fc) s1)))))) (r - (24 + k))
      (header24 fc a1 a2 a3 (seq_of rt) @ replicate k 0)"
      unfolding next_seq_def using filled_header [OF f assms(5-7), of "seq_of rt"] by (simp add: p(2))
    show "kst.more (poke (sb_data skb0 + 22) (le16_bytes (seq_of rt)) (next_seq (poke (sb_data skb0 + 16) a3
      (poke (sb_data skb0 + 10) a2 (poke (sb_data skb0 + 4) a1 (poke (sb_data skb0) (le16_bytes fc) s1)))))) = kst.more (next_seq s0)"
      unfolding more_poke_next by (rule next_seq_more) (simp add: p(5))
  qed
qed

lemma length_header24: "length a1 = 6 \<Longrightarrow> length a2 = 6 \<Longrightarrow> length a3 = 6 \<Longrightarrow> length (header24 fc a1 a2 a3 seq) = 24"
  by (simp add: header24_def)

section \<open>Authentication\<close>

text \<open>Open system, first message: algorithm 0, sequence 1, status 0.\<close>

definition auth_frame :: "mac \<Rightarrow> mac \<Rightarrow> u16 \<Rightarrow> u8 list" where
  "auth_frame bssid own seq = header24 0x00b0 bssid own bssid seq @ [0, 0, 1, 0, 0, 0]"

lemma send_auth_runs:
  assumes "m_rt s = Some rt" "cp_has_bssid (rt_connect_params rt)" "rt_vif rt = Some vif"
    and "length (cp_bssid (rt_connect_params rt)) = 6" "length (vif_addr vif) = 6"
    and "alloc_tx_skb 30 s = (Some skb0, s0)" "sb_head skb0 \<noteq> 0"
  shows "\<exists>skb t. send_auth s = send_mgmt skb t \<and> kst.more t = kst.more (next_seq s) \<and>
    filled skb t 0 (auth_frame (cp_bssid (rt_connect_params rt)) (vif_addr vif) (seq_of rt))"
proof -
  let ?b = "cp_bssid (rt_connect_params rt)"
  let ?H = "header24 0x00b0 ?b (vif_addr vif) ?b (seq_of rt)"
  have more0: "kst.more s0 = kst.more s" using alloc_tx_more [of 30 s] assms(6) by simp
  have rt0: "m_rt s0 = Some rt" using m_rt_of_more [OF more0] assms(1) by simp
  have f0: "filled skb0 s0 30 []" using filled_empty [OF alloc_tx_fresh [OF assms(6,7)]] by simp
  obtain skb1 s1 s2 where h: "skb_put_zero skb0 30 s0 = (sb_data skb0, skb1, s1)" "sb_data skb0 \<noteq> 0" "sb_data skb1 = sb_data skb0"
    "m_rt s1 = Some rt" "s2 = poke (sb_data skb0 + 22) (le16_bytes (seq_of rt)) (next_seq (poke (sb_data skb0 + 16) ?b
      (poke (sb_data skb0 + 10) (vif_addr vif) (poke (sb_data skb0 + 4) ?b (poke (sb_data skb0) (le16_bytes 0x00b0) s1)))))"
    "filled skb1 s2 0 (?H @ replicate 6 0)" "kst.more s2 = kst.more (next_seq s0)"
    by (rule header_written [OF f0 _ _ rt0 assms(4,5,4), of 30 6]) auto
  have l24: "length ?H = 24" by (rule length_header24) (use assms(4,5) in simp_all)
  define s5 where "s5 = poke (sb_data skb0 + 28) (le16_bytes 0) (poke (sb_data skb0 + 26) (le16_bytes 1)
    (poke (sb_data skb0 + 24) (le16_bytes 0) s2))"
  have e5: "s5 = poke (sb_data skb1 + 24 + 4) (le16_bytes 0) (poke (sb_data skb1 + 24 + 2) (le16_bytes 1)
      (poke (sb_data skb1 + 24 + 0) (le16_bytes 0) s2))" by (simp add: s5_def h(3) ac_simps)
  have w: "writing skb1 0 ?H 6 s2 (0, s2) []" using writing_start [OF h(6)] by simp
  have w1: "writing skb1 0 ?H 6 s2 (2, poke (sb_data skb1 + 24 + 0) (le16_bytes 0) s2) ([] @ le16_bytes 0)"
    by (rule writing_poke [OF w]) (simp_all add: l24)
  have w2: "writing skb1 0 ?H 6 s2
      (4, poke (sb_data skb1 + 24 + 2) (le16_bytes 1) (poke (sb_data skb1 + 24 + 0) (le16_bytes 0) s2)) (([] @ le16_bytes 0) @ le16_bytes 1)"
    by (rule writing_poke [OF w1]) (simp_all add: l24)
  have w3: "writing skb1 0 ?H 6 s2 (6, s5) ((([] @ le16_bytes 0) @ le16_bytes 1) @ le16_bytes 0)"
    unfolding e5 by (rule writing_poke [OF w2]) (simp_all add: l24)
  have f5: "filled skb1 s5 0 (auth_frame ?b (vif_addr vif) (seq_of rt))" "kst.more s5 = kst.more s2"
    using writing_end [OF w3] by (simp_all add: auth_frame_def le16_bytes_def)
  have "send_auth s = send_mgmt skb1 s5"
    using assms(1,2,3,6) h(1,2,4) by (simp add: send_auth_def Let_def next_seq_ctrl_of s5_def h(5))
  then show ?thesis using f5 h(7) next_seq_more [OF more0] by metis
qed

section \<open>Association\<close>

text \<open>The elements of the request, and the frame.\<close>

definition assoc_ies :: "connect_params \<Rightarrow> u8 list \<Rightarrow> u8 list \<Rightarrow> bool \<Rightarrow> (u8 \<times> u8 list) list" where
  "assoc_ies cp supp ext wmm =
     (0, take (unat (cp_ssid_len cp)) (cp_ssid cp)) #
     (if rate_count 8 supp \<noteq> 0 then [(1, take (rate_count 8 supp) supp)] else []) @
     (if rate_count 16 ext \<noteq> 0 then [(50, take (rate_count 16 ext) ext)] else []) @
     (if wmm then [(221, [0x00, 0x50, 0xf2, 0x02, 0x00, 0x01, 0x00])] else [])"

definition assoc_frame :: "connect_params \<Rightarrow> mac \<Rightarrow> u16 \<Rightarrow> u16 \<Rightarrow> (u8 \<times> u8 list) list \<Rightarrow> u8 list" where
  "assoc_frame cp own seq cap es =
     header24 0x0000 (cp_bssid cp) own (cp_bssid cp) seq @ le16_bytes cap @ le16_bytes 10 @ concat (map ie_bytes es)"

lemma rate_count_le: "rate_count cap rs \<le> length rs"
proof -
  have "takeWhile (\<lambda>r. r \<noteq> 0) (rs @ replicate k 0) = takeWhile (\<lambda>r. r \<noteq> 0) rs" for k
    by (induction rs) (auto simp: takeWhile_eq_Nil_iff)
  then show ?thesis by (simp add: rate_count_def length_takeWhile_le)
qed

lemma supported_rates_bounds:
  "length supp \<le> 8 \<Longrightarrow> length ext \<le> 16 \<Longrightarrow>
    length (fst (supported_rates_loop bs scan e supp ext)) \<le> 8 \<and> length (snd (supported_rates_loop bs scan e supp ext)) \<le> 16"
proof (induction bs arbitrary: supp ext scan e)
  case (Cons b bs)
  show ?case by (simp add: Let_def Cons.IH Cons.prems)
qed simp

lemma build_supported_rates_bounds:
  "length (fst (build_supported_rates h bss)) \<le> 8 \<and> length (snd (build_supported_rates h bss)) \<le> 16"
  using supported_rates_bounds [of "[]" "[]"] by (simp add: build_supported_rates_def split: option.split)

lemma size_add_ie_nat:
  "m \<le> 100000 \<Longrightarrow> n \<le> 255 \<Longrightarrow> size_add_ie (word_of_nat m) (word_of_nat n) = Some (word_of_nat (m + 2 + n))"
  by (auto simp: size_add_ie_def size_add_def SIZE_MAX_def word_less_nat_alt unat_sub_if' unat_of_nat take_bit_nat_eq_self
      unat_word_ariths add.assoc)

definition ies_len :: "nat \<Rightarrow> nat \<Rightarrow> nat \<Rightarrow> bool \<Rightarrow> nat" where
  "ies_len sl sc ec wmm = (2 + sl) + (if sc \<noteq> 0 then 2 + sc else 0) + (if ec \<noteq> 0 then 2 + ec else 0) + (if wmm then 9 else 0)"

lemma length_assoc_ies:
  "unat (cp_ssid_len cp) \<le> length (cp_ssid cp) \<Longrightarrow>
    length (concat (map ie_bytes (assoc_ies cp supp ext wmm))) =
      ies_len (unat (cp_ssid_len cp)) (rate_count 8 supp) (rate_count 16 ext) wmm"
  using rate_count_le [of 8 supp] rate_count_le [of 16 ext]
  by (simp add: assoc_ies_def ies_len_def ie_bytes_def min_def)

lemma assoc_total_len_nat:
  assumes "sc \<le> 16" "ec \<le> 16"
  shows "assoc_total_len cp bss sc ec = Some (word_of_nat (28 + ies_len (unat (cp_ssid_len cp)) sc ec (bss_has_wmm bss)))"
proof -
  have s: "unat (cp_ssid_len cp) \<le> 255" by (rule u8_bound)
  have u: "(ucast (cp_ssid_len cp) :: u64) = word_of_nat (unat (cp_ssid_len cp))" by simp
  have a: "size_add_ie 28 (ucast (cp_ssid_len cp)) = Some (word_of_nat (28 + (2 + unat (cp_ssid_len cp))))"
    using size_add_ie_nat [of 28 "unat (cp_ssid_len cp)"] s unfolding u by simp
  have w: "size_add (word_of_nat m) 9 = Some (word_of_nat (m + 9))" if "m \<le> 100000" for m
    using that by (simp add: size_add_def SIZE_MAX_def word_less_nat_alt unat_of_nat take_bit_nat_eq_self)
  have b: "add_ie_if (c \<noteq> 0) c (Some (word_of_nat m)) = Some (word_of_nat (m + (if c \<noteq> 0 then 2 + c else 0)))"
    if "m \<le> 100000" "c \<le> 16" for c m
    using that size_add_ie_nat [of m c] by (simp add: add_ie_if_def add.assoc)
  define m1 m2 where "m1 = 28 + (2 + unat (cp_ssid_len cp)) + (if sc \<noteq> 0 then 2 + sc else 0)"
    and "m2 = m1 + (if ec \<noteq> 0 then 2 + ec else 0)"
  have 1: "add_ie_if (sc \<noteq> 0) sc (Some (word_of_nat (28 + (2 + unat (cp_ssid_len cp))))) = Some (word_of_nat m1)"
    unfolding m1_def by (rule b) (use s assms in simp_all)
  have 2: "add_ie_if (ec \<noteq> 0) ec (Some (word_of_nat m1)) = Some (word_of_nat m2)"
    unfolding m2_def by (rule b) (use s assms in \<open>simp_all add: m1_def\<close>)
  have "m2 \<le> 100000" using s assms by (simp add: m1_def m2_def)
  then have 3: "(if bss_has_wmm bss then size_add (word_of_nat m2) 9 else Some (word_of_nat m2)) =
      Some (word_of_nat (m2 + (if bss_has_wmm bss then 9 else 0)))" using w by simp
  have 4: "28 + ies_len (unat (cp_ssid_len cp)) sc ec (bss_has_wmm bss) = m2 + (if bss_has_wmm bss then 9 else 0)"
    by (simp add: ies_len_def m1_def m2_def)
  show ?thesis unfolding assoc_total_len_def a 1 2 option.case 3 4 by (rule refl)
qed

lemma writing_ie_if:
  assumes "writing skb r pre tot s0 ps wr" and "c \<Longrightarrow> length wr + 2 + n \<le> tot" and "ies = sb_data skb + length pre"
    and "n \<le> length body"
  shows "writing skb r pre tot s0 (if c then put_ie ies eid n body ps else ps)
    (wr @ concat (map ie_bytes (if c then [(eid, take n body)] else [])))"
  using writing_ie [OF assms(1) _ assms(3,4)] assms(1,2) by simp

text \<open>The body of the request, as the code writes it behind the fixed part \<open>pre\<close>.\<close>

lemma assoc_body_written:
  assumes "filled skb s 0 (pre @ raw)" and "length raw = ies_len sl (rate_count 8 supp) (rate_count 16 ext) wmm"
    and "sl = unat (cp_ssid_len cp)" "sl \<le> length (cp_ssid cp)" and "ies = sb_data skb + length pre"
  defines "p1 \<equiv> put_ie ies 0 sl (cp_ssid cp) (0, s)"
  defines "p2 \<equiv> if rate_count 8 supp \<noteq> 0 then put_ie ies 1 (rate_count 8 supp) supp p1 else p1"
  defines "p3 \<equiv> if rate_count 16 ext \<noteq> 0 then put_ie ies 50 (rate_count 16 ext) ext p2 else p2"
  shows "\<exists>t. (if wmm then (fst p3 + 9, poke (ies + fst p3) WMM_INFO_IE (snd p3)) else p3) = (length raw, t) \<and>
    filled skb t 0 (pre @ concat (map ie_bytes (assoc_ies cp supp ext wmm))) \<and> kst.more t = kst.more s"
proof -
  let ?T = "length raw" and ?sc = "rate_count 8 supp" and ?ec = "rate_count 16 ext"
  let ?i1 = "if ?sc \<noteq> 0 then [(1, take ?sc supp)] else [] :: (u8 \<times> u8 list) list"
  let ?i2 = "if ?ec \<noteq> 0 then [(50, take ?ec ext)] else [] :: (u8 \<times> u8 list) list"
  have len1: "length (ie_bytes (0, take sl (cp_ssid cp))) = 2 + sl" using assms(4) by (simp add: ie_bytes_def)
  have len2: "length (concat (map ie_bytes ?i1)) = (if ?sc \<noteq> 0 then 2 + ?sc else 0)"
    using rate_count_le [of 8 supp] by (simp add: ie_bytes_def min.absorb2)
  have len3: "length (concat (map ie_bytes ?i2)) = (if ?ec \<noteq> 0 then 2 + ?ec else 0)"
    using rate_count_le [of 16 ext] by (simp add: ie_bytes_def min.absorb2)
  have w0: "writing skb 0 pre ?T s (0, s) []" by (rule writing_start [OF assms(1)])
  have w1: "writing skb 0 pre ?T s p1 ([] @ ie_bytes (0, take sl (cp_ssid cp)))"
    unfolding p1_def by (rule writing_ie [OF w0 _ assms(5,4)]) (simp add: assms(2) ies_len_def)
  have w2: "writing skb 0 pre ?T s p2 (([] @ ie_bytes (0, take sl (cp_ssid cp))) @ concat (map ie_bytes ?i1))"
    unfolding p2_def by (rule writing_ie_if [OF w1 _ assms(5) rate_count_le])
      (simp only: append_Nil len1 assms(2) ies_len_def, simp)
  have w3: "writing skb 0 pre ?T s p3 ((([] @ ie_bytes (0, take sl (cp_ssid cp))) @ concat (map ie_bytes ?i1)) @ concat (map ie_bytes ?i2))"
    unfolding p3_def by (rule writing_ie_if [OF w2 _ assms(5) rate_count_le])
      (simp only: append_Nil length_append len1 len2 assms(2) ies_len_def, simp)
  obtain q t3 where p3: "p3 = (q, t3)" by (cases p3)
  let ?b = "(([] @ ie_bytes (0, take sl (cp_ssid cp))) @ concat (map ie_bytes ?i1)) @ concat (map ie_bytes ?i2)"
  have blen: "length ?b + (if wmm then 9 else 0) = ?T"
    by (simp only: append_Nil length_append len1 len2 len3 assms(2) ies_len_def)
  have wmm: "WMM_INFO_IE = ie_bytes (221, [0x00, 0x50, 0xf2, 0x02, 0x00, 0x01, 0x00])" "length WMM_INFO_IE = 9"
    by (simp_all add: WMM_INFO_IE_def ie_bytes_def)
  have es: "concat (map ie_bytes (assoc_ies cp supp ext wmm)) = ?b @ (if wmm then WMM_INFO_IE else [])"
    by (simp add: assoc_ies_def assms(3) wmm(1))
  show ?thesis
  proof (cases wmm)
    case True
    have "writing skb 0 pre ?T s (q + 9, poke (ies + q) WMM_INFO_IE t3) (?b @ WMM_INFO_IE)"
      by (rule writing_poke [OF w3 [unfolded p3] _ assms(5)]) (use blen True wmm(2) in simp_all)
    from writing_end [OF this] show ?thesis using blen True wmm(2) es p3 by simp
  next
    case False
    from writing_end [OF w3 [unfolded p3]] show ?thesis using blen False es p3 by simp
  qed
qed

lemma send_assoc_runs:
  assumes g: "m_rt s = Some rt" "cp_has_bssid (rt_connect_params rt)" "rt_vif rt = Some vif" "cur_sband (m_hw s) = Some sband"
    and l: "length (cp_bssid (rt_connect_params rt)) = 6" "length (vif_addr vif) = 6"
      "unat (cp_ssid_len (rt_connect_params rt)) \<le> length (cp_ssid (rt_connect_params rt))"
    and rates: "build_supported_rates (m_hw s) bss = (supp, ext)"
    and alloc: "alloc_tx_skb (word_of_nat (28 + ies_len (unat (cp_ssid_len (rt_connect_params rt)))
        (rate_count 8 supp) (rate_count 16 ext) (bss_has_wmm bss))) s = (Some skb0, s0)" "sb_head skb0 \<noteq> 0"
  shows "\<exists>skb t. send_assoc_req bss s = send_mgmt skb t \<and> kst.more t = kst.more (next_seq s) \<and>
    filled skb t 0 (assoc_frame (rt_connect_params rt) (vif_addr vif) (seq_of rt) (assoc_capability rt)
      (assoc_ies (rt_connect_params rt) supp ext (bss_has_wmm bss)))"
proof -
  let ?cp = "rt_connect_params rt" and ?b = "cp_bssid (rt_connect_params rt)"
  let ?L = "ies_len (unat (cp_ssid_len ?cp)) (rate_count 8 supp) (rate_count 16 ext) (bss_has_wmm bss)"
  let ?N = "word_of_nat (28 + ?L) :: u64"
  let ?H = "header24 0x0000 ?b (vif_addr vif) ?b (seq_of rt)" and ?cap = "le16_bytes (assoc_capability rt)"
  have cnt: "rate_count 8 supp \<le> 16" "rate_count 16 ext \<le> 16"
    using rate_count_le [of 8 supp] rate_count_le [of 16 ext] build_supported_rates_bounds [of "m_hw s" bss]
    unfolding rates by simp_all
  have L: "2 \<le> ?L" "?L \<le> 1000" using cnt u8_bound [of "cp_ssid_len ?cp"] by (simp_all add: ies_len_def)
  have N: "unat ?N = 28 + ?L" "\<not> ?N > 4294967295" "unat (ucast (?N - 28) :: u32) = ?L" "unat (?N - 28) = ?L"
  proof -
    show n: "unat ?N = 28 + ?L" using L by (simp only: unat_of_nat) simp
    then show "\<not> ?N > 4294967295" using L by (simp add: word_less_nat_alt)
    show m: "unat (?N - 28) = ?L" using L by (simp add: unat_of_nat take_bit_nat_eq_self)
    then show "unat (ucast (?N - 28) :: u32) = ?L" using L by (simp add: unsigned_ucast_eq take_bit_nat_eq_self)
  qed
  have tot: "assoc_total_len ?cp bss (rate_count 8 supp) (rate_count 16 ext) = Some ?N"
    by (rule assoc_total_len_nat [OF cnt])
  have more0: "kst.more s0 = kst.more s" using alloc_tx_more [of ?N s] alloc(1) by simp
  have rt0: "m_rt s0 = Some rt" using m_rt_of_more [OF more0] g(1) by simp
  have f0: "filled skb0 s0 (28 + ?L) []" using filled_empty [OF alloc_tx_fresh [OF alloc]] N(1) by simp
  obtain skb1 s1 s2 where h: "skb_put_zero skb0 28 s0 = (sb_data skb0, skb1, s1)" "sb_data skb0 \<noteq> 0" "sb_data skb1 = sb_data skb0"
    "m_rt s1 = Some rt" "s2 = poke (sb_data skb0 + 22) (le16_bytes (seq_of rt)) (next_seq (poke (sb_data skb0 + 16) ?b
      (poke (sb_data skb0 + 10) (vif_addr vif) (poke (sb_data skb0 + 4) ?b (poke (sb_data skb0) (le16_bytes 0x0000) s1)))))"
    "filled skb1 s2 ?L (?H @ replicate 4 0)" "kst.more s2 = kst.more (next_seq s0)"
    by (rule header_written [OF f0 _ _ rt0 l(1,2,1), of 28 4]) auto
  have l24: "length ?H = 24" by (rule length_header24) (use l in simp_all)
  define s4 where "s4 = poke (sb_data skb1 + 24 + 2) (le16_bytes 10) (poke (sb_data skb1 + 24 + 0) ?cap s2)"
  have w: "writing skb1 ?L ?H 4 s2 (0, s2) []" using writing_start [OF h(6)] by simp
  have w1: "writing skb1 ?L ?H 4 s2 (2, poke (sb_data skb1 + 24 + 0) ?cap s2) ([] @ ?cap)"
    by (rule writing_poke [OF w]) (simp_all add: l24)
  have w2: "writing skb1 ?L ?H 4 s2 (4, s4) (([] @ ?cap) @ le16_bytes 10)"
    unfolding s4_def by (rule writing_poke [OF w1]) (simp_all add: l24)
  have f4: "filled skb1 s4 ?L (?H @ ?cap @ le16_bytes 10)" "kst.more s4 = kst.more s2"
    using writing_end [OF w2] by simp_all
  obtain skb2 where p: "skb_put skb1 (ucast (?N - 28)) = (sb_data skb1 + length (?H @ ?cap @ le16_bytes 10), skb2)"
    "sb_data skb2 = sb_data skb1"
    "filled skb2 s4 0 ((?H @ ?cap @ le16_bytes 10) @ load_bytes (k_mem s4) (sb_data skb1 + length (?H @ ?cap @ le16_bytes 10)) ?L)"
    using filled_put_raw [OF f4(1), of "ucast (?N - 28)"] N(3) by auto
  have l28: "length (?H @ ?cap @ le16_bytes 10) = 28" by (simp add: l24)
  let ?ies = "sb_data skb0 + 28"
  define p1 where "p1 = put_ie ?ies 0 (unat (cp_ssid_len ?cp)) (cp_ssid ?cp) (0, s4)"
  define p2 where "p2 = (if rate_count 8 supp \<noteq> 0 then put_ie ?ies 1 (rate_count 8 supp) supp p1 else p1)"
  define p3 where "p3 = (if rate_count 16 ext \<noteq> 0 then put_ie ?ies 50 (rate_count 16 ext) ext p2 else p2)"
  obtain t where t: "(if bss_has_wmm bss then (fst p3 + 9, poke (?ies + fst p3) WMM_INFO_IE (snd p3)) else p3) = (?L, t)"
    "filled skb2 t 0 ((?H @ ?cap @ le16_bytes 10) @ concat (map ie_bytes (assoc_ies ?cp supp ext (bss_has_wmm bss))))"
    "kst.more t = kst.more s4"
    using assoc_body_written [OF p(3) _ refl l(3), of supp ext "bss_has_wmm bss" ?ies] l28 p(2) h(3)
    unfolding p1_def p2_def p3_def by auto
  have cap: "assoc_capability (rt\<lparr>rt_tx_seq := x\<rparr>) = assoc_capability rt" for x by (simp add: assoc_capability_def)
  have put: "skb_put skb1 (ucast (?N - 28)) = (?ies, skb2)" using p(1) h(3) l28 by simp
  have s4: "poke (sb_data skb0 + 26) (le16_bytes 10) (poke (sb_data skb0 + 24) (le16_bytes (assoc_capability rt)) s2) = s4"
    by (simp add: s4_def h(3) ac_simps)
  have rt2: "m_rt s2 = Some (rt\<lparr>rt_tx_seq := rt_tx_seq rt + 1\<rparr>)"
    using h(4) by (simp add: h(5) next_seq_def upd_rt_def poke_def)
  have tt: "(case p3 of (pos, s) \<Rightarrow> case if bss_has_wmm bss then (pos + 9, poke (?ies + pos) WMM_INFO_IE s) else (pos, s) of
      (pos, s) \<Rightarrow> F pos s) = F ?L t" for F :: "nat \<Rightarrow> mst \<Rightarrow> int \<times> mst"
    using t(1) by (cases p3) auto
  have guard: "\<not> (m_rt s = None \<or> \<not> cp_has_bssid ?cp)" "the (m_rt s) = rt" "\<not> ?L \<noteq> unat (?N - 28)" "?ies \<noteq> 0"
    using g N(4) by simp_all
  have seq: "next_seq_ctrl (poke (sb_data skb0 + 16) ?b (poke (sb_data skb0 + 10) (vif_addr vif) (poke (sb_data skb0 + 4) ?b
      (poke (sb_data skb0) (le16_bytes 0x0000) s1)))) = (seq_of rt, next_seq (poke (sb_data skb0 + 16) ?b
      (poke (sb_data skb0 + 10) (vif_addr vif) (poke (sb_data skb0 + 4) ?b (poke (sb_data skb0) (le16_bytes 0x0000) s1)))))"
    by (rule next_seq_ctrl_of) (simp add: h(4))
  have mrt: "m_rt (poke (sb_data skb0 + 4) ?b (poke (sb_data skb0) (le16_bytes 0x0000) s1)) = Some rt" using h(4) by simp
  have "send_assoc_req bss s = send_mgmt skb2 t"
    unfolding send_assoc_req_def guard(2) if_not_P [OF guard(1)] g(4) option.case rates Let_def prod.case tot if_not_P [OF N(2)]
      alloc(1) h(1) if_not_P [OF h(2)] mrt option.sel g(3) seq h(5) [symmetric] rt2 cap s4 put if_not_P [OF guard(4)]
      p1_def [symmetric] p2_def [symmetric] p3_def [symmetric] tt if_not_P [OF guard(3)] by (rule refl)
  moreover have "kst.more t = kst.more (next_seq s)" using t(3) f4(2) h(7) next_seq_more [OF more0] by simp
  ultimately show ?thesis using t(2) by (auto simp: assoc_frame_def)
qed

lemma send_assoc_no_memory:
  assumes g: "m_rt s = Some rt" "cp_has_bssid (rt_connect_params rt)" "cur_sband (m_hw s) = Some sband"
    and rates: "build_supported_rates (m_hw s) bss = (supp, ext)"
    and alloc: "alloc_tx_skb (word_of_nat (28 + ies_len (unat (cp_ssid_len (rt_connect_params rt)))
        (rate_count 8 supp) (rate_count 16 ext) (bss_has_wmm bss))) s = (b, s0)"
      "case b of None \<Rightarrow> True | Some skb0 \<Rightarrow> sb_head skb0 = 0"
  shows "\<exists>t. send_assoc_req bss s = (- ENOMEM, t) \<and> kst.more t = kst.more s"
proof -
  let ?cp = "rt_connect_params rt"
  let ?L = "ies_len (unat (cp_ssid_len ?cp)) (rate_count 8 supp) (rate_count 16 ext) (bss_has_wmm bss)"
  let ?N = "word_of_nat (28 + ?L) :: u64"
  have cnt: "rate_count 8 supp \<le> 16" "rate_count 16 ext \<le> 16"
    using rate_count_le [of 8 supp] rate_count_le [of 16 ext] build_supported_rates_bounds [of "m_hw s" bss]
    unfolding rates by simp_all
  have "?L \<le> 1000" using cnt u8_bound [of "cp_ssid_len ?cp"] by (simp add: ies_len_def)
  then have "unat ?N = 28 + ?L" by (simp only: unat_of_nat) simp
  then have N: "\<not> ?N > 4294967295" using \<open>?L \<le> 1000\<close> by (simp add: word_less_nat_alt)
  have guard: "\<not> (m_rt s = None \<or> \<not> cp_has_bssid ?cp)" "the (m_rt s) = rt" using g by simp_all
  have more0: "kst.more s0 = kst.more s" using alloc_tx_more [of ?N s] alloc(1) by simp
  have "\<exists>t. send_assoc_req bss s = (- ENOMEM, t) \<and> kst.more t = kst.more s0"
    unfolding send_assoc_req_def guard(2) if_not_P [OF guard(1)] g(3) option.case rates Let_def prod.case
      assoc_total_len_nat [OF cnt] if_not_P [OF N] alloc(1)
    using alloc(2) kfree_skb_more by (cases b) (auto simp: put_zero_no_block)
  then show ?thesis using more0 by simp
qed

lemma m_log_of_more: "kst.more s = kst.more t \<Longrightarrow> m_log s = m_log t \<and> m_hw s = m_hw t" for s t :: mst
  using mst_more by blast

lemma next_seq_keeps: "m_log (next_seq s) = m_log s" "m_hw (next_seq s) = m_hw s"
    "m_rt s = Some rt \<Longrightarrow> m_rt (next_seq s) = Some (rt\<lparr>rt_tx_seq := rt_tx_seq rt + 1\<rparr>)"
  by (simp_all add: next_seq_def upd_rt_def)

lemma sent_by:
  assumes "kst.more t = kst.more (next_seq s)" and "filled skb t r bs" and "m_rt s = Some rt"
    and "send_mgmt skb t = (ret, s')"
  shows "if has_op o_tx s then ret = 0 \<and> sent s' bs else ret = - EINVAL \<and> m_log s' = m_log s"
proof -
  have k: "m_log t = m_log s" "m_hw t = m_hw s" "m_rt t = Some (rt\<lparr>rt_tx_seq := rt_tx_seq rt + 1\<rparr>)"
    using m_log_of_more [OF assms(1)] m_rt_of_more [OF assms(1)] next_seq_keeps(1,2) [of s] next_seq_keeps(3) [OF assms(3)] by simp_all
  have "has_op o_tx t = has_op o_tx s" by (simp add: has_op_def k(2))
  then show ?thesis
    using send_mgmt_sends [OF assms(2) k(3)] assms(4) k(1) by (auto simp: sent_def emit_def)
qed

text \<open>
  C8. The association request: without a target or a band it is refused and nothing happens; otherwise
  memory is short, or the driver cannot transmit, or the driver gets exactly the frame for the target,
  with the elements the code intends, each with its length byte, and of exactly the length computed
  before any of them is written, for every SSID and every set of rates and announcements of the
  access point.  The length checks of the code (overflow, and the final comparison) never fire.
\<close>

theorem assoc_request_sent:
  assumes "m_rt s = Some rt" "rt_vif rt = Some vif"
    and "length (cp_bssid (rt_connect_params rt)) = 6" "length (vif_addr vif) = 6"
    and "unat (cp_ssid_len (rt_connect_params rt)) \<le> length (cp_ssid (rt_connect_params rt))"
  shows "case send_assoc_req bss s of (ret, s') \<Rightarrow>
    if \<not> cp_has_bssid (rt_connect_params rt) \<or> cur_sband (m_hw s) = None then ret = - EINVAL \<and> s' = s
    else if ret = 0 then has_op o_tx s \<and>
      sent s' (assoc_frame (rt_connect_params rt) (vif_addr vif) (seq_of rt) (assoc_capability rt)
        (assoc_ies (rt_connect_params rt) (fst (build_supported_rates (m_hw s) bss)) (snd (build_supported_rates (m_hw s) bss))
          (bss_has_wmm bss)))
    else m_log s' = m_log s \<and> (ret = - ENOMEM \<or> ret = - EINVAL \<and> \<not> has_op o_tx s)"
proof (cases "\<not> cp_has_bssid (rt_connect_params rt) \<or> cur_sband (m_hw s) = None")
  case True
  then show ?thesis using assms(1) by (auto simp: send_assoc_req_def split: option.splits)
next
  case False
  then obtain sband where g: "cp_has_bssid (rt_connect_params rt)" "cur_sband (m_hw s) = Some sband" by auto
  obtain supp ext where rates: "build_supported_rates (m_hw s) bss = (supp, ext)" by (cases "build_supported_rates (m_hw s) bss")
  let ?N = "word_of_nat (28 + ies_len (unat (cp_ssid_len (rt_connect_params rt)))
        (rate_count 8 supp) (rate_count 16 ext) (bss_has_wmm bss)) :: u64"
  obtain b s0 where alloc: "alloc_tx_skb ?N s = (b, s0)" by (cases "alloc_tx_skb ?N s")
  obtain ret s' where run: "send_assoc_req bss s = (ret, s')" by (cases "send_assoc_req bss s")
  show ?thesis
  proof (cases "case b of None \<Rightarrow> True | Some skb0 \<Rightarrow> sb_head skb0 = 0")
    case True
    then obtain t where "send_assoc_req bss s = (- ENOMEM, t)" "kst.more t = kst.more s"
      using send_assoc_no_memory [OF assms(1) g rates alloc] by auto
    then show ?thesis using False m_log_of_more [of t s] by (simp add: errno_defs)
  next
    case ok: False
    then obtain skb0 where b: "b = Some skb0" "sb_head skb0 \<noteq> 0" by (cases b) auto
    obtain skb t where t: "send_assoc_req bss s = send_mgmt skb t" "kst.more t = kst.more (next_seq s)"
      "filled skb t 0 (assoc_frame (rt_connect_params rt) (vif_addr vif) (seq_of rt) (assoc_capability rt)
        (assoc_ies (rt_connect_params rt) supp ext (bss_has_wmm bss)))"
      using send_assoc_runs [OF assms(1) g(1) assms(2) g(2) assms(3-5) rates alloc [unfolded b(1)] b(2)] by blast
    show ?thesis
      using sent_by [OF t(2,3) assms(1) run [unfolded t(1)]] False run by (auto simp: rates errno_defs split: if_splits)
  qed
qed

text \<open>The connected device of the frame theory, with a target of SSID "AB" and a channel.\<close>

definition demo_target :: connect_params where
  "demo_target = (zero_params_conn 32)\<lparr>cp_ssid := [65, 66] @ replicate 30 0, cp_ssid_len := 2,
     cp_bssid := [2, 0, 0, 0, 0, 1], cp_has_bssid := True\<rparr>"

definition demo_assoc_rt :: runtime where "demo_assoc_rt = demo_rt\<lparr>rt_connect_params := demo_target\<rparr>"

definition demo_assoc :: mst where
  "demo_assoc = demo_st\<lparr>m_hw := demo_hw\<lparr>hw_chandef := \<lparr>cd_chan = Some (BAND_2GHZ, 0), cd_width = 1,
     cd_center_freq1 = 2412, cd_center_freq2 = 0\<rparr>\<rparr>, m_rt := Some demo_assoc_rt\<rparr>"

lemma demo_no_ies: "bss_ie demo_result 1 = None" "bss_ie demo_result 50 = None" "bss_has_wmm demo_result = False"
  unfolding bss_ie_def bss_has_wmm_def demo_result_def zero_result_def by code_simp+

lemma demo_assoc_rates: "build_supported_rates (m_hw demo_assoc) demo_result = ([2], [])" "bss_has_wmm demo_result = False"
    "cur_sband (m_hw demo_assoc) \<noteq> None" "has_op o_tx demo_assoc"
  by (simp_all add: build_supported_rates_def demo_no_ies cur_sband_def chan_at_def demo_assoc_def demo_defs has_op_def
      match_rate_def rate_byte_def c_div_def)

lemma demo_assoc_facts: "m_rt demo_assoc = Some demo_assoc_rt" "rt_vif demo_assoc_rt = Some demo_vif"
    "length (cp_bssid (rt_connect_params demo_assoc_rt)) = 6" "length (vif_addr demo_vif) = 6"
    "unat (cp_ssid_len (rt_connect_params demo_assoc_rt)) \<le> length (cp_ssid (rt_connect_params demo_assoc_rt))"
    "cp_has_bssid (rt_connect_params demo_assoc_rt)"
  using demo_link_facts(2,4) by (simp_all add: demo_assoc_def demo_assoc_rt_def demo_target_def demo_rt_def)

lemma demo_assoc_runs: "fst (send_assoc_req demo_result demo_assoc) = 0"
proof -
  let ?N = "word_of_nat (28 + ies_len (unat (cp_ssid_len (rt_connect_params demo_assoc_rt)))
        (rate_count 8 [2]) (rate_count 16 []) (bss_has_wmm demo_result)) :: u64"
  have N: "?N = 35" by (simp add: demo_assoc_rt_def demo_target_def rate_count_def ies_len_def demo_assoc_rates(2))
  obtain b t where a: "alloc_tx_skb ?N demo_assoc = (Some b, t)" "sb_head b \<noteq> 0"
    unfolding N by (simp add: alloc_tx_skb_def demo_assoc_def demo_defs size_add_def SIZE_MAX_def alloc_skb_def kzalloc_obj_def
      dev_alloc_pages_def get_order_def PAGE_SIZE_def lcompat_page_alloc_def sizeof_page_def alloc_frames_bytes_def
      page_address_def page_at_def Let_def)
  obtain sband where sb: "cur_sband (m_hw demo_assoc) = Some sband" using demo_assoc_rates(3) by auto
  obtain skb u bs where r: "send_assoc_req demo_result demo_assoc = send_mgmt skb u" "kst.more u = kst.more (next_seq demo_assoc)"
    "filled skb u 0 bs"
    using send_assoc_runs [OF demo_assoc_facts(1,6,2) sb demo_assoc_facts(3-5) demo_assoc_rates(1) a] by blast
  show ?thesis
    using sent_by [OF r(2,3) demo_assoc_facts(1) prod.collapse [symmetric]] demo_assoc_rates(4) by (simp add: r(1))
qed

theorem assoc_request_sent_witness:
  "sent (snd (send_assoc_req demo_result demo_assoc))
     [0, 0, 0, 0, 2, 0, 0, 0, 0, 1, 2, 0, 0, 0, 0, 9, 2, 0, 0, 0, 0, 1, 0x50, 0, 1, 0, 10, 0, 0, 2, 65, 66, 1, 1, 2]"
proof -
  have "assoc_frame (rt_connect_params demo_assoc_rt) (vif_addr demo_vif) (seq_of demo_assoc_rt) (assoc_capability demo_assoc_rt)
      (assoc_ies (rt_connect_params demo_assoc_rt) [2] [] False) =
      [0, 0, 0, 0, 2, 0, 0, 0, 0, 1, 2, 0, 0, 0, 0, 9, 2, 0, 0, 0, 0, 1, 0x50, 0, 1, 0, 10, 0, 0, 2, 65, 66, 1, 1, 2]"
    by code_simp
  then show ?thesis
    using assoc_request_sent [OF demo_assoc_facts(1-5), of demo_result] demo_assoc_runs demo_assoc_facts(6) demo_assoc_rates
    by (simp add: split_beta)
qed

section \<open>Both requests\<close>

text \<open>The authentication request in the same terms, and what the station sends on the way to a connection.\<close>

lemma auth_request_sent:
  assumes "m_rt s = Some rt" "rt_vif rt = Some vif"
    and "length (cp_bssid (rt_connect_params rt)) = 6" "length (vif_addr vif) = 6"
  shows "case send_auth s of (ret, s') \<Rightarrow>
    if \<not> cp_has_bssid (rt_connect_params rt) then ret = - EINVAL \<and> s' = s
    else if ret = 0 then has_op o_tx s \<and>
      sent s' (auth_frame (cp_bssid (rt_connect_params rt)) (vif_addr vif) (seq_of rt))
    else m_log s' = m_log s \<and> (ret = - ENOMEM \<or> ret = - EINVAL \<and> \<not> has_op o_tx s)"
proof (cases "cp_has_bssid (rt_connect_params rt)")
  case False
  then show ?thesis using assms(1) by (simp add: send_auth_def)
next
  case True
  obtain b s0 where alloc: "alloc_tx_skb 30 s = (b, s0)" by (cases "alloc_tx_skb 30 s")
  obtain ret s' where run: "send_auth s = (ret, s')" by (cases "send_auth s")
  show ?thesis
  proof (cases "case b of None \<Rightarrow> True | Some skb0 \<Rightarrow> sb_head skb0 = 0")
    case fail: True
    have "kst.more s0 = kst.more s" using alloc_tx_more [of 30 s] alloc by simp
    then have "\<exists>t. send_auth s = (- ENOMEM, t) \<and> m_log t = m_log s"
      using assms(1) True alloc fail m_log_of_more [of s0 s] m_log_of_more [OF kfree_skb_more, of _ s0]
      by (auto simp: send_auth_def put_zero_no_block split: option.splits)
    then show ?thesis using True by (auto simp: errno_defs)
  next
    case ok: False
    then obtain skb0 where b: "b = Some skb0" "sb_head skb0 \<noteq> 0" by (cases b) auto
    obtain skb t where t: "send_auth s = send_mgmt skb t" "kst.more t = kst.more (next_seq s)"
      "filled skb t 0 (auth_frame (cp_bssid (rt_connect_params rt)) (vif_addr vif) (seq_of rt))"
      using send_auth_runs [OF assms(1) True assms(2-4) alloc [unfolded b(1)] b(2)] by blast
    show ?thesis
      using sent_by [OF t(2,3) assms(1) run [unfolded t(1)]] True run by (auto simp: errno_defs split: if_splits)
  qed
qed

end
