(* ===== verification/LC_Time.thy ===== *)
theory LC_Time
  imports LC_Prelude
begin

text \<open>
  Time: \<^verbatim>\<open>linux/jiffies.h\<close>, \<^verbatim>\<open>linux/completion.h\<close>, \<^verbatim>\<open>linux/hrtimer.h\<close> and the timers of
  \<^verbatim>\<open>linux/timer.h\<close>.  \<^verbatim>\<open>HZ\<close> is the host's \<^verbatim>\<open>SCHED_HZ\<close>, a parameter \<open>hz\<close>.  A waiting loop reads
  the host's clock; \<open>clk n\<close> is what read number \<open>n\<close> returns.
\<close>

section \<open>Jiffies\<close>

definition div_round_up :: "u64 \<Rightarrow> u64 \<Rightarrow> u64" where
  "div_round_up n d = (n + d - 1) div d"

definition jiffies_now :: "u64 \<Rightarrow> u64 \<Rightarrow> u64" where
  "jiffies_now hz nano = nano div (1000000000 div hz)"

definition msecs_to_jiffies :: "u64 \<Rightarrow> u32 \<Rightarrow> u64" where
  "msecs_to_jiffies hz m = (if m = 0 then 0 else div_round_up (ucast m * hz) 1000)"

definition usecs_to_jiffies :: "u64 \<Rightarrow> u32 \<Rightarrow> u64" where
  "usecs_to_jiffies hz u = (if u = 0 then 0 else div_round_up (ucast u * hz) 1000000)"

definition nsecs_to_jiffies :: "u64 \<Rightarrow> u64 \<Rightarrow> u64" where
  "nsecs_to_jiffies hz n = (if n = 0 then 0 else div_round_up (n * hz) 1000000000)"

definition jiffies_to_msecs :: "u64 \<Rightarrow> u64 \<Rightarrow> u32" where
  "jiffies_to_msecs hz j = ucast ((j * 1000) div hz)"

definition jiffies_to_usecs :: "u64 \<Rightarrow> u64 \<Rightarrow> u32" where
  "jiffies_to_usecs hz j = ucast ((j * 1000000) div hz)"

definition time_after :: "u64 \<Rightarrow> u64 \<Rightarrow> bool" where
  "time_after a b = (sint (b - a) < 0)"

definition time_before :: "u64 \<Rightarrow> u64 \<Rightarrow> bool" where
  "time_before a b = time_after b a"

definition time_after_eq :: "u64 \<Rightarrow> u64 \<Rightarrow> bool" where
  "time_after_eq a b = (sint (a - b) \<ge> 0)"

definition time_before_eq :: "u64 \<Rightarrow> u64 \<Rightarrow> bool" where
  "time_before_eq a b = time_after_eq b a"

definition MAX_SCHEDULE_TIMEOUT :: int where "MAX_SCHEDULE_TIMEOUT = 2 ^ 63 - 1"

text \<open>
  Yield until the deadline; the number of clock reads made.  \<open>schedule_timeout\<close> returns its value with the
  number of clock reads; None is a wait that never ends.
\<close>

partial_function (option) wait_until :: "(nat \<Rightarrow> u64) \<Rightarrow> nat \<Rightarrow> u64 \<Rightarrow> nat option" where
  "wait_until clk n deadline =
     (if time_before (clk n) deadline then wait_until clk (n + 1) deadline else Some (n + 1))"

definition schedule_timeout :: "(nat \<Rightarrow> u64) \<Rightarrow> int \<Rightarrow> (int \<times> nat) option" where
  "schedule_timeout clk timeout =
     (if timeout \<le> 0 then Some (0, 0)
      else if timeout = MAX_SCHEDULE_TIMEOUT then Some (MAX_SCHEDULE_TIMEOUT, 0)
      else map_option (\<lambda>n. (0, n)) (wait_until clk 1 (clk 0 + word_of_int timeout)))"

section \<open>Completions\<close>

record completion =
  co_done :: u32

definition init_completion :: "completion option \<Rightarrow> completion option" where
  "init_completion x = map_option (\<lambda>x. x\<lparr>co_done := 0\<rparr>) x"

definition complete :: "completion option \<Rightarrow> completion option" where
  "complete x = map_option (\<lambda>x. x\<lparr>co_done := 1\<rparr>) x"

text \<open>
  \<open>dn n\<close> is the counter at test number \<open>n\<close>, which other threads may set between two tests.  The
  loop ends with True when it saw the completion, with the numbers of tests and clock reads used.
\<close>

partial_function (option) completion_loop :: "(nat \<Rightarrow> u32) \<Rightarrow> (nat \<Rightarrow> u64) \<Rightarrow> nat \<Rightarrow> u64 \<Rightarrow> (bool \<times> nat) option" where
  "completion_loop dn clk n deadline =
     (if dn n \<noteq> 0 then Some (True, n)
      else if time_after_eq (clk n) deadline then Some (False, n)
      else completion_loop dn clk (n + 1) deadline)"

text \<open>Clock reads 0 and 1 are before the loop; the tests of the loop are numbered from 1.\<close>

definition wait_for_completion_timeout :: "bool \<Rightarrow> (nat \<Rightarrow> u32) \<Rightarrow> (nat \<Rightarrow> u64) \<Rightarrow> u64 \<Rightarrow> u64 option" where
  "wait_for_completion_timeout is_null dn clk timeout =
     (if is_null then Some 0
      else if dn 0 \<noteq> 0 then Some (if timeout \<noteq> 0 then timeout else 1)
      else if timeout = 0 then Some 0
      else let deadline = clk 0 + timeout
           in case completion_loop dn clk 1 deadline of
                None \<Rightarrow> None
              | Some (False, n) \<Rightarrow> Some 0
              | Some (True, n) \<Rightarrow>
                  Some (if time_after_eq (clk n) deadline then 1 else deadline - clk (n + 1)))"

section \<open>High-resolution timers\<close>

text \<open>\<open>hr_restart\<close> is what the callback returns when it is called; None is no callback.\<close>

record hrtimer =
  hr_function :: "bool option"
  hr_expires :: int

definition hrtimer_start :: "int \<Rightarrow> hrtimer option \<Rightarrow> int \<times> hrtimer option" where
  "hrtimer_start tim t =
     (case t of
        None \<Rightarrow> (0, None)
      | Some t \<Rightarrow>
          let t = t\<lparr>hr_expires := tim\<rparr>
          in (case hr_function t of None \<Rightarrow> 0 | Some again \<Rightarrow> of_bool again, Some t))"

definition hrtimer_cancel :: "hrtimer option \<Rightarrow> int \<times> hrtimer option" where
  "hrtimer_cancel t = (case t of None \<Rightarrow> (0, None) | Some t \<Rightarrow> (1, Some (t\<lparr>hr_expires := 0\<rparr>)))"

definition hrtimer_active :: "hrtimer option \<Rightarrow> bool" where
  "hrtimer_active t = (case t of None \<Rightarrow> False | Some t \<Rightarrow> hr_expires t \<noteq> 0)"

section \<open>Comparing times\<close>

text \<open>A sum of a time and a delay below half the range is after the time, across the wrap-around.\<close>

lemma sint_int64: "sint (word_of_int x :: u64) = (x + 2 ^ 63) mod 2 ^ 64 - 2 ^ 63"
  using int_word_sint [where 'a = 64, of x] by simp

lemma sint_small:
  assumes "unat (d :: u64) < 2 ^ 63"
  shows "sint d = int (unat d)"
proof -
  have "sint d = (uint d + 2 ^ 63) mod 2 ^ 64 - 2 ^ 63" using sint_int64 [of "uint d"] by simp
  moreover have "uint d < 2 ^ 63" using assms of_nat_less_iff [of "unat d" "2 ^ 63", where ?'a = int] by simp
  moreover have "0 \<le> uint d" by simp
  ultimately show ?thesis by simp
qed

lemma sint_neg_small:
  assumes "0 < unat (d :: u64)" and "unat d \<le> 2 ^ 63"
  shows "sint (- d) < 0"
proof -
  have "sint (- d) = (- uint d + 2 ^ 63) mod 2 ^ 64 - 2 ^ 63"
    using sint_int64 [of "- uint d"] by simp
  moreover have "uint d \<le> 2 ^ 63" using assms of_nat_le_iff [of "unat d" "2 ^ 63", where ?'a = int] by simp
  moreover have "0 < uint d" using assms of_nat_less_iff [of 0 "unat d", where ?'a = int] by simp
  ultimately show ?thesis by simp
qed

lemma deadline_pending: "0 < unat d \<Longrightarrow> unat d < 2 ^ 63 \<Longrightarrow> time_before now (now + d)"
  using sint_neg_small [of d] by (simp add: time_before_def time_after_def)

lemma deadline_reached: "unat e < 2 ^ 63 \<Longrightarrow> \<not> time_before (t + e) t"
  using sint_small [of e] by (simp add: time_before_def time_after_def)

lemma time_order: "time_after_eq a b \<longleftrightarrow> \<not> time_before a b" "time_before a b \<longleftrightarrow> time_after b a"
  by (auto simp: time_after_eq_def time_before_def time_after_def)

text \<open>A clock that moves on: below half the range away from its start within finitely many reads.\<close>

lemma wait_until_ends:
  "(\<And>i. i < k \<Longrightarrow> time_before (clk (n + i)) dl) \<Longrightarrow> \<not> time_before (clk (n + k)) dl \<Longrightarrow>
     wait_until clk n dl = Some (n + k + 1)"
proof (induction k arbitrary: n)
  case 0
  then show ?case by (subst wait_until.simps) simp
next
  case (Suc k)
  have "time_before (clk n) dl" using Suc.prems(1) [of 0] by simp
  moreover have "wait_until clk (n + 1) dl = Some (n + 1 + k + 1)"
    using Suc.prems(1) [of "Suc _"] Suc.prems(2) by (intro Suc.IH) simp_all
  ultimately show ?case by (subst wait_until.simps) simp
qed

lemma wait_until_sound: "wait_until clk n dl = Some j \<Longrightarrow> \<exists>m \<ge> n. \<not> time_before (clk m) dl"
proof (rule wait_until.raw_induct [where P = "\<lambda>clk n dl j. \<exists>m \<ge> n. \<not> time_before (clk m) dl"], goal_cases)
  case (1 w clk n dl j)
  show ?case
  proof (cases "time_before (clk n) dl")
    case True
    then have "\<exists>m \<ge> n + 1. \<not> time_before (clk m) dl" using 1 by simp
    then show ?thesis by (meson Suc_leD add_leD1)
  qed auto
qed

text \<open>Two counts of ticks less than half the range apart compare as their low 64 bits do.\<close>

lemma ticks_diff: "a \<le> b \<Longrightarrow> (word_of_nat b :: u64) = word_of_nat a + word_of_nat (b - a)"
  by (simp flip: of_nat_add)

lemma unat_ticks: "d < 2 ^ 63 \<Longrightarrow> unat (word_of_nat d :: u64) = d"
  by (simp add: unat_of_nat)

lemma ticks_pending: "t < d \<Longrightarrow> d - t < 2 ^ 63 \<Longrightarrow> time_before (word_of_nat t) (word_of_nat d)"
  by (subst ticks_diff [of t d], simp, rule deadline_pending) (simp_all only: unat_ticks zero_less_diff)

lemma ticks_reached: "d \<le> t \<Longrightarrow> t < d + 2 ^ 63 \<Longrightarrow> \<not> time_before (word_of_nat t) (word_of_nat d)"
  by (subst ticks_diff [of d t], assumption, rule deadline_reached) (simp only: unat_ticks less_diff_conv2 add.commute)

section \<open>Properties\<close>

text \<open>
  C38. The clock is the low 64 bits of an unbounded count \<open>T\<close> of ticks, which never goes back and moves by
  at most half the range between two reads.  \<^verbatim>\<open>schedule_timeout\<close> of a positive finite delay then returns 0 at
  exactly the first read at which at least that many ticks have passed since it was called, not earlier and
  not later, also when the 64-bit counter wraps in between; when no read is that late it never returns.
\<close>

theorem schedule_timeout_returns:
  assumes "0 < timeout" and "timeout < MAX_SCHEDULE_TIMEOUT"
    and "mono T" and "\<And>n. T (Suc n) \<le> T n + 2 ^ 63" and "dl = T 0 + nat timeout"
  shows "schedule_timeout (\<lambda>n. word_of_nat (T n)) timeout =
     (if \<exists>n. dl \<le> T n then Some (0, (LEAST n. dl \<le> T n) + 1) else None)"
proof -
  let ?clk = "\<lambda>n. word_of_nat (T n) :: u64"
  have dl: "?clk 0 + word_of_int timeout = word_of_nat dl" using assms(1,5) by (simp add: of_nat_nat)
  have small: "nat timeout < 2 ^ 63" using assms(1,2) by (simp add: MAX_SCHEDULE_TIMEOUT_def nat_less_iff)
  have pending: "time_before (?clk i) (word_of_nat dl)" if "T i < dl" for i
  proof (rule ticks_pending [OF that])
    have "T 0 \<le> T i" using assms(3) by (simp add: monoD)
    then show "dl - T i < 2 ^ 63" using small assms(5) by linarith
  qed
  show ?thesis
  proof (cases "\<exists>n. dl \<le> T n")
    case True
    define m where "m = (LEAST n. dl \<le> T n)"
    have m: "dl \<le> T m" using LeastI_ex [OF True] by (simp only: m_def)
    have before: "T i < dl" if "i < m" for i
      using not_less_Least [OF that [unfolded m_def]] by (simp only: not_le)
    have "0 < m" using m assms(1,5) by (cases m) auto
    then obtain k where k: "m = Suc k" by (cases m) auto
    have "T m < dl + 2 ^ 63" using before [of k] assms(4) [of k] k by simp
    then have over: "\<not> time_before (?clk (1 + k)) (word_of_nat dl)"
      using ticks_reached [OF m] k by simp
    have "wait_until ?clk 1 (word_of_nat dl) = Some (1 + k + 1)"
      by (rule wait_until_ends [where clk = ?clk], rule pending, simp add: before k, rule over)
    then have "schedule_timeout ?clk timeout = Some (0, m + 1)"
      using assms(1,2) k by (simp add: schedule_timeout_def dl)
    then show ?thesis using True by (simp add: m_def)
  next
    case False
    then have "wait_until ?clk 1 (word_of_nat dl) = None"
      using wait_until_sound [of ?clk 1 "word_of_nat dl"] pending
      by (cases "wait_until ?clk 1 (word_of_nat dl)") (auto simp: not_le)
    then show ?thesis using False assms(1,2) by (simp add: schedule_timeout_def dl)
  qed
qed

text \<open>A wait over the wrap-around of the counter: the read after the one of \<open>2 ^ 64 - 1\<close> gives 0.\<close>

theorem schedule_timeout_returns_witness:
  "schedule_timeout (\<lambda>n. word_of_nat (18446744073709551614 + n)) 5 = Some (0, 6)"
proof -
  have "(LEAST n. 18446744073709551619 \<le> 18446744073709551614 + n) = (5 :: nat)" by (rule Least_equality) simp_all
  moreover have "\<exists>n. 18446744073709551619 \<le> 18446744073709551614 + (n :: nat)" by (rule exI [of _ 5]) simp
  ultimately show ?thesis
    using schedule_timeout_returns [of 5 "\<lambda>n. 18446744073709551614 + n" 18446744073709551619]
    by (simp add: MAX_SCHEDULE_TIMEOUT_def mono_def)
qed

lemma round_up_1000: "(x + 999) div 1000 * 1000 \<ge> x" "(x + 999) div 1000 * 1000 \<le> x + 999" for x :: nat
  using div_mult_mod_eq [of "x + 999" 1000] mod_less_divisor [of 1000 "x + 999"] by linarith+

text \<open>
  C35. A delay in milliseconds converted to jiffies and back is never shorter than asked, and longer by
  at most the rounding to one jiffy: for a tick rate up to \<open>10 ^ 6\<close> and a delay away from the top of the
  32-bit range, where neither product wraps and the result fits its 32 bits.
\<close>

theorem msecs_jiffies_roundtrip:
  assumes "0 < unat hz" and "unat hz \<le> 1000000" and "unat m < 2 ^ 32 - 1000"
  shows "unat m \<le> unat (jiffies_to_msecs hz (msecs_to_jiffies hz m)) \<and>
     unat (jiffies_to_msecs hz (msecs_to_jiffies hz m)) \<le> unat m + 999 div unat hz"
proof (cases "m = 0")
  case True
  then show ?thesis by (simp add: msecs_to_jiffies_def jiffies_to_msecs_def)
next
  case False
  let ?x = "unat m * unat hz"
  let ?j = "(?x + 999) div 1000"
  have x: "?x < 2 ^ 32 * 1000000" using assms by (intro mult_less_le_imp_less) auto
  have um: "unat (ucast m :: u64) = unat m" using u32_bound [of m] by (simp add: unsigned_ucast_eq take_bit_nat_eq_self_iff)
  have ux: "unat (ucast m * hz :: u64) = ?x"
    using x um by (simp add: unat_word_ariths)
  have us: "unat (ucast m * hz + 1000 - 1 :: u64) = ?x + 999"
  proof -
    have "(ucast m * hz + 1000 - 1 :: u64) = ucast m * hz + 999" by simp
    moreover have "unat (ucast m * hz + 999 :: u64) = ?x + 999" using x ux by (simp add: unat_word_ariths)
    ultimately show ?thesis by metis
  qed
  have j: "unat (msecs_to_jiffies hz m) = ?j"
    using False us by (simp add: msecs_to_jiffies_def div_round_up_def unat_div)
  have b: "?j * 1000 \<ge> ?x" "?j * 1000 \<le> ?x + 999" using round_up_1000 [of ?x] by simp_all
  have uj: "unat (msecs_to_jiffies hz m * 1000) = ?j * 1000"
    using b(2) x j by (simp add: unat_word_ariths)
  have lo: "unat m \<le> ?j * 1000 div unat hz" using div_le_mono [OF b(1), of "unat hz"] assms(1) by simp
  have "(?x + 999) div unat hz = unat m + 999 div unat hz" using assms(1) by simp
  then have hi: "?j * 1000 div unat hz \<le> unat m + 999 div unat hz" using div_le_mono [OF b(2), of "unat hz"] by simp
  have "999 div unat hz \<le> 999" by (rule div_le_dividend)
  then have "?j * 1000 div unat hz < 2 ^ 32" using hi assms(3) by linarith
  then have "unat (jiffies_to_msecs hz (msecs_to_jiffies hz m)) = ?j * 1000 div unat hz"
    using uj by (simp add: jiffies_to_msecs_def unsigned_ucast_eq unat_div take_bit_nat_eq_self)
  then show ?thesis using lo hi by simp
qed

theorem msecs_jiffies_roundtrip_witness:
  "15 \<le> unat (jiffies_to_msecs 100 (msecs_to_jiffies 100 15)) \<and> unat (jiffies_to_msecs 100 (msecs_to_jiffies 100 15)) \<le> 24"
  using msecs_jiffies_roundtrip [of 100 15] by simp

lemma completion_loop_runs:
  "(\<And>i. i < k \<Longrightarrow> dn (n + i) = 0 \<and> \<not> time_after_eq (clk (n + i)) dl) \<Longrightarrow>
     completion_loop dn clk n dl = completion_loop dn clk (n + k) dl"
proof (induction k arbitrary: n)
  case (Suc k)
  have "completion_loop dn clk n dl = completion_loop dn clk (n + 1) dl"
    using Suc.prems [of 0] by (subst completion_loop.simps) simp
  also have "\<dots> = completion_loop dn clk (n + 1 + k) dl"
    using Suc.prems [of "Suc _"] by (intro Suc.IH) simp
  finally show ?case by simp
qed simp

text \<open>
  C39. What \<^verbatim>\<open>wait_for_completion_timeout\<close> returns, by the first test at which the wait is over: 0
  when the deadline is reached first; when the completion is seen, 1 if the deadline has passed by then
  and otherwise the difference to one more reading of the clock.
\<close>

theorem completion_timeout_result:
  assumes "dn 0 = 0" and "timeout \<noteq> 0" and "dl = clk 0 + timeout"
    and "\<And>i. i < k \<Longrightarrow> dn (Suc i) = 0 \<and> \<not> time_after_eq (clk (Suc i)) dl"
    and "dn (Suc k) \<noteq> 0 \<or> time_after_eq (clk (Suc k)) dl"
  shows "wait_for_completion_timeout False dn clk timeout =
     Some (if dn (Suc k) = 0 then 0
           else if time_after_eq (clk (Suc k)) dl then 1 else dl - clk (Suc (Suc k)))"
proof -
  have "completion_loop dn clk 1 dl = completion_loop dn clk (Suc k) dl"
    using completion_loop_runs [of k dn 1 clk dl] assms(4) by simp
  also have "\<dots> = Some (dn (Suc k) \<noteq> 0, Suc k)" using assms(5) by (subst completion_loop.simps) auto
  finally show ?thesis
    using assms(1,2,3) by (cases "dn (Suc k) = 0") (simp_all add: wait_for_completion_timeout_def Let_def)
qed

text \<open>
  The last reading can be the first at the deadline: a completion that came in time is then reported
  as 0, a timeout.
\<close>

theorem completion_timeout_result_witness:
  "wait_for_completion_timeout False (\<lambda>n. if n = 0 then 0 else 1) (\<lambda>n. if n = 0 then 0 else if n = 1 then 4 else 5) 5 = Some 0"
  using completion_timeout_result [of "\<lambda>n. if n = 0 then 0 else 1" 5 5 "\<lambda>n. if n = 0 then 0 else if n = 1 then 4 else 5" 0]
  by (simp add: time_after_eq_def)

end
