(* ===== verification/LC_Timer.thy ===== *)
theory LC_Timer
  imports LC_Time LC_Bits
begin

text \<open>
  Timers (\<^verbatim>\<open>linux/timer.h\<close>) and tasklets (\<^verbatim>\<open>linux/interrupt.h\<close>), which run their callbacks on host
  tasks, as interleaving state machines.  A task is a program counter with its local variables; one step
  of a task is one store, one atomic operation, or the test of one condition.  The memory is
  sequentially consistent.  The clock value a step reads and whether the host can create a task are
  chosen by the environment with the action.
\<close>

section \<open>Timers\<close>

record timer_list =
  tm_function :: bool
  tm_expires :: u64
  tm_generation :: u32
  tm_active :: bool
  tm_running :: bool

definition timer_setup :: "bool \<Rightarrow> timer_list" where
  "timer_setup f = \<lparr>tm_function = f, tm_expires = 0, tm_generation = 0, tm_active = False, tm_running = False\<rparr>"

text \<open>Where \<^verbatim>\<open>lcompat_timer_worker\<close> is: \<open>g\<close> and \<open>e\<close> are its \<^verbatim>\<open>generation\<close> and \<^verbatim>\<open>expires\<close>.\<close>

datatype tpc = TStart | TWait u32 u64 | TCheck u32 | TArm u32 | TDisarm u32 | TTest u32 | TCall | TLeave | TExit

fun timer_worker :: "u64 \<Rightarrow> tpc \<Rightarrow> timer_list \<Rightarrow> tpc \<times> timer_list" where
  "timer_worker now TStart t = (TWait (tm_generation t) (tm_expires t), t)"
| "timer_worker now (TWait g e) t =
     (if tm_active t \<and> tm_generation t = g \<and> time_before now e then (TWait g e, t) else (TCheck g, t))"
| "timer_worker now (TCheck g) t = (if \<not> tm_active t \<or> tm_generation t \<noteq> g then (TExit, t) else (TArm g, t))"
| "timer_worker now (TArm g) t = (TDisarm g, t\<lparr>tm_running := True\<rparr>)"
| "timer_worker now (TDisarm g) t = (TTest g, t\<lparr>tm_active := False\<rparr>)"
| "timer_worker now (TTest g) t = (if tm_generation t = g \<and> tm_function t then (TCall, t) else (TLeave, t))"
| "timer_worker now TCall t = (TLeave, t)"
| "timer_worker now TLeave t = (TExit, t\<lparr>tm_running := False\<rparr>)"
| "timer_worker now TExit t = (TExit, t)"

text \<open>\<open>created\<close>: the host made the task.  The result says whether the timer was pending.\<close>

definition mod_timer :: "u64 \<Rightarrow> bool \<Rightarrow> timer_list \<Rightarrow> int \<times> timer_list" where
  "mod_timer expires created t =
     (let pending = tm_active t;
          t = t\<lparr>tm_expires := expires, tm_active := True, tm_generation := tm_generation t + 1\<rparr>;
          t = (if created then t else t\<lparr>tm_active := False, tm_generation := tm_generation t + 1\<rparr>)
      in (of_bool pending, t))"

definition add_timer :: "bool \<Rightarrow> timer_list \<Rightarrow> timer_list" where
  "add_timer created t = snd (mod_timer (tm_expires t) created t)"

text \<open>\<^verbatim>\<open>del_timer_sync\<close> up to the new generation, and after its wait for \<^verbatim>\<open>running\<close>.\<close>

definition del_mark :: "timer_list \<Rightarrow> bool \<times> timer_list" where
  "del_mark t = (tm_active t \<or> tm_running t, t\<lparr>tm_active := False\<rparr>)"

definition del_bump :: "timer_list \<Rightarrow> timer_list" where
  "del_bump t = t\<lparr>tm_generation := tm_generation t + 1\<rparr>"

definition del_done :: "timer_list \<Rightarrow> timer_list" where
  "del_done t = t\<lparr>tm_expires := 0\<rparr>"

subsection \<open>The timer with its tasks\<close>

text \<open>One owner calls \<^verbatim>\<open>mod_timer\<close> and \<^verbatim>\<open>del_timer_sync\<close>; every \<^verbatim>\<open>mod_timer\<close> adds a task.\<close>

datatype towner = TIdle | TMarked | TBumped | TWaited | TDeleted

record timer_sys =
  ts_timer :: timer_list
  ts_tasks :: "tpc list"
  ts_owner :: towner
  ts_armed :: nat

datatype timer_act = ActTask nat u64 | ActMod u64 bool | ActDel

definition timer_next :: "timer_act \<Rightarrow> timer_sys \<Rightarrow> timer_sys option" where
  "timer_next a s =
     (case a of
        ActTask i now \<Rightarrow>
          if i < length (ts_tasks s)
          then (case timer_worker now (ts_tasks s ! i) (ts_timer s) of
              (pc, t) \<Rightarrow> Some (s\<lparr>ts_tasks := (ts_tasks s)[i := pc], ts_timer := t\<rparr>))
          else None
      | ActMod e created \<Rightarrow>
          if ts_owner s = TIdle \<or> ts_owner s = TDeleted
          then Some (s\<lparr>ts_timer := snd (mod_timer e created (ts_timer s)),
                 ts_tasks := ts_tasks s @ (if created then [TStart] else []),
                 ts_owner := TIdle, ts_armed := ts_armed s + 1\<rparr>)
          else None
      | ActDel \<Rightarrow>
          (case ts_owner s of
             TIdle \<Rightarrow> Some (s\<lparr>ts_timer := snd (del_mark (ts_timer s)), ts_owner := TMarked\<rparr>)
           | TMarked \<Rightarrow> Some (s\<lparr>ts_timer := del_bump (ts_timer s), ts_owner := TBumped\<rparr>)
           | TBumped \<Rightarrow> if tm_running (ts_timer s) then None else Some (s\<lparr>ts_owner := TWaited\<rparr>)
           | TWaited \<Rightarrow> Some (s\<lparr>ts_timer := del_done (ts_timer s), ts_owner := TDeleted\<rparr>)
           | TDeleted \<Rightarrow> None))"

definition timer_init :: "bool \<Rightarrow> timer_sys" where
  "timer_init f = \<lparr>ts_timer = timer_setup f, ts_tasks = [], ts_owner = TIdle, ts_armed = 0\<rparr>"

inductive timer_reach :: "bool \<Rightarrow> timer_sys \<Rightarrow> bool" for f where
  reach_init: "timer_reach f (timer_init f)"
| reach_act: "timer_reach f s \<Longrightarrow> timer_next a s = Some t \<Longrightarrow> timer_reach f t"

fun timer_run :: "timer_act list \<Rightarrow> timer_sys \<Rightarrow> timer_sys option" where
  "timer_run [] s = Some s"
| "timer_run (a # as) s = (case timer_next a s of None \<Rightarrow> None | Some t \<Rightarrow> timer_run as t)"

lemma timer_run_reach: "timer_reach f s \<Longrightarrow> timer_run as s = Some t \<Longrightarrow> timer_reach f t"
  by (induction as s rule: timer_run.induct) (auto split: option.splits intro: reach_act)

subsection \<open>Deleting a timer that was armed once\<close>

fun snapshot :: "tpc \<Rightarrow> u32 option" where
  "snapshot (TWait g e) = Some g"
| "snapshot (TCheck g) = Some g"
| "snapshot (TArm g) = Some g"
| "snapshot (TDisarm g) = Some g"
| "snapshot (TTest g) = Some g"
| "snapshot _ = None"

definition past_check :: "tpc \<Rightarrow> bool" where
  "past_check pc = (case pc of TArm _ \<Rightarrow> True | TDisarm _ \<Rightarrow> True | TTest _ \<Rightarrow> True | _ \<Rightarrow> False)"

definition sees_running :: "tpc \<Rightarrow> bool" where
  "sees_running pc = (case pc of TDisarm _ \<Rightarrow> True | TTest _ \<Rightarrow> True | TCall \<Rightarrow> True | TLeave \<Rightarrow> True | _ \<Rightarrow> False)"

text \<open>
  With one task: before the new generation its snapshot is current; after it, a task past the check has a
  stale snapshot; once the wait is over it is not in the callback; and \<^verbatim>\<open>running\<close> says where it is.
\<close>

definition once_ok :: "timer_list \<Rightarrow> tpc \<Rightarrow> towner \<Rightarrow> bool" where
  "once_ok t pc w =
     ((sees_running pc \<longrightarrow> tm_running t) \<and>
      (w = TIdle \<or> w = TMarked \<longrightarrow> (case snapshot pc of None \<Rightarrow> True | Some g \<Rightarrow> g = tm_generation t)) \<and>
      (w \<noteq> TIdle \<longrightarrow> \<not> tm_active t) \<and>
      (w \<in> {TBumped, TWaited, TDeleted} \<and> past_check pc \<longrightarrow> snapshot pc \<noteq> Some (tm_generation t)) \<and>
      (w \<in> {TWaited, TDeleted} \<longrightarrow> pc \<noteq> TCall))"

lemma once_worker:
  "once_ok t pc w \<Longrightarrow> timer_worker now pc t = (pc', t') \<Longrightarrow> once_ok t' pc' w"
  by (cases pc) (auto simp: once_ok_def past_check_def sees_running_def split: if_splits)

lemma once_del:
  "once_ok t pc TIdle \<Longrightarrow> once_ok (snd (del_mark t)) pc TMarked"
  "once_ok t pc TMarked \<Longrightarrow> once_ok (del_bump t) pc TBumped"
  "once_ok t pc TBumped \<Longrightarrow> \<not> tm_running t \<Longrightarrow> once_ok t pc TWaited"
  "once_ok t pc TWaited \<Longrightarrow> once_ok (del_done t) pc TDeleted"
  by (cases pc; simp add: once_ok_def del_mark_def del_bump_def del_done_def past_check_def sees_running_def)+

definition once_inv :: "timer_sys \<Rightarrow> bool" where
  "once_inv s =
     ((ts_armed s = 0 \<longrightarrow> ts_tasks s = []) \<and> length (ts_tasks s) \<le> ts_armed s \<and>
      (ts_armed s \<le> 1 \<longrightarrow> (\<forall>pc \<in> set (ts_tasks s). once_ok (ts_timer s) pc (ts_owner s))))"

lemma once_inv_step: "once_inv s \<Longrightarrow> timer_next a s = Some t \<Longrightarrow> once_inv t"
proof (cases a)
  case (ActTask i now)
  assume inv: "once_inv s" and st: "timer_next a s = Some t"
  have i: "i < length (ts_tasks s)" using st ActTask by (auto simp: timer_next_def split: if_splits)
  obtain pc tm where w: "timer_worker now (ts_tasks s ! i) (ts_timer s) = (pc, tm)"
    by (cases "timer_worker now (ts_tasks s ! i) (ts_timer s)")
  have t: "t = s\<lparr>ts_tasks := (ts_tasks s)[i := pc], ts_timer := tm\<rparr>"
    using st ActTask i by (simp add: timer_next_def w)
  show ?thesis
  proof (cases "ts_armed s \<le> 1")
    case True
    then obtain x where x: "ts_tasks s = [x]" using inv i by (cases "ts_tasks s"; cases "tl (ts_tasks s)") (auto simp: once_inv_def)
    then have "once_ok (ts_timer s) x (ts_owner s)" using inv True by (simp add: once_inv_def)
    then show ?thesis using once_worker [of "ts_timer s" x "ts_owner s" now pc tm] w inv t i True x
      by (simp add: once_inv_def)
  qed (use inv t in \<open>auto simp: once_inv_def\<close>)
next
  case (ActMod e c)
  assume inv: "once_inv s" and st: "timer_next a s = Some t"
  define ts where "ts = (if c then [TStart] else [])"
  have t: "t = s\<lparr>ts_timer := snd (mod_timer e c (ts_timer s)), ts_tasks := ts_tasks s @ ts,
      ts_owner := TIdle, ts_armed := ts_armed s + 1\<rparr>"
    using st ActMod by (auto simp: timer_next_def ts_def split: if_splits)
  have "once_ok u TStart TIdle" for u by (simp add: once_ok_def past_check_def sees_running_def)
  then show ?thesis using inv by (cases "ts_armed s") (auto simp: once_inv_def t ts_def)
next
  case ActDel
  assume inv: "once_inv s" and st: "timer_next a s = Some t"
  show ?thesis using inv st ActDel
    by (cases "ts_owner s") (auto simp: timer_next_def once_inv_def once_del split: if_splits)
qed

lemma once_inv_reach: "timer_reach f s \<Longrightarrow> once_inv s"
  by (induction rule: timer_reach.induct) (auto simp: once_inv_step, simp add: once_inv_def timer_init_def)

section \<open>Tasklets\<close>

text \<open>Bit 0 of the state is \<^verbatim>\<open>TASKLET_STATE_SCHED\<close>, bit 1 \<^verbatim>\<open>TASKLET_STATE_RUN\<close>.\<close>

record tasklet_struct =
  tk_state :: u64
  tk_count :: int
  tk_callback :: bool
  tk_callback_old :: bool
  tk_use_callback_data :: bool

definition tasklet_setup :: "bool \<Rightarrow> tasklet_struct" where
  "tasklet_setup cb = \<lparr>tk_state = 0, tk_count = 0, tk_callback = cb, tk_callback_old = False, tk_use_callback_data = False\<rparr>"

definition tasklet_init :: "bool \<Rightarrow> tasklet_struct" where
  "tasklet_init func = \<lparr>tk_state = 0, tk_count = 0, tk_callback = False, tk_callback_old = func, tk_use_callback_data = True\<rparr>"

text \<open>Does the callback run when the tasklet is invoked?\<close>

definition tasklet_invoke :: "tasklet_struct \<Rightarrow> bool" where
  "tasklet_invoke t = (if tk_use_callback_data t then tk_callback_old t else tk_callback t)"

datatype kpc = KLoop | KSched | KTryRun | KClear | KInvoke | KUnrun | KBail | KAgain | KExit

fun tasklet_worker :: "kpc \<Rightarrow> tasklet_struct \<Rightarrow> kpc \<times> tasklet_struct" where
  "tasklet_worker KLoop t = (if tk_count t > 0 then (KSched, t) else (KTryRun, t))"
| "tasklet_worker KSched t = (if \<not> test_bit 0 (tk_state t) then (KExit, t) else (KLoop, t))"
| "tasklet_worker KTryRun t =
     (case test_and_set_bit 1 (tk_state t) of
        (old, st) \<Rightarrow> (if old then KLoop else KClear, t\<lparr>tk_state := st\<rparr>))"
| "tasklet_worker KClear t =
     (case test_and_clear_bit 0 (tk_state t) of
        (old, st) \<Rightarrow> (if \<not> old then KBail else KInvoke, t\<lparr>tk_state := st\<rparr>))"
| "tasklet_worker KBail t = (KExit, t\<lparr>tk_state := clear_bit 1 (tk_state t)\<rparr>)"
| "tasklet_worker KInvoke t = (KUnrun, t)"
| "tasklet_worker KUnrun t = (KAgain, t\<lparr>tk_state := clear_bit 1 (tk_state t)\<rparr>)"
| "tasklet_worker KAgain t = (if \<not> test_bit 0 (tk_state t) then (KExit, t) else (KLoop, t))"
| "tasklet_worker KExit t = (KExit, t)"

text \<open>The answer says whether a task was started for the tasklet.\<close>

definition tasklet_schedule :: "bool \<Rightarrow> tasklet_struct \<Rightarrow> bool \<times> tasklet_struct" where
  "tasklet_schedule created t =
     (if \<not> tk_use_callback_data t \<and> \<not> tk_callback t then (False, t)
      else if tk_use_callback_data t \<and> \<not> tk_callback_old t then (False, t)
      else case test_and_set_bit 0 (tk_state t) of
          (old, st) \<Rightarrow>
            let t = t\<lparr>tk_state := st\<rparr>
            in if old then (False, t)
               else if \<not> created then (False, t\<lparr>tk_state := clear_bit 0 (tk_state t)\<rparr>)
               else (True, t))"

definition tasklet_disable_nosync :: "tasklet_struct \<Rightarrow> tasklet_struct" where
  "tasklet_disable_nosync t = t\<lparr>tk_count := tk_count t + 1\<rparr>"

definition tasklet_enable :: "tasklet_struct \<Rightarrow> tasklet_struct" where
  "tasklet_enable t = t\<lparr>tk_count := tk_count t - 1\<rparr>"

definition tasklet_trylock :: "tasklet_struct \<Rightarrow> bool \<times> tasklet_struct" where
  "tasklet_trylock t = (case test_and_set_bit 1 (tk_state t) of (old, st) \<Rightarrow> (\<not> old, t\<lparr>tk_state := st\<rparr>))"

definition tasklet_unlock :: "tasklet_struct \<Rightarrow> tasklet_struct" where
  "tasklet_unlock t = t\<lparr>tk_state := clear_bit 1 (tk_state t)\<rparr>"

text \<open>The wait of \<^verbatim>\<open>tasklet_disable\<close> and \<^verbatim>\<open>tasklet_kill\<close> is over when this is False.\<close>

definition tasklet_unlock_spin :: "tasklet_struct \<Rightarrow> bool" where
  "tasklet_unlock_spin t = test_bit 1 (tk_state t)"

text \<open>
  \<^verbatim>\<open>tasklet_kill\<close>, step by step: count up, clear SCHED, wait, count down.  \<open>ks_late\<close> remembers that
  somebody, the callback itself perhaps, scheduled the tasklet after the kill had cleared SCHED.
\<close>

datatype kowner = KIdle | KCounted | KCleared | KWaited | KKilled

record tasklet_sys =
  ks_tasklet :: tasklet_struct
  ks_tasks :: "kpc list"
  ks_owner :: kowner
  ks_late :: bool

datatype tasklet_act = KTask nat | KSchedule bool | KDisable | KEnable | KKill

definition tasklet_next :: "tasklet_act \<Rightarrow> tasklet_sys \<Rightarrow> tasklet_sys option" where
  "tasklet_next a s =
     (case a of
        KTask i \<Rightarrow>
          if i < length (ks_tasks s)
          then (case tasklet_worker (ks_tasks s ! i) (ks_tasklet s) of
              (pc, t) \<Rightarrow> Some (s\<lparr>ks_tasks := (ks_tasks s)[i := pc], ks_tasklet := t\<rparr>))
          else None
      | KSchedule created \<Rightarrow>
          (case tasklet_schedule created (ks_tasklet s) of
             (started, t) \<Rightarrow> Some (s\<lparr>ks_tasklet := t, ks_tasks := ks_tasks s @ (if started then [KLoop] else []),
                 ks_late := (ks_late s \<or> ks_owner s \<in> {KCleared, KWaited, KKilled})\<rparr>))
      | KDisable \<Rightarrow> Some (s\<lparr>ks_tasklet := tasklet_disable_nosync (ks_tasklet s)\<rparr>)
      | KEnable \<Rightarrow> Some (s\<lparr>ks_tasklet := tasklet_enable (ks_tasklet s)\<rparr>)
      | KKill \<Rightarrow>
          (case ks_owner s of
             KIdle \<Rightarrow> Some (s\<lparr>ks_tasklet := tasklet_disable_nosync (ks_tasklet s), ks_owner := KCounted\<rparr>)
           | KCounted \<Rightarrow> Some (s\<lparr>ks_tasklet := (ks_tasklet s)\<lparr>tk_state := clear_bit 0 (tk_state (ks_tasklet s))\<rparr>, ks_owner := KCleared,
               ks_late := False\<rparr>)
           | KCleared \<Rightarrow> if tasklet_unlock_spin (ks_tasklet s) then None else Some (s\<lparr>ks_owner := KWaited\<rparr>)
           | KWaited \<Rightarrow> Some (s\<lparr>ks_tasklet := tasklet_enable (ks_tasklet s), ks_owner := KKilled\<rparr>)
           | KKilled \<Rightarrow> None))"

inductive tasklet_reach :: "bool \<Rightarrow> tasklet_sys \<Rightarrow> bool" for cb where
  tasklet_start: "tasklet_reach cb \<lparr>ks_tasklet = tasklet_setup cb, ks_tasks = [], ks_owner = KIdle, ks_late = False\<rparr>"
| tasklet_act: "tasklet_reach cb s \<Longrightarrow> tasklet_next a s = Some t \<Longrightarrow> tasklet_reach cb t"

fun tasklet_run :: "tasklet_act list \<Rightarrow> tasklet_sys \<Rightarrow> tasklet_sys option" where
  "tasklet_run [] s = Some s"
| "tasklet_run (a # as) s = (case tasklet_next a s of None \<Rightarrow> None | Some t \<Rightarrow> tasklet_run as t)"

lemma tasklet_run_reach: "tasklet_reach cb s \<Longrightarrow> tasklet_run as s = Some t \<Longrightarrow> tasklet_reach cb t"
  by (induction as arbitrary: s) (auto split: option.splits intro: tasklet_act)

subsection \<open>Exclusion and killing\<close>

definition holds_run :: "kpc \<Rightarrow> bool" where
  "holds_run pc = (pc \<in> {KClear, KInvoke, KUnrun, KBail})"

definition n_run :: "kpc list \<Rightarrow> nat" where
  "n_run ps = length (filter holds_run ps)"

lemma n_run_update:
  "i < length ps \<Longrightarrow> n_run (ps[i := pc]) + of_bool (holds_run (ps ! i)) = n_run ps + of_bool (holds_run pc)"
  unfolding n_run_def
proof (induction ps arbitrary: i)
  case (Cons p ps)
  then show ?case by (cases i) auto
qed simp

lemma n_run_append [simp]: "n_run (ps @ qs) = n_run ps + n_run qs"
  by (simp add: n_run_def)

lemma n_run_0: "n_run ps = 0 \<Longrightarrow> pc \<in> set ps \<Longrightarrow> \<not> holds_run pc"
  by (auto simp: n_run_def filter_empty_conv)

definition tasklet_inv :: "tasklet_sys \<Rightarrow> bool" where
  "tasklet_inv s =
     (n_run (ks_tasks s) = of_bool (test_bit 1 (tk_state (ks_tasklet s))) \<and>
      (ks_owner s \<in> {KCleared, KWaited, KKilled} \<and> \<not> ks_late s \<longrightarrow> \<not> test_bit 0 (tk_state (ks_tasklet s))) \<and>
      (ks_owner s \<in> {KWaited, KKilled} \<and> \<not> ks_late s \<longrightarrow> KInvoke \<notin> set (ks_tasks s)))"

lemma bit_ops_simps [simp]:
  "fst (test_and_set_bit n w) = test_bit n w" "snd (test_and_set_bit n w) = set_bit n w"
  "fst (test_and_clear_bit n w) = test_bit n w" "snd (test_and_clear_bit n w) = clear_bit n w"
  by (simp_all add: test_and_set_bit_def test_and_clear_bit_def test_bit_def set_bit_def clear_bit_def del: test_bit_iff)

lemma worker_run_bit:
  assumes "tasklet_worker pc t = (pc', t')" and "holds_run pc \<Longrightarrow> test_bit 1 (tk_state t)"
  shows "of_bool (test_bit 1 (tk_state t')) + of_bool (holds_run pc) = of_bool (test_bit 1 (tk_state t)) + (of_bool (holds_run pc') :: nat)"
  using assms
  by (cases pc) (auto simp: holds_run_def split_beta test_bit_set_bit test_bit_clear_bit simp del: test_bit_iff split: if_splits)

lemma worker_sched_bit:
  assumes "tasklet_worker pc t = (pc', t')" and "\<not> test_bit 0 (tk_state t)"
  shows "\<not> test_bit 0 (tk_state t') \<and> pc' \<noteq> KInvoke"
  using assms
  by (cases pc) (auto simp: split_beta test_bit_set_bit test_bit_clear_bit simp del: test_bit_iff split: if_splits)

lemma schedule_run_bit:
  "tasklet_schedule c t = (b, t') \<Longrightarrow> test_bit 1 (tk_state t') = test_bit 1 (tk_state t)"
  unfolding tasklet_schedule_def split_beta Let_def bit_ops_simps
  by (auto simp: test_bit_set_bit test_bit_clear_bit simp del: test_bit_iff split: if_splits)

lemma holds_le_run: "i < length ps \<Longrightarrow> holds_run (ps ! i) \<Longrightarrow> n_run ps > 0"
  using n_run_0 [of ps "ps ! i"] by (auto simp: in_set_conv_nth)

lemma tasklet_inv_step: "tasklet_inv s \<Longrightarrow> tasklet_next a s = Some t \<Longrightarrow> tasklet_inv t"
proof (cases a)
  case (KTask i)
  assume inv: "tasklet_inv s" and st: "tasklet_next a s = Some t"
  have i: "i < length (ks_tasks s)" using st KTask by (auto simp: tasklet_next_def split: if_splits)
  obtain pc tk where w: "tasklet_worker (ks_tasks s ! i) (ks_tasklet s) = (pc, tk)"
    by (cases "tasklet_worker (ks_tasks s ! i) (ks_tasklet s)")
  have t: "t = s\<lparr>ks_tasks := (ks_tasks s)[i := pc], ks_tasklet := tk\<rparr>"
    using st KTask i by (simp add: tasklet_next_def w)
  have "holds_run (ks_tasks s ! i) \<Longrightarrow> test_bit 1 (tk_state (ks_tasklet s))"
    using holds_le_run [OF i] inv by (auto simp: tasklet_inv_def simp del: test_bit_iff)
  from worker_run_bit [OF w this] n_run_update [OF i, of pc] inv
  have n: "n_run ((ks_tasks s)[i := pc]) = of_bool (test_bit 1 (tk_state tk))"
    by (simp add: tasklet_inv_def del: test_bit_iff)
  have sched: "\<not> test_bit 0 (tk_state (ks_tasklet s)) \<Longrightarrow> \<not> test_bit 0 (tk_state tk) \<and> pc \<noteq> KInvoke"
    by (rule worker_sched_bit [OF w])
  have "KInvoke \<notin> set (ks_tasks s) \<Longrightarrow> pc \<noteq> KInvoke \<Longrightarrow> KInvoke \<notin> set ((ks_tasks s)[i := pc])"
    using set_update_subset_insert [of "ks_tasks s" i pc] by auto
  then show ?thesis using inv n sched unfolding tasklet_inv_def t by (auto simp del: test_bit_iff)
next
  case (KSchedule c)
  assume inv: "tasklet_inv s" and st: "tasklet_next a s = Some t"
  obtain b tk where w: "tasklet_schedule c (ks_tasklet s) = (b, tk)" by (cases "tasklet_schedule c (ks_tasklet s)")
  have "test_bit 1 (tk_state tk) = test_bit 1 (tk_state (ks_tasklet s))"
    by (rule schedule_run_bit [OF w])
  moreover have "t = s\<lparr>ks_tasklet := tk, ks_tasks := ks_tasks s @ (if b then [KLoop] else []),
      ks_late := (ks_late s \<or> ks_owner s \<in> {KCleared, KWaited, KKilled})\<rparr>"
    using st KSchedule by (simp add: tasklet_next_def w)
  moreover have "n_run (if b then [KLoop] else []) = 0" by (simp add: n_run_def holds_run_def)
  ultimately show ?thesis using inv unfolding tasklet_inv_def by (auto simp del: test_bit_iff)
next
  case KKill
  assume inv: "tasklet_inv s" and st: "tasklet_next a s = Some t"
  have "\<not> test_bit 1 (tk_state (ks_tasklet s)) \<Longrightarrow> KInvoke \<notin> set (ks_tasks s)"
    using inv n_run_0 [of "ks_tasks s" KInvoke] by (auto simp: tasklet_inv_def holds_run_def simp del: test_bit_iff)
  then show ?thesis using inv st KKill
    by (cases "ks_owner s")
      (auto simp: tasklet_next_def tasklet_inv_def tasklet_disable_nosync_def tasklet_enable_def tasklet_unlock_spin_def
        test_bit_clear_bit simp del: test_bit_iff split: if_splits)
next
  case KDisable
  assume inv: "tasklet_inv s" and st: "tasklet_next a s = Some t"
  have "t = s\<lparr>ks_tasklet := tasklet_disable_nosync (ks_tasklet s)\<rparr>" using st KDisable by (simp add: tasklet_next_def)
  then show ?thesis using inv by (simp add: tasklet_inv_def tasklet_disable_nosync_def del: test_bit_iff)
next
  case KEnable
  assume inv: "tasklet_inv s" and st: "tasklet_next a s = Some t"
  have "t = s\<lparr>ks_tasklet := tasklet_enable (ks_tasklet s)\<rparr>" using st KEnable by (simp add: tasklet_next_def)
  then show ?thesis using inv by (simp add: tasklet_inv_def tasklet_enable_def del: test_bit_iff)
qed

lemma tasklet_inv_reach: "tasklet_reach cb s \<Longrightarrow> tasklet_inv s"
  by (induction rule: tasklet_reach.induct)
    (auto simp: tasklet_inv_step, simp add: tasklet_inv_def tasklet_setup_def n_run_def)

section \<open>Properties\<close>

text \<open>
  C23. A timer armed at most once since its setup is deleted for good: when \<^verbatim>\<open>del_timer_sync\<close> has
  returned, no task is in the callback, in any interleaving of the timer's task with the deletion.
\<close>

theorem timer_deleted_once:
  assumes "timer_reach f s" and "ts_armed s \<le> 1" and "ts_owner s = TDeleted"
  shows "TCall \<notin> set (ts_tasks s)"
  using once_inv_reach [OF assms(1)] assms(2,3) by (auto simp: once_inv_def once_ok_def)

definition once_acts :: "timer_act list" where
  "once_acts = [ActMod 10 True, ActTask 0 0, ActTask 0 10, ActTask 0 10, ActDel, ActDel, ActDel, ActDel]"

theorem timer_deleted_once_witness:
  "\<exists>s. timer_run once_acts (timer_init True) = Some s \<and> ts_owner s = TDeleted \<and> TCall \<notin> set (ts_tasks s)"
proof -
  have r: "\<exists>s. timer_run once_acts (timer_init True) = Some s \<and> ts_owner s = TDeleted \<and> ts_armed s = 1"
    by (simp add: once_acts_def timer_init_def timer_setup_def timer_next_def mod_timer_def time_before_def
        time_after_def del_mark_def del_bump_def del_done_def)
  then show ?thesis using timer_deleted_once [OF timer_run_reach [OF reach_init]] by fastforce
qed

text \<open>
  Armed twice, a timer can outlive its deletion: re-arming it just as it expires leaves the first task
  to clear \<^verbatim>\<open>running\<close> while the second is in the callback, and \<^verbatim>\<open>del_timer_sync\<close> returns there.
\<close>

definition race_acts :: "timer_act list" where
  "race_acts = [ActMod 10 True, ActTask 0 0, ActTask 0 10, ActTask 0 10,
     ActMod 20 True, ActTask 1 10, ActTask 1 20, ActTask 1 20, ActTask 1 20, ActTask 1 20, ActTask 1 20,
     ActTask 0 20, ActTask 0 20, ActTask 0 20, ActTask 0 20, ActDel, ActDel, ActDel, ActDel]"

theorem timer_rearm_race:
  "\<exists>s. timer_reach True s \<and> ts_armed s = 2 \<and> ts_owner s = TDeleted \<and> TCall \<in> set (ts_tasks s)"
proof -
  have "\<exists>s. timer_run race_acts (timer_init True) = Some s \<and> ts_armed s = 2 \<and> ts_owner s = TDeleted \<and>
      TCall \<in> set (ts_tasks s)"
    by (simp add: race_acts_def timer_init_def timer_setup_def timer_next_def mod_timer_def time_before_def
        time_after_def del_mark_def del_bump_def del_done_def)
  then show ?thesis using timer_run_reach [OF reach_init] by fastforce
qed

text \<open>
  C22. A tasklet's callback is never entered twice at once, however many tasks serve it: in every reachable
  state at most one task is between taking and releasing the RUN bit, and the bit says whether one is.
  And when \<^verbatim>\<open>tasklet_kill\<close> has returned, no task is in the callback, then or later, as long as nobody
  has scheduled the tasklet since the kill cleared its SCHED bit.
\<close>

theorem tasklet_exclusive:
  assumes "tasklet_reach cb s"
  shows "n_run (ks_tasks s) = of_bool (test_bit 1 (tk_state (ks_tasklet s))) \<and>
     (ks_owner s = KKilled \<and> \<not> ks_late s \<longrightarrow> KInvoke \<notin> set (ks_tasks s))"
  using tasklet_inv_reach [OF assms] by (auto simp: tasklet_inv_def)

lemmas tasklet_eval = tasklet_next_def tasklet_setup_def tasklet_schedule_def tasklet_disable_nosync_def tasklet_enable_def
  tasklet_unlock_spin_def Let_def split_beta test_bit_set_bit test_bit_clear_bit

lemma test_bit_0: "\<not> test_bit n 0"
  by simp

text \<open>Scheduled twice, killed while the first task is in the callback; the second finds nothing to do.\<close>

definition kill_acts :: "tasklet_act list" where
  "kill_acts = [KSchedule True, KTask 0, KTask 0, KTask 0, KSchedule True, KKill, KKill,
     KTask 0, KTask 0, KKill, KKill, KTask 1, KTask 1, KTask 1]"

theorem tasklet_exclusive_witness:
  "\<exists>s. tasklet_run kill_acts \<lparr>ks_tasklet = tasklet_setup True, ks_tasks = [], ks_owner = KIdle, ks_late = False\<rparr> = Some s \<and>
     ks_owner s = KKilled \<and> ks_tasks s = [KAgain, KBail] \<and> n_run (ks_tasks s) = 1 \<and> KInvoke \<notin> set (ks_tasks s)"
proof -
  obtain s where s: "tasklet_run kill_acts \<lparr>ks_tasklet = tasklet_setup True, ks_tasks = [], ks_owner = KIdle, ks_late = False\<rparr> = Some s"
    "ks_owner s = KKilled" "\<not> ks_late s" "ks_tasks s = [KAgain, KBail]" "test_bit 1 (tk_state (ks_tasklet s))"
    by (simp add: kill_acts_def tasklet_eval test_bit_0 del: test_bit_iff)
  from tasklet_exclusive [OF tasklet_run_reach [OF tasklet_start s(1)]] s show ?thesis by (simp del: test_bit_iff)
qed

text \<open>
  A callback that schedules its tasklet again defeats the kill: SCHED is set anew while the kill waits for
  RUN, and the callback runs once more after \<^verbatim>\<open>tasklet_kill\<close> has returned.
\<close>

definition resched_acts :: "tasklet_act list" where
  "resched_acts = [KSchedule True, KTask 0, KTask 0, KTask 0, KKill, KKill, KSchedule True,
     KTask 0, KTask 0, KKill, KKill, KTask 1, KTask 1, KTask 1]"

lemma tasklet_kill_rescheduled:
  "\<exists>s. tasklet_reach True s \<and> ks_owner s = KKilled \<and> KInvoke \<in> set (ks_tasks s)"
proof -
  have "\<exists>s. tasklet_run resched_acts \<lparr>ks_tasklet = tasklet_setup True, ks_tasks = [], ks_owner = KIdle, ks_late = False\<rparr> = Some s \<and>
      ks_owner s = KKilled \<and> KInvoke \<in> set (ks_tasks s)"
    by (simp add: resched_acts_def tasklet_eval test_bit_0 del: test_bit_iff)
  then show ?thesis using tasklet_run_reach [OF tasklet_start] by blast
qed

end
