(* ===== verification/LC_Tasklet.thy ===== *)
theory LC_Tasklet
  imports LC_Timer
begin

text \<open>
  \<^verbatim>\<open>tasklet_disable\<close> of \<^verbatim>\<open>linux/interrupt.h\<close> against the tasks that serve the tasklet: what holds when it
  has returned, how many calls of the callback can still follow, and an interleaving with one.
\<close>

section \<open>One owner that disables and enables\<close>

text \<open>\<^verbatim>\<open>tasklet_disable\<close>, step by step: count up, then wait until RUN is clear.\<close>

datatype downer = DRunning | DCounted | DDisabled

record disable_sys =
  ds_tasklet :: tasklet_struct
  ds_tasks :: "kpc list"
  ds_owner :: downer

datatype disable_act = DTask nat | DSchedule bool | DDisable | DEnable

fun tasklet_disable :: "disable_sys \<Rightarrow> disable_sys option" where
  "tasklet_disable s =
     (case ds_owner s of
        DRunning \<Rightarrow> Some (s\<lparr>ds_tasklet := tasklet_disable_nosync (ds_tasklet s), ds_owner := DCounted\<rparr>)
      | DCounted \<Rightarrow> if tasklet_unlock_spin (ds_tasklet s) then None else Some (s\<lparr>ds_owner := DDisabled\<rparr>)
      | DDisabled \<Rightarrow> None)"

definition disable_next :: "disable_act \<Rightarrow> disable_sys \<Rightarrow> disable_sys option" where
  "disable_next a s =
     (case a of
        DTask i \<Rightarrow>
          if i < length (ds_tasks s)
          then (case tasklet_worker (ds_tasks s ! i) (ds_tasklet s) of
              (pc, t) \<Rightarrow> Some (s\<lparr>ds_tasks := (ds_tasks s)[i := pc], ds_tasklet := t\<rparr>))
          else None
      | DSchedule created \<Rightarrow>
          (case tasklet_schedule created (ds_tasklet s) of
             (started, t) \<Rightarrow> Some (s\<lparr>ds_tasklet := t, ds_tasks := ds_tasks s @ (if started then [KLoop] else [])\<rparr>))
      | DDisable \<Rightarrow> tasklet_disable s
      | DEnable \<Rightarrow>
          if ds_owner s = DDisabled
          then Some (s\<lparr>ds_tasklet := tasklet_enable (ds_tasklet s), ds_owner := DRunning\<rparr>) else None)"

definition disable_init :: "bool \<Rightarrow> disable_sys" where
  "disable_init cb = \<lparr>ds_tasklet = tasklet_setup cb, ds_tasks = [], ds_owner = DRunning\<rparr>"

inductive disable_reach :: "bool \<Rightarrow> disable_sys \<Rightarrow> bool" for cb where
  disable_start: "disable_reach cb (disable_init cb)"
| disable_step: "disable_reach cb s \<Longrightarrow> disable_next a s = Some t \<Longrightarrow> disable_reach cb t"

fun disable_run :: "disable_act list \<Rightarrow> disable_sys \<Rightarrow> disable_sys option" where
  "disable_run [] s = Some s"
| "disable_run (a # as) s = (case disable_next a s of None \<Rightarrow> None | Some t \<Rightarrow> disable_run as t)"

lemma disable_run_reach: "disable_reach cb s \<Longrightarrow> disable_run as s = Some t \<Longrightarrow> disable_reach cb t"
  by (induction as arbitrary: s) (auto split: option.splits intro: disable_step)

section \<open>When it returns\<close>

definition disable_inv :: "disable_sys \<Rightarrow> bool" where
  "disable_inv s =
     (n_run (ds_tasks s) = of_bool (test_bit 1 (tk_state (ds_tasklet s))) \<and>
      tk_count (ds_tasklet s) = of_bool (ds_owner s \<noteq> DRunning))"

lemma worker_count: "tasklet_worker pc t = (pc', t') \<Longrightarrow> tk_count t' = tk_count t"
  by (cases pc) (auto simp: split_beta split: if_splits)

lemma schedule_count: "tasklet_schedule c t = (b, t') \<Longrightarrow> tk_count t' = tk_count t"
  by (auto simp: tasklet_schedule_def split_beta Let_def split: if_splits)

lemma disable_inv_step:
  assumes inv: "disable_inv s" and st: "disable_next a s = Some t"
  shows "disable_inv t"
proof (cases a)
  case (DTask i)
  have i: "i < length (ds_tasks s)" using st DTask by (auto simp: disable_next_def split: if_splits)
  obtain pc tk where w: "tasklet_worker (ds_tasks s ! i) (ds_tasklet s) = (pc, tk)"
    by (cases "tasklet_worker (ds_tasks s ! i) (ds_tasklet s)")
  have t: "t = s\<lparr>ds_tasks := (ds_tasks s)[i := pc], ds_tasklet := tk\<rparr>"
    using st DTask i by (simp add: disable_next_def w)
  have "holds_run (ds_tasks s ! i) \<Longrightarrow> test_bit 1 (tk_state (ds_tasklet s))"
    using holds_le_run [OF i] inv by (auto simp: disable_inv_def simp del: test_bit_iff)
  from worker_run_bit [OF w this] n_run_update [OF i, of pc] worker_count [OF w] inv
  show ?thesis by (simp add: disable_inv_def t del: test_bit_iff)
next
  case (DSchedule c)
  obtain b tk where w: "tasklet_schedule c (ds_tasklet s) = (b, tk)"
    by (cases "tasklet_schedule c (ds_tasklet s)")
  have "n_run (if b then [KLoop] else []) = 0" by (simp add: n_run_def holds_run_def)
  then show ?thesis using inv st DSchedule schedule_run_bit [OF w] schedule_count [OF w]
    by (auto simp: disable_next_def disable_inv_def w simp del: test_bit_iff)
next
  case DDisable
  then show ?thesis using inv st
    by (cases "ds_owner s")
      (auto simp: disable_next_def disable_inv_def tasklet_disable_nosync_def simp del: test_bit_iff split: if_splits)
next
  case DEnable
  then show ?thesis using inv st
    by (auto simp: disable_next_def disable_inv_def tasklet_enable_def simp del: test_bit_iff split: if_splits)
qed

lemma disable_inv_reach: "disable_reach cb s \<Longrightarrow> disable_inv s"
  by (induction rule: disable_reach.induct)
    (auto simp: disable_inv_step, simp add: disable_inv_def disable_init_def tasklet_setup_def n_run_def)

text \<open>At the moment \<^verbatim>\<open>tasklet_disable\<close> returns no task is in the callback.\<close>

theorem disable_returns_outside:
  assumes "disable_reach cb s" and "ds_owner s = DCounted" and "tasklet_disable s = Some t"
  shows "KInvoke \<notin> set (ds_tasks t)"
proof -
  have "n_run (ds_tasks s) = 0" "ds_tasks t = ds_tasks s"
    using disable_inv_reach [OF assms(1)] assms(2,3)
    by (auto simp: disable_inv_def tasklet_unlock_spin_def simp del: test_bit_iff split: if_splits)
  then show ?thesis using n_run_0 [of "ds_tasks s" KInvoke] by (auto simp: holds_run_def)
qed

section \<open>Calls after it has returned\<close>

text \<open>A task past the check of the count, and before the end of the callback, may still call it.\<close>

definition past_count :: "kpc \<Rightarrow> bool" where
  "past_count pc = (pc \<in> {KTryRun, KClear, KInvoke})"

definition n_late :: "kpc list \<Rightarrow> nat" where
  "n_late ps = length (filter past_count ps)"

lemma n_late_update:
  "i < length ps \<Longrightarrow> n_late (ps[i := pc]) + of_bool (past_count (ps ! i)) = n_late ps + of_bool (past_count pc)"
  unfolding n_late_def
proof (induction ps arbitrary: i)
  case (Cons p ps)
  then show ?case by (cases i) auto
qed simp

text \<open>The step at \<open>KInvoke\<close> is one call of the callback.\<close>

definition is_call :: "disable_act \<Rightarrow> disable_sys \<Rightarrow> bool" where
  "is_call a s = (case a of DTask i \<Rightarrow> i < length (ds_tasks s) \<and> ds_tasks s ! i = KInvoke | _ \<Rightarrow> False)"

fun n_calls :: "disable_act list \<Rightarrow> disable_sys \<Rightarrow> nat" where
  "n_calls [] s = 0"
| "n_calls (a # as) s =
     of_bool (is_call a s) + (case disable_next a s of None \<Rightarrow> 0 | Some t \<Rightarrow> n_calls as t)"

lemma worker_late:
  assumes "tasklet_worker pc t = (pc', t')" and "tk_count t > 0"
  shows "of_bool (past_count pc') + of_bool (pc = KInvoke) \<le> (of_bool (past_count pc) :: nat)"
  using assms by (cases pc) (auto simp: past_count_def split_beta split: if_splits)

lemma late_step:
  assumes inv: "disable_inv s" and d: "ds_owner s = DDisabled" and st: "disable_next a s = Some t" and a: "a \<noteq> DEnable"
  shows "n_late (ds_tasks t) + of_bool (is_call a s) \<le> n_late (ds_tasks s)" and "ds_owner t = DDisabled"
proof -
  have "n_late (ds_tasks t) + of_bool (is_call a s) \<le> n_late (ds_tasks s) \<and> ds_owner t = DDisabled"
  proof (cases a)
    case (DTask i)
    have i: "i < length (ds_tasks s)" using st DTask by (auto simp: disable_next_def split: if_splits)
    obtain pc tk where w: "tasklet_worker (ds_tasks s ! i) (ds_tasklet s) = (pc, tk)"
      by (cases "tasklet_worker (ds_tasks s ! i) (ds_tasklet s)")
    have "tk_count (ds_tasklet s) > 0" using inv d by (simp add: disable_inv_def)
    from worker_late [OF w this] n_late_update [OF i, of pc]
    have "n_late ((ds_tasks s)[i := pc]) + of_bool (ds_tasks s ! i = KInvoke) \<le> n_late (ds_tasks s)" by linarith
    then show ?thesis using st i d by (auto simp: DTask disable_next_def w is_call_def)
  next
    case (DSchedule c)
    obtain b tk where w: "tasklet_schedule c (ds_tasklet s) = (b, tk)"
      by (cases "tasklet_schedule c (ds_tasklet s)")
    show ?thesis using st d
      by (auto simp: DSchedule disable_next_def w is_call_def n_late_def past_count_def)
  qed (use st d a in \<open>auto simp: disable_next_def\<close>)
  then show "n_late (ds_tasks t) + of_bool (is_call a s) \<le> n_late (ds_tasks s)" "ds_owner t = DDisabled" by simp_all
qed

text \<open>
  Until it is enabled again, a disabled tasklet is called at most once for each task that was past the
  check of the count when \<^verbatim>\<open>tasklet_disable\<close> returned, however often it is scheduled.
\<close>

theorem disabled_calls_bounded:
  assumes "disable_inv s" and "ds_owner s = DDisabled" and "DEnable \<notin> set as"
  shows "n_calls as s \<le> n_late (ds_tasks s)"
  using assms
proof (induction as arbitrary: s)
  case (Cons a as)
  show ?case
  proof (cases "disable_next a s")
    case None
    then have "\<not> is_call a s"
      by (auto simp: is_call_def disable_next_def split_beta split: disable_act.splits if_splits)
    then show ?thesis using None by simp
  next
    case (Some t)
    have a: "a \<noteq> DEnable" using Cons.prems by auto
    note l = late_step [OF Cons.prems(1,2) Some a]
    have "n_calls as t \<le> n_late (ds_tasks t)"
      using Cons.IH [OF disable_inv_step [OF Cons.prems(1) Some] l(2)] Cons.prems by simp
    then show ?thesis using l(1) Some by simp
  qed
qed simp

corollary disabled_quiet:
  assumes "disable_reach cb s" and "ds_owner s = DDisabled" and "list_all (\<lambda>pc. \<not> past_count pc) (ds_tasks s)"
    and "DEnable \<notin> set as"
  shows "n_calls as s = 0"
  using disabled_calls_bounded [OF disable_inv_reach [OF assms(1)] assms(2,4)] assms(3)
  by (simp add: n_late_def list_all_iff filter_empty_conv)

text \<open>
  Such a call does happen: the task reads the count before it takes RUN, so that a disable between the
  two sees neither, returns at once, and the callback runs after it.  (Taking RUN first and reading the
  count then would close the gap.)
\<close>

definition late_acts :: "disable_act list" where
  "late_acts = [DSchedule True, DTask 0, DDisable, DDisable]"

theorem disable_not_final:
  "\<exists>s. disable_reach True s \<and> ds_owner s = DDisabled \<and> n_calls [DTask 0, DTask 0, DTask 0] s = 1"
proof -
  have "\<exists>s. disable_run late_acts (disable_init True) = Some s \<and> ds_owner s = DDisabled \<and>
      n_calls [DTask 0, DTask 0, DTask 0] s = 1"
    by (simp add: late_acts_def disable_init_def tasklet_setup_def disable_next_def tasklet_schedule_def
        tasklet_disable_nosync_def tasklet_unlock_spin_def is_call_def Let_def split_beta test_bit_set_bit
        test_bit_clear_bit test_bit_0 del: test_bit_iff)
  then show ?thesis using disable_run_reach [OF disable_start] by blast
qed

end
