(* ===== verification/LC_Usb_Data.thy ===== *)
theory LC_Usb_Data
  imports LC_Skbuff
begin

text \<open>
  USB data: pipe numbers, transfer lengths, scatter-gather copies, descriptors and driver matching
  (\<^verbatim>\<open>usb.c\<close>, \<^verbatim>\<open>linux/usb.h\<close>).  The host's transfer codes, speeds and descriptor types are
  parameters, collected in \<open>usb_codes\<close>.
\<close>

record usb_codes =
  ev_success :: int
  ev_short_packet :: int
  ev_stall :: int
  ev_babble :: int
  ev_timeout :: int
  ev_error :: int
  sp_low :: u8
  sp_full :: u8
  sp_high :: u8
  sp_super :: u8
  dt_interface :: u8
  dt_endpoint :: u8
  dt_companion :: u8

section \<open>Codes\<close>

datatype usb_device_speed = USB_SPEED_UNKNOWN | USB_SPEED_LOW | USB_SPEED_FULL | USB_SPEED_HIGH | USB_SPEED_WIRELESS | USB_SPEED_SUPER

datatype usb_device_state = USB_STATE_NOTATTACHED | USB_STATE_ATTACHED | USB_STATE_CONFIGURED

definition usb_linux_speed :: "usb_codes \<Rightarrow> u8 \<Rightarrow> usb_device_speed" where
  "usb_linux_speed c s =
     (if s = sp_low c then USB_SPEED_LOW else if s = sp_full c then USB_SPEED_FULL
      else if s = sp_high c then USB_SPEED_HIGH else if s = sp_super c then USB_SPEED_SUPER
      else USB_SPEED_UNKNOWN)"

definition USB_DIR_IN :: u32 where "USB_DIR_IN = 0x80"
definition USB_ENDPOINT_NUMBER_MASK :: u8 where "USB_ENDPOINT_NUMBER_MASK = 0x0f"
definition USB_ENDPOINT_XFERTYPE_MASK :: u8 where "USB_ENDPOINT_XFERTYPE_MASK = 3"
definition USB_ENDPOINT_XFER_BULK :: u8 where "USB_ENDPOINT_XFER_BULK = 2"
definition USB_ENDPOINT_XFER_INT :: u8 where "USB_ENDPOINT_XFER_INT = 3"
definition PIPE_TYPE_CTRL :: u32 where "PIPE_TYPE_CTRL = 0"
definition PIPE_TYPE_BULK :: u32 where "PIPE_TYPE_BULK = 1"
definition PIPE_TYPE_INT :: u32 where "PIPE_TYPE_INT = 2"
definition URB_ZERO_PACKET :: u32 where "URB_ZERO_PACKET = 1"

lemmas usb_consts = USB_DIR_IN_def USB_ENDPOINT_NUMBER_MASK_def USB_ENDPOINT_XFERTYPE_MASK_def USB_ENDPOINT_XFER_BULK_def
  USB_ENDPOINT_XFER_INT_def PIPE_TYPE_CTRL_def PIPE_TYPE_BULK_def PIPE_TYPE_INT_def URB_ZERO_PACKET_def

definition usb_pipe :: "u32 \<Rightarrow> bool \<Rightarrow> u32 \<Rightarrow> u32" where
  "usb_pipe ep dir type = push_bit 16 (type AND 0xff) OR (ep AND 0xff) OR (if dir then USB_DIR_IN else 0)"

definition usb_pipe_ep :: "u32 \<Rightarrow> u32" where
  "usb_pipe_ep pipe = pipe AND 0xff"

definition usb_pipe_type :: "u32 \<Rightarrow> u32" where
  "usb_pipe_type pipe = drop_bit 16 pipe AND 0xff"

definition usb_pipe_dir_in :: "u32 \<Rightarrow> bool" where
  "usb_pipe_dir_in pipe = (pipe AND USB_DIR_IN \<noteq> 0)"

definition usb_sync_retlen :: "usb_codes \<Rightarrow> int \<Rightarrow> int \<Rightarrow> int" where
  "usb_sync_retlen c ret expected_len =
     (if ret = ev_babble c then - EOVERFLOW
      else if ret = ev_timeout c then - ETIMEDOUT
      else if ret = ev_error c then - EPROTO
      else if ret < 0 then (if ret \<le> - 5 then ret else - EIO)
      else if ret = 0 then expected_len
      else ret)"

definition usb_urb_status :: "usb_codes \<Rightarrow> int \<Rightarrow> int" where
  "usb_urb_status c status =
     (if status = ev_success c \<or> status = ev_short_packet c then 0
      else if status = ev_stall c then - EPIPE
      else if status = ev_babble c then - EOVERFLOW
      else if status = ev_timeout c then - ETIMEDOUT
      else if status = ev_error c then - EPROTO
      else if status < 0 then status else - EIO)"

section \<open>Transfer lengths\<close>

text \<open>A scatter list entry is the address \<^verbatim>\<open>sg_virt\<close> gives, 0 for NULL, and its length.\<close>

type_synonym sg_entry = "addr \<times> u32"

definition INT_MAX :: int where "INT_MAX = 2147483647"

fun sg_total :: "sg_entry list \<Rightarrow> int \<Rightarrow> int" where
  "sg_total [] acc = acc"
| "sg_total ((virt, len) # sg) acc =
     (if virt = 0 then - EINVAL
      else if int (unat len) > INT_MAX - acc then - EOVERFLOW
      else sg_total sg (acc + int (unat len)))"

text \<open>\<open>sg\<close> is None for a null list; the first \<open>num\<close> entries are used.\<close>

definition usb_sg_total_len :: "sg_entry list option \<Rightarrow> int \<Rightarrow> int" where
  "usb_sg_total_len sg num = (case sg of None \<Rightarrow> 0 | Some l \<Rightarrow> if num \<le> 0 then 0 else sg_total (take (nat num) l) 0)"

definition usb_urb_data_len :: "sg_entry list option \<Rightarrow> int \<Rightarrow> int \<Rightarrow> int" where
  "usb_urb_data_len sg num buffer_len =
     (if sg = None \<or> num \<le> 0 then buffer_len
      else let sg_len = usb_sg_total_len sg num
           in if sg_len < 0 then sg_len
              else if buffer_len \<le> 0 then sg_len
              else if buffer_len > sg_len then - EINVAL
              else buffer_len)"

section \<open>Copies\<close>

text \<open>\<open>(int)len\<close>, the length as a signed 32-bit value, bounds each fragment.\<close>

definition frag_len :: "u32 \<Rightarrow> int \<Rightarrow> int" where
  "frag_len len left = min (sint len) left"

text \<open>
  Copy between the fragments and a buffer of \<open>len\<close> bytes.  A fragment length of 2^31 or more would be
  negative here and passed to \<^verbatim>\<open>memcpy\<close> as an enormous size; the copy is only called after
  \<^verbatim>\<open>sg_total_len\<close> has bounded the lengths, and such a length stops the model with None.
\<close>

fun sg_gather :: "(addr \<Rightarrow> u8) \<Rightarrow> sg_entry list \<Rightarrow> addr \<Rightarrow> int \<Rightarrow> int \<Rightarrow> (int \<times> (addr \<Rightarrow> u8)) option" where
  "sg_gather m [] dst len copied = Some (if copied = len then 0 else - EINVAL, m)"
| "sg_gather m ((virt, l) # sg) dst len copied =
     (if copied < len then
        (let n = frag_len l (len - copied)
         in if virt = 0 then Some (- EINVAL, m)
            else if n < 0 then None
            else sg_gather (store_bytes m (dst + nat copied) (load_bytes m virt (nat n))) sg dst len (copied + n))
      else Some (if copied = len then 0 else - EINVAL, m))"

fun sg_scatter :: "(addr \<Rightarrow> u8) \<Rightarrow> sg_entry list \<Rightarrow> addr \<Rightarrow> int \<Rightarrow> int \<Rightarrow> (int \<times> (addr \<Rightarrow> u8)) option" where
  "sg_scatter m [] src len copied = Some (if copied = len then 0 else - EINVAL, m)"
| "sg_scatter m ((virt, l) # sg) src len copied =
     (if copied < len then
        (let n = frag_len l (len - copied)
         in if virt = 0 then Some (- EINVAL, m)
            else if n < 0 then None
            else sg_scatter (store_bytes m virt (load_bytes m (src + nat copied) (nat n))) sg src len (copied + n))
      else Some (if copied = len then 0 else - EINVAL, m))"

definition usb_sg_copy_from_urb :: "(addr \<Rightarrow> u8) \<Rightarrow> sg_entry list \<Rightarrow> int \<Rightarrow> addr \<Rightarrow> int \<Rightarrow> (int \<times> (addr \<Rightarrow> u8)) option" where
  "usb_sg_copy_from_urb m sg num dst len =
     (if dst = 0 \<or> len < 0 then Some (- EINVAL, m) else sg_gather m (take (nat num) sg) dst len 0)"

definition usb_sg_copy_to_urb :: "(addr \<Rightarrow> u8) \<Rightarrow> sg_entry list \<Rightarrow> int \<Rightarrow> addr \<Rightarrow> int \<Rightarrow> (int \<times> (addr \<Rightarrow> u8)) option" where
  "usb_sg_copy_to_urb m sg num src len =
     (if src = 0 \<or> len < 0 then Some (- EINVAL, m) else sg_scatter m (take (nat num) sg) src len 0)"

section \<open>Descriptors\<close>

text \<open>An endpoint descriptor is its seven bytes.\<close>

type_synonym ep_desc = "u8 list"

definition EP_DESC_SIZE :: nat where "EP_DESC_SIZE = 7"
definition SS_COMP_SIZE :: nat where "SS_COMP_SIZE = 6"

definition ep_address :: "ep_desc \<Rightarrow> u8" where "ep_address d = d ! 2"
definition ep_attributes :: "ep_desc \<Rightarrow> u8" where "ep_attributes d = d ! 3"

text \<open>
  The walk over an interface's descriptors from \<open>ptr\<close> to \<open>end\<close>: the endpoint descriptors, at most as
  many as there is room for.
\<close>

function ep_walk :: "usb_codes \<Rightarrow> (addr \<Rightarrow> u8) \<Rightarrow> nat \<Rightarrow> addr \<Rightarrow> addr \<Rightarrow> ep_desc list" where
  "ep_walk c m room ptr lim =
     (if ptr = 0 \<or> lim = 0 \<or> ptr + 2 > lim \<or> room = 0 then []
      else
        let len = m ptr; type = m (ptr + 1)
        in if len < 2 then []
           else if type = dt_interface c then []
           else if type = dt_endpoint c \<and> ptr + EP_DESC_SIZE \<le> lim
                then load_bytes m ptr EP_DESC_SIZE # ep_walk c m (room - 1) (ptr + unat len) lim
                else ep_walk c m room (ptr + unat len) lim)"
  by pat_completeness auto
termination
  by (relation "measure (\<lambda>(c, m, room, ptr, lim). lim - ptr)") (auto simp: word_less_nat_alt)

declare ep_walk.simps [simp del]

text \<open>A native interface: its descriptor, the end of its descriptors, and its device.\<close>

record native_iface =
  ni_iface :: addr
  ni_end :: addr
  ni_dev :: nat
  ni_vendor :: u16
  ni_product :: u16

definition MAX_USB_ENDPOINTS :: nat where "MAX_USB_ENDPOINTS = 16"

definition usb_collect_endpoints :: "usb_codes \<Rightarrow> (addr \<Rightarrow> u8) \<Rightarrow> native_iface option \<Rightarrow> ep_desc list" where
  "usb_collect_endpoints c m intf =
     (case intf of
        None \<Rightarrow> []
      | Some i \<Rightarrow> if ni_iface i = 0 then []
                 else ep_walk c m MAX_USB_ENDPOINTS (ni_iface i + unat (m (ni_iface i))) (ni_end i))"

text \<open>What an endpoint is looked up by: its address with the direction, and the transfer type.\<close>

definition pipe_epaddr :: "u32 \<Rightarrow> u8" where
  "pipe_epaddr pipe =
     ((ucast (usb_pipe_ep pipe) :: u8) AND USB_ENDPOINT_NUMBER_MASK) OR (if usb_pipe_dir_in pipe then 0x80 else 0)"

definition pipe_xfer :: "u32 \<Rightarrow> u8" where
  "pipe_xfer pipe = (if usb_pipe_type pipe = PIPE_TYPE_INT then USB_ENDPOINT_XFER_INT else USB_ENDPOINT_XFER_BULK)"

definition ep_matches :: "u32 \<Rightarrow> ep_desc \<Rightarrow> bool" where
  "ep_matches pipe d = (ep_address d = pipe_epaddr pipe \<and> ep_attributes d AND USB_ENDPOINT_XFERTYPE_MASK = pipe_xfer pipe)"

text \<open>The addresses of the matching endpoint descriptor and of the companion right after it.\<close>

function find_ep_walk :: "usb_codes \<Rightarrow> (addr \<Rightarrow> u8) \<Rightarrow> u32 \<Rightarrow> addr option \<Rightarrow> addr \<Rightarrow> addr \<Rightarrow> addr option \<times> addr option" where
  "find_ep_walk c m pipe matched ptr lim =
     (if ptr = 0 \<or> lim = 0 \<or> ptr + 2 > lim then (matched, None)
      else
        let len = m ptr; type = m (ptr + 1)
        in if len < 2 then (matched, None)
           else if type = dt_interface c then (matched, None)
           else if matched \<noteq> None
                then (matched, if type = dt_companion c \<and> ptr + SS_COMP_SIZE \<le> lim then Some ptr else None)
           else find_ep_walk c m pipe
                  (if type = dt_endpoint c \<and> ptr + EP_DESC_SIZE \<le> lim \<and> ep_matches pipe (load_bytes m ptr EP_DESC_SIZE)
                   then Some ptr else None) (ptr + unat len) lim)"
  by pat_completeness auto
termination
  by (relation "measure (\<lambda>(c, m, pipe, matched, ptr, lim). lim - ptr)") (auto simp: word_less_nat_alt)

declare find_ep_walk.simps [simp del]

definition usb_find_ep_in_iface :: "usb_codes \<Rightarrow> (addr \<Rightarrow> u8) \<Rightarrow> native_iface option \<Rightarrow> u32 \<Rightarrow> addr option \<times> addr option" where
  "usb_find_ep_in_iface c m intf pipe =
     (case intf of
        None \<Rightarrow> (None, None)
      | Some i \<Rightarrow> find_ep_walk c m pipe None (ni_iface i + unat (m (ni_iface i))) (ni_end i))"

fun ep_index :: "ep_desc list \<Rightarrow> u32 \<Rightarrow> nat \<Rightarrow> int" where
  "ep_index [] pipe i = - 1"
| "ep_index (d # ds) pipe i = (if ep_matches pipe d then int i else ep_index ds pipe (i + 1))"

definition usb_find_wrapper_ep_index :: "ep_desc list option \<Rightarrow> u32 \<Rightarrow> int" where
  "usb_find_wrapper_ep_index eps pipe = (case eps of None \<Rightarrow> - 1 | Some ds \<Rightarrow> ep_index ds pipe 0)"

section \<open>Endpoint predicates\<close>

definition usb_endpoint_num :: "ep_desc option \<Rightarrow> u8" where
  "usb_endpoint_num d = (case d of None \<Rightarrow> 0 | Some d \<Rightarrow> ep_address d AND USB_ENDPOINT_NUMBER_MASK)"

definition usb_endpoint_dir_in :: "ep_desc option \<Rightarrow> bool" where
  "usb_endpoint_dir_in d = (case d of None \<Rightarrow> False | Some d \<Rightarrow> ep_address d AND 0x80 \<noteq> 0)"

definition usb_endpoint_dir_out :: "ep_desc option \<Rightarrow> bool" where
  "usb_endpoint_dir_out d = (case d of None \<Rightarrow> False | Some d \<Rightarrow> ep_address d AND 0x80 = 0)"

definition usb_endpoint_xfer_bulk :: "ep_desc option \<Rightarrow> bool" where
  "usb_endpoint_xfer_bulk d =
     (case d of None \<Rightarrow> False | Some d \<Rightarrow> ep_attributes d AND USB_ENDPOINT_XFERTYPE_MASK = USB_ENDPOINT_XFER_BULK)"

definition usb_endpoint_xfer_int :: "ep_desc option \<Rightarrow> bool" where
  "usb_endpoint_xfer_int d =
     (case d of None \<Rightarrow> False | Some d \<Rightarrow> ep_attributes d AND USB_ENDPOINT_XFERTYPE_MASK = USB_ENDPOINT_XFER_INT)"

definition usb_endpoint_is_bulk_in :: "ep_desc option \<Rightarrow> bool" where
  "usb_endpoint_is_bulk_in d = (usb_endpoint_xfer_bulk d \<and> usb_endpoint_dir_in d)"

definition usb_endpoint_is_bulk_out :: "ep_desc option \<Rightarrow> bool" where
  "usb_endpoint_is_bulk_out d = (usb_endpoint_xfer_bulk d \<and> usb_endpoint_dir_out d)"

section \<open>Matching drivers\<close>

record usb_device_id =
  id_match_flags :: u16
  id_vendor :: u16
  id_product :: u16
  id_class :: u8
  id_subclass :: u8
  id_protocol :: u8

text \<open>Interface class, subclass and protocol are bytes 5 to 7 of the interface descriptor.\<close>

definition id_matches :: "(addr \<Rightarrow> u8) \<Rightarrow> native_iface \<Rightarrow> usb_device_id \<Rightarrow> bool" where
  "id_matches m i d =
     (\<not> (id_match_flags d AND 1 \<noteq> 0 \<and> id_vendor d \<noteq> ni_vendor i) \<and>
      \<not> (id_match_flags d AND 2 \<noteq> 0 \<and> id_product d \<noteq> ni_product i) \<and>
      \<not> (id_match_flags d AND 4 \<noteq> 0 \<and> id_class d \<noteq> m (ni_iface i + 5)) \<and>
      \<not> (id_match_flags d AND 8 \<noteq> 0 \<and> id_subclass d \<noteq> m (ni_iface i + 6)) \<and>
      \<not> (id_match_flags d AND 16 \<noteq> 0 \<and> id_protocol d \<noteq> m (ni_iface i + 7)))"

text \<open>The table ends at its first entry without match flags, here also at the end of the list.\<close>

fun match_ids :: "(addr \<Rightarrow> u8) \<Rightarrow> native_iface \<Rightarrow> usb_device_id list \<Rightarrow> usb_device_id option" where
  "match_ids m i [] = None"
| "match_ids m i (d # ds) =
     (if id_match_flags d = 0 then None else if id_matches m i d then Some d else match_ids m i ds)"

definition usb_match_one :: "(addr \<Rightarrow> u8) \<Rightarrow> usb_device_id list option \<Rightarrow> native_iface option \<Rightarrow> usb_device_id option" where
  "usb_match_one m ids intf =
     (case (ids, intf) of
        (Some ds, Some i) \<Rightarrow> if ni_iface i = 0 then None else match_ids m i ds
      | _ \<Rightarrow> None)"

text \<open>The identifiers \<^verbatim>\<open>usb_register_driver\<close> copies for the host.\<close>

definition native_ids :: "usb_device_id list option \<Rightarrow> usb_device_id list" where
  "native_ids ids = (case ids of None \<Rightarrow> [] | Some ds \<Rightarrow> takeWhile (\<lambda>d. id_match_flags d \<noteq> 0) ds)"

section \<open>Lengths and copies\<close>

text \<open>The bytes of a scatter list, how many they are, and where they may lie.\<close>

definition sg_bytes :: "(addr \<Rightarrow> u8) \<Rightarrow> sg_entry list \<Rightarrow> u8 list" where
  "sg_bytes m sg = concat (map (\<lambda>(v, l). load_bytes m v (unat l)) sg)"

definition sg_len :: "sg_entry list \<Rightarrow> nat" where
  "sg_len sg = sum_list (map (\<lambda>(v, l). unat l) sg)"

definition sg_apart :: "sg_entry list \<Rightarrow> addr \<Rightarrow> nat \<Rightarrow> bool" where
  "sg_apart sg a n = list_all (\<lambda>(v, l). v + unat l \<le> a \<or> a + n \<le> v) sg"

primrec sg_disjoint :: "sg_entry list \<Rightarrow> bool" where
  "sg_disjoint [] = True"
| "sg_disjoint (e # sg) = (sg_apart sg (fst e) (unat (snd e)) \<and> sg_disjoint sg)"

definition sg_ok :: "sg_entry list \<Rightarrow> bool" where
  "sg_ok sg = list_all (\<lambda>(v, l). v \<noteq> 0 \<and> unat l \<le> 2147483647) sg"

lemma sg_simps [simp]:
  "sg_bytes m [] = []" "sg_bytes m ((v, l) # sg) = load_bytes m v (unat l) @ sg_bytes m sg"
  "sg_len [] = 0" "sg_len ((v, l) # sg) = unat l + sg_len sg"
  "sg_apart [] a n" "sg_apart ((v, l) # sg) a n = ((v + unat l \<le> a \<or> a + n \<le> v) \<and> sg_apart sg a n)"
  "sg_ok []" "sg_ok ((v, l) # sg) = (v \<noteq> 0 \<and> unat l \<le> 2147483647 \<and> sg_ok sg)"
  by (auto simp: sg_bytes_def sg_len_def sg_apart_def sg_ok_def)

lemma length_sg_bytes [simp]: "length (sg_bytes m sg) = sg_len sg"
  by (induction sg) auto

lemma sg_bytes_cong: "sg_apart sg a n \<Longrightarrow> (\<And>x. x < a \<or> a + n \<le> x \<Longrightarrow> m x = m' x) \<Longrightarrow> sg_bytes m sg = sg_bytes m' sg"
proof (induction sg)
  case (Cons e sg)
  obtain v l where e: "e = (v, l)" by (cases e)
  have "load_bytes m v (unat l) = load_bytes m' v (unat l)"
    using Cons.prems e by (intro load_bytes_cong) auto
  then show ?case using Cons e by simp
qed simp

lemma sg_total_good: "0 \<le> acc \<Longrightarrow> sg_ok sg \<Longrightarrow> acc + int (sg_len sg) \<le> INT_MAX \<Longrightarrow> sg_total sg acc = acc + int (sg_len sg)"
proof (induction sg arbitrary: acc)
  case (Cons e sg)
  obtain v l where e: "e = (v, l)" by (cases e)
  have c: "v \<noteq> 0" "sg_ok sg" using Cons.prems(2) e by simp_all
  have s: "acc + (int (unat l) + int (sg_len sg)) \<le> INT_MAX" using Cons.prems(3) unfolding e sg_simps of_nat_add .
  then have b: "\<not> int (unat l) > INT_MAX - acc" by linarith
  have "sg_total sg (acc + int (unat l)) = acc + int (unat l) + int (sg_len sg)"
    using Cons.prems(1) c(2) s by (intro Cons.IH) linarith+
  then show ?case using c(1) b unfolding e sg_total.simps by (simp only: if_False sg_simps of_nat_add add.assoc)
qed simp

lemma sg_total_cases: "0 \<le> acc \<Longrightarrow> acc \<le> INT_MAX \<Longrightarrow>
  sg_ok sg \<and> acc + int (sg_len sg) \<le> INT_MAX \<or> sg_total sg acc = - EINVAL \<or> sg_total sg acc = - EOVERFLOW"
proof (induction sg arbitrary: acc)
  case (Cons e sg)
  obtain v l where e: "e = (v, l)" by (cases e)
  show ?case
  proof (cases "v = 0 \<or> int (unat l) > INT_MAX - acc")
    case True
    then show ?thesis unfolding e sg_total.simps by (cases "v = 0") (simp_all only: if_True if_False simp_thms)
  next
    case False
    then have "unat l \<le> 2147483647" using Cons.prems(1) unfolding INT_MAX_def by linarith
    moreover have "0 \<le> acc + int (unat l)" "acc + int (unat l) \<le> INT_MAX" using False Cons.prems by linarith+
    note Cons.IH [OF this]
    moreover have "sg_total (e # sg) acc = sg_total sg (acc + int (unat l))"
      using False unfolding e sg_total.simps by (simp only: if_False de_Morgan_disj)
    moreover have "int (sg_len (e # sg)) = int (unat l) + int (sg_len sg)" unfolding e by (simp only: sg_simps of_nat_add)
    ultimately show ?thesis using False e by (simp only: sg_simps add.assoc de_Morgan_disj simp_thms)
  qed
qed simp

lemma sg_total_ok:
  assumes "0 \<le> sg_total sg 0"
  shows "sg_ok sg \<and> sg_total sg 0 = int (sg_len sg) \<and> int (sg_len sg) \<le> INT_MAX"
proof -
  have "sg_ok sg \<and> 0 + int (sg_len sg) \<le> INT_MAX"
    using sg_total_cases [of 0 sg] assms by (auto simp: INT_MAX_def errno_defs)
  then show ?thesis using sg_total_good [of 0 sg] by simp
qed

lemma frag_len_eq: "unat l \<le> 2147483647 \<Longrightarrow> frag_len l left = min (int (unat l)) left"
proof -
  assume "unat l \<le> 2147483647"
  then have "int (unat l) \<le> 2147483647" by linarith
  then have "uint l < 2 ^ 31" by simp
  then have "sint l = uint l" using uint_ge_0 [of l] by (simp add: sint_uint, intro signed_take_bit_int_eq_self) linarith+
  then show ?thesis by (simp add: frag_len_def)
qed

lemma frag_len_nat:
  assumes "unat l \<le> 2147483647" and "c \<le> N"
  shows "frag_len l (int N - int c) = int (min (unat l) (N - c))"
proof -
  have "int N - int c = int (N - c)" using assms(2) by (simp add: of_nat_diff)
  then show ?thesis unfolding frag_len_eq [OF assms(1)] by (simp only: of_nat_min)
qed

lemma store_bytes_append: "store_bytes (store_bytes m a xs) (a + length xs) ys = store_bytes m a (xs @ ys)"
  by (rule ext) (auto simp: store_bytes_def nth_append)

lemma load_store_apart: "v + n \<le> a \<or> a + length bs \<le> v \<Longrightarrow> load_bytes (store_bytes m a bs) v n = load_bytes m v n"
  by (rule load_store_disjoint) auto

text \<open>Gathering: the buffer receives the first \<open>N\<close> bytes of the list, and nothing else changes.\<close>

lemma sg_gather_eq:
  "sg_ok sg \<Longrightarrow> sg_apart sg dst N \<Longrightarrow> c \<le> N \<Longrightarrow> N \<le> c + sg_len sg \<Longrightarrow>
     sg_gather m sg dst (int N) (int c) = Some (0, store_bytes m (dst + c) (take (N - c) (sg_bytes m sg)))"
proof (induction sg arbitrary: m c)
  case (Cons e sg)
  obtain v l where e: "e = (v, l)" by (cases e)
  define n where "n = min (unat l) (N - c)"
  have ok: "v \<noteq> 0" "unat l \<le> 2147483647" "sg_ok sg" "sg_apart sg dst N" using Cons.prems e by auto
  show ?case
  proof (cases "c < N")
    case True
    have fl: "frag_len l (int N - int c) = int n"
      using frag_len_nat [OF ok(2), of c N] True unfolding n_def by simp
    let ?m1 = "store_bytes m (dst + c) (load_bytes m v n)"
    have IH: "sg_gather ?m1 sg dst (int N) (int (c + n)) =
        Some (0, store_bytes ?m1 (dst + (c + n)) (take (N - (c + n)) (sg_bytes ?m1 sg)))"
      using Cons.prems e True by (intro Cons.IH ok) (auto simp: n_def)
    have same: "sg_bytes ?m1 sg = sg_bytes m sg"
      by (rule sg_bytes_cong [OF ok(4)]) (use True in \<open>auto simp: store_bytes_other n_def\<close>)
    have "store_bytes ?m1 (dst + (c + n)) (take (N - (c + n)) (sg_bytes m sg)) =
        store_bytes m (dst + c) (load_bytes m v n @ take (N - (c + n)) (sg_bytes m sg))"
      using store_bytes_append [of m "dst + c" "load_bytes m v n"] by (simp add: add.assoc)
    also have "load_bytes m v n @ take (N - (c + n)) (sg_bytes m sg) = take (N - c) (sg_bytes m (e # sg))"
      unfolding e n_def by (simp add: min_def)
    finally have eq: "store_bytes ?m1 (dst + (c + n)) (take (N - (c + n)) (sg_bytes m sg)) =
        store_bytes m (dst + c) (take (N - c) (sg_bytes m (e # sg)))" .
    show ?thesis using True ok(1) IH by (simp add: e fl Let_def same eq [unfolded e sg_simps])
  qed (use Cons.prems e in simp)
qed simp

text \<open>Scattering: the first bytes of the list become those of the buffer, and only fragments change.\<close>

lemma sg_scatter_eq:
  "sg_ok sg \<Longrightarrow> sg_disjoint sg \<Longrightarrow> sg_apart sg src N \<Longrightarrow> c \<le> N \<Longrightarrow> N \<le> c + sg_len sg \<Longrightarrow>
     \<exists>m'. sg_scatter m sg src (int N) (int c) = Some (0, m') \<and>
          take (N - c) (sg_bytes m' sg) = load_bytes m (src + c) (N - c) \<and>
          (\<forall>x. sg_apart sg x 1 \<longrightarrow> m' x = m x)"
proof (induction sg arbitrary: m c)
  case (Cons e sg)
  obtain v l where e: "e = (v, l)" by (cases e)
  define n where "n = min (unat l) (N - c)"
  have ok: "v \<noteq> 0" "unat l \<le> 2147483647" "sg_ok sg" "sg_apart sg src N" "sg_disjoint sg"
    "sg_apart sg v (unat l)" "v + unat l \<le> src \<or> src + N \<le> v"
    using Cons.prems e by auto
  show ?case
  proof (cases "c < N")
    case True
    have fl: "frag_len l (int N - int c) = int n"
      using frag_len_nat [OF ok(2), of c N] True unfolding n_def by simp
    let ?m1 = "store_bytes m v (load_bytes m (src + c) n)"
    have lim: "c + n \<le> N" "N \<le> c + n + sg_len sg" using Cons.prems e True by (auto simp: n_def)
    obtain m' where m': "sg_scatter ?m1 sg src (int N) (int (c + n)) = Some (0, m')"
        "take (N - (c + n)) (sg_bytes m' sg) = load_bytes ?m1 (src + (c + n)) (N - (c + n))"
        "\<forall>x. sg_apart sg x 1 \<longrightarrow> m' x = ?m1 x"
      using Cons.IH [OF ok(3,5,4) lim, of ?m1] by blast
    have frag: "x < v + unat l \<Longrightarrow> v \<le> x \<Longrightarrow> sg_apart sg x 1" for x
      using ok(6) by (auto simp: sg_apart_def list_all_iff)
    have head: "load_bytes m' v n = load_bytes m (src + c) n"
    proof -
      have "load_bytes m' v n = load_bytes ?m1 v n"
        using m'(3) frag by (intro load_bytes_cong) (auto simp: n_def)
      then show ?thesis by (simp add: load_store_same)
    qed
    have rest: "load_bytes ?m1 (src + (c + n)) (N - (c + n)) = load_bytes m (src + c + n) (N - (c + n))"
      using ok(7) True by (subst load_store_apart) (auto simp: n_def add.assoc)
    have "take (N - c) (sg_bytes m' (e # sg)) = load_bytes m' v n @ take (N - (c + n)) (sg_bytes m' sg)"
      unfolding e n_def by (simp add: min_def)
    also have "\<dots> = load_bytes m (src + c) (N - c)"
      using load_bytes_split [of n "N - c" m "src + c"] m'(2) rest head by (simp add: n_def)
    finally have A: "take (N - c) (sg_bytes m' (e # sg)) = load_bytes m (src + c) (N - c)" .
    have B: "\<forall>x. sg_apart (e # sg) x 1 \<longrightarrow> m' x = m x"
      using m'(3) by (auto simp: e n_def intro: store_bytes_other)
    show ?thesis using True ok(1) m'(1) A B by (intro exI [of _ m']) (simp add: e fl Let_def)
  qed (use Cons.prems e in simp)
qed simp

section \<open>The length a request asks for fits its scatter list\<close>

lemma data_len_sg:
  assumes "usb_urb_data_len (Some sg) num blen = n" and "0 < num" and "0 \<le> n"
  shows "sg_ok (take (nat num) sg) \<and> n \<le> int (sg_len (take (nat num) sg)) \<and> int (sg_len (take (nat num) sg)) \<le> INT_MAX"
proof -
  have t: "usb_sg_total_len (Some sg) num = sg_total (take (nat num) sg) 0"
    using assms(2) by (simp add: usb_sg_total_len_def)
  have nn: "0 \<le> sg_total (take (nat num) sg) 0"
    using assms by (auto simp: usb_urb_data_len_def t Let_def split: if_splits)
  then have "n \<le> sg_total (take (nat num) sg) 0"
    using assms by (auto simp: usb_urb_data_len_def t Let_def errno_defs split: if_splits)
  then show ?thesis using sg_total_ok [OF nn] by simp
qed

lemma copy_from_urb_eq:
  assumes "usb_urb_data_len (Some sg) num blen = n" and "0 < num" and "0 \<le> n" and "dst \<noteq> 0"
    and "sg_apart (take (nat num) sg) dst (nat n)"
  shows "usb_sg_copy_from_urb m sg num dst n = Some (0, store_bytes m dst (take (nat n) (sg_bytes m (take (nat num) sg))))"
proof -
  have "sg_ok (take (nat num) sg)" "nat n \<le> 0 + sg_len (take (nat num) sg)"
    using data_len_sg [OF assms(1-3)] by auto
  from sg_gather_eq [OF this(1) assms(5) _ this(2)] show ?thesis
    using assms(3,4) by (simp add: usb_sg_copy_from_urb_def)
qed

lemma copy_to_urb_ex:
  assumes "usb_urb_data_len (Some sg) num blen = n" and "0 < num" and "0 \<le> k" and "k \<le> n" and "src \<noteq> 0"
    and "sg_disjoint (take (nat num) sg)" and "sg_apart (take (nat num) sg) src (nat k)"
  shows "\<exists>m'. usb_sg_copy_to_urb m sg num src k = Some (0, m') \<and>
           take (nat k) (sg_bytes m' (take (nat num) sg)) = load_bytes m src (nat k) \<and>
           (\<forall>x. sg_apart (take (nat num) sg) x 1 \<longrightarrow> m' x = m x)"
proof -
  have "sg_ok (take (nat num) sg)" "nat k \<le> 0 + sg_len (take (nat num) sg)"
    using data_len_sg [OF assms(1,2)] assms(3,4) by auto
  from sg_scatter_eq [OF this(1) assms(6,7) _ this(2)] show ?thesis
    using assms(3,5) by (simp add: usb_sg_copy_to_urb_def)
qed

text \<open>
  C31. Scatter and gather are inverse.  For every request whose length check passes, copying \<open>n\<close>
  received bytes from a buffer into the scatter list and copying the list back into another buffer
  succeeds and gives the same bytes.
\<close>

theorem usb_sg_roundtrip:
  assumes "usb_urb_data_len (Some sg) num blen = n" and "0 < num" and "0 \<le> n" and "src \<noteq> 0" and "dst \<noteq> 0"
    and "sg_disjoint (take (nat num) sg)"
    and "sg_apart (take (nat num) sg) src (nat n)" and "sg_apart (take (nat num) sg) dst (nat n)"
  shows "\<exists>m1 m2. usb_sg_copy_to_urb m sg num src n = Some (0, m1) \<and>
           usb_sg_copy_from_urb m1 sg num dst n = Some (0, m2) \<and>
           load_bytes m2 dst (nat n) = load_bytes m src (nat n)"
proof -
  obtain m1 where m1: "usb_sg_copy_to_urb m sg num src n = Some (0, m1)"
      "take (nat n) (sg_bytes m1 (take (nat num) sg)) = load_bytes m src (nat n)"
    using copy_to_urb_ex [OF assms(1-3) order_refl assms(4,6,7)] by blast
  show ?thesis
    using m1 copy_from_urb_eq [OF assms(1-3,5,8), of m1] by (simp add: load_store_same)
qed

theorem usb_sg_roundtrip_witness:
  "usb_urb_data_len (Some [(100, 3), (200, 2)]) 2 4 = 4 \<and>
   (\<exists>m1 m2. usb_sg_copy_to_urb (\<lambda>a. of_nat a) [(100, 3), (200, 2)] 2 300 4 = Some (0, m1) \<and>
      usb_sg_copy_from_urb m1 [(100, 3), (200, 2)] 2 400 4 = Some (0, m2) \<and>
      load_bytes m2 400 4 = load_bytes (\<lambda>a. of_nat a) 300 4)"
proof -
  have len: "usb_urb_data_len (Some [(100, 3), (200, 2)]) 2 4 = 4"
    by (simp add: usb_urb_data_len_def usb_sg_total_len_def INT_MAX_def)
  show ?thesis
    using usb_sg_roundtrip [OF len, of 300 400 "\<lambda>a. of_nat a"] len by simp
qed

section \<open>Walking descriptors\<close>

lemma ep_walk_le: "length (ep_walk c m room ptr lim) \<le> room"
  by (induction c m room ptr lim rule: ep_walk.induct) (subst ep_walk.simps, auto simp: Let_def Suc_le_eq)

text \<open>
  A match among the endpoints collected is the one the search finds; when there is none the search finds
  nothing either, or the table is full.
\<close>

lemma find_ep_matched: "fst (find_ep_walk c m pipe (Some p) ptr lim) = Some p"
  by (subst find_ep_walk.simps) (simp add: Let_def)

lemma find_ep_collected:
  "case find (ep_matches pipe) (ep_walk c m room ptr lim) of
     Some d \<Rightarrow> map_option (\<lambda>p. load_bytes m p EP_DESC_SIZE) (fst (find_ep_walk c m pipe None ptr lim)) = Some d
   | None \<Rightarrow> fst (find_ep_walk c m pipe None ptr lim) = None \<or> length (ep_walk c m room ptr lim) = room"
proof (induction c m room ptr lim rule: ep_walk.induct)
  case (1 c m room ptr lim)
  show ?case
  proof (cases "ptr = 0 \<or> lim = 0 \<or> ptr + 2 > lim \<or> room = 0 \<or> m ptr < 2 \<or> m (ptr + 1) = dt_interface c")
    case True
    then show ?thesis
      by (subst (1 2) ep_walk.simps, subst (1 2) find_ep_walk.simps) (auto simp: Let_def)
  next
    case False
    show ?thesis
    proof (cases "m (ptr + 1) = dt_endpoint c \<and> ptr + EP_DESC_SIZE \<le> lim")
      case True
      have w: "ep_walk c m room ptr lim = load_bytes m ptr EP_DESC_SIZE # ep_walk c m (room - 1) (ptr + unat (m ptr)) lim"
        using False True by (subst ep_walk.simps) (simp add: Let_def)
      have f: "find_ep_walk c m pipe None ptr lim =
          find_ep_walk c m pipe (if ep_matches pipe (load_bytes m ptr EP_DESC_SIZE) then Some ptr else None) (ptr + unat (m ptr)) lim"
        using False True by (subst find_ep_walk.simps) (simp add: Let_def)
      show ?thesis
      proof (cases "ep_matches pipe (load_bytes m ptr EP_DESC_SIZE)")
        case True
        then show ?thesis unfolding w f by (simp add: find_ep_matched)
      next
        case no: False
        have "0 < room" using False by simp
        then show ?thesis using "1.IH"(1) [OF _ refl refl] False True no unfolding w f by (auto split: option.splits)
      qed
    next
      case no: False
      have w: "ep_walk c m room ptr lim = ep_walk c m room (ptr + unat (m ptr)) lim"
        using False no by (subst ep_walk.simps) (auto simp: Let_def)
      have f: "find_ep_walk c m pipe None ptr lim = find_ep_walk c m pipe None (ptr + unat (m ptr)) lim"
        using False no by (subst find_ep_walk.simps) (auto simp: Let_def)
      show ?thesis using "1.IH"(2) False no unfolding w f by auto
    qed
  qed
qed

lemma ep_index_find: "(ep_index ds pipe i = - 1) = (find (ep_matches pipe) ds = None)"
  by (induction ds arbitrary: i) auto

lemma ep_index_nth: "ep_index ds pipe i = int k \<Longrightarrow> i \<le> k \<and> k < i + length ds \<and> find (ep_matches pipe) ds = Some (ds ! (k - i))"
proof (induction ds arbitrary: i)
  case (Cons d ds)
  show ?case
  proof (cases "ep_matches pipe d")
    case False
    then have "i + 1 \<le> k \<and> k < i + 1 + length ds \<and> find (ep_matches pipe) ds = Some (ds ! (k - (i + 1)))"
      using Cons.prems Cons.IH [of "i + 1"] by simp
    then show ?thesis using False by (auto simp: nth_Cons' Suc_le_eq)
  qed (use Cons.prems in auto)
qed simp

lemma ep_index_range: "ep_index ds pipe i = - 1 \<or> (\<exists>k. ep_index ds pipe i = int k)"
  by (induction ds arbitrary: i) auto

text \<open>
  C32. The two lookups of an endpoint agree, up to the size of the table.  When the index lookup in the
  collected table finds an endpoint, the search through the raw descriptors finds the same seven bytes;
  when it finds none the search finds none either, unless all sixteen places of the table are taken.
\<close>

theorem usb_lookups_agree:
  assumes "ni_iface i \<noteq> 0"
  shows "let eps = usb_collect_endpoints c m (Some i);
             index = usb_find_wrapper_ep_index (Some eps) pipe;
             found = fst (usb_find_ep_in_iface c m (Some i) pipe)
         in (index \<noteq> - 1 \<longrightarrow> 0 \<le> index \<and> index < int (length eps) \<and>
               (\<exists>p. found = Some p \<and> load_bytes m p EP_DESC_SIZE = eps ! nat index)) \<and>
            (index = - 1 \<longrightarrow> found = None \<or> length eps = MAX_USB_ENDPOINTS) \<and> length eps \<le> MAX_USB_ENDPOINTS"
proof -
  let ?eps = "usb_collect_endpoints c m (Some i)" and ?found = "fst (usb_find_ep_in_iface c m (Some i) pipe)"
  let ?start = "ni_iface i + unat (m (ni_iface i))"
  have col: "?eps = ep_walk c m MAX_USB_ENDPOINTS ?start (ni_end i)"
    using assms by (simp add: usb_collect_endpoints_def)
  have eq: "case find (ep_matches pipe) ?eps of
      Some d \<Rightarrow> map_option (\<lambda>p. load_bytes m p EP_DESC_SIZE) ?found = Some d
    | None \<Rightarrow> ?found = None \<or> length ?eps = MAX_USB_ENDPOINTS"
    using find_ep_collected [where pipe = pipe and c = c and m = m and room = MAX_USB_ENDPOINTS and ptr = ?start and lim = "ni_end i"] assms
    unfolding col by (auto simp: usb_find_ep_in_iface_def split: option.splits)
  have "ep_index ?eps pipe 0 = - 1 \<Longrightarrow> ?found = None \<or> length ?eps = MAX_USB_ENDPOINTS"
    using eq by (simp add: ep_index_find)
  moreover have "\<exists>p. ?found = Some p \<and> load_bytes m p EP_DESC_SIZE = ?eps ! k" "k < length ?eps"
    if "ep_index ?eps pipe 0 = int k" for k
    using ep_index_nth [OF that] eq by auto
  moreover have "length ?eps \<le> MAX_USB_ENDPOINTS" unfolding col by (rule ep_walk_le)
  ultimately show ?thesis
    using ep_index_range [of ?eps pipe 0] by (auto simp: usb_find_wrapper_ep_index_def Let_def)
qed

text \<open>An interface descriptor of nine bytes at 10, a bulk-in and a bulk-out endpoint, ending at 33.\<close>

definition demo_codes :: usb_codes where
  "demo_codes = \<lparr>ev_success = 0, ev_short_packet = 1, ev_stall = - 2, ev_babble = - 3, ev_timeout = - 4, ev_error = - 1,
     sp_low = 0, sp_full = 1, sp_high = 2, sp_super = 3, dt_interface = 4, dt_endpoint = 5, dt_companion = 48\<rparr>"

definition demo_desc :: "addr \<Rightarrow> u8" where
  "demo_desc a =
     (let ds = [9, 4, 0, 0, 2, 255, 1, 1, 0, 7, 5, 0x81, 2, 0, 2, 0, 7, 5, 0x02, 2, 0, 2, 0]
      in if 10 \<le> a \<and> a < 33 then ds ! (a - 10) else 0)"

definition demo_iface :: native_iface where
  "demo_iface = \<lparr>ni_iface = 10, ni_end = 33, ni_dev = 1, ni_vendor = 0x0bda, ni_product = 0x8812\<rparr>"

lemma demo_codes_types: "dt_interface demo_codes = 4" "dt_endpoint demo_codes = 5"
  by (simp_all add: demo_codes_def)

lemma demo_walk:
  "usb_collect_endpoints demo_codes demo_desc (Some demo_iface) = [[7, 5, 0x81, 2, 0, 2, 0], [7, 5, 0x02, 2, 0, 2, 0]]"
proof -
  have a: "ep_walk demo_codes demo_desc 14 33 33 = []"
    by (subst ep_walk.simps) simp
  have b: "ep_walk demo_codes demo_desc 15 26 33 = [[7, 5, 0x02, 2, 0, 2, 0]]"
    by (subst ep_walk.simps) (simp add: a Let_def demo_desc_def demo_codes_types EP_DESC_SIZE_def load_bytes_def upt_rec)
  have "ep_walk demo_codes demo_desc 16 19 33 = [[7, 5, 0x81, 2, 0, 2, 0], [7, 5, 0x02, 2, 0, 2, 0]]"
    by (subst ep_walk.simps) (simp add: b Let_def demo_desc_def demo_codes_types EP_DESC_SIZE_def load_bytes_def upt_rec)
  then show ?thesis
    by (simp add: usb_collect_endpoints_def demo_iface_def demo_desc_def MAX_USB_ENDPOINTS_def)
qed

lemma demo_index: "usb_find_wrapper_ep_index (Some [[7, 5, 0x81, 2, 0, 2, 0], [7, 5, 0x02, 2, 0, 2, 0]]) (usb_pipe 2 False 1) = 1"
  by (simp add: usb_find_wrapper_ep_index_def ep_matches_def pipe_epaddr_def pipe_xfer_def usb_pipe_def usb_pipe_ep_def
      usb_pipe_dir_in_def usb_pipe_type_def usb_consts ep_address_def ep_attributes_def)

theorem usb_lookups_agree_witness:
  "usb_find_wrapper_ep_index (Some (usb_collect_endpoints demo_codes demo_desc (Some demo_iface))) (usb_pipe 2 False 1) = 1 \<and>
   fst (usb_find_ep_in_iface demo_codes demo_desc (Some demo_iface) (usb_pipe 2 False 1)) \<noteq> None"
  using usb_lookups_agree [of demo_iface demo_codes demo_desc "usb_pipe 2 False 1"] demo_index
  by (simp add: demo_walk Let_def) (auto simp: demo_iface_def)

section \<open>Pipes\<close>

lemma usb_pipe_fields:
  "usb_pipe_type (usb_pipe ep dir type) = type AND 0xff"
  "usb_pipe_ep (usb_pipe ep dir type) = (ep AND 0xff) OR (if dir then USB_DIR_IN else 0)"
proof -
  have a: "bit (255 :: u32) n = (n < 8)" for n
    using bit_mask_iff [where 'a = "32 word", of 8 n] by (simp add: mask_eq_exp_minus_1 min_def) linarith
  have b: "bit (128 :: u32) n = (n = 7)" for n
    using bit_exp_iff [where 'a = "32 word", of 7 n] by auto
  show "usb_pipe_type (usb_pipe ep dir type) = type AND 0xff"
    unfolding usb_pipe_type_def usb_pipe_def USB_DIR_IN_def
    by (rule bit_word_eqI, cases dir, simp_all only: bit_and_iff bit_or_iff bit_drop_bit_eq o_apply bit_push_bit_iff possible_bit_word a b
        if_True if_False)
      (auto dest: bit_imp_le_length)
  show "usb_pipe_ep (usb_pipe ep dir type) = (ep AND 0xff) OR (if dir then USB_DIR_IN else 0)"
    unfolding usb_pipe_ep_def usb_pipe_def USB_DIR_IN_def
    by (rule bit_word_eqI, cases dir, simp_all only: bit_and_iff bit_or_iff bit_push_bit_iff possible_bit_word a b
        if_True if_False) auto
qed

text \<open>What the first match of a driver's table means.\<close>

lemma match_ids_first:
  "match_ids m i ds = Some d \<Longrightarrow> \<exists>us vs. ds = us @ d # vs \<and> id_matches m i d \<and> id_match_flags d \<noteq> 0 \<and>
     (\<forall>u\<in>set us. \<not> id_matches m i u)"
proof (induction ds)
  case (Cons a ds)
  show ?case
  proof (cases "id_match_flags a = 0 \<or> id_matches m i a")
    case True
    then show ?thesis using Cons.prems by (auto split: if_splits intro: exI [of _ "[]"])
  next
    case False
    then obtain us vs where "ds = us @ d # vs" "id_matches m i d" "id_match_flags d \<noteq> 0" "\<forall>u\<in>set us. \<not> id_matches m i u"
      using Cons by auto
    then show ?thesis using False by (intro exI [of _ "a # us"] exI [of _ vs]) auto
  qed
qed simp

lemma match_ids_native: "match_ids m i (native_ids (Some ds)) = match_ids m i ds"
  by (induction ds) (auto simp: native_ids_def)

end
