(* ===== verification/LC_Pci.thy ===== *)
theory LC_Pci
  imports LC_Prelude
begin

text \<open>
  The PCI layer of \<^verbatim>\<open>pci.c\<close> and \<^verbatim>\<open>linux/pci.h\<close>: wrappers around the host's devices, driver
  bindings and matching, configuration space and resources.

  A host device, a wrapper and a driver are numbers; \<^verbatim>\<open>struct pci_dev\<close> is part of its wrapper.  The fields
  of a host device are taken at the width of the members they are copied to.  Answers of the host are functions of the
  log of its calls, newest first, and callbacks of drivers are arguments.  Names are left out.
\<close>

section \<open>Data\<close>

record pci_bar =
  bar_address :: u64
  bar_size :: u64
  bar_mmio :: bool
  bar_prefetchable :: bool

record pci_native =
  pn_segment :: u16
  pn_bus :: u8
  pn_slot :: u8
  pn_func :: u8
  pn_vendor :: u16
  pn_device :: u16
  pn_subvendor :: u16
  pn_subdevice :: u16
  pn_revision :: u8
  pn_class :: u32
  pn_irq :: u8
  pn_bars :: "nat \<Rightarrow> pci_bar"

record pci_resource =
  res_start :: u64
  res_end :: u64
  res_flags :: u64

record pci_dev =
  pd_native :: nat
  pd_domain_nr :: u16
  pd_bus_number :: u8
  pd_vendor :: u16
  pd_device :: u16
  pd_subvendor :: u16
  pd_subdevice :: u16
  pd_revision :: u8
  pd_class :: u32
  pd_devfn :: u8
  pd_irq :: u8
  pd_msi_enabled :: bool
  pd_current_state :: int
  pd_resource :: "nat \<Rightarrow> pci_resource"
  pd_driver_data :: addr

record pci_device_id =
  pi_vendor :: u32
  pi_device :: u32
  pi_subvendor :: u32
  pi_subdevice :: u32
  pi_class :: u32
  pi_class_mask :: u32

record pci_driver =
  pr_id_table :: "pci_device_id list option"
  pr_probe :: bool
  pr_remove :: bool
  pr_shutdown :: bool

record pci_wrapper =
  pw_used :: bool
  pw_dev :: pci_dev

record pci_binding =
  pb_used :: bool
  pb_driver :: "nat option"

datatype pci_event =
    EvConfigRead nat nat int
  | EvConfigWrite nat nat int u32
  | EvRegister nat

record pci_env =
  pe_read :: "pci_event list \<Rightarrow> nat \<Rightarrow> nat \<Rightarrow> int \<Rightarrow> u32"
  pe_regist :: "pci_event list \<Rightarrow> int"
  pe_current :: "pci_event list \<Rightarrow> nat option"
  pe_phys_to_virt :: "u64 \<Rightarrow> addr"

text \<open>\<open>p_fault\<close> is set when a driver is called with the device of a null wrapper.\<close>

record pci =
  p_wrappers :: "pci_wrapper list"
  p_bindings :: "pci_binding list"
  p_drivers :: "nat \<Rightarrow> pci_driver"
  p_devices :: "nat list"
  p_native :: "nat \<Rightarrow> pci_native"
  p_env :: pci_env
  p_log :: "pci_event list"
  p_fault :: bool

definition IORESOURCE_IO :: u64 where "IORESOURCE_IO = 0x100"
definition IORESOURCE_MEM :: u64 where "IORESOURCE_MEM = 0x200"
definition IORESOURCE_PREFETCH :: u64 where "IORESOURCE_PREFETCH = 0x2000"
definition IORESOURCE_UNSET :: u64 where "IORESOURCE_UNSET = 0x20000000"
definition PCI_ANY_ID :: u32 where "PCI_ANY_ID = - 1"
definition PCI_COMMAND :: int where "PCI_COMMAND = 4"

definition PCI_SLOT :: "u32 \<Rightarrow> u32" where "PCI_SLOT devfn = drop_bit 3 devfn AND 0x1f"
definition PCI_FUNC :: "u32 \<Rightarrow> u32" where "PCI_FUNC devfn = devfn AND 0x07"
definition PCI_DEVFN :: "u32 \<Rightarrow> u32 \<Rightarrow> u32" where "PCI_DEVFN slot func = push_bit 3 (slot AND 0x1f) OR (func AND 0x07)"

section \<open>Matching\<close>

definition pci_id_end :: "pci_device_id \<Rightarrow> bool" where
  "pci_id_end d = (pi_vendor d = 0 \<and> pi_device d = 0 \<and> pi_subvendor d = 0 \<and> pi_subdevice d = 0 \<and> pi_class_mask d = 0)"

definition id_field :: "u32 \<Rightarrow> u16 \<Rightarrow> bool" where
  "id_field want have = (want = PCI_ANY_ID \<or> want = ucast have)"

definition pci_id_matches :: "pci_native \<Rightarrow> pci_device_id \<Rightarrow> bool" where
  "pci_id_matches n d =
     (id_field (pi_vendor d) (pn_vendor n) \<and> id_field (pi_device d) (pn_device n) \<and>
      id_field (pi_subvendor d) (pn_subvendor n) \<and> id_field (pi_subdevice d) (pn_subdevice n) \<and>
      (pi_class_mask d \<noteq> 0 \<longrightarrow> pn_class n AND pi_class_mask d = pi_class d AND pi_class_mask d))"

text \<open>The table ends at its terminating entry, here also at the end of the list.\<close>

fun pci_match_ids :: "pci_native \<Rightarrow> pci_device_id list \<Rightarrow> pci_device_id option" where
  "pci_match_ids n [] = None"
| "pci_match_ids n (d # ds) =
     (if pci_id_end d then None else if pci_id_matches n d then Some d else pci_match_ids n ds)"

definition pci_match_one :: "pci \<Rightarrow> pci_device_id list option \<Rightarrow> nat option \<Rightarrow> pci_device_id option" where
  "pci_match_one s ids native =
     (case (ids, native) of (Some ds, Some n) \<Rightarrow> pci_match_ids (p_native s n) ds | _ \<Rightarrow> None)"

section \<open>Wrappers\<close>

definition resource_of :: "pci_bar \<Rightarrow> pci_resource" where
  "resource_of b =
     (let flags = (if bar_mmio b then IORESOURCE_MEM else IORESOURCE_IO);
          flags = (if bar_prefetchable b then flags OR IORESOURCE_PREFETCH else flags);
          flags = (if bar_size b = 0 then flags OR IORESOURCE_UNSET else flags)
      in \<lparr>res_start = bar_address b,
          res_end = (if bar_size b \<noteq> 0 then bar_address b + bar_size b - 1 else bar_address b),
          res_flags = flags\<rparr>)"

definition null_resource :: pci_resource where
  "null_resource = \<lparr>res_start = 0, res_end = 0, res_flags = 0\<rparr>"

definition new_pci_dev :: "nat \<Rightarrow> pci_native \<Rightarrow> pci_dev" where
  "new_pci_dev k n =
     \<lparr>pd_native = k, pd_domain_nr = pn_segment n, pd_bus_number = pn_bus n, pd_vendor = pn_vendor n,
      pd_device = pn_device n, pd_subvendor = pn_subvendor n, pd_subdevice = pn_subdevice n, pd_revision = pn_revision n,
      pd_class = pn_class n, pd_devfn = ucast (PCI_DEVFN (ucast (pn_slot n)) (ucast (pn_func n))), pd_irq = pn_irq n,
      pd_msi_enabled = False, pd_current_state = 0,
      pd_resource = (\<lambda>bar. if bar < 6 then resource_of (pn_bars n bar) else null_resource), pd_driver_data = 0\<rparr>"

definition pci_wrap :: "nat option \<Rightarrow> pci \<Rightarrow> nat option \<times> pci" where
  "pci_wrap native s =
     (case native of
        None \<Rightarrow> (None, s)
      | Some n \<Rightarrow>
          (case find (\<lambda>i. pw_used (p_wrappers s ! i) \<and> pd_native (pw_dev (p_wrappers s ! i)) = n) [0..<length (p_wrappers s)] of
             Some i \<Rightarrow> (Some i, s)
           | None \<Rightarrow>
               (case find (\<lambda>i. \<not> pw_used (p_wrappers s ! i)) [0..<length (p_wrappers s)] of
                  None \<Rightarrow> (None, s)
                | Some i \<Rightarrow>
                    (Some i, s\<lparr>p_wrappers := (p_wrappers s)[i := \<lparr>pw_used = True, pw_dev = new_pci_dev n (p_native s n)\<rparr>]\<rparr>))))"

definition upd_dev :: "nat \<Rightarrow> (pci_dev \<Rightarrow> pci_dev) \<Rightarrow> pci \<Rightarrow> pci" where
  "upd_dev w f s =
     (if w < length (p_wrappers s)
      then s\<lparr>p_wrappers := (p_wrappers s)[w := (p_wrappers s ! w)\<lparr>pw_dev := f (pw_dev (p_wrappers s ! w))\<rparr>]\<rparr> else s)"

definition dev_of :: "pci \<Rightarrow> nat \<Rightarrow> pci_dev" where
  "dev_of s w = pw_dev (p_wrappers s ! w)"

section \<open>Host callbacks\<close>

text \<open>A host driver is the number of its binding, which \<^verbatim>\<open>private_data\<close> points back to.\<close>

definition binding_driver :: "pci \<Rightarrow> nat option \<Rightarrow> nat option" where
  "binding_driver s k = (case k of None \<Rightarrow> None | Some k \<Rightarrow> if k < length (p_bindings s) then pb_driver (p_bindings s ! k) else None)"

definition pci_native_match :: "pci \<Rightarrow> nat option \<Rightarrow> nat option \<Rightarrow> bool" where
  "pci_native_match s dev driver =
     (case binding_driver s driver of
        None \<Rightarrow> False
      | Some d \<Rightarrow> pci_match_one s (pr_id_table (p_drivers s d)) dev \<noteq> None)"

definition pci_native_probe :: "(nat \<Rightarrow> nat \<Rightarrow> pci_device_id \<Rightarrow> pci \<Rightarrow> int \<times> pci) \<Rightarrow> nat option \<Rightarrow> pci \<Rightarrow> int \<times> pci" where
  "pci_native_probe pr dev s =
     (case binding_driver s (pe_current (p_env s) (p_log s)) of
        None \<Rightarrow> (- EINVAL, s)
      | Some d \<Rightarrow>
          if \<not> pr_probe (p_drivers s d) then (- EINVAL, s)
          else
            (case pci_wrap dev s of
               (None, s) \<Rightarrow> (- ENOMEM, s)
             | (Some w, s) \<Rightarrow>
                 (case pci_match_one s (pr_id_table (p_drivers s d)) dev of
                    None \<Rightarrow> (- ENODEV, s)
                  | Some i \<Rightarrow> pr d w i s)))"

text \<open>The first bound driver with the callback \<open>has\<close> asks for, whose table matches.\<close>

definition first_driver :: "pci \<Rightarrow> (pci_driver \<Rightarrow> bool) \<Rightarrow> nat option \<Rightarrow> nat option" where
  "first_driver s has dev =
     (case find (\<lambda>b. pb_used b \<and> pb_driver b \<noteq> None \<and> has (p_drivers s (the (pb_driver b))) \<and>
                   pci_match_one s (pr_id_table (p_drivers s (the (pb_driver b)))) dev \<noteq> None) (p_bindings s) of
        None \<Rightarrow> None
      | Some b \<Rightarrow> pb_driver b)"

definition pci_native_remove :: "(nat \<Rightarrow> nat \<Rightarrow> pci \<Rightarrow> pci) \<Rightarrow> nat option \<Rightarrow> pci \<Rightarrow> pci" where
  "pci_native_remove rm dev s =
     (case pci_wrap dev s of
        (None, s) \<Rightarrow> s
      | (Some w, s) \<Rightarrow> (case first_driver s pr_remove dev of None \<Rightarrow> s | Some d \<Rightarrow> rm d w s))"

definition pci_native_shutdown :: "(nat \<Rightarrow> nat \<Rightarrow> pci \<Rightarrow> pci) \<Rightarrow> nat option \<Rightarrow> pci \<Rightarrow> pci" where
  "pci_native_shutdown sd dev s =
     (case pci_wrap dev s of
        (None, s) \<Rightarrow> s
      | (Some w, s) \<Rightarrow> (case first_driver s pr_shutdown dev of None \<Rightarrow> s | Some d \<Rightarrow> sd d w s))"

section \<open>Drivers\<close>

text \<open>Probe the devices already present, up to the first whose probe succeeds.\<close>

fun probe_present ::
  "(nat \<Rightarrow> nat \<Rightarrow> pci_device_id \<Rightarrow> pci \<Rightarrow> int \<times> pci) \<Rightarrow> nat \<Rightarrow> nat list \<Rightarrow> pci \<Rightarrow> pci" where
  "probe_present pr d [] s = s"
| "probe_present pr d (n # ns) s =
     (case pci_match_one s (pr_id_table (p_drivers s d)) (Some n) of
        None \<Rightarrow> probe_present pr d ns s
      | Some i \<Rightarrow>
          (case pci_wrap (Some n) s of
             (None, s) \<Rightarrow> s\<lparr>p_fault := True\<rparr>
           | (Some w, s) \<Rightarrow> (case pr d w i s of (ret, s) \<Rightarrow> if ret = 0 then s else probe_present pr d ns s)))"

definition pci_register_driver ::
  "(nat \<Rightarrow> nat \<Rightarrow> pci_device_id \<Rightarrow> pci \<Rightarrow> int \<times> pci) \<Rightarrow> nat option \<Rightarrow> pci \<Rightarrow> int \<times> pci" where
  "pci_register_driver pr drv s =
     (case drv of
        None \<Rightarrow> (- EINVAL, s)
      | Some d \<Rightarrow>
          if \<not> pr_probe (p_drivers s d) then (- EINVAL, s)
          else
            (case find (\<lambda>k. \<not> pb_used (p_bindings s ! k)) [0..<length (p_bindings s)] of
               None \<Rightarrow> (- ENOSPC, s)
             | Some k \<Rightarrow>
                 let s = s\<lparr>p_bindings := (p_bindings s)[k := \<lparr>pb_used = True, pb_driver = Some d\<rparr>]\<rparr>;
                     ret = pe_regist (p_env s) (p_log s);
                     s = s\<lparr>p_log := EvRegister k # p_log s\<rparr>
                 in if ret \<noteq> 0 then (ret, s) else (0, probe_present pr d (p_devices s) s)))"

definition pci_unregister_driver :: "nat option \<Rightarrow> pci \<Rightarrow> pci" where
  "pci_unregister_driver drv s =
     (case find (\<lambda>k. pb_used (p_bindings s ! k) \<and> pb_driver (p_bindings s ! k) = drv) [0..<length (p_bindings s)] of
        None \<Rightarrow> s
      | Some k \<Rightarrow> s\<lparr>p_bindings := (p_bindings s)[k := (p_bindings s ! k)\<lparr>pb_used := False\<rparr>]\<rparr>)"

definition pci_match_id :: "pci \<Rightarrow> pci_device_id list option \<Rightarrow> nat option \<Rightarrow> pci_device_id option" where
  "pci_match_id s ids pdev = (case pdev of None \<Rightarrow> None | Some w \<Rightarrow> pci_match_one s ids (Some (pd_native (dev_of s w))))"

fun index_of :: "nat \<Rightarrow> nat list \<Rightarrow> nat option" where
  "index_of x [] = None"
| "index_of x (y # ys) = (if x = y then Some 0 else map_option Suc (index_of x ys))"

text \<open>The device found, by its wrapper; the outer None is the address of a member of a null wrapper.\<close>

definition pci_get_class :: "u32 \<Rightarrow> nat option \<Rightarrow> pci \<Rightarrow> nat option option \<times> pci" where
  "pci_get_class class_code from s =
     (let start = (case from of
                     None \<Rightarrow> 0
                   | Some w \<Rightarrow> (case index_of (pd_native (dev_of s w)) (p_devices s) of None \<Rightarrow> 0 | Some i \<Rightarrow> i + 1))
      in case find (\<lambda>n. pn_class (p_native s n) AND 0xffffff00 = class_code AND 0xffffff00) (drop start (p_devices s)) of
           None \<Rightarrow> (Some None, s)
         | Some n \<Rightarrow> (case pci_wrap (Some n) s of (None, s) \<Rightarrow> (None, s) | (Some w, s) \<Rightarrow> (Some (Some w), s)))"

text \<open>\<open>host\<close> is \<^verbatim>\<open>pci_find_bdfs\<close>.\<close>

definition pci_get_domain_bus_and_slot ::
  "(u32 \<Rightarrow> u32 \<Rightarrow> u32 \<Rightarrow> int \<Rightarrow> nat option) \<Rightarrow> int \<Rightarrow> u32 \<Rightarrow> u32 \<Rightarrow> pci \<Rightarrow> nat option \<times> pci" where
  "pci_get_domain_bus_and_slot host domain bus devfn s = pci_wrap (host bus (PCI_SLOT devfn) (PCI_FUNC devfn) domain) s"

definition pci_dev_present :: "pci_device_id list option \<Rightarrow> pci \<Rightarrow> bool" where
  "pci_dev_present ids s = list_ex (\<lambda>n. pci_match_one s ids (Some n) \<noteq> None) (p_devices s)"

section \<open>Configuration space\<close>

definition config_read :: "nat \<Rightarrow> nat \<Rightarrow> int \<Rightarrow> pci \<Rightarrow> u32 \<times> pci" where
  "config_read n width where s = (pe_read (p_env s) (p_log s) n width where, s\<lparr>p_log := EvConfigRead n width where # p_log s\<rparr>)"

definition config_write :: "nat \<Rightarrow> nat \<Rightarrow> int \<Rightarrow> u32 \<Rightarrow> pci \<Rightarrow> pci" where
  "config_write n width where v s = s\<lparr>p_log := EvConfigWrite n width where v # p_log s\<rparr>"

definition pci_enable_device :: "nat option \<Rightarrow> pci \<Rightarrow> int \<times> pci" where
  "pci_enable_device pdev s =
     (case pdev of
        None \<Rightarrow> (- EINVAL, s)
      | Some w \<Rightarrow>
          let n = pd_native (dev_of s w);
              (v, s) = config_read n 16 PCI_COMMAND s;
              cmd = (ucast v :: u16) OR 1 OR 2 OR 4
          in (0, config_write n 16 PCI_COMMAND (ucast cmd) s))"

definition pci_set_master :: "nat option \<Rightarrow> pci \<Rightarrow> pci" where
  "pci_set_master pdev s = snd (pci_enable_device pdev s)"

definition pci_enable_msi :: "nat option \<Rightarrow> pci \<Rightarrow> int \<times> pci" where
  "pci_enable_msi pdev s =
     (case pdev of None \<Rightarrow> (- EINVAL, s) | Some w \<Rightarrow> (- EOPNOTSUPP, upd_dev w (\<lambda>d. d\<lparr>pd_msi_enabled := False\<rparr>) s))"

definition pci_disable_msi :: "nat option \<Rightarrow> pci \<Rightarrow> pci" where
  "pci_disable_msi pdev s = (case pdev of None \<Rightarrow> s | Some w \<Rightarrow> upd_dev w (\<lambda>d. d\<lparr>pd_msi_enabled := False\<rparr>) s)"

definition pci_set_power_state :: "nat option \<Rightarrow> int \<Rightarrow> pci \<Rightarrow> int \<times> pci" where
  "pci_set_power_state pdev state s =
     (case pdev of None \<Rightarrow> (- EINVAL, s) | Some w \<Rightarrow> (0, upd_dev w (\<lambda>d. d\<lparr>pd_current_state := state\<rparr>) s))"

definition pci_set_drvdata :: "nat option \<Rightarrow> addr \<Rightarrow> pci \<Rightarrow> pci" where
  "pci_set_drvdata pdev data s = (case pdev of None \<Rightarrow> s | Some w \<Rightarrow> upd_dev w (\<lambda>d. d\<lparr>pd_driver_data := data\<rparr>) s)"

definition pci_get_drvdata :: "nat option \<Rightarrow> pci \<Rightarrow> addr" where
  "pci_get_drvdata pdev s = (case pdev of None \<Rightarrow> 0 | Some w \<Rightarrow> pd_driver_data (dev_of s w))"

text \<open>Status and value of the three reads; \<open>ok\<close> tells whether the result pointer is given.\<close>

definition pci_read_config :: "nat \<Rightarrow> nat option \<Rightarrow> int \<Rightarrow> bool \<Rightarrow> pci \<Rightarrow> (int \<times> u32 option) \<times> pci" where
  "pci_read_config width pdev where ok s =
     (case pdev of
        None \<Rightarrow> ((- EINVAL, None), s)
      | Some w \<Rightarrow>
          if \<not> ok then ((- EINVAL, None), s)
          else (case config_read (pd_native (dev_of s w)) width where s of (v, s) \<Rightarrow> ((0, Some (take_bit width v)), s)))"

definition pci_read_config_byte :: "nat option \<Rightarrow> int \<Rightarrow> bool \<Rightarrow> pci \<Rightarrow> (int \<times> u32 option) \<times> pci" where
  "pci_read_config_byte = pci_read_config 8"

definition pci_read_config_word :: "nat option \<Rightarrow> int \<Rightarrow> bool \<Rightarrow> pci \<Rightarrow> (int \<times> u32 option) \<times> pci" where
  "pci_read_config_word = pci_read_config 16"

definition pci_read_config_dword :: "nat option \<Rightarrow> int \<Rightarrow> bool \<Rightarrow> pci \<Rightarrow> (int \<times> u32 option) \<times> pci" where
  "pci_read_config_dword = pci_read_config 32"

definition pci_write_config :: "nat \<Rightarrow> nat option \<Rightarrow> int \<Rightarrow> u32 \<Rightarrow> pci \<Rightarrow> int \<times> pci" where
  "pci_write_config width pdev where v s =
     (case pdev of None \<Rightarrow> (- EINVAL, s) | Some w \<Rightarrow> (0, config_write (pd_native (dev_of s w)) width where v s))"

definition pci_write_config_byte :: "nat option \<Rightarrow> int \<Rightarrow> u8 \<Rightarrow> pci \<Rightarrow> int \<times> pci" where
  "pci_write_config_byte pdev where v = pci_write_config 8 pdev where (ucast v)"

definition pci_write_config_word :: "nat option \<Rightarrow> int \<Rightarrow> u16 \<Rightarrow> pci \<Rightarrow> int \<times> pci" where
  "pci_write_config_word pdev where v = pci_write_config 16 pdev where (ucast v)"

definition pci_write_config_dword :: "nat option \<Rightarrow> int \<Rightarrow> u32 \<Rightarrow> pci \<Rightarrow> int \<times> pci" where
  "pci_write_config_dword pdev where v = pci_write_config 32 pdev where v"

section \<open>Resources\<close>

definition pci_domain_nr :: "u16 option \<Rightarrow> u32" where
  "pci_domain_nr bus = (case bus of None \<Rightarrow> 0 | Some d \<Rightarrow> ucast d)"

definition pci_resource_start :: "pci_dev option \<Rightarrow> nat \<Rightarrow> u64" where
  "pci_resource_start d bar = (case d of None \<Rightarrow> 0 | Some d \<Rightarrow> res_start (pd_resource d bar))"

definition pci_resource_end :: "pci_dev option \<Rightarrow> nat \<Rightarrow> u64" where
  "pci_resource_end d bar = (case d of None \<Rightarrow> 0 | Some d \<Rightarrow> res_end (pd_resource d bar))"

definition pci_resource_len :: "pci_dev option \<Rightarrow> nat \<Rightarrow> u64" where
  "pci_resource_len d bar =
     (case d of
        None \<Rightarrow> 0
      | Some d \<Rightarrow>
          if res_end (pd_resource d bar) < res_start (pd_resource d bar) then 0
          else res_end (pd_resource d bar) - res_start (pd_resource d bar) + 1)"

definition pci_resource_flags :: "pci_dev option \<Rightarrow> nat \<Rightarrow> u64" where
  "pci_resource_flags d bar = (case d of None \<Rightarrow> 0 | Some d \<Rightarrow> res_flags (pd_resource d bar))"

definition pci_iomap_range :: "pci_dev option \<Rightarrow> int \<Rightarrow> u64 \<Rightarrow> pci \<Rightarrow> addr" where
  "pci_iomap_range d bar offset s =
     (if d = None \<or> bar < 0 \<or> bar \<ge> 6 \<or> pci_resource_start d (nat bar) = 0 then 0
      else pe_phys_to_virt (p_env s) (pci_resource_start d (nat bar) + offset))"

end
