(* ===== verification/LC_Entries.thy ===== *)
theory LC_Entries
  imports LC_Usb_Data LC_Pci
begin

text \<open>
  The entries drivers write in their identifier tables: the initialisers of \<^verbatim>\<open>linux/usb.h\<close> and
  \<^verbatim>\<open>linux/pci.h\<close>, the devices each of them matches, and the search of a table made of them.
\<close>

section \<open>USB\<close>

definition USB_DEVICE_ID_MATCH_DEVICE :: u16 where
  "USB_DEVICE_ID_MATCH_DEVICE = 1 OR 2"

definition USB_DEVICE_ID_MATCH_INT_INFO :: u16 where
  "USB_DEVICE_ID_MATCH_INT_INFO = 4 OR 8 OR 16"

text \<open>The members an initialiser does not name are zero.\<close>

definition USB_DEVICE :: "u16 \<Rightarrow> u16 \<Rightarrow> usb_device_id" where
  "USB_DEVICE vendor product =
     \<lparr>id_match_flags = USB_DEVICE_ID_MATCH_DEVICE, id_vendor = vendor, id_product = product,
      id_class = 0, id_subclass = 0, id_protocol = 0\<rparr>"

definition USB_INTERFACE_INFO :: "u8 \<Rightarrow> u8 \<Rightarrow> u8 \<Rightarrow> usb_device_id" where
  "USB_INTERFACE_INFO cls subcls proto =
     \<lparr>id_match_flags = USB_DEVICE_ID_MATCH_INT_INFO, id_vendor = 0, id_product = 0,
      id_class = cls, id_subclass = subcls, id_protocol = proto\<rparr>"

definition USB_DEVICE_AND_INTERFACE_INFO :: "u16 \<Rightarrow> u16 \<Rightarrow> u8 \<Rightarrow> u8 \<Rightarrow> u8 \<Rightarrow> usb_device_id" where
  "USB_DEVICE_AND_INTERFACE_INFO vendor product cls subcls proto =
     \<lparr>id_match_flags = USB_DEVICE_ID_MATCH_DEVICE OR USB_DEVICE_ID_MATCH_INT_INFO,
      id_vendor = vendor, id_product = product,
      id_class = cls, id_subclass = subcls, id_protocol = proto\<rparr>"

lemmas usb_entry_defs = USB_DEVICE_def USB_INTERFACE_INFO_def USB_DEVICE_AND_INTERFACE_INFO_def
  USB_DEVICE_ID_MATCH_DEVICE_def USB_DEVICE_ID_MATCH_INT_INFO_def

text \<open>An entry matches by the members it names and by no other.\<close>

lemma usb_device_matches:
  "id_matches m i (USB_DEVICE v p) \<longleftrightarrow> ni_vendor i = v \<and> ni_product i = p"
  by (auto simp: id_matches_def usb_entry_defs)

lemma usb_interface_info_matches:
  "id_matches m i (USB_INTERFACE_INFO c s p) \<longleftrightarrow>
     m (ni_iface i + 5) = c \<and> m (ni_iface i + 6) = s \<and> m (ni_iface i + 7) = p"
  by (auto simp: id_matches_def usb_entry_defs)

lemma usb_device_and_interface_matches:
  "id_matches m i (USB_DEVICE_AND_INTERFACE_INFO v q c s p) \<longleftrightarrow>
     id_matches m i (USB_DEVICE v q) \<and> id_matches m i (USB_INTERFACE_INFO c s p)"
  by (auto simp: id_matches_def usb_entry_defs)

text \<open>No entry of these kinds ends its table, not even one of zeros, so that the search sees all of them.\<close>

lemma usb_entry_continues [simp]:
  "id_match_flags (USB_DEVICE v q) \<noteq> 0"
  "id_match_flags (USB_INTERFACE_INFO c s p) \<noteq> 0"
  "id_match_flags (USB_DEVICE_AND_INTERFACE_INFO v q c s p) \<noteq> 0"
  by (simp_all add: usb_entry_defs)

lemma match_ids_find:
  "(\<And>d. d \<in> set ds \<Longrightarrow> id_match_flags d \<noteq> 0) \<Longrightarrow> match_ids m i ds = find (id_matches m i) ds"
  by (induction ds) auto

text \<open>
  A driver whose table lists devices is matched with exactly the interfaces of those devices; it is
  given the first entry that names the device.
\<close>

theorem usb_device_table:
  "match_ids m i (map (\<lambda>(v, p). USB_DEVICE v p) vps) =
     (if (ni_vendor i, ni_product i) \<in> set vps then Some (USB_DEVICE (ni_vendor i) (ni_product i)) else None)"
proof (induction vps)
  case (Cons vp vps)
  then show ?case by (cases vp) (auto simp: usb_device_matches)
qed simp

section \<open>PCI\<close>

definition PCI_DEVICE :: "u32 \<Rightarrow> u32 \<Rightarrow> pci_device_id" where
  "PCI_DEVICE vend dev =
     \<lparr>pi_vendor = vend, pi_device = dev, pi_subvendor = PCI_ANY_ID, pi_subdevice = PCI_ANY_ID,
      pi_class = 0, pi_class_mask = 0\<rparr>"

definition PCI_DEVICE_SUB :: "u32 \<Rightarrow> u32 \<Rightarrow> u32 \<Rightarrow> u32 \<Rightarrow> pci_device_id" where
  "PCI_DEVICE_SUB vend dev subvend subdev =
     \<lparr>pi_vendor = vend, pi_device = dev, pi_subvendor = subvend, pi_subdevice = subdev,
      pi_class = 0, pi_class_mask = 0\<rparr>"

lemma uint_u16_u32: "uint (ucast (x :: u16) :: u32) = uint x"
  by (simp add: unsigned_ucast_eq take_bit_int_eq_self_iff uint_bounded [THEN less_le_trans])

lemma ucast_not_any: "ucast (x :: u16) \<noteq> PCI_ANY_ID"
proof
  assume "ucast x = PCI_ANY_ID"
  then have "uint (ucast x :: u32) = 4294967295" by (simp add: PCI_ANY_ID_def unsigned_minus_1_eq_mask mask_eq_exp_minus_1)
  moreover have "uint x < 65536" using uint_lt2p [of x] by simp
  ultimately show False by (simp add: uint_u16_u32)
qed

lemma id_field_of_ucast [simp]: "id_field (ucast x) y \<longleftrightarrow> x = y"
proof -
  have "ucast x = (ucast y :: u32) \<longleftrightarrow> x = y" by (metis uint_u16_u32 word_uint_eq_iff)
  then show ?thesis by (simp add: id_field_def ucast_not_any)
qed

lemma id_field_any [simp]: "id_field PCI_ANY_ID y"
  by (simp add: id_field_def)

lemma pci_device_matches:
  "pci_id_matches n (PCI_DEVICE (ucast v) (ucast d)) \<longleftrightarrow> pn_vendor n = v \<and> pn_device n = d"
  by (auto simp: pci_id_matches_def PCI_DEVICE_def)

lemma pci_device_sub_matches:
  "pci_id_matches n (PCI_DEVICE_SUB (ucast v) (ucast d) (ucast sv) (ucast sd)) \<longleftrightarrow>
     pn_vendor n = v \<and> pn_device n = d \<and> pn_subvendor n = sv \<and> pn_subdevice n = sd"
  by (auto simp: pci_id_matches_def PCI_DEVICE_SUB_def)

text \<open>
  \<^verbatim>\<open>PCI_DEVICE\<close> leaves the subsystem open, so its entries never look like the end of the table;
  \<^verbatim>\<open>PCI_DEVICE_SUB\<close> of four zeros does, and hides what follows it.
\<close>

lemma pci_device_continues [simp]: "\<not> pci_id_end (PCI_DEVICE v d)"
  by (simp add: pci_id_end_def PCI_DEVICE_def PCI_ANY_ID_def)

lemma pci_device_sub_end: "pci_id_end (PCI_DEVICE_SUB v d sv sd) \<longleftrightarrow> v = 0 \<and> d = 0 \<and> sv = 0 \<and> sd = 0"
  by (simp add: pci_id_end_def PCI_DEVICE_SUB_def)

theorem pci_device_table:
  "pci_match_ids n (map (\<lambda>(v, d). PCI_DEVICE (ucast (v :: u16)) (ucast (d :: u16))) vds) =
     (if (pn_vendor n, pn_device n) \<in> set vds
      then Some (PCI_DEVICE (ucast (pn_vendor n)) (ucast (pn_device n))) else None)"
proof (induction vds)
  case (Cons vd vds)
  then show ?case by (cases vd) (auto simp: pci_device_matches)
qed simp

end
