(* ===== verification/LC_Queue.thy ===== *)
theory LC_Queue
  imports LC_Prelude
begin

text \<open>
  Intrusive singly linked queues: the contract of a first-in first-out queue as a locale, the reading of
  a list off the \<^verbatim>\<open>next\<close> pointers, and the socket-buffer queues of \<^verbatim>\<open>linux/skbuff.h\<close>
  (\<^verbatim>\<open>struct sk_buff_head\<close>), which implement the contract.  A node is a number, a null pointer None,
  and \<open>nx\<close> maps each node to its \<^verbatim>\<open>next\<close> member.
\<close>

section \<open>The contract\<close>

text \<open>
  \<open>els q xs\<close>: the queue \<open>q\<close> is well formed and holds \<open>xs\<close>, oldest first.  \<open>fits q xs\<close>: \<open>xs\<close> are
  contents \<open>q\<close> can have; a queue of linked nodes holds a node at most once, a ring buffer is bounded by its size.
\<close>

locale fifo =
  fixes enq :: "'x \<Rightarrow> 'q \<Rightarrow> 'q"
    and deq :: "'q \<Rightarrow> 'x option \<times> 'q"
    and els :: "'q \<Rightarrow> 'x list \<Rightarrow> bool"
    and fits :: "'q \<Rightarrow> 'x list \<Rightarrow> bool"
  assumes fits_prefix: "fits q (xs @ ys) \<Longrightarrow> fits q xs"
    and fits_enq: "els q xs \<Longrightarrow> fits q (xs @ [x]) \<Longrightarrow> fits (enq x q) = fits q"
    and els_enq: "els q xs \<Longrightarrow> fits q (xs @ [x]) \<Longrightarrow> els (enq x q) (xs @ [x])"
    and deq_empty: "els q [] \<Longrightarrow> deq q = (None, q)"
    and deq_first: "els q (x # xs) \<Longrightarrow> fst (deq q) = Some x \<and> els (snd (deq q)) xs"

locale unlink_fifo = fifo +
  fixes rem :: "'a \<Rightarrow> 'b \<Rightarrow> 'b"
  assumes els_rem: "els q xs \<Longrightarrow> fits q xs \<Longrightarrow> els (rem x q) (remove1 x xs)"

definition node_fits :: "'x list \<Rightarrow> bool" where
  "node_fits xs = (distinct xs \<and> length xs \<le> UINT_MAX)"

text \<open>Dequeue \<open>n\<close> times; the elements got, oldest first.\<close>

fun drain :: "('q \<Rightarrow> 'x option \<times> 'q) \<Rightarrow> nat \<Rightarrow> 'q \<Rightarrow> 'x list \<times> 'q" where
  "drain d 0 q = ([], q)"
| "drain d (Suc n) q =
     (case d q of (None, q') \<Rightarrow> ([], q') | (Some x, q') \<Rightarrow> (case drain d n q' of (xs, q'') \<Rightarrow> (x # xs, q'')))"

context fifo
begin

lemma enq_all: "els q xs \<Longrightarrow> fits q (xs @ ys) \<Longrightarrow> els (fold enq ys q) (xs @ ys)"
proof (induction ys arbitrary: q xs)
  case (Cons y ys)
  have y: "fits q (xs @ [y])" using Cons.prems(2) fits_prefix [of q "xs @ [y]" ys] by simp
  have "els (enq y q) (xs @ [y])" by (rule els_enq [OF Cons.prems(1) y])
  moreover have "fits (enq y q) ((xs @ [y]) @ ys)" using fits_enq [OF Cons.prems(1) y] Cons.prems(2) by simp
  ultimately have "els (fold enq ys (enq y q)) ((xs @ [y]) @ ys)" by (rule Cons.IH)
  then show ?case by simp
qed simp

lemma drain_all: "els q xs \<Longrightarrow> fst (drain deq (length xs) q) = xs \<and> els (snd (drain deq (length xs) q)) []"
proof (induction xs arbitrary: q)
  case (Cons x xs)
  obtain r q' where d: "deq q = (r, q')" by (cases "deq q")
  then have "r = Some x" "els q' xs" using deq_first [OF Cons.prems] by simp_all
  then show ?case using Cons.IH [of q'] by (simp add: d split_beta)
qed simp

lemma order_kept:
  assumes "els q xs" and "fits q (xs @ ys)"
  shows "fst (drain deq (length (xs @ ys)) (fold enq ys q)) = xs @ ys"
  using drain_all [OF enq_all [OF assms]] by simp

end

context unlink_fifo
begin

lemma rem_then_drain:
  assumes "els q xs" and "fits q xs"
  shows "fst (drain deq (length (remove1 x xs)) (rem x q)) = remove1 x xs"
  using drain_all [OF els_rem [OF assms]] by simp

end

section \<open>Reading a list off the next pointers\<close>

primrec path :: "(nat \<Rightarrow> nat option) \<Rightarrow> nat option \<Rightarrow> nat list \<Rightarrow> bool" where
  "path nx p [] = (p = None)"
| "path nx p (x # xs) = (p = Some x \<and> path nx (nx x) xs)"

lemma path_None [simp]: "path nx None xs = (xs = [])"
  by (cases xs) auto

lemma path_upd [simp]: "a \<notin> set xs \<Longrightarrow> path (nx(a := v)) p xs = path nx p xs"
  by (induction xs arbitrary: p) auto

lemma path_cong: "(\<And>y. y \<in> set xs \<Longrightarrow> f y = g y) \<Longrightarrow> path f p xs = path g p xs"
  by (induction xs arbitrary: p) auto

lemma path_unique: "path nx p xs \<Longrightarrow> path nx p ys \<Longrightarrow> xs = ys"
  by (induction xs arbitrary: p ys) (case_tac ys; auto)+

lemma path_hd: "path nx p xs \<Longrightarrow> p = (case xs of [] \<Rightarrow> None | x # _ \<Rightarrow> Some x)"
  by (cases xs) auto

lemma path_last: "path nx p xs \<Longrightarrow> xs \<noteq> [] \<Longrightarrow> nx (last xs) = None"
  by (induction xs arbitrary: p) auto

lemma path_append: "path nx p (xs @ ys) \<Longrightarrow> xs \<noteq> [] \<Longrightarrow> path nx (nx (last xs)) ys"
  by (induction xs arbitrary: p) (auto split: if_splits)

lemma path_distinct: "path nx p xs \<Longrightarrow> distinct xs"
proof (induction xs arbitrary: p)
  case (Cons x xs)
  have "x \<notin> set xs"
  proof
    assume "x \<in> set xs"
    then obtain us vs where xs: "xs = us @ x # vs" by (meson split_list)
    then have "path nx (nx x) vs" using path_append [of nx p "(x # us) @ [x]" vs] Cons.prems by simp
    moreover have "path nx (nx x) xs" using Cons.prems by simp
    ultimately show False using path_unique [of nx "nx x" vs xs] xs by simp
  qed
  then show ?case using Cons by auto
qed simp

lemma path_snoc:
  "path nx p xs \<Longrightarrow> x \<notin> set xs \<Longrightarrow> xs \<noteq> [] \<Longrightarrow> path (nx(x := None, last xs := Some x)) p (xs @ [x])"
proof (induction xs arbitrary: p)
  case (Cons y ys)
  show ?case
  proof (cases "ys = []")
    case False
    have d: "y \<notin> set ys" using path_distinct [OF Cons.prems(1)] by simp
    then have "y \<noteq> last ys" using False by (meson last_in_set)
    then show ?thesis using Cons False by auto
  qed (use Cons.prems in auto)
qed simp

text \<open>Unlink \<open>x\<close>, reached after \<open>us\<close>: the predecessor takes over its \<^verbatim>\<open>next\<close>.\<close>

lemma path_unlink:
  "path nx p (us @ x # vs) \<Longrightarrow> us \<noteq> [] \<Longrightarrow> path (nx(last us := nx x, x := None)) p (us @ vs)"
proof (induction us arbitrary: p)
  case (Cons u us)
  have d: "distinct ((u # us) @ x # vs)" using path_distinct [OF Cons.prems(1)] .
  show ?case
  proof (cases "us = []")
    case True
    then have "path nx (nx x) vs" "u \<notin> set vs" "x \<notin> set vs" "u \<noteq> x" "p = Some u" using Cons.prems d by auto
    moreover have "path (nx(u := nx x, x := None)) (nx x) vs = path nx (nx x) vs"
      using calculation by (intro path_cong) auto
    ultimately show ?thesis using True by (simp add: fun_upd_def)
  next
    case False
    then have "u \<noteq> last us" using d by (metis distinct.simps(2) distinct_append last_in_set append_Cons)
    then show ?thesis using Cons False d by auto
  qed
qed simp

text \<open>
  The search loop: the predecessor of \<open>x\<close> on the way from \<open>cur\<close>, None when \<open>x\<close> is not met.  On a
  cyclic list that lacks \<open>x\<close> the loop does not end and the outer option is None.
\<close>

partial_function (option) find_prev :: "(nat \<Rightarrow> nat option) \<Rightarrow> nat \<Rightarrow> nat option \<Rightarrow> nat option \<Rightarrow> nat option option option" where
  "find_prev nx x prev cur =
     (if cur = None then Some None
      else if the cur = x then Some (Some prev)
      else find_prev nx x cur (nx (the cur)))"

lemma find_prev_absent: "path nx cur xs \<Longrightarrow> x \<notin> set xs \<Longrightarrow> find_prev nx x prev cur = Some None"
  by (induction xs arbitrary: cur prev) (auto simp: find_prev.simps)

lemma find_prev_present:
  "path nx cur (us @ x # vs) \<Longrightarrow> x \<notin> set us \<Longrightarrow>
     find_prev nx x prev cur = Some (Some (if us = [] then prev else Some (last us)))"
  by (induction us arbitrary: cur prev) (auto simp: find_prev.simps)

section \<open>Socket-buffer queues\<close>

type_synonym links = "nat \<Rightarrow> nat option"

record sk_buff_head =
  qh_head :: "nat option"
  qh_tail :: "nat option"
  qh_qlen :: u32

definition empty_head :: sk_buff_head where
  "empty_head = \<lparr>qh_head = None, qh_tail = None, qh_qlen = 0\<rparr>"

definition skb_queue_head_init :: "sk_buff_head option \<Rightarrow> sk_buff_head option" where
  "skb_queue_head_init l = map_option (\<lambda>_. empty_head) l"

definition skb_peek :: "sk_buff_head option \<Rightarrow> nat option" where
  "skb_peek l = (case l of None \<Rightarrow> None | Some l \<Rightarrow> qh_head l)"

definition skb_queue_empty :: "sk_buff_head option \<Rightarrow> bool" where
  "skb_queue_empty l = (case l of None \<Rightarrow> True | Some l \<Rightarrow> qh_qlen l = 0)"

definition skb_queue_len :: "sk_buff_head option \<Rightarrow> u32" where
  "skb_queue_len l = (case l of None \<Rightarrow> 0 | Some l \<Rightarrow> qh_qlen l)"

text \<open>\<open>raw\<close> marks the bodies under the lock, \<^verbatim>\<open>__skb_queue_tail\<close> and so on.\<close>

definition queue_tail_raw :: "nat \<Rightarrow> links \<times> sk_buff_head \<Rightarrow> links \<times> sk_buff_head" where
  "queue_tail_raw skb q =
     (case q of (nx, l) \<Rightarrow>
        let nx = nx(skb := None);
            (nx, l) = (case qh_tail l of
                Some t \<Rightarrow> (nx(t := Some skb), l)
              | None \<Rightarrow> (nx, l\<lparr>qh_head := Some skb\<rparr>))
        in (nx, l\<lparr>qh_tail := Some skb, qh_qlen := qh_qlen l + 1\<rparr>))"

definition queue_head_raw :: "nat \<Rightarrow> links \<times> sk_buff_head \<Rightarrow> links \<times> sk_buff_head" where
  "queue_head_raw skb q =
     (case q of (nx, l) \<Rightarrow>
        let nx = nx(skb := qh_head l);
            l = l\<lparr>qh_head := Some skb\<rparr>;
            l = (if qh_tail l = None then l\<lparr>qh_tail := Some skb\<rparr> else l)
        in (nx, l\<lparr>qh_qlen := qh_qlen l + 1\<rparr>))"

definition dequeue_raw :: "links \<times> sk_buff_head \<Rightarrow> nat option \<times> links \<times> sk_buff_head" where
  "dequeue_raw q =
     (case q of (nx, l) \<Rightarrow>
        (case qh_head l of
           None \<Rightarrow> (None, nx, l)
         | Some skb \<Rightarrow>
             let l = l\<lparr>qh_head := nx skb\<rparr>;
                 l = (if qh_head l = None then l\<lparr>qh_tail := None\<rparr> else l);
                 l = l\<lparr>qh_qlen := qh_qlen l - 1\<rparr>
             in (Some skb, nx(skb := None), l)))"

text \<open>None is a search that does not end.\<close>

definition unlink_raw :: "nat \<Rightarrow> links \<times> sk_buff_head \<Rightarrow> (links \<times> sk_buff_head) option" where
  "unlink_raw skb q =
     (case q of (nx, l) \<Rightarrow>
        (case find_prev nx skb None (qh_head l) of
           None \<Rightarrow> None
         | Some None \<Rightarrow> Some (nx, l)
         | Some (Some prev) \<Rightarrow>
             let (nx', l) = (case prev of
                    Some p \<Rightarrow> (nx(p := nx skb), l)
                  | None \<Rightarrow> (nx, l\<lparr>qh_head := nx skb\<rparr>));
                 l = (if qh_tail l = Some skb then l\<lparr>qh_tail := prev\<rparr> else l);
                 l = (if qh_qlen l > 0 then l\<lparr>qh_qlen := qh_qlen l - 1\<rparr> else l)
             in Some (nx'(skb := None), l)))"

text \<open>The functions a driver calls, with their tests for null pointers.\<close>

definition skb_queue_tail :: "nat option \<Rightarrow> links \<times> sk_buff_head option \<Rightarrow> links \<times> sk_buff_head option" where
  "skb_queue_tail skb q =
     (case (skb, q) of
        (Some b, (nx, Some l)) \<Rightarrow> apsnd Some (queue_tail_raw b (nx, l))
      | _ \<Rightarrow> q)"

definition skb_queue_head :: "nat option \<Rightarrow> links \<times> sk_buff_head option \<Rightarrow> links \<times> sk_buff_head option" where
  "skb_queue_head skb q =
     (case (skb, q) of
        (Some b, (nx, Some l)) \<Rightarrow> apsnd Some (queue_head_raw b (nx, l))
      | _ \<Rightarrow> q)"

definition skb_dequeue :: "links \<times> sk_buff_head option \<Rightarrow> nat option \<times> links \<times> sk_buff_head option" where
  "skb_dequeue q =
     (case q of
        (nx, None) \<Rightarrow> (None, nx, None)
      | (nx, Some l) \<Rightarrow> apsnd (apsnd Some) (dequeue_raw (nx, l)))"

definition skb_unlink :: "nat option \<Rightarrow> links \<times> sk_buff_head option \<Rightarrow> (links \<times> sk_buff_head option) option" where
  "skb_unlink skb q =
     (case (skb, q) of
        (Some b, (nx, Some l)) \<Rightarrow> map_option (apsnd Some) (unlink_raw b (nx, l))
      | _ \<Rightarrow> Some q)"

text \<open>Move everything from the first queue to the end of the second; both use the same links.\<close>

partial_function (option) splice_loop ::
  "links \<Rightarrow> sk_buff_head \<Rightarrow> sk_buff_head \<Rightarrow> (links \<times> sk_buff_head \<times> sk_buff_head) option" where
  "splice_loop nx l h =
     (let d = dequeue_raw (nx, l)
      in if fst d = None then Some (nx, l, h)
         else let e = queue_tail_raw (the (fst d)) (fst (snd d), h)
              in splice_loop (fst e) (snd (snd d)) (snd e))"

definition skb_queue_splice_tail_init ::
  "links \<Rightarrow> sk_buff_head option \<Rightarrow> sk_buff_head option \<Rightarrow> (links \<times> sk_buff_head option \<times> sk_buff_head option) option" where
  "skb_queue_splice_tail_init nx l h =
     (case (l, h) of
        (Some a, Some b) \<Rightarrow> map_option (apsnd (map_prod Some Some)) (splice_loop nx a b)
      | _ \<Rightarrow> Some (nx, l, h))"

section \<open>The queues implement the contract\<close>

definition skbq :: "links \<times> sk_buff_head \<Rightarrow> nat list \<Rightarrow> bool" where
  "skbq q xs =
     (path (fst q) (qh_head (snd q)) xs \<and>
      qh_tail (snd q) = (if xs = [] then None else Some (last xs)) \<and>
      qh_qlen (snd q) = word_of_nat (length xs))"

lemma skbq_init: "skbq (nx, empty_head) []"
  by (simp add: skbq_def empty_head_def)

lemma skbq_tail:
  assumes "skbq q xs" and "x \<notin> set xs"
  shows "skbq (queue_tail_raw x q) (xs @ [x])"
proof (cases "xs = []")
  case True
  then show ?thesis using assms by (auto simp: skbq_def queue_tail_raw_def split: prod.split)
next
  case False
  obtain nx l where q: "q = (nx, l)" by (cases q)
  have "path (nx(x := None, last xs := Some x)) (qh_head l) (xs @ [x])"
    using assms False by (intro path_snoc) (simp_all add: skbq_def q)
  then show ?thesis using assms False by (simp add: skbq_def queue_tail_raw_def q)
qed

lemma skbq_head: "skbq q xs \<Longrightarrow> x \<notin> set xs \<Longrightarrow> skbq (queue_head_raw x q) (x # xs)"
  by (cases q) (auto simp: skbq_def queue_head_raw_def Let_def)

lemma skbq_dequeue_empty: "skbq q [] \<Longrightarrow> dequeue_raw q = (None, q)"
  by (cases q) (simp add: skbq_def dequeue_raw_def)

lemma skbq_dequeue: 
  assumes "skbq q (x # xs)"
  shows "fst (dequeue_raw q) = Some x \<and> skbq (snd (dequeue_raw q)) xs"
proof -
  obtain nx l where q: "q = (nx, l)" by (cases q)
  have "x \<notin> set xs" using assms path_distinct [of nx "qh_head l" "x # xs"] by (simp add: skbq_def q)
  then show ?thesis
    using assms path_hd [of nx "nx x" xs] by (cases xs) (auto simp: skbq_def dequeue_raw_def Let_def q)
qed

lemma skbq_unlink:
  assumes "skbq q xs" and "length xs \<le> UINT_MAX"
  shows "\<exists>q'. unlink_raw x q = Some q' \<and> skbq q' (remove1 x xs)"
proof (cases "x \<in> set xs")
  case False
  obtain nx l where q: "q = (nx, l)" by (cases q)
  have "find_prev nx x None (qh_head l) = Some None"
    using assms False by (intro find_prev_absent) (simp_all add: skbq_def q)
  then have "unlink_raw x q = Some q" by (simp add: unlink_raw_def q)
  then show ?thesis using assms False by (simp add: remove1_idem)
next
  case True
  obtain nx l where q: "q = (nx, l)" by (cases q)
  obtain us vs where xs: "xs = us @ x # vs" and us: "x \<notin> set us" using split_list_first [OF True] by blast
  have p: "path nx (qh_head l) (us @ x # vs)" using assms xs by (simp add: skbq_def q)
  have d: "distinct (us @ x # vs)" by (rule path_distinct [OF p])
  let ?n = "length us + length vs"
  have ql: "qh_qlen l = word_of_nat (Suc ?n)" using assms xs by (simp add: skbq_def q)
  have "unat (word_of_nat (Suc ?n) :: u32) = Suc ?n"
    using assms(2) xs by (simp add: unat_of_nat UINT_MAX_def del: of_nat_Suc of_nat_add)
  then have "unat (qh_qlen l) = Suc ?n" using ql by simp
  then have len: "qh_qlen l > 0" "qh_qlen l - 1 = word_of_nat ?n"
    by (simp add: word_less_nat_alt) (simp add: ql)
  have tail: "qh_tail l = Some (last (x # vs))" using assms xs by (simp add: skbq_def q)
  have rem: "remove1 x xs = us @ vs" using us xs by (simp add: remove1_append)
  have px: "path nx (nx x) vs" using path_append [of nx "qh_head l" "us @ [x]" vs] p by simp
  have hd: "us = [] \<Longrightarrow> qh_head l = Some x" using p by auto
  note f = find_prev_present [OF p us, of None]
  have pu: "us \<noteq> [] \<Longrightarrow> path (nx(last us := nx x, x := None)) (qh_head l) (us @ vs)"
    by (rule path_unlink [OF p])
  have pv: "path (nx(x := None)) (nx x) vs" using px d by simp
  have "vs \<noteq> [] \<Longrightarrow> last vs \<noteq> x" using d by (metis distinct.simps(2) distinct_append last_in_set)
  then show ?thesis
    using f len tail pu pv px rem path_hd [OF px]
    by (cases "us = []"; cases "vs = []") (auto simp: unlink_raw_def q skbq_def Let_def)
qed

interpretation skb_queue: unlink_fifo queue_tail_raw dequeue_raw skbq "\<lambda>_. node_fits" "\<lambda>x q. the (unlink_raw x q)"
proof unfold_locales
  show "skbq (the (unlink_raw x q)) (remove1 x xs)" if "skbq q xs" "node_fits xs" for q xs x
    using skbq_unlink [of q xs x] that by (auto simp: node_fits_def)
qed (auto simp: skbq_tail skbq_dequeue_empty node_fits_def dest: skbq_dequeue)

lemma skbq_cong: "(\<And>y. y \<in> set xs \<Longrightarrow> nx y = nx' y) \<Longrightarrow> skbq (nx, l) xs = skbq (nx', l) xs"
  using path_cong [of xs nx nx'] by (simp add: skbq_def)

lemma dequeue_frame: "fst (dequeue_raw (nx, l)) = Some x \<Longrightarrow> y \<noteq> x \<Longrightarrow> fst (snd (dequeue_raw (nx, l))) y = nx y"
  by (auto simp: dequeue_raw_def Let_def split: option.splits)

lemma tail_frame:
  "skbq (nx, h) ys \<Longrightarrow> y \<noteq> x \<Longrightarrow> y \<notin> set ys \<Longrightarrow> fst (queue_tail_raw x (nx, h)) y = nx y"
  by (auto simp: queue_tail_raw_def skbq_def split: if_splits)

lemma splice_moves:
  "skbq (nx, l) xs \<Longrightarrow> skbq (nx, h) ys \<Longrightarrow> set xs \<inter> set ys = {} \<Longrightarrow>
     \<exists>nx' l' h'. splice_loop nx l h = Some (nx', l', h') \<and> skbq (nx', l') [] \<and> skbq (nx', h') (ys @ xs)"
proof (induction xs arbitrary: nx l h ys)
  case Nil
  then show ?case using skbq_dequeue_empty [of "(nx, l)"] by (subst splice_loop.simps) simp
next
  case (Cons x xs)
  obtain nx1 l1 where d: "dequeue_raw (nx, l) = (Some x, nx1, l1)" and l1: "skbq (nx1, l1) xs"
    using skbq_dequeue [OF Cons.prems(1)] by (metis prod.collapse)
  have f1: "y \<noteq> x \<Longrightarrow> nx1 y = nx y" for y using dequeue_frame [of nx l x y] d by simp
  have xys: "x \<notin> set ys" and dx: "x \<notin> set xs" 
    using Cons.prems path_distinct [of nx "qh_head l" "x # xs"] by (auto simp: skbq_def)
  have h1: "skbq (nx1, h) ys" using skbq_cong [of ys nx1 nx h] f1 xys Cons.prems(2) by metis
  obtain nx2 h2 where e: "queue_tail_raw x (nx1, h) = (nx2, h2)" by (cases "queue_tail_raw x (nx1, h)")
  have h2: "skbq (nx2, h2) (ys @ [x])" using skbq_tail [OF h1 xys] e by simp
  have "nx2 y = nx1 y" if "y \<in> set xs" for y
    using tail_frame [OF h1, of y x] e that dx Cons.prems(3) by auto
  then have l2: "skbq (nx2, l1) xs" using skbq_cong [of xs nx2 nx1 l1] l1 by metis
  have "splice_loop nx l h = splice_loop nx2 l1 h2"
    by (subst splice_loop.simps) (simp add: d e)
  then show ?case using Cons.IH [OF l2 h2] dx Cons.prems(3) by simp
qed

section \<open>Properties\<close>

text \<open>
  C30. Socket-buffer queues are first in, first out: buffers appended to a queue come out after those
  already in it, in the order they went in, through the linked list of the code.
\<close>

theorem skb_queue_fifo:
  assumes "skbq q xs" and "distinct (xs @ ys)" and "length (xs @ ys) \<le> UINT_MAX"
  shows "fst (drain dequeue_raw (length (xs @ ys)) (fold queue_tail_raw ys q)) = xs @ ys"
  by (rule skb_queue.order_kept [OF assms(1)]) (use assms(2,3) in \<open>simp add: node_fits_def\<close>)

theorem skb_queue_fifo_witness:
  "fst (drain dequeue_raw 3 (fold queue_tail_raw [4, 9, 2] ((\<lambda>_. None), empty_head))) = [4, 9, 2]"
proof -
  have "length ([] @ [4, 9, 2 :: nat]) = 3" by simp
  then show ?thesis using skb_queue_fifo [OF skbq_init, of "[4, 9, 2]" "\<lambda>_. None"] by (simp only: UINT_MAX_def) simp
qed

text \<open>
  Unlinking a buffer from a well-formed queue ends, removes that buffer and nothing else, keeps the
  others in order and keeps head, tail and length right, wherever the buffer is and also when it is
  not in the queue.
\<close>

theorem skb_unlink_removes:
  assumes "skbq (nx, l) xs" and "length xs \<le> UINT_MAX"
  shows "\<exists>nx' l'. skb_unlink (Some x) (nx, Some l) = Some (nx', Some l') \<and> skbq (nx', l') (remove1 x xs)"
  using skbq_unlink [OF assms, of x] by (auto simp: skb_unlink_def)

theorem skb_unlink_removes_witness:
  "\<exists>nx' l'. skb_unlink (Some 2) ((\<lambda>_. None)(1 := Some 2), Some \<lparr>qh_head = Some 1, qh_tail = Some 2, qh_qlen = 2\<rparr>) =
     Some (nx', Some l') \<and> skbq (nx', l') [1]"
  using skb_unlink_removes [of "(\<lambda>_. None)(1 := Some 2)" "\<lparr>qh_head = Some 1, qh_tail = Some 2, qh_qlen = 2\<rparr>" "[1, 2]" 2]
  by (simp add: skbq_def UINT_MAX_def)

text \<open>
  Splicing one queue onto another ends; the source is empty afterwards and the target holds its own
  buffers followed by those of the source, in order.
\<close>

theorem skb_splice_concatenates:
  assumes "skbq (nx, l) xs" and "skbq (nx, h) ys" and "set xs \<inter> set ys = {}"
  shows "\<exists>nx' l' h'. skb_queue_splice_tail_init nx (Some l) (Some h) = Some (nx', Some l', Some h') \<and>
     skbq (nx', l') [] \<and> skbq (nx', h') (ys @ xs)"
  using splice_moves [OF assms] by (auto simp: skb_queue_splice_tail_init_def)

theorem skb_splice_concatenates_witness:
  "\<exists>nx' l' h'. skb_queue_splice_tail_init (\<lambda>_. None) (Some \<lparr>qh_head = Some 5, qh_tail = Some 5, qh_qlen = 1\<rparr>)
     (Some \<lparr>qh_head = Some 7, qh_tail = Some 7, qh_qlen = 1\<rparr>) = Some (nx', Some l', Some h') \<and>
     skbq (nx', l') [] \<and> skbq (nx', h') [7, 5]"
  using skb_splice_concatenates [of "\<lambda>_. None" "\<lparr>qh_head = Some 5, qh_tail = Some 5, qh_qlen = 1\<rparr>" "[5]"
      "\<lparr>qh_head = Some 7, qh_tail = Some 7, qh_qlen = 1\<rparr>" "[7]"]
  by (simp add: skbq_def)

end
