(* ===== verification/LC_Work.thy ===== *)
theory LC_Work
  imports LC_Queue LC_Time
begin

text \<open>
  Work queues: \<^verbatim>\<open>workqueue.c\<close> and \<^verbatim>\<open>linux/workqueue.h\<close>.  Works and queues are numbers; a delayed work has
  the number of the work it embeds.  Each function is given as the sequence of its critical sections
  and atomic operations, so that the sections of several tasks can be interleaved; the first part of the
  theory has the operations, the second the interleaving of callers and workers.
\<close>

section \<open>State\<close>

definition WORK_QUEUED :: u32 where "WORK_QUEUED = 1"
definition WORK_RUNNING :: u32 where "WORK_RUNNING = 2"

definition WQ_HIGHPRI :: u32 where "WQ_HIGHPRI = 2"
definition WQ_BH :: u32 where "WQ_BH = 4"

record work_struct =
  wk_func :: bool
  wk_state :: u32
  wk_wq :: "nat option"
  wk_delayed :: bool

record delayed_work =
  dw_generation :: u32
  dw_active :: bool
  dw_running :: bool
  dw_expires :: u64

record workqueue_struct =
  wq_flags :: u32
  wq_max_active :: int
  wq_head :: "nat option"
  wq_tail :: "nat option"
  wq_task :: bool
  wq_starting :: bool
  wq_waiting :: bool
  wq_active :: u32

text \<open>The \<^verbatim>\<open>next\<close> members of the works are \<open>ws_next\<close>; queue 0 is \<^verbatim>\<open>system_wq\<close>.\<close>

record wst =
  ws_next :: links
  ws_work :: "nat \<Rightarrow> work_struct"
  ws_dwork :: "nat \<Rightarrow> delayed_work"
  ws_wq :: "nat \<Rightarrow> workqueue_struct"

definition system_wq :: nat where "system_wq = 0"

definition upd_work :: "nat \<Rightarrow> (work_struct \<Rightarrow> work_struct) \<Rightarrow> wst \<Rightarrow> wst" where
  "upd_work w f s = s\<lparr>ws_work := (ws_work s)(w := f (ws_work s w))\<rparr>"

definition upd_dwork :: "nat \<Rightarrow> (delayed_work \<Rightarrow> delayed_work) \<Rightarrow> wst \<Rightarrow> wst" where
  "upd_dwork w f s = s\<lparr>ws_dwork := (ws_dwork s)(w := f (ws_dwork s w))\<rparr>"

definition upd_wq :: "nat \<Rightarrow> (workqueue_struct \<Rightarrow> workqueue_struct) \<Rightarrow> wst \<Rightarrow> wst" where
  "upd_wq q f s = s\<lparr>ws_wq := (ws_wq s)(q := f (ws_wq s q))\<rparr>"

abbreviation work_state :: "nat \<Rightarrow> wst \<Rightarrow> u32" where
  "work_state w s \<equiv> wk_state (ws_work s w)"

section \<open>The list of a queue\<close>

text \<open>The list operations act on the links and one queue.\<close>

definition pop_raw :: "links \<times> workqueue_struct \<Rightarrow> nat option \<times> links \<times> workqueue_struct" where
  "pop_raw p =
     (case p of (nx, wq) \<Rightarrow>
        (case wq_head wq of
           None \<Rightarrow> (None, nx, wq)
         | Some w \<Rightarrow>
             let wq = wq\<lparr>wq_head := nx w\<rparr>;
                 wq = (if wq_head wq = None then wq\<lparr>wq_tail := None\<rparr> else wq)
             in (Some w, nx(w := None), wq)))"

definition append_raw :: "nat \<Rightarrow> links \<times> workqueue_struct \<Rightarrow> links \<times> workqueue_struct" where
  "append_raw w p =
     (case p of (nx, wq) \<Rightarrow>
        let nx = nx(w := None);
            (nx, wq) = (case wq_tail wq of
                Some t \<Rightarrow> (nx(t := Some w), wq)
              | None \<Rightarrow> (nx, wq\<lparr>wq_head := Some w\<rparr>))
        in (nx, wq\<lparr>wq_tail := Some w\<rparr>))"

definition remove_raw :: "nat \<Rightarrow> links \<times> workqueue_struct \<Rightarrow> (bool \<times> links \<times> workqueue_struct) option" where
  "remove_raw w p =
     (case p of (nx, wq) \<Rightarrow>
        (case find_prev nx w None (wq_head wq) of
           None \<Rightarrow> None
         | Some None \<Rightarrow> Some (False, nx, wq)
         | Some (Some prev) \<Rightarrow>
             let (nx', wq) = (case prev of
                    Some p \<Rightarrow> (nx(p := nx w), wq)
                  | None \<Rightarrow> (nx, wq\<lparr>wq_head := nx w\<rparr>));
                 wq = (if wq_tail wq = Some w then wq\<lparr>wq_tail := prev\<rparr> else wq)
             in Some (True, nx'(w := None), wq)))"

text \<open>The same on the whole state.\<close>

definition on_queue :: "nat \<Rightarrow> (links \<times> workqueue_struct) \<Rightarrow> wst \<Rightarrow> wst" where
  "on_queue q p s = s\<lparr>ws_next := fst p, ws_wq := (ws_wq s)(q := snd p)\<rparr>"

definition workqueue_pop_locked :: "nat \<Rightarrow> wst \<Rightarrow> nat option \<times> wst" where
  "workqueue_pop_locked q s =
     (case pop_raw (ws_next s, ws_wq s q) of (w, p) \<Rightarrow> (w, on_queue q p s))"

definition workqueue_remove_locked :: "nat \<Rightarrow> nat \<Rightarrow> wst \<Rightarrow> (bool \<times> wst) option" where
  "workqueue_remove_locked q w s =
     (case remove_raw w (ws_next s, ws_wq s q) of
        None \<Rightarrow> None
      | Some (found, p) \<Rightarrow>
          let s = on_queue q p s
          in Some (found, if found then upd_work w (\<lambda>k. k\<lparr>wk_wq := None\<rparr>) s else s))"

section \<open>The worker\<close>

text \<open>The head of the loop: take a work, or go to wait.\<close>

definition worker_pop :: "nat \<Rightarrow> wst \<Rightarrow> nat option \<times> wst" where
  "worker_pop q s =
     (case workqueue_pop_locked q s of
        (None, s) \<Rightarrow> (None, upd_wq q (\<lambda>k. k\<lparr>wq_waiting := True\<rparr>) s)
      | (Some w, s) \<Rightarrow> (Some w, upd_wq q (\<lambda>k. k\<lparr>wq_waiting := False, wq_active := wq_active k + 1\<rparr>) s))"

text \<open>Trade the QUEUED bit for the RUNNING bit; the compare-and-swap loop is one atomic step.\<close>

definition worker_claim :: "nat \<Rightarrow> wst \<Rightarrow> bool \<times> wst" where
  "worker_claim w s =
     (if work_state w s AND WORK_QUEUED = 0 then (False, s)
      else (True, upd_work w (\<lambda>k. k\<lparr>wk_state := (wk_state k AND NOT WORK_QUEUED) OR WORK_RUNNING\<rparr>) s))"

text \<open>Around the callback, which itself is any sequence of other tasks' operations.\<close>

definition worker_begin :: "nat \<Rightarrow> wst \<Rightarrow> wst" where
  "worker_begin w s = (if wk_delayed (ws_work s w) then upd_dwork w (\<lambda>d. d\<lparr>dw_running := True\<rparr>) s else s)"

definition worker_end :: "nat \<Rightarrow> wst \<Rightarrow> wst" where
  "worker_end w s =
     (let s = (if wk_delayed (ws_work s w) then upd_dwork w (\<lambda>d. d\<lparr>dw_running := False\<rparr>) s else s)
      in upd_work w (\<lambda>k. k\<lparr>wk_state := wk_state k AND NOT WORK_RUNNING\<rparr>) s)"

definition worker_finish :: "nat \<Rightarrow> nat \<Rightarrow> wst \<Rightarrow> wst" where
  "worker_finish q w s =
     (let s = (if work_state w s AND WORK_QUEUED = 0 then upd_work w (\<lambda>k. k\<lparr>wk_wq := None\<rparr>) s else s)
      in if wq_active (ws_wq s q) \<noteq> 0 then upd_wq q (\<lambda>k. k\<lparr>wq_active := wq_active k - 1\<rparr>) s else s)"

text \<open>
  \<open>created\<close>: the host made the task.  The answer says whether a worker exists and whether this call
  created it; None is the wait for another task that is starting the worker.
\<close>

definition workqueue_ensure_worker :: "bool \<Rightarrow> nat \<Rightarrow> wst \<Rightarrow> (bool \<times> bool \<times> wst) option" where
  "workqueue_ensure_worker created q s =
     (if wq_task (ws_wq s q) then Some (True, False, s)
      else if wq_starting (ws_wq s q) then None
      else
        let s = upd_wq q (\<lambda>k. k\<lparr>wq_starting := True\<rparr>) s
        in if \<not> created then Some (False, False, upd_wq q (\<lambda>k. k\<lparr>wq_starting := False\<rparr>) s)
           else Some (True, True, upd_wq q (\<lambda>k. k\<lparr>wq_task := True, wq_starting := False\<rparr>) s))"

text \<open>The priority of the worker's task: True is \<^verbatim>\<open>KTHREAD_PRIORITY\<close>.\<close>

definition worker_high :: "workqueue_struct \<Rightarrow> bool" where
  "worker_high k = (wq_flags k AND (WQ_HIGHPRI OR WQ_BH) \<noteq> 0)"

text \<open>Does \<^verbatim>\<open>wake\<close> unblock the worker?\<close>

definition workqueue_wake :: "nat \<Rightarrow> wst \<Rightarrow> bool" where
  "workqueue_wake q s = (wq_task (ws_wq s q) \<and> wq_waiting (ws_wq s q))"

section \<open>Queueing\<close>

definition init_work :: "nat \<Rightarrow> bool \<Rightarrow> wst \<Rightarrow> wst" where
  "init_work w f s =
     s\<lparr>ws_work := (ws_work s)(w := \<lparr>wk_func = f, wk_state = 0, wk_wq = None, wk_delayed = False\<rparr>),
       ws_next := (ws_next s)(w := None)\<rparr>"

definition init_delayed_work :: "nat \<Rightarrow> bool \<Rightarrow> wst \<Rightarrow> wst" where
  "init_delayed_work w f s =
     s\<lparr>ws_work := (ws_work s)(w := \<lparr>wk_func = f, wk_state = 0, wk_wq = None, wk_delayed = True\<rparr>),
       ws_next := (ws_next s)(w := None),
       ws_dwork := (ws_dwork s)(w := \<lparr>dw_generation = 0, dw_active = False, dw_running = False, dw_expires = 0\<rparr>)\<rparr>"

definition new_workqueue :: "u32 \<Rightarrow> int \<Rightarrow> workqueue_struct" where
  "new_workqueue flags max_active = \<lparr>wq_flags = flags, wq_max_active = max_active, wq_head = None, wq_tail = None,
     wq_task = False, wq_starting = False, wq_waiting = False, wq_active = 0\<rparr>"

text \<open>\<open>q\<close> is the address the allocator gives, None when it fails.\<close>

definition alloc_workqueue :: "nat option \<Rightarrow> u32 \<Rightarrow> int \<Rightarrow> wst \<Rightarrow> nat option \<times> wst" where
  "alloc_workqueue q flags max_active s =
     (case q of None \<Rightarrow> (None, s) | Some q \<Rightarrow> (Some q, upd_wq q (\<lambda>_. new_workqueue flags max_active) s))"

text \<open>The two halves of \<^verbatim>\<open>lcompat_queue_work\<close>: take the QUEUED bit, then link under the lock.\<close>

definition queue_claim :: "nat \<Rightarrow> wst \<Rightarrow> bool \<times> wst" where
  "queue_claim w s =
     (if work_state w s AND WORK_QUEUED \<noteq> 0 then (False, s)
      else (True, upd_work w (\<lambda>k. k\<lparr>wk_state := wk_state k OR WORK_QUEUED\<rparr>) s))"

definition queue_link :: "nat \<Rightarrow> nat \<Rightarrow> wst \<Rightarrow> wst" where
  "queue_link q w s = upd_work w (\<lambda>k. k\<lparr>wk_wq := Some q\<rparr>) (on_queue q (append_raw w (ws_next s, ws_wq s q)) s)"

text \<open>The answer, whether the worker was woken, and the state; None is the wait of \<open>ensure_worker\<close>.\<close>

definition queue_work :: "bool \<Rightarrow> nat option \<Rightarrow> nat option \<Rightarrow> wst \<Rightarrow> (bool \<times> bool \<times> wst) option" where
  "queue_work created wq work s =
     (let q = (case wq of None \<Rightarrow> system_wq | Some q \<Rightarrow> q)
      in case work of
           None \<Rightarrow> Some (False, False, s)
         | Some w \<Rightarrow>
             if \<not> wk_func (ws_work s w) then Some (False, False, s)
             else case workqueue_ensure_worker created q s of
                 None \<Rightarrow> None
               | Some (ok, _, s) \<Rightarrow>
                   if \<not> ok then Some (False, False, s)
                   else case queue_claim w s of
                       (False, s) \<Rightarrow> Some (False, False, s)
                     | (True, s) \<Rightarrow> let s = queue_link q w s in Some (True, workqueue_wake q s, s))"

text \<open>\<open>now\<close> is the clock; \<open>created\<close> answers for the worker when the delay is 0, else for the delay's task.\<close>

definition queue_delayed_work :: "bool \<Rightarrow> u64 \<Rightarrow> nat option \<Rightarrow> nat option \<Rightarrow> u64 \<Rightarrow> wst \<Rightarrow> (bool \<times> wst) option" where
  "queue_delayed_work created now wq work delay s =
     (let q = (case wq of None \<Rightarrow> system_wq | Some q \<Rightarrow> q)
      in case work of
           None \<Rightarrow> Some (False, s)
         | Some w \<Rightarrow>
             if \<not> wk_func (ws_work s w) then Some (False, s)
             else if delay = 0 then map_option (\<lambda>(ok, _, s). (ok, s)) (queue_work created (Some q) (Some w) s)
             else if work_state w s \<noteq> 0 then Some (False, s)
             else
               let s = upd_work w (\<lambda>k. k\<lparr>wk_state := WORK_QUEUED, wk_wq := Some q\<rparr>) s;
                   s = upd_dwork w (\<lambda>d. d\<lparr>dw_expires := now + delay, dw_active := True,
                          dw_generation := dw_generation d + 1\<rparr>) s
               in if created then Some (True, s)
                  else Some (False, upd_work w (\<lambda>k. k\<lparr>wk_state := 0\<rparr>)
                         (upd_dwork w (\<lambda>d. d\<lparr>dw_active := False, dw_generation := dw_generation d + 1\<rparr>) s)))"

text \<open>
  The delay's task: \<open>gen\<close>, \<open>expires\<close> and \<open>wq\<close> are what it read at its start.  It waits while
  \<open>delayed_waits\<close>, then fires.
\<close>

definition delayed_waits :: "u64 \<Rightarrow> u32 \<Rightarrow> u64 \<Rightarrow> nat \<Rightarrow> wst \<Rightarrow> bool" where
  "delayed_waits now gen expires w s =
     (dw_active (ws_dwork s w) \<and> dw_generation (ws_dwork s w) = gen \<and> time_before now expires)"

definition delayed_fire :: "bool \<Rightarrow> u32 \<Rightarrow> nat option \<Rightarrow> nat \<Rightarrow> wst \<Rightarrow> (bool \<times> wst) option" where
  "delayed_fire created gen wq w s =
     (if \<not> dw_active (ws_dwork s w) \<or> dw_generation (ws_dwork s w) \<noteq> gen
      then Some (False, upd_work w (\<lambda>k. k\<lparr>wk_state := 0\<rparr>) s)
      else
        let s = upd_dwork w (\<lambda>d. d\<lparr>dw_active := False\<rparr>) s
        in if work_state w s \<noteq> WORK_QUEUED then Some (False, s)
           else map_option (\<lambda>(ok, _, s). (ok, s))
                  (queue_work created wq (Some w) (upd_work w (\<lambda>k. k\<lparr>wk_state := 0\<rparr>) s)))"

section \<open>Flushing and cancelling\<close>

text \<open>The wait of \<^verbatim>\<open>lcompat_flush_workqueue\<close> is over when this holds.\<close>

definition flush_idle :: "nat \<Rightarrow> wst \<Rightarrow> bool" where
  "flush_idle q s = (wq_head (ws_wq s q) = None \<and> wq_active (ws_wq s q) = 0)"

text \<open>The critical section of \<^verbatim>\<open>cancel_work_sync\<close>, the atomic operation after it, and its wait.\<close>

definition cancel_remove :: "nat \<Rightarrow> wst \<Rightarrow> (bool \<times> wst) option" where
  "cancel_remove w s =
     (case wk_wq (ws_work s w) of None \<Rightarrow> Some (False, s) | Some q \<Rightarrow> workqueue_remove_locked q w s)"

definition cancel_clear :: "nat \<Rightarrow> wst \<Rightarrow> wst" where
  "cancel_clear w s = upd_work w (\<lambda>k. k\<lparr>wk_state := wk_state k AND NOT WORK_QUEUED\<rparr>) s"

definition cancel_waits :: "nat \<Rightarrow> wst \<Rightarrow> bool" where
  "cancel_waits w s = (work_state w s = WORK_RUNNING)"

definition cancel_work :: "nat option \<Rightarrow> wst \<Rightarrow> (bool \<times> wst) option" where
  "cancel_work work s =
     (case work of
        None \<Rightarrow> Some (False, s)
      | Some w \<Rightarrow>
          (case cancel_remove w s of
             None \<Rightarrow> None
           | Some (canceled, s) \<Rightarrow> Some (canceled, if canceled then cancel_clear w s else s)))"

text \<open>\<^verbatim>\<open>cancel_delayed_work_sync\<close> up to its waits.\<close>

definition cancel_delayed_work :: "nat option \<Rightarrow> wst \<Rightarrow> (bool \<times> wst) option" where
  "cancel_delayed_work work s =
     (case work of
        None \<Rightarrow> Some (False, s)
      | Some w \<Rightarrow>
          let pending = (dw_active (ws_dwork s w) \<or> work_state w s = WORK_QUEUED \<or> dw_running (ws_dwork s w));
              s = upd_dwork w (\<lambda>d. d\<lparr>dw_active := False, dw_generation := dw_generation d + 1\<rparr>) s
          in map_option (\<lambda>(_, s). (pending, s)) (cancel_work (Some w) s))"

section \<open>The list implements the contract\<close>

definition wqueue :: "links \<times> workqueue_struct \<Rightarrow> nat list \<Rightarrow> bool" where
  "wqueue p xs =
     (path (fst p) (wq_head (snd p)) xs \<and> wq_tail (snd p) = (if xs = [] then None else Some (last xs)))"

lemma wqueue_append:
  assumes "wqueue p xs" and "w \<notin> set xs"
  shows "wqueue (append_raw w p) (xs @ [w])"
proof (cases "xs = []")
  case True
  then show ?thesis using assms by (auto simp: wqueue_def append_raw_def split: prod.split)
next
  case False
  obtain nx k where p: "p = (nx, k)" by (cases p)
  have "path (nx(w := None, last xs := Some w)) (wq_head k) (xs @ [w])"
    using assms False by (intro path_snoc) (simp_all add: wqueue_def p)
  then show ?thesis using assms False by (simp add: wqueue_def append_raw_def p)
qed

lemma wqueue_pop_empty: "wqueue p [] \<Longrightarrow> pop_raw p = (None, p)"
  by (cases p) (simp add: wqueue_def pop_raw_def)

lemma wqueue_pop:
  assumes "wqueue p (w # xs)"
  shows "fst (pop_raw p) = Some w \<and> wqueue (snd (pop_raw p)) xs"
proof -
  obtain nx k where p: "p = (nx, k)" by (cases p)
  have "w \<notin> set xs" using assms path_distinct [of nx "wq_head k" "w # xs"] by (simp add: wqueue_def p)
  then show ?thesis
    using assms path_hd [of nx "nx w" xs] by (cases xs) (auto simp: wqueue_def pop_raw_def Let_def p)
qed

lemma wqueue_remove:
  assumes "wqueue p xs"
  shows "\<exists>p'. remove_raw w p = Some (w \<in> set xs, p') \<and> wqueue p' (remove1 w xs)"
proof (cases "w \<in> set xs")
  case False
  obtain nx k where p: "p = (nx, k)" by (cases p)
  have "find_prev nx w None (wq_head k) = Some None"
    using assms False by (intro find_prev_absent) (simp_all add: wqueue_def p)
  then have "remove_raw w p = Some (False, p)" by (simp add: remove_raw_def p)
  then show ?thesis using assms False by (simp add: remove1_idem)
next
  case True
  obtain nx k where p: "p = (nx, k)" by (cases p)
  obtain us vs where xs: "xs = us @ w # vs" and us: "w \<notin> set us" using split_list_first [OF True] by blast
  have pa: "path nx (wq_head k) (us @ w # vs)" using assms xs by (simp add: wqueue_def p)
  have d: "distinct (us @ w # vs)" by (rule path_distinct [OF pa])
  have tail: "wq_tail k = Some (last (w # vs))" using assms xs by (simp add: wqueue_def p)
  have rem: "remove1 w xs = us @ vs" using us xs by (simp add: remove1_append)
  have px: "path nx (nx w) vs" using path_append [of nx "wq_head k" "us @ [w]" vs] pa by simp
  note f = find_prev_present [OF pa us, of None]
  have pu: "us \<noteq> [] \<Longrightarrow> path (nx(last us := nx w, w := None)) (wq_head k) (us @ vs)"
    by (rule path_unlink [OF pa])
  have pv: "path (nx(w := None)) (nx w) vs" using px d by simp
  have "vs \<noteq> [] \<Longrightarrow> last vs \<noteq> w" using d by (metis distinct.simps(2) distinct_append last_in_set)
  then show ?thesis
    using f tail pu pv px rem path_hd [OF px] True
    by (cases "us = []"; cases "vs = []") (auto simp: remove_raw_def p wqueue_def Let_def)
qed

interpretation work_queue: unlink_fifo append_raw pop_raw wqueue "\<lambda>_. node_fits" "\<lambda>w p. snd (the (remove_raw w p))"
proof unfold_locales
  show "wqueue (snd (the (remove_raw w p))) (remove1 w xs)" if "wqueue p xs" "node_fits xs" for p xs w
    using wqueue_remove [OF that(1), of w] by auto
qed (auto simp: wqueue_append wqueue_pop_empty node_fits_def dest: wqueue_pop)

end
