(* ===== verification/LC_Work_Inv.thy ===== *)
theory LC_Work_Inv
  imports LC_Work
begin

text \<open>
  Callers and workers interleaved: any number of tasks queue and cancel works while every queue's worker
  runs, one critical section or atomic operation at a time.  The ghost counters record how often a work
  was queued with success, run, and cancelled.
\<close>

section \<open>The system\<close>

datatype wpc = WIdle | WPopped nat | WRunning nat | WDone nat

text \<open>What a caller is in the middle of, for a work: it owns the QUEUED bit and is yet to link the work
  to the queue, or it has unlinked the work and is yet to clear the bit.\<close>

datatype caller = CNone | CLinking nat | CClearing

record wsys =
  sy_w :: wst
  sy_pc :: "nat \<Rightarrow> wpc"
  sy_caller :: "nat \<Rightarrow> caller"
  sy_queued :: "nat \<Rightarrow> nat"
  sy_ran :: "nat \<Rightarrow> nat"
  sy_cancelled :: "nat \<Rightarrow> nat"

datatype wact = AClaim nat nat | ALink nat | APop nat | ATake nat | AEnd nat | AFinish nat | ARemove nat nat | AClear nat

text \<open>A canceller may have read a stale queue, so \<open>ARemove\<close> is for any queue.\<close>

definition work_next :: "wact \<Rightarrow> wsys \<Rightarrow> wsys option" where
  "work_next a y =
     (case a of
        AClaim q w \<Rightarrow>
          (case queue_claim w (sy_w y) of
             (False, _) \<Rightarrow> None
           | (True, s) \<Rightarrow> Some (y\<lparr>sy_w := s, sy_caller := (sy_caller y)(w := CLinking q),
               sy_queued := (sy_queued y)(w := sy_queued y w + 1)\<rparr>))
      | ALink w \<Rightarrow>
          (case sy_caller y w of
             CLinking q \<Rightarrow> Some (y\<lparr>sy_w := queue_link q w (sy_w y), sy_caller := (sy_caller y)(w := CNone)\<rparr>)
           | _ \<Rightarrow> None)
      | APop q \<Rightarrow>
          (if sy_pc y q \<noteq> WIdle then None
           else case worker_pop q (sy_w y) of
               (None, s) \<Rightarrow> Some (y\<lparr>sy_w := s\<rparr>)
             | (Some w, s) \<Rightarrow> Some (y\<lparr>sy_w := s, sy_pc := (sy_pc y)(q := WPopped w)\<rparr>))
      | ATake q \<Rightarrow>
          (case sy_pc y q of
             WPopped w \<Rightarrow>
               (case worker_claim w (sy_w y) of
                  (False, s) \<Rightarrow> Some (y\<lparr>sy_w := s, sy_pc := (sy_pc y)(q := WDone w)\<rparr>)
                | (True, s) \<Rightarrow> Some (y\<lparr>sy_w := worker_begin w s, sy_pc := (sy_pc y)(q := WRunning w),
                    sy_ran := (sy_ran y)(w := sy_ran y w + 1)\<rparr>))
           | _ \<Rightarrow> None)
      | AEnd q \<Rightarrow>
          (case sy_pc y q of
             WRunning w \<Rightarrow> Some (y\<lparr>sy_w := worker_end w (sy_w y), sy_pc := (sy_pc y)(q := WDone w)\<rparr>)
           | _ \<Rightarrow> None)
      | AFinish q \<Rightarrow>
          (case sy_pc y q of
             WDone w \<Rightarrow> Some (y\<lparr>sy_w := worker_finish q w (sy_w y), sy_pc := (sy_pc y)(q := WIdle)\<rparr>)
           | _ \<Rightarrow> None)
      | ARemove q w \<Rightarrow>
          (case workqueue_remove_locked q w (sy_w y) of
             None \<Rightarrow> None
           | Some (found, s) \<Rightarrow>
               Some (y\<lparr>sy_w := s, sy_caller := (if found then (sy_caller y)(w := CClearing) else sy_caller y)\<rparr>))
      | AClear w \<Rightarrow>
          (case sy_caller y w of
             CClearing \<Rightarrow> Some (y\<lparr>sy_w := cancel_clear w (sy_w y), sy_caller := (sy_caller y)(w := CNone),
               sy_cancelled := (sy_cancelled y)(w := sy_cancelled y w + 1)\<rparr>)
           | _ \<Rightarrow> None))"

text \<open>At the start every queue is new and every work freshly initialised.\<close>

definition work_start :: "wsys \<Rightarrow> bool" where
  "work_start y =
     ((\<forall>q. wq_head (ws_wq (sy_w y) q) = None \<and> wq_tail (ws_wq (sy_w y) q) = None \<and> wq_active (ws_wq (sy_w y) q) = 0) \<and>
      (\<forall>w. work_state w (sy_w y) = 0) \<and>
      (\<forall>q. sy_pc y q = WIdle) \<and> (\<forall>w. sy_caller y w = CNone) \<and>
      (\<forall>w. sy_queued y w = 0 \<and> sy_ran y w = 0 \<and> sy_cancelled y w = 0))"

inductive work_reach :: "wsys \<Rightarrow> bool" where
  reach_start: "work_start y \<Longrightarrow> work_reach y"
| reach_next: "work_reach y \<Longrightarrow> work_next a y = Some z \<Longrightarrow> work_reach z"

section \<open>The QUEUED bit\<close>

definition queued_bit :: "nat \<Rightarrow> wst \<Rightarrow> bool" where
  "queued_bit w s = (work_state w s AND WORK_QUEUED \<noteq> 0)"

lemma queued_bit_iff: "queued_bit w s \<longleftrightarrow> bit (work_state w s) 0"
  by (simp add: queued_bit_def WORK_QUEUED_def and_one_eq bit_0 odd_iff_mod_2_eq_one)

lemma bit_state_simps:
  "bit ((x :: u32) OR WORK_QUEUED) 0" "\<not> bit (x AND NOT WORK_QUEUED) 0"
  "\<not> bit (x AND NOT WORK_QUEUED OR WORK_RUNNING) 0" "bit (x AND NOT WORK_RUNNING) 0 = bit x 0"
  unfolding WORK_QUEUED_def WORK_RUNNING_def by (simp_all only: bit_or_iff bit_and_iff bit_not_iff) simp_all

lemma work_upd_simps [simp]:
  "ws_work (upd_wq q f s) = ws_work s" "ws_work (on_queue q p s) = ws_work s" "ws_work (upd_dwork w g s) = ws_work s"
  "ws_work (upd_work w h s) v = (if v = w then h (ws_work s w) else ws_work s v)"
  "ws_next (upd_wq q f s) = ws_next s" "ws_next (upd_work w h s) = ws_next s" "ws_next (upd_dwork w g s) = ws_next s"
  "ws_next (on_queue q p s) = fst p"
  "ws_wq (upd_work w h s) = ws_wq s" "ws_wq (upd_dwork w g s) = ws_wq s"
  "ws_wq (upd_wq q f s) r = (if r = q then f (ws_wq s q) else ws_wq s r)"
  "ws_wq (on_queue q p s) r = (if r = q then snd p else ws_wq s r)"
  by (simp_all add: upd_wq_def on_queue_def upd_dwork_def upd_work_def)

section \<open>Frames of the list operations\<close>

lemma wqueue_links: "(\<And>v. v \<in> set xs \<Longrightarrow> nx v = nx' v) \<Longrightarrow> wqueue (nx, k) xs = wqueue (nx', k) xs"
  using path_cong [of xs nx nx'] by (simp add: wqueue_def)

lemma wqueue_fields: "wq_head k = wq_head k' \<Longrightarrow> wq_tail k = wq_tail k' \<Longrightarrow> wqueue (nx, k) xs = wqueue (nx, k') xs"
  by (simp add: wqueue_def)

lemma append_frame: "wqueue (nx, k) xs \<Longrightarrow> v \<noteq> w \<Longrightarrow> v \<notin> set xs \<Longrightarrow> fst (append_raw w (nx, k)) v = nx v"
  by (auto simp: append_raw_def wqueue_def split: if_splits)

lemma append_active: "wq_active (snd (append_raw w (nx, k))) = wq_active k"
  by (simp add: append_raw_def Let_def split: option.split)

lemma pop_frame: "wqueue (nx, k) xs \<Longrightarrow> v \<notin> set xs \<Longrightarrow> fst (snd (pop_raw (nx, k))) v = nx v"
  by (cases xs) (auto simp: pop_raw_def wqueue_def Let_def)

lemma pop_active: "wq_active (snd (snd (pop_raw (nx, k)))) = wq_active k"
  by (simp add: pop_raw_def Let_def split: option.split)

lemma remove_frame:
  assumes "wqueue (nx, k) xs" and "remove_raw w (nx, k) = Some (b, p)" and "v \<notin> set xs"
  shows "fst p v = nx v"
proof (cases "w \<in> set xs")
  case False
  then have "find_prev nx w None (wq_head k) = Some None"
    using assms(1) by (intro find_prev_absent) (simp_all add: wqueue_def)
  then show ?thesis using assms(2) by (auto simp: remove_raw_def)
next
  case True
  obtain us vs where xs: "xs = us @ w # vs" and us: "w \<notin> set us" using split_list_first [OF True] by blast
  have "path nx (wq_head k) (us @ w # vs)" using assms(1) xs by (simp add: wqueue_def)
  note f = find_prev_present [OF this us, of None]
  have "us \<noteq> [] \<Longrightarrow> last us \<in> set xs" using xs by simp
  then show ?thesis using f assms(2,3) True by (cases "us = []") (auto simp: remove_raw_def Let_def split: if_splits)
qed

lemma remove_active: "remove_raw w (nx, k) = Some (b, p) \<Longrightarrow> wq_active (snd p) = wq_active k"
  by (auto simp: remove_raw_def Let_def split: option.splits if_splits)

section \<open>The invariant\<close>

text \<open>
  Who holds the QUEUED bit of a work: the queue it is linked to, the caller about to link it, the
  worker that took it off and has not claimed it yet, or the caller that cancelled it.
\<close>

datatype token = InQueue nat | Linking nat | Popped nat | Clearing

definition winv_with :: "(nat \<Rightarrow> token option) \<Rightarrow> (nat \<Rightarrow> nat list) \<Rightarrow> wsys \<Rightarrow> bool" where
  "winv_with tok ls y =
     ((\<forall>w. queued_bit w (sy_w y) \<longleftrightarrow> tok w \<noteq> None) \<and>
      (\<forall>w q. sy_caller y w = CLinking q \<longleftrightarrow> tok w = Some (Linking q)) \<and>
      (\<forall>w. sy_caller y w = CClearing \<longleftrightarrow> tok w = Some Clearing) \<and>
      (\<forall>w q. sy_pc y q = WPopped w \<longleftrightarrow> tok w = Some (Popped q)) \<and>
      (\<forall>q. wqueue (ws_next (sy_w y), ws_wq (sy_w y) q) (ls q)) \<and>
      (\<forall>w q. w \<in> set (ls q) \<longleftrightarrow> tok w = Some (InQueue q)) \<and>
      (\<forall>w. sy_queued y w = sy_ran y w + sy_cancelled y w + of_bool (queued_bit w (sy_w y))) \<and>
      (\<forall>q. wq_active (ws_wq (sy_w y) q) = of_bool (sy_pc y q \<noteq> WIdle)))"

definition winv :: "wsys \<Rightarrow> bool" where
  "winv y = (\<exists>tok ls. winv_with tok ls y)"

lemma winv_start: "work_start y \<Longrightarrow> winv y"
  unfolding winv_def
  by (intro exI [of _ "\<lambda>_. None"] exI [of _ "\<lambda>_. []"]) (simp add: winv_with_def work_start_def queued_bit_def wqueue_def)

lemma winv_claim:
  assumes "winv_with tok ls y" and "work_next (AClaim q w) y = Some z"
  shows "winv_with (tok(w := Some (Linking q))) ls z"
proof -
  have free: "\<not> queued_bit w (sy_w y)"
    using assms(2) by (auto simp: work_next_def queue_claim_def queued_bit_def split: if_splits)
  let ?s = "upd_work w (\<lambda>k. k\<lparr>wk_state := wk_state k OR WORK_QUEUED\<rparr>) (sy_w y)"
  have z: "z = y\<lparr>sy_w := ?s, sy_caller := (sy_caller y)(w := CLinking q), sy_queued := (sy_queued y)(w := sy_queued y w + 1)\<rparr>"
    using assms(2) free by (auto simp: work_next_def queue_claim_def queued_bit_def split: if_splits)
  have "tok w = None" using assms(1) free by (simp add: winv_with_def)
  moreover have "queued_bit v ?s \<longleftrightarrow> v = w \<or> queued_bit v (sy_w y)" for v
    by (simp add: queued_bit_iff bit_state_simps)
  ultimately show ?thesis using assms(1) free unfolding winv_with_def z by auto
qed

text \<open>A list operation on queue \<open>q\<close> that touches the links of its own works and of \<open>w\<close> leaves the others alone.\<close>

lemma other_queues:
  assumes inv: "winv_with tok ls y" and frame: "\<And>v. v \<noteq> w \<Longrightarrow> v \<notin> set (ls q) \<Longrightarrow> fst p v = ws_next (sy_w y) v"
    and w: "tok w \<noteq> Some (InQueue r)" and r: "r \<noteq> q"
  shows "wqueue (fst p, ws_wq (sy_w y) r) (ls r)"
proof -
  have "v \<noteq> w \<and> v \<notin> set (ls q)" if "v \<in> set (ls r)" for v
    using that inv w r unfolding winv_with_def by auto
  then have "fst p v = ws_next (sy_w y) v" if "v \<in> set (ls r)" for v using that frame by blast
  then show ?thesis using inv wqueue_links [of "ls r" "fst p" "ws_next (sy_w y)"] by (simp add: winv_with_def)
qed

lemma winv_link:
  assumes inv: "winv_with tok ls y" and st: "work_next (ALink w) y = Some z"
  shows "\<exists>tok' ls'. winv_with tok' ls' z"
proof -
  obtain q where q: "sy_caller y w = CLinking q"
    and z: "z = y\<lparr>sy_w := queue_link q w (sy_w y), sy_caller := (sy_caller y)(w := CNone)\<rparr>"
    using st by (auto simp: work_next_def split: caller.splits)
  have tw: "tok w = Some (Linking q)" using inv q by (simp add: winv_with_def)
  let ?p = "append_raw w (ws_next (sy_w y), ws_wq (sy_w y) q)"
  have wq: "wqueue (ws_next (sy_w y), ws_wq (sy_w y) q) (ls q)" and nq: "w \<notin> set (ls q)"
    using inv tw by (simp_all add: winv_with_def)
  have "wqueue ?p (ls q @ [w])" by (rule wqueue_append [OF wq nq])
  moreover have "wqueue (fst ?p, ws_wq (sy_w y) r) (ls r)" if "r \<noteq> q" for r
    by (rule other_queues [OF inv _ _ that, where w = w]) (simp_all add: append_frame [OF wq] tw)
  moreover have "wq_active (snd ?p) = wq_active (ws_wq (sy_w y) q)" by (rule append_active)
  moreover have "queued_bit v (queue_link q w (sy_w y)) = queued_bit v (sy_w y)" for v
    by (simp add: queue_link_def queued_bit_def)
  ultimately have "winv_with (tok(w := Some (InQueue q))) (ls(q := ls q @ [w])) z"
    using inv tw unfolding winv_with_def z by (auto simp: queue_link_def)
  then show ?thesis by blast
qed

lemma winv_pop:
  assumes inv: "winv_with tok ls y" and st: "work_next (APop q) y = Some z"
  shows "\<exists>tok' ls'. winv_with tok' ls' z"
proof -
  have idle: "sy_pc y q = WIdle" using st by (auto simp: work_next_def split: if_splits)
  let ?nk = "(ws_next (sy_w y), ws_wq (sy_w y) q)"
  have wq: "wqueue ?nk (ls q)" using inv by (simp add: winv_with_def)
  have act: "wq_active (ws_wq (sy_w y) q) = 0" using inv idle by (simp add: winv_with_def)
  show ?thesis
  proof (cases "ls q")
    case Nil
    then have pr: "pop_raw ?nk = (None, ?nk)" using wqueue_pop_empty wq by simp
    have z: "z = y\<lparr>sy_w := upd_wq q (\<lambda>k. k\<lparr>wq_waiting := True\<rparr>) (on_queue q ?nk (sy_w y))\<rparr>"
      using st idle by (simp add: work_next_def worker_pop_def workqueue_pop_locked_def pr)
    have "wqueue (ws_next (sy_w y), (ws_wq (sy_w y) q)\<lparr>wq_waiting := True\<rparr>) (ls q)"
      using wq by (simp add: wqueue_def)
    then have "winv_with tok ls z" using inv unfolding winv_with_def z by (auto simp: queued_bit_def)
    then show ?thesis by blast
  next
    case (Cons w xs)
    obtain p where pr: "pop_raw ?nk = (Some w, p)" and wp: "wqueue p xs"
      using wqueue_pop [of ?nk w xs] wq Cons by (metis prod.collapse)
    let ?f = "\<lambda>k. k\<lparr>wq_waiting := False, wq_active := wq_active k + 1\<rparr>"
    have z: "z = y\<lparr>sy_w := upd_wq q ?f (on_queue q p (sy_w y)), sy_pc := (sy_pc y)(q := WPopped w)\<rparr>"
      using st idle by (simp add: work_next_def worker_pop_def workqueue_pop_locked_def pr)
    have dx: "w \<notin> set xs"
      using Cons path_distinct [of "ws_next (sy_w y)" "wq_head (ws_wq (sy_w y) q)" "ls q"] wq
      by (auto simp: wqueue_def)
    have "w \<in> set (ls q)" using Cons by simp
    then have tw: "tok w = Some (InQueue q)" using inv unfolding winv_with_def by blast
    have np: "tok v \<noteq> Some (Popped q)" for v using inv idle unfolding winv_with_def by (metis wpc.distinct(1))
    have mem: "v \<in> set xs \<longleftrightarrow> tok v = Some (InQueue q) \<and> v \<noteq> w" for v
      using inv Cons dx unfolding winv_with_def by (metis set_ConsD list.set_intros(1,2))
    have "wqueue (fst p, ws_wq (sy_w y) r) (ls r)" if "r \<noteq> q" for r
      using pop_frame [OF wq] pr tw that by (intro other_queues [OF inv _ _ that, where w = w]) auto
    moreover have "wqueue (fst p, ?f (snd p)) xs" using wp by (simp add: wqueue_def)
    moreover have "wq_active (snd p) = 0" using pop_active [of "ws_next (sy_w y)" "ws_wq (sy_w y) q"] pr act by simp
    moreover have "queued_bit v (upd_wq q ?f (on_queue q p (sy_w y))) = queued_bit v (sy_w y)" for v
      by (simp add: queued_bit_def)
    ultimately have "winv_with (tok(w := Some (Popped q))) (ls(q := xs)) z"
      using inv tw idle np unfolding winv_with_def z by (auto simp: mem)
    then show ?thesis by blast
  qed
qed

lemma claim_succeeds:
  assumes "winv y" and "sy_pc y q = WPopped w"
  shows "fst (worker_claim w (sy_w y))"
proof -
  have "queued_bit w (sy_w y)" using assms unfolding winv_def winv_with_def by (metis option.distinct(1))
  then show ?thesis by (simp add: worker_claim_def queued_bit_def)
qed

lemma winv_take:
  assumes inv: "winv_with tok ls y" and st: "work_next (ATake q) y = Some z"
  shows "\<exists>tok' ls'. winv_with tok' ls' z"
proof -
  obtain w where w: "sy_pc y q = WPopped w" using st by (auto simp: work_next_def split: wpc.splits)
  have tw: "tok w = Some (Popped q)" using inv w by (simp add: winv_with_def)
  have ni: "sy_pc y q \<noteq> WIdle" using w by simp
  have np: "v \<noteq> w \<Longrightarrow> tok v \<noteq> Some (Popped q)" for v
    using inv w unfolding winv_with_def by (metis wpc.inject(1))
  have qb: "queued_bit w (sy_w y)" using inv tw by (simp add: winv_with_def)
  let ?s = "upd_work w (\<lambda>k. k\<lparr>wk_state := (wk_state k AND NOT WORK_QUEUED) OR WORK_RUNNING\<rparr>) (sy_w y)"
  have z: "z = y\<lparr>sy_w := worker_begin w ?s, sy_pc := (sy_pc y)(q := WRunning w), sy_ran := (sy_ran y)(w := sy_ran y w + 1)\<rparr>"
    using st w qb by (simp add: work_next_def worker_claim_def queued_bit_def)
  have b: "ws_work (worker_begin w ?s) = ws_work ?s" "ws_next (worker_begin w ?s) = ws_next (sy_w y)"
    "ws_wq (worker_begin w ?s) = ws_wq (sy_w y)"
    by (simp_all add: worker_begin_def)
  have "queued_bit v (worker_begin w ?s) \<longleftrightarrow> v \<noteq> w \<and> queued_bit v (sy_w y)" for v
    by (simp add: queued_bit_iff b bit_state_simps)
  then have "winv_with (tok(w := None)) ls z"
    using inv tw qb ni np unfolding winv_with_def z by (simp add: b)
  then show ?thesis by blast
qed

lemma winv_end:
  assumes inv: "winv_with tok ls y" and st: "work_next (AEnd q) y = Some z"
  shows "\<exists>tok' ls'. winv_with tok' ls' z"
proof -
  obtain w where w: "sy_pc y q = WRunning w" and z: "z = y\<lparr>sy_w := worker_end w (sy_w y), sy_pc := (sy_pc y)(q := WDone w)\<rparr>"
    using st by (auto simp: work_next_def split: wpc.splits)
  have "ws_next (worker_end w (sy_w y)) = ws_next (sy_w y)" "ws_wq (worker_end w (sy_w y)) = ws_wq (sy_w y)"
    by (simp_all add: worker_end_def Let_def)
  moreover have "queued_bit v (worker_end w (sy_w y)) = queued_bit v (sy_w y)" for v
    by (simp add: queued_bit_iff worker_end_def Let_def bit_state_simps)
  moreover have "tok v \<noteq> Some (Popped q)" for v using inv w unfolding winv_with_def by (metis wpc.distinct)
  ultimately have "winv_with tok ls z" using inv w unfolding winv_with_def z by auto
  then show ?thesis by blast
qed

lemma winv_finish:
  assumes inv: "winv_with tok ls y" and st: "work_next (AFinish q) y = Some z"
  shows "\<exists>tok' ls'. winv_with tok' ls' z"
proof -
  obtain w where w: "sy_pc y q = WDone w"
    and z: "z = y\<lparr>sy_w := worker_finish q w (sy_w y), sy_pc := (sy_pc y)(q := WIdle)\<rparr>"
    using st by (auto simp: work_next_def split: wpc.splits)
  have act: "wq_active (ws_wq (sy_w y) q) = 1" using inv w by (simp add: winv_with_def)
  have wk: "wqueue (ws_next (sy_w y), (ws_wq (sy_w y) q)\<lparr>wq_active := 0\<rparr>) (ls q)"
    using inv by (simp add: winv_with_def wqueue_def)
  have n: "ws_next (worker_finish q w (sy_w y)) = ws_next (sy_w y)"
    by (simp add: worker_finish_def Let_def)
  have k: "ws_wq (worker_finish q w (sy_w y)) r =
      (if r = q then (ws_wq (sy_w y) q)\<lparr>wq_active := 0\<rparr> else ws_wq (sy_w y) r)" for r
    using act by (simp add: worker_finish_def Let_def)
  have "queued_bit v (worker_finish q w (sy_w y)) = queued_bit v (sy_w y)" for v
    by (simp add: queued_bit_def worker_finish_def Let_def)
  moreover have "tok v \<noteq> Some (Popped q)" for v using inv w unfolding winv_with_def by (metis wpc.distinct)
  ultimately have "winv_with tok ls z" using inv w n wk unfolding winv_with_def z by (auto simp: k)
  then show ?thesis by blast
qed

lemma winv_remove:
  assumes inv: "winv_with tok ls y" and st: "work_next (ARemove q w) y = Some z"
  shows "\<exists>tok' ls'. winv_with tok' ls' z"
proof -
  let ?nk = "(ws_next (sy_w y), ws_wq (sy_w y) q)"
  have wq: "wqueue ?nk (ls q)" using inv by (simp add: winv_with_def)
  obtain p where r: "remove_raw w ?nk = Some (w \<in> set (ls q), p)" and wp: "wqueue p (remove1 w (ls q))"
    using wqueue_remove [OF wq, of w] by blast
  have act: "wq_active (snd p) = wq_active (ws_wq (sy_w y) q)" by (rule remove_active [OF r])
  have d: "distinct (ls q)" using wq path_distinct by (auto simp: wqueue_def)
  have fr: "v \<notin> set (ls q) \<Longrightarrow> fst p v = ws_next (sy_w y) v" for v by (rule remove_frame [OF wq r])
  show ?thesis
  proof (cases "w \<in> set (ls q)")
    case True
    let ?s = "upd_work w (\<lambda>k. k\<lparr>wk_wq := None\<rparr>) (on_queue q p (sy_w y))"
    have z: "z = y\<lparr>sy_w := ?s, sy_caller := (sy_caller y)(w := CClearing)\<rparr>"
      using st True by (simp add: work_next_def workqueue_remove_locked_def r Let_def)
    have tw: "tok w = Some (InQueue q)" using inv True by (simp add: winv_with_def)
    have "wqueue (fst p, ws_wq (sy_w y) r) (ls r)" if "r \<noteq> q" for r
      using tw that fr by (intro other_queues [OF inv _ _ that, where w = w]) auto
    moreover have "queued_bit v ?s = queued_bit v (sy_w y)" for v by (simp add: queued_bit_def)
    moreover have "set (remove1 w (ls q)) = set (ls q) - {w}" using d by simp
    ultimately have "winv_with (tok(w := Some Clearing)) (ls(q := remove1 w (ls q))) z"
      using inv tw wp act unfolding winv_with_def z by auto
    then show ?thesis by blast
  next
    case False
    have z: "z = y\<lparr>sy_w := on_queue q p (sy_w y)\<rparr>"
      using st False by (simp add: work_next_def workqueue_remove_locked_def r Let_def)
    have same: "fst p = ws_next (sy_w y) \<and> snd p = ws_wq (sy_w y) q"
    proof -
      have "find_prev (ws_next (sy_w y)) w None (wq_head (ws_wq (sy_w y) q)) = Some None"
        using wq False by (intro find_prev_absent) (simp_all add: wqueue_def)
      then show ?thesis using r False by (auto simp: remove_raw_def)
    qed
    then have "on_queue q p (sy_w y) = sy_w y" by (simp add: on_queue_def)
    then show ?thesis using inv z by auto
  qed
qed

lemma winv_clear:
  assumes inv: "winv_with tok ls y" and st: "work_next (AClear w) y = Some z"
  shows "\<exists>tok' ls'. winv_with tok' ls' z"
proof -
  have c: "sy_caller y w = CClearing"
    and z: "z = y\<lparr>sy_w := cancel_clear w (sy_w y), sy_caller := (sy_caller y)(w := CNone),
       sy_cancelled := (sy_cancelled y)(w := sy_cancelled y w + 1)\<rparr>"
    using st by (auto simp: work_next_def split: caller.splits)
  have tw: "tok w = Some Clearing" using inv c by (simp add: winv_with_def)
  have qb: "queued_bit w (sy_w y)" using inv tw by (simp add: winv_with_def)
  have n: "ws_next (cancel_clear w (sy_w y)) = ws_next (sy_w y)" "ws_wq (cancel_clear w (sy_w y)) = ws_wq (sy_w y)"
    by (simp_all add: cancel_clear_def)
  have "queued_bit v (cancel_clear w (sy_w y)) \<longleftrightarrow> v \<noteq> w \<and> queued_bit v (sy_w y)" for v
    by (simp add: queued_bit_iff cancel_clear_def bit_state_simps)
  then have "winv_with (tok(w := None)) ls z" using inv tw qb n unfolding winv_with_def z by auto
  then show ?thesis by blast
qed

lemma winv_next: "winv y \<Longrightarrow> work_next a y = Some z \<Longrightarrow> winv z"
  unfolding winv_def using winv_claim winv_link winv_pop winv_take winv_end winv_finish winv_remove winv_clear
  by (cases a) (metis+)

lemma winv_reach: "work_reach y \<Longrightarrow> winv y"
  by (induction rule: work_reach.induct) (auto intro: winv_start winv_next)

section \<open>Runs\<close>

fun work_run :: "wact list \<Rightarrow> wsys \<Rightarrow> wsys option" where
  "work_run [] y = Some y"
| "work_run (a # as) y = (case work_next a y of None \<Rightarrow> None | Some z \<Rightarrow> work_run as z)"

lemma work_run_reach: "work_reach y \<Longrightarrow> work_run as y = Some z \<Longrightarrow> work_reach z"
  by (induction as y rule: work_run.induct) (auto split: option.splits intro: reach_next)

definition demo_wst :: wst where
  "demo_wst = \<lparr>ws_next = (\<lambda>_. None),
     ws_work = (\<lambda>_. \<lparr>wk_func = True, wk_state = 0, wk_wq = None, wk_delayed = False\<rparr>),
     ws_dwork = (\<lambda>_. \<lparr>dw_generation = 0, dw_active = False, dw_running = False, dw_expires = 0\<rparr>),
     ws_wq = (\<lambda>_. new_workqueue 0 1)\<rparr>"

definition demo_wsys :: wsys where
  "demo_wsys = \<lparr>sy_w = demo_wst, sy_pc = (\<lambda>_. WIdle), sy_caller = (\<lambda>_. CNone), sy_queued = (\<lambda>_. 0),
     sy_ran = (\<lambda>_. 0), sy_cancelled = (\<lambda>_. 0)\<rparr>"

lemma demo_start: "work_start demo_wsys"
  by (simp add: work_start_def demo_wsys_def demo_wst_def new_workqueue_def)

lemmas work_exec = demo_wsys_def demo_wst_def new_workqueue_def work_next_def queue_claim_def queue_link_def on_queue_def
  append_raw_def pop_raw_def worker_pop_def workqueue_pop_locked_def worker_claim_def worker_begin_def upd_work_def
  upd_wq_def WORK_QUEUED_def WORK_RUNNING_def Let_def

section \<open>Properties\<close>

text \<open>
  C6. Every queueing of a work that succeeds is followed by exactly one run or one cancellation: at any
  moment of any interleaving of callers, cancellers and workers the number of successful queueings is the
  number of runs plus the number of cancellations, plus one while the work is still pending.
\<close>

theorem work_runs_exactly_once:
  assumes "work_reach y"
  shows "sy_queued y w = sy_ran y w + sy_cancelled y w + of_bool (queued_bit w (sy_w y))"
proof -
  obtain tok ls where "winv_with tok ls y" using winv_reach [OF assms] by (auto simp: winv_def)
  then show ?thesis unfolding winv_with_def by blast
qed

theorem work_runs_exactly_once_witness:
  "\<exists>y. work_run [AClaim 0 5, ALink 5, APop 0, ATake 0] demo_wsys = Some y \<and> sy_queued y 5 = 1 \<and>
     sy_ran y 5 + of_bool (queued_bit 5 (sy_w y)) = 1"
proof -
  obtain y where y: "work_run [AClaim 0 5, ALink 5, APop 0, ATake 0] demo_wsys = Some y" "sy_queued y 5 = 1" "sy_cancelled y 5 = 0"
    by (simp add: work_exec)
  then show ?thesis
    using work_runs_exactly_once [OF work_run_reach [OF reach_start [OF demo_start] y(1)], of 5] by auto
qed

text \<open>
  A worker never drops a work it took off its queue: the test of the QUEUED bit before the callback
  always succeeds.  And a canceller's search of a queue always ends.
\<close>

theorem worker_never_drops:
  assumes "work_reach y"
  shows "(sy_pc y q = WPopped w \<longrightarrow> fst (worker_claim w (sy_w y))) \<and> workqueue_remove_locked r v (sy_w y) \<noteq> None"
proof -
  obtain tok ls where inv: "winv_with tok ls y" using winv_reach [OF assms] by (auto simp: winv_def)
  then have "wqueue (ws_next (sy_w y), ws_wq (sy_w y) r) (ls r)" by (simp add: winv_with_def)
  from wqueue_remove [OF this, of v] show ?thesis
    using claim_succeeds [OF winv_reach [OF assms]] by (auto simp: workqueue_remove_locked_def Let_def)
qed

theorem worker_never_drops_witness:
  "\<exists>y. work_run [AClaim 0 5, ALink 5, APop 0] demo_wsys = Some y \<and> sy_pc y 0 = WPopped 5 \<and> fst (worker_claim 5 (sy_w y))"
proof -
  obtain y where y: "work_run [AClaim 0 5, ALink 5, APop 0] demo_wsys = Some y" "sy_pc y 0 = WPopped 5"
    by (simp add: work_exec)
  then show ?thesis
    using worker_never_drops [OF work_run_reach [OF reach_start [OF demo_start] y(1)], of 0 5] by auto
qed

text \<open>
  C33. When the wait of \<^verbatim>\<open>flush_workqueue\<close> is over the queue is empty and its worker is between works: it
  is in no callback and has taken nothing off the queue that it has not run.
\<close>

theorem flush_means_idle:
  assumes "work_reach y" and "flush_idle q (sy_w y)"
  shows "sy_pc y q = WIdle \<and> fst (workqueue_pop_locked q (sy_w y)) = None"
proof -
  obtain tok ls where "winv_with tok ls y" using winv_reach [OF assms(1)] by (auto simp: winv_def)
  then have "wq_active (ws_wq (sy_w y) q) = of_bool (sy_pc y q \<noteq> WIdle)" by (simp add: winv_with_def)
  then show ?thesis
    using assms(2) by (auto simp: flush_idle_def workqueue_pop_locked_def pop_raw_def)
qed

theorem flush_means_idle_witness: "sy_pc demo_wsys 3 = WIdle \<and> fst (workqueue_pop_locked 3 (sy_w demo_wsys)) = None"
  using flush_means_idle [OF reach_start [OF demo_start], of 3]
  by (simp add: flush_idle_def demo_wsys_def demo_wst_def new_workqueue_def)

text \<open>Works leave a queue in the order they were linked, after those already in it.\<close>

theorem work_queue_fifo:
  assumes "wqueue p xs" and "distinct (xs @ ys)" and "length (xs @ ys) \<le> UINT_MAX"
  shows "fst (drain pop_raw (length (xs @ ys)) (fold append_raw ys p)) = xs @ ys"
  by (rule work_queue.order_kept [OF assms(1)]) (use assms(2,3) in \<open>simp add: node_fits_def\<close>)

theorem work_queue_fifo_witness:
  "fst (drain pop_raw 2 (fold append_raw [8, 3] ((\<lambda>_. None), new_workqueue 0 1))) = [8, 3]"
proof -
  have "wqueue ((\<lambda>_. None), new_workqueue 0 1) []" by (simp add: wqueue_def new_workqueue_def)
  moreover have "length ([] @ [8, 3 :: nat]) \<le> UINT_MAX" by (simp add: UINT_MAX_def)
  ultimately have "fst (drain pop_raw (length ([] @ [8, 3 :: nat])) (fold append_raw [8, 3] ((\<lambda>_. None), new_workqueue 0 1))) = [] @ [8, 3]"
    by (intro work_queue_fifo) simp_all
  then show ?thesis by (simp add: numeral_2_eq_2)
qed

text \<open>
  A work can run on two workers at once: queued on a second queue while the first runs it, it is
  taken there without waiting.
\<close>

theorem work_runs_concurrently: "\<exists>y. work_reach y \<and> sy_pc y 0 = WRunning 5 \<and> sy_pc y 1 = WRunning 5"
proof -
  let ?as = "[AClaim 0 5, ALink 5, APop 0, ATake 0, AClaim 1 5, ALink 5, APop 1, ATake 1]"
  obtain y where y: "work_run ?as demo_wsys = Some y" "sy_pc y 0 = WRunning 5" "sy_pc y 1 = WRunning 5"
    by (simp add: work_exec)
  then show ?thesis using work_run_reach [OF reach_start [OF demo_start] y(1)] by blast
qed

end
