(* ===== verification/LC_Work_Delay.thy ===== *)
theory LC_Work_Delay
  imports LC_Work_Inv
begin

text \<open>
  What becomes of a delayed work that is cancelled while it waits for its time, in any interleaving of the
  operations of \<^verbatim>\<open>workqueue.c\<close> with the task of the delay.
\<close>

section \<open>Steps\<close>

text \<open>
  The operations of callers, on this work or another, run whole; a worker's loop and the task of a delay
  are one step per critical section or atomic operation.
\<close>

datatype dact =
    DQueue bool "nat option" nat
  | DDelay bool u64 "nat option" nat u64
  | DCancel nat
  | DCancelDelayed nat
  | DPop nat
  | DTake nat
  | DBegin nat
  | DEnd nat
  | DFinish nat nat
  | DFire bool u32 "nat option" nat

text \<open>The state and the answer, False where there is none; None is an operation that waits or does not return.\<close>

fun delay_do :: "dact \<Rightarrow> wst \<Rightarrow> (bool \<times> wst) option" where
  "delay_do (DQueue created wq v) s = map_option (\<lambda>(ok, _, s). (ok, s)) (queue_work created wq (Some v) s)"
| "delay_do (DDelay created now wq v delay) s = queue_delayed_work created now wq (Some v) delay s"
| "delay_do (DCancel v) s = cancel_work (Some v) s"
| "delay_do (DCancelDelayed v) s = cancel_delayed_work (Some v) s"
| "delay_do (DPop q) s = Some (False, snd (worker_pop q s))"
| "delay_do (DTake v) s = Some (False, snd (worker_claim v s))"
| "delay_do (DBegin v) s = Some (False, worker_begin v s)"
| "delay_do (DEnd v) s = Some (False, worker_end v s)"
| "delay_do (DFinish q v) s = Some (False, worker_finish q v s)"
| "delay_do (DFire created gen wq v) s = delayed_fire created gen wq v s"

fun delay_run :: "dact list \<Rightarrow> wst \<Rightarrow> (bool list \<times> wst) option" where
  "delay_run [] s = Some ([], s)"
| "delay_run (a # as) s =
     (case delay_do a s of
        None \<Rightarrow> None
      | Some (r, t) \<Rightarrow> map_option (\<lambda>(rs, u). (r # rs, u)) (delay_run as t))"

text \<open>
  The steps of others: everything but the task of the delay of \<open>w\<close> looking at the clock, and a worker
  running \<open>w\<close>, which none has taken.
\<close>

fun spares :: "nat \<Rightarrow> dact \<Rightarrow> bool" where
  "spares w (DTake v) = (v \<noteq> w)"
| "spares w (DBegin v) = (v \<noteq> w)"
| "spares w (DEnd v) = (v \<noteq> w)"
| "spares w (DFire created gen wq v) = (v \<noteq> w)"
| "spares w _ = True"

fun queues :: "nat \<Rightarrow> dact \<Rightarrow> bool" where
  "queues w (DQueue created wq v) = (v = w)"
| "queues w (DDelay created now wq v delay) = (v = w)"
| "queues w _ = False"

section \<open>A work that is on no queue\<close>

definition unlinked :: "nat \<Rightarrow> wst \<Rightarrow> bool" where
  "unlinked w s = ((\<forall>q. wq_head (ws_wq s q) \<noteq> Some w) \<and> (\<forall>v. ws_next s v \<noteq> Some w))"

text \<open>The QUEUED bit is taken, and nobody will give it back but the task of the delay.\<close>

definition held :: "nat \<Rightarrow> wst \<Rightarrow> bool" where
  "held w s = (work_state w s = WORK_QUEUED \<and> unlinked w s)"

lemmas find_prev_returned = find_prev.raw_induct [where xa = "(((nx, x), prev), cur)" for nx x prev cur, simplified prod.case]

lemma find_prev_result:
  assumes "find_prev nx x prev cur = Some r"
  shows "(\<forall>v. nx v \<noteq> Some x) \<longrightarrow> cur \<noteq> Some x \<longrightarrow> r = None"
proof (rule find_prev_returned [OF _ assms])
  fix f and nx :: "nat \<Rightarrow> nat option" and x prev cur r
  assume ih: "\<And>x prev cur b y. f x prev cur b = Some y \<Longrightarrow> (\<forall>v. x v \<noteq> Some prev) \<longrightarrow> b \<noteq> Some prev \<longrightarrow> y = None"
    and "(if cur = None then Some None else if the cur = x then Some (Some prev) else f nx x cur (nx (the cur))) = Some r"
  then show "(\<forall>v. nx v \<noteq> Some x) \<longrightarrow> cur \<noteq> Some x \<longrightarrow> r = None"
    using ih [of nx x cur "nx (the cur)" r] by (cases cur) (auto split: if_splits)
qed

lemma find_prev_unlinked:
  "(\<And>v. nx v \<noteq> Some w) \<Longrightarrow> cur \<noteq> Some w \<Longrightarrow> find_prev nx w prev cur \<noteq> Some (Some p)"
  using find_prev_result [of nx w prev cur "Some p"] by auto

lemma unlinked_same: "ws_next t = ws_next s \<Longrightarrow> (\<And>q. wq_head (ws_wq t q) = wq_head (ws_wq s q)) \<Longrightarrow> unlinked w t = unlinked w s"
  by (simp add: unlinked_def)

lemma unlinked_upd [simp]:
  "unlinked w (upd_work v f s) = unlinked w s" "unlinked w (upd_dwork v g s) = unlinked w s"
  by (simp_all add: unlinked_def)

lemma ws_dwork_simps [simp]:
  "ws_dwork (upd_work v f s) = ws_dwork s" "ws_dwork (on_queue q p s) = ws_dwork s" "ws_dwork (upd_wq q g s) = ws_dwork s"
  "ws_dwork (upd_dwork v h s) w = (if w = v then h (ws_dwork s v) else ws_dwork s w)"
  by (simp_all add: upd_work_def on_queue_def upd_wq_def upd_dwork_def)

lemma unlinked_wq: "(\<And>k. wq_head (f k) = wq_head k) \<Longrightarrow> unlinked w (upd_wq q f s) = unlinked w s"
  by (rule unlinked_same) simp_all

lemma unlinked_queue:
  "unlinked w s \<Longrightarrow> (\<And>v. fst p v \<noteq> Some w) \<Longrightarrow> wq_head (snd p) \<noteq> Some w \<Longrightarrow> unlinked w (on_queue q p s)"
  by (simp add: unlinked_def)

lemma unlinked_remove:
  assumes "unlinked w s" and "workqueue_remove_locked q v s = Some (found, t)"
  shows "unlinked w t \<and> (v = w \<longrightarrow> \<not> found) \<and> (u = w \<longrightarrow> u \<noteq> v \<or> \<not> found) \<and>
    wk_state (ws_work t u) = wk_state (ws_work s u) \<and> ws_dwork t = ws_dwork s"
proof -
  let ?nx = "ws_next s" and ?k = "ws_wq s q"
  have nx: "?nx x \<noteq> Some w" "wq_head ?k \<noteq> Some w" for x using assms(1) by (simp_all add: unlinked_def)
  obtain p where p: "remove_raw v (?nx, ?k) = Some (found, p)"
    and t: "t = (if found then upd_work v (\<lambda>k. k\<lparr>wk_wq := None\<rparr>) (on_queue q p s) else on_queue q p s)"
    using assms(2) by (auto simp: workqueue_remove_locked_def Let_def split: option.splits)
  have "v = w \<Longrightarrow> \<not> found"
    using p find_prev_unlinked [of ?nx w "wq_head ?k" None] nx
    by (auto simp: remove_raw_def Let_def split: option.splits prod.splits)
  moreover have "fst p x \<noteq> Some w" "wq_head (snd p) \<noteq> Some w" for x
    using p nx by (auto simp: remove_raw_def Let_def split: option.splits if_splits)
  then have "unlinked w (on_queue q p s)" by (intro unlinked_queue assms(1))
  ultimately show ?thesis by (auto simp: t)
qed

lemma unlinked_cancel:
  assumes "unlinked w s" and "cancel_work (Some v) s = Some (r, t)"
  shows "unlinked w t \<and> work_state w t = work_state w s \<and> ws_dwork t = ws_dwork s"
proof (cases "wk_wq (ws_work s v)")
  case None
  then show ?thesis using assms by (simp add: cancel_work_def cancel_remove_def)
next
  case (Some q)
  then obtain t' where t': "workqueue_remove_locked q v s = Some (r, t')" "t = (if r then cancel_clear v t' else t')"
    using assms(2) by (auto simp: cancel_work_def cancel_remove_def split: option.splits)
  from unlinked_remove [OF assms(1) t'(1), of w] show ?thesis
    by (auto simp: t'(2) cancel_clear_def upd_work_def unlinked_def)
qed

lemma ensure_same:
  assumes "workqueue_ensure_worker created q s = Some (ok, m, t)"
  shows "unlinked w t = unlinked w s" "ws_work t = ws_work s" "ws_dwork t = ws_dwork s"
  using assms by (auto simp: workqueue_ensure_worker_def Let_def unlinked_def upd_wq_def split: if_splits)

lemma queued_state [simp]: "WORK_QUEUED \<noteq> 0" "WORK_QUEUED AND WORK_QUEUED = WORK_QUEUED"
  by (simp_all add: WORK_QUEUED_def)

lemma held_queue_work:
  assumes h: "held w s" and r: "queue_work created wq (Some v) s = Some (ok, woken, t)"
  shows "held w t \<and> (v = w \<longrightarrow> \<not> ok) \<and> ws_dwork t = ws_dwork s"
proof -
  let ?q = "case wq of None \<Rightarrow> system_wq | Some q \<Rightarrow> q"
  have h': "work_state w s = WORK_QUEUED" "unlinked w s" using h by (simp_all add: held_def)
  show ?thesis
  proof (cases "wk_func (ws_work s v)")
    case False
    then show ?thesis using h r by (auto simp: queue_work_def)
  next
    case True
    then obtain e m s1 where e: "workqueue_ensure_worker created ?q s = Some (e, m, s1)"
      using r by (auto simp: queue_work_def Let_def split: option.splits)
    have s1: "unlinked w s1" "ws_work s1 = ws_work s" "ws_dwork s1 = ws_dwork s" using ensure_same [OF e] h'(2) by auto
    show ?thesis
    proof (cases "e \<and> fst (queue_claim v s1)")
      case False
      then show ?thesis using r True e s1 h'
        by (auto simp: queue_work_def Let_def held_def queue_claim_def split: if_splits)
    next
      case claimed: True
      then have vw: "v \<noteq> w" using h'(1) s1 by (auto simp: queue_claim_def)
      let ?s2 = "snd (queue_claim v s1)"
      have s2: "unlinked w ?s2" "work_state w ?s2 = WORK_QUEUED" "ws_dwork ?s2 = ws_dwork s"
        using s1 h' vw by (simp_all add: queue_claim_def)
      have "fst (append_raw v (ws_next ?s2, ws_wq ?s2 ?q)) x \<noteq> Some w" for x
        using s2(1) vw by (simp add: append_raw_def Let_def unlinked_def split: option.split)
      moreover have "wq_head (snd (append_raw v (ws_next ?s2, ws_wq ?s2 ?q))) \<noteq> Some w"
        using s2(1) vw by (simp add: append_raw_def Let_def unlinked_def split: option.split)
      ultimately have "unlinked w (queue_link ?q v ?s2)"
        unfolding queue_link_def unlinked_upd by (intro unlinked_queue s2(1)) simp_all
      moreover have "work_state w (queue_link ?q v ?s2) = WORK_QUEUED" "ws_dwork (queue_link ?q v ?s2) = ws_dwork s"
        using s2 vw by (simp_all add: queue_link_def)
      moreover have "t = queue_link ?q v ?s2"
        using r True e claimed by (cases "queue_claim v s1") (auto simp: queue_work_def Let_def)
      ultimately show ?thesis using vw by (simp add: held_def)
    qed
  qed
qed

text \<open>Whatever others do, the work stays held, every attempt to queue it fails, and it is not armed again.\<close>

lemma held_step:
  assumes h: "held w s" and a: "spares w a" and r: "delay_do a s = Some (ok, t)"
  shows "held w t \<and> (queues w a \<longrightarrow> \<not> ok) \<and> (\<not> dw_active (ws_dwork s w) \<longrightarrow> \<not> dw_active (ws_dwork t w))"
proof -
  have h': "work_state w s = WORK_QUEUED" "unlinked w s" using h by (simp_all add: held_def)
  show ?thesis
  proof (cases a)
    case (DQueue created wq v)
    then obtain woken where "queue_work created wq (Some v) s = Some (ok, woken, t)" using r by auto
    from held_queue_work [OF h this] show ?thesis using DQueue by simp
  next
    case (DDelay created now wq v delay)
    show ?thesis
    proof (cases "delay = 0")
      case True
      show ?thesis
      proof (cases "wk_func (ws_work s v)")
        case False
        then show ?thesis using r DDelay h by (auto simp: queue_delayed_work_def)
      next
        case fn: True
        obtain q woken where "queue_work created (Some q) (Some v) s = Some (ok, woken, t)"
          using r DDelay True fn by (auto simp: queue_delayed_work_def)
        from held_queue_work [OF h this] show ?thesis using DDelay by simp
      qed
    next
      case False
      then show ?thesis using r DDelay h h'
        by (auto simp: queue_delayed_work_def Let_def held_def split: if_splits)
    qed
  next
    case (DCancel v)
    then show ?thesis using r unlinked_cancel [OF h'(2), of v] h'(1) by (auto simp: held_def)
  next
    case (DCancelDelayed v)
    let ?s = "upd_dwork v (\<lambda>d. d\<lparr>dw_active := False, dw_generation := dw_generation d + 1\<rparr>) s"
    obtain r' where c: "cancel_work (Some v) ?s = Some (r', t)" using r DCancelDelayed by (auto simp: cancel_delayed_work_def Let_def)
    have "unlinked w ?s" using h'(2) by simp
    from unlinked_cancel [OF this c] show ?thesis using h'(1) DCancelDelayed by (auto simp: held_def split: if_splits)
  next
    case (DPop q)
    have "unlinked w (on_queue q (snd (pop_raw (ws_next s, ws_wq s q))) s)"
      using h'(2) by (intro unlinked_queue) (auto simp: pop_raw_def Let_def unlinked_def split: option.splits)
    moreover obtain v p where "pop_raw (ws_next s, ws_wq s q) = (v, p)" by (cases "pop_raw (ws_next s, ws_wq s q)")
    ultimately show ?thesis using r DPop h'(1)
      by (cases v) (auto simp: worker_pop_def workqueue_pop_locked_def held_def unlinked_wq)
  next
    case (DTake v)
    then show ?thesis using a r h' by (auto simp: worker_claim_def held_def split: if_splits)
  next
    case (DBegin v)
    then show ?thesis using a r h' by (auto simp: worker_begin_def held_def split: if_splits)
  next
    case (DEnd v)
    then show ?thesis using a r h' by (auto simp: worker_end_def held_def Let_def split: if_splits)
  next
    case (DFinish q v)
    then show ?thesis using r h'
      by (auto simp: worker_finish_def held_def Let_def unlinked_wq split: if_splits)
  next
    case (DFire created gen wq v)
    have vw: "v \<noteq> w" using a DFire by simp
    let ?s = "upd_work v (\<lambda>k. k\<lparr>wk_state := 0\<rparr>) (upd_dwork v (\<lambda>d. d\<lparr>dw_active := False\<rparr>) s)"
    have "held w ?s" "dw_active (ws_dwork ?s w) = dw_active (ws_dwork s w)"
      using h' vw by (simp_all add: held_def)
    moreover have "held w (upd_work v (\<lambda>k. k\<lparr>wk_state := 0\<rparr>) s)" "held w (upd_dwork v (\<lambda>d. d\<lparr>dw_active := False\<rparr>) s)"
      "ws_dwork (upd_work v (\<lambda>k. k\<lparr>wk_state := 0\<rparr>) s) = ws_dwork s"
      "ws_dwork (upd_dwork v (\<lambda>d. d\<lparr>dw_active := False\<rparr>) s) w = ws_dwork s w"
      using h' vw by (simp_all add: held_def)
    ultimately show ?thesis using r DFire held_queue_work [of w ?s]
      by (auto simp: delayed_fire_def Let_def split: if_splits option.splits)
  qed
qed

lemma held_run:
  assumes "held w s" and "list_all (spares w) as" and "delay_run as s = Some (rs, t)"
  shows "held w t \<and> (\<forall>(a, ok) \<in> set (zip as rs). queues w a \<longrightarrow> \<not> ok) \<and>
    (\<not> dw_active (ws_dwork s w) \<longrightarrow> \<not> dw_active (ws_dwork t w))"
  using assms
proof (induction as arbitrary: s rs)
  case (Cons a as)
  obtain ok u rs' where u: "delay_do a s = Some (ok, u)" "delay_run as u = Some (rs', t)" "rs = ok # rs'"
    using Cons.prems(3) by (auto split: option.splits)
  from held_step [OF Cons.prems(1) _ u(1)] Cons.prems(2) have "held w u" "queues w a \<longrightarrow> \<not> ok"
    "\<not> dw_active (ws_dwork s w) \<longrightarrow> \<not> dw_active (ws_dwork u w)" by auto
  with Cons.IH [of u rs'] Cons.prems(2) u show ?case by auto
qed simp

section \<open>Cancelled, and not yet noticed\<close>

text \<open>
  C40. A work is queued with a delay and, before the task of the delay has looked at the clock for the last
  time, cancelled, while others queue, run and cancel works in any order.  The cancellation answers True.
  From then until that task looks again every attempt to queue the work, now or with a delay, answers
  False, whatever others do; when the task looks it clears the QUEUED bit and does not run the work.
\<close>

theorem delayed_cancel_blocks_requeue:
  assumes "queue_delayed_work True now wq (Some w) delay s = Some (True, s1)" and "delay \<noteq> 0" and "unlinked w s"
    and "list_all (spares w) as" and "delay_run as s1 = Some (rs, s2)"
    and "cancel_delayed_work (Some w) s2 = Some (p, s3)"
    and "list_all (spares w) bs" and "delay_run bs s3 = Some (rs', s4)"
  shows "p \<and> (\<forall>(b, ok) \<in> set (zip bs rs'). queues w b \<longrightarrow> \<not> ok) \<and>
    (\<exists>s5. delayed_fire created gen q w s4 = Some (False, s5) \<and> work_state w s5 = 0 \<and> unlinked w s5)"
proof -
  have "held w s1"
    using assms(1-3) by (auto simp: queue_delayed_work_def Let_def held_def split: if_splits)
  from held_run [OF this assms(4,5)] have s2: "held w s2" by blast
  then have p: p using assms(6) by (auto simp: cancel_delayed_work_def Let_def held_def)
  have "held w s3 \<and> \<not> dw_active (ws_dwork s3 w)"
  proof -
    let ?s = "upd_dwork w (\<lambda>d. d\<lparr>dw_active := False, dw_generation := dw_generation d + 1\<rparr>) s2"
    obtain r where c: "cancel_work (Some w) ?s = Some (r, s3)" using assms(6) by (auto simp: cancel_delayed_work_def Let_def)
    have "unlinked w ?s" "work_state w ?s = WORK_QUEUED" using s2 by (simp_all add: held_def)
    with unlinked_cancel [OF this(1) c] show ?thesis by (simp add: held_def upd_dwork_def)
  qed
  with held_run [OF _ assms(7,8)] have s4: "held w s4" "\<forall>(b, ok) \<in> set (zip bs rs'). queues w b \<longrightarrow> \<not> ok"
    "\<not> dw_active (ws_dwork s4 w)" by blast+
  from s4(1,3) have "\<exists>s5. delayed_fire created gen q w s4 = Some (False, s5) \<and> work_state w s5 = 0 \<and> unlinked w s5"
    by (simp add: delayed_fire_def held_def)
  with p s4(2) show ?thesis by blast
qed

text \<open>Another work is queued and taken in between; the cancelled one can be queued neither way.\<close>

theorem delayed_cancel_blocks_requeue_witness:
  "\<exists>s1 s2 s3 rs' s4. queue_delayed_work True 0 None (Some 5) 9 demo_wst = Some (True, s1) \<and>
     delay_run [DQueue True None 6, DPop 0, DTake 6] s1 = Some ([True, False, False], s2) \<and>
     cancel_delayed_work (Some 5) s2 = Some (True, s3) \<and>
     delay_run [DQueue True None 5, DEnd 6, DDelay True 3 None 5 4] s3 = Some (rs', s4) \<and> \<not> rs' ! 0 \<and> \<not> rs' ! 2"
proof -
  have u: "unlinked 5 demo_wst" by (simp add: unlinked_def demo_wst_def new_workqueue_def)
  have "\<exists>s1 s2 s3 rs' s4. queue_delayed_work True 0 None (Some 5) 9 demo_wst = Some (True, s1) \<and>
     delay_run [DQueue True None 6, DPop 0, DTake 6] s1 = Some ([True, False, False], s2) \<and>
     cancel_delayed_work (Some 5) s2 = Some (True, s3) \<and>
     delay_run [DQueue True None 5, DEnd 6, DDelay True 3 None 5 4] s3 = Some (rs', s4) \<and> length rs' = 3"
    by (simp add: queue_delayed_work_def cancel_delayed_work_def cancel_work_def cancel_remove_def
        workqueue_remove_locked_def remove_raw_def find_prev.simps queue_work_def workqueue_ensure_worker_def work_exec
        upd_dwork_def system_wq_def worker_end_def, rule exI [of _ False], simp)
  then obtain s1 s2 s3 rs' s4 where r: "queue_delayed_work True 0 None (Some 5) 9 demo_wst = Some (True, s1)"
     "delay_run [DQueue True None 6, DPop 0, DTake 6] s1 = Some ([True, False, False], s2)"
     "cancel_delayed_work (Some 5) s2 = Some (True, s3)"
     "delay_run [DQueue True None 5, DEnd 6, DDelay True 3 None 5 4] s3 = Some (rs', s4)" "length rs' = 3" by blast
  have "\<forall>(b, ok) \<in> set (zip [DQueue True None 5, DEnd 6, DDelay True 3 None 5 4] rs'). queues 5 b \<longrightarrow> \<not> ok"
    using delayed_cancel_blocks_requeue [OF r(1) _ u _ r(2,3) _ r(4)] by simp
  then have "\<not> rs' ! 0 \<and> \<not> rs' ! 2"
    using r(5) by (auto simp: numeral_3_eq_3 length_Suc_conv)
  with r show ?thesis by blast
qed

end
