(* ===== verification/LC_Usb.thy ===== *)
theory LC_Usb
  imports LC_Usb_Data LC_Queue
begin

text \<open>
  The USB layer of \<^verbatim>\<open>usb.c\<close>: wrappers around the host's devices, driver bindings, synchronous
  messages, and URBs with one first-in first-out queue of pending URBs per endpoint.

  A URB, a wrapper, a Linux \<^verbatim>\<open>struct usb_device\<close>, a host device and an interface are numbers; a URB number
  without an entry in \<open>u_urbs\<close> is NULL or freed.  The URB state has the number of its URB.  The host's answers
  (\<^verbatim>\<open>usb_submit_xfer\<close>, \<^verbatim>\<open>usb_alloc_pipe\<close>, \<dots>) are functions of the log of calls made so far,
  newest first.  Callbacks of drivers are arguments, so they may call back into the layer.  Names,
  the bus record, drvdata and URB contexts are left out.
\<close>

section \<open>State\<close>

record ctrl_request =
  cr_type :: u8
  cr_request :: u8
  cr_value :: u16
  cr_index :: u16
  cr_length :: u16

datatype usb_event =
    EvSyncOut addr int
  | EvSyncIn addr int
  | EvSubmitUrb nat nat bool addr int
  | EvSyncXfer "nat option" int "ctrl_request option" addr int u64
  | EvAllocPipe nat addr "addr option"
  | EvFreePipe nat nat
  | EvComplete nat int int
  | EvRegister nat
  | EvUnregister nat

record usb_urb =
  ur_dev :: "nat option"
  ur_pipe :: u32
  ur_buffer :: addr
  ur_buffer_len :: int
  ur_actual :: int
  ur_status :: int
  ur_flags :: u32
  ur_complete :: bool
  ur_hcpriv :: bool
  ur_sg :: "sg_entry list option"
  ur_num_sgs :: int
  ur_submitted :: bool
  ur_killed :: bool
  ur_refcount :: u32

record urb_state =
  us_pipe :: "nat option"
  us_owns :: bool
  us_completed_len :: int
  us_submitted_len :: int
  us_submitted_sg :: bool
  us_zlp :: bool
  us_sg_buffer :: addr
  us_sg_buffer_len :: int
  us_owner :: "nat option"
  us_ep :: int
  us_queued :: bool

record usb_wrapper =
  uw_used :: bool
  uw_ndev :: nat
  uw_nintf :: nat
  uw_state :: usb_device_state
  uw_speed :: usb_device_speed
  uw_vendor :: u16
  uw_product :: u16
  uw_eps :: "ep_desc list"
  uw_pipes :: "nat \<Rightarrow> nat option"
  uw_head :: "nat \<Rightarrow> nat option"
  uw_tail :: "nat \<Rightarrow> nat option"
  uw_busy :: "nat \<Rightarrow> bool"

record usb_driver =
  ud_id_table :: "usb_device_id list option"
  ud_probe :: bool
  ud_disconnect :: bool

record usb_binding =
  ub_used :: bool
  ub_driver :: "nat option"
  ub_ids :: "usb_device_id list option"

record usb_env =
  ue_codes :: usb_codes
  ue_submit :: "usb_event list \<Rightarrow> int"
  ue_sync :: "usb_event list \<Rightarrow> int \<times> int"
  ue_alloc_pipe :: "usb_event list \<Rightarrow> nat option"
  ue_current :: "usb_event list \<Rightarrow> nat option"
  ue_maxpacket :: "nat \<Rightarrow> int"
  ue_defpipe :: "nat \<Rightarrow> nat option"
  ue_ifaces :: "nat \<Rightarrow> nat list"
  ue_iface :: "nat \<Rightarrow> native_iface"
  ue_speed :: "nat \<Rightarrow> u8"
  ue_online :: "nat \<Rightarrow> bool"
  ue_realloc_mem :: "(addr \<Rightarrow> u8) \<Rightarrow> addr \<Rightarrow> addr \<Rightarrow> u64 \<Rightarrow> (addr \<Rightarrow> u8)"

text \<open>\<open>u_fault\<close> is set when a copy is asked for with a negative fragment length or through a null list.\<close>

record usb = kst +
  u_urbs :: "nat \<Rightarrow> usb_urb option"
  u_states :: "nat \<Rightarrow> urb_state"
  u_next :: links
  u_wrappers :: "usb_wrapper list"
  u_bindings :: "usb_binding list"
  u_drivers :: "nat \<Rightarrow> usb_driver"
  u_native :: "nat \<Rightarrow> nat option"
  u_env :: usb_env
  u_log :: "usb_event list"
  u_fault :: bool

definition uemit :: "usb_event \<Rightarrow> usb \<Rightarrow> usb" where
  "uemit e s = s\<lparr>u_log := e # u_log s\<rparr>"

definition upd_urb :: "nat \<Rightarrow> (usb_urb \<Rightarrow> usb_urb) \<Rightarrow> usb \<Rightarrow> usb" where
  "upd_urb u f s = s\<lparr>u_urbs := (u_urbs s)(u := map_option f (u_urbs s u))\<rparr>"

definition upd_state :: "nat \<Rightarrow> (urb_state \<Rightarrow> urb_state) \<Rightarrow> usb \<Rightarrow> usb" where
  "upd_state u f s = s\<lparr>u_states := (u_states s)(u := f (u_states s u))\<rparr>"

definition upd_wrapper :: "nat \<Rightarrow> (usb_wrapper \<Rightarrow> usb_wrapper) \<Rightarrow> usb \<Rightarrow> usb" where
  "upd_wrapper w f s = (if w < length (u_wrappers s) then s\<lparr>u_wrappers := (u_wrappers s)[w := f (u_wrappers s ! w)]\<rparr> else s)"

definition the_urb :: "usb \<Rightarrow> nat \<Rightarrow> usb_urb" where
  "the_urb s u = the (u_urbs s u)"

definition set_busy :: "nat \<Rightarrow> nat \<Rightarrow> bool \<Rightarrow> usb \<Rightarrow> usb" where
  "set_busy w ep b s = upd_wrapper w (\<lambda>x. x\<lparr>uw_busy := (uw_busy x)(ep := b)\<rparr>) s"

definition free_pipe :: "nat \<Rightarrow> nat \<Rightarrow> usb \<Rightarrow> usb" where
  "free_pipe nd p s = uemit (EvFreePipe nd p) s"

definition usb_native_dev :: "nat option \<Rightarrow> usb \<Rightarrow> nat option" where
  "usb_native_dev dev s = (case dev of None \<Rightarrow> None | Some d \<Rightarrow> u_native s d)"

definition usb_sync_out_buffer :: "addr \<Rightarrow> int \<Rightarrow> usb \<Rightarrow> usb" where
  "usb_sync_out_buffer p n s = (if p \<noteq> 0 \<and> n > 0 then uemit (EvSyncOut p n) s else s)"

text \<open>\<^verbatim>\<open>krealloc\<close>: what the host does to memory is its own; the old block is given up on success.\<close>

definition lcompat_krealloc :: "addr \<Rightarrow> u64 \<Rightarrow> usb \<Rightarrow> addr \<times> usb" where
  "lcompat_krealloc old n s =
     (let p = k_malloc s (k_calls s) n
      in if p = 0 then (0, s\<lparr>k_calls := k_calls s + 1\<rparr>)
         else (p, s\<lparr>k_calls := k_calls s + 1, k_live := k_live s + (if old = 0 then 1 else 0),
                    k_mem := ue_realloc_mem (u_env s) (k_mem s) old p n\<rparr>))"

section \<open>Pending queues\<close>

text \<open>The queue of an endpoint as the list code sees it: the links, its head and its tail.\<close>

definition MAX_EP :: int where "MAX_EP = 16"

definition pq_append :: "nat \<Rightarrow> links \<times> nat option \<times> nat option \<Rightarrow> links \<times> nat option \<times> nat option" where
  "pq_append u q =
     (case q of (nx, head, tail) \<Rightarrow>
        let nx = nx(u := None)
        in (case tail of
              Some t \<Rightarrow> (nx(t := Some u), head, Some u)
            | None \<Rightarrow> (nx, Some u, Some u)))"

definition pq_pop :: "links \<times> nat option \<times> nat option \<Rightarrow> nat option \<times> links \<times> nat option \<times> nat option" where
  "pq_pop q =
     (case q of (nx, head, tail) \<Rightarrow>
        (case head of
           None \<Rightarrow> (None, nx, head, tail)
         | Some u \<Rightarrow> (Some u, nx(u := None), nx u, if nx u = None then None else tail)))"

definition get_queue :: "nat \<Rightarrow> nat \<Rightarrow> usb \<Rightarrow> links \<times> nat option \<times> nat option" where
  "get_queue w ep s = (u_next s, uw_head (u_wrappers s ! w) ep, uw_tail (u_wrappers s ! w) ep)"

definition put_queue :: "nat \<Rightarrow> nat \<Rightarrow> links \<times> nat option \<times> nat option \<Rightarrow> usb \<Rightarrow> usb" where
  "put_queue w ep q s =
     (case q of (nx, head, tail) \<Rightarrow>
        upd_wrapper w (\<lambda>x. x\<lparr>uw_head := (uw_head x)(ep := head), uw_tail := (uw_tail x)(ep := tail)\<rparr>) (s\<lparr>u_next := nx\<rparr>))"

definition usb_queue_append :: "nat option \<Rightarrow> int \<Rightarrow> nat \<Rightarrow> usb \<Rightarrow> usb" where
  "usb_queue_append w ep u s =
     (case w of
        None \<Rightarrow> s
      | Some w \<Rightarrow>
          if ep < 0 \<or> ep \<ge> MAX_EP then s
          else put_queue w (nat ep) (pq_append u (get_queue w (nat ep) s)) (upd_state u (\<lambda>t. t\<lparr>us_queued := True\<rparr>) s))"

definition usb_queue_pop :: "nat option \<Rightarrow> int \<Rightarrow> usb \<Rightarrow> nat option \<times> usb" where
  "usb_queue_pop w ep s =
     (case w of
        None \<Rightarrow> (None, s)
      | Some w \<Rightarrow>
          if ep < 0 \<or> ep \<ge> MAX_EP then (None, s)
          else (case pq_pop (get_queue w (nat ep) s) of
                  (None, q) \<Rightarrow> (None, s)
                | (Some u, q) \<Rightarrow> (Some u, upd_state u (\<lambda>t. t\<lparr>us_queued := False\<rparr>) (put_queue w (nat ep) q s))))"

section \<open>Finding pipes\<close>

definition usb_find_wrapper_for_pipe :: "nat option \<Rightarrow> u32 \<Rightarrow> usb \<Rightarrow> (nat \<times> int) option" where
  "usb_find_wrapper_for_pipe dev pipe s =
     (case usb_native_dev dev s of
        None \<Rightarrow> None
      | Some nd \<Rightarrow>
          map_option (\<lambda>i. (i, usb_find_wrapper_ep_index (Some (uw_eps (u_wrappers s ! i))) pipe))
            (find (\<lambda>i. let w = u_wrappers s ! i
                       in uw_used w \<and> uw_ndev w = nd \<and> usb_find_wrapper_ep_index (Some (uw_eps w)) pipe \<ge> 0)
               [0..<length (u_wrappers s)]))"

fun find_native_ep_in :: "usb_env \<Rightarrow> (addr \<Rightarrow> u8) \<Rightarrow> nat list \<Rightarrow> u32 \<Rightarrow> addr option \<times> addr option" where
  "find_native_ep_in e m [] pipe = (None, None)"
| "find_native_ep_in e m (i # is) pipe =
     (let r = usb_find_ep_in_iface (ue_codes e) m (Some (ue_iface e i)) pipe
      in if fst r = None then find_native_ep_in e m is pipe else r)"

definition usb_find_native_ep :: "nat option \<Rightarrow> u32 \<Rightarrow> usb \<Rightarrow> addr option \<times> addr option" where
  "usb_find_native_ep nd pipe s =
     (case nd of None \<Rightarrow> (None, None) | Some d \<Rightarrow> find_native_ep_in (u_env s) (k_mem s) (ue_ifaces (u_env s) d) pipe)"

text \<open>Record the pipe in the URB state, when there is one.\<close>

definition bind_pipe :: "nat option \<Rightarrow> nat \<Rightarrow> bool \<Rightarrow> nat option \<Rightarrow> int \<Rightarrow> usb \<Rightarrow> usb" where
  "bind_pipe u p owns owner ep s =
     (case u of
        None \<Rightarrow> s
      | Some u \<Rightarrow> upd_state u (\<lambda>t. t\<lparr>us_pipe := Some p, us_owns := owns, us_owner := owner, us_ep := ep\<rparr>) s)"

text \<open>The pipe, whether the caller owns it, and the state.\<close>

definition usb_get_native_pipe :: "nat option \<Rightarrow> u32 \<Rightarrow> nat option \<Rightarrow> usb \<Rightarrow> nat option \<times> bool \<times> usb" where
  "usb_get_native_pipe dev pipe u s =
     (case usb_native_dev dev s of
        None \<Rightarrow> (None, False, s)
      | Some nd \<Rightarrow>
          if usb_pipe_type pipe = PIPE_TYPE_CTRL then (ue_defpipe (u_env s) nd, False, s)
          else if u \<noteq> None \<and> us_pipe (u_states s (the u)) \<noteq> None then (us_pipe (u_states s (the u)), False, s)
          else
            let found = usb_find_wrapper_for_pipe dev pipe s;
                cached = (case found of None \<Rightarrow> None | Some (w, ep) \<Rightarrow> uw_pipes (u_wrappers s ! w) (nat ep))
            in if cached \<noteq> None
               then (cached, False, bind_pipe u (the cached) False (map_option fst found) (snd (the found)) s)
               else
                 let (epd, ss) = (case found of
                        Some (w, ep) \<Rightarrow> usb_find_ep_in_iface (ue_codes (u_env s)) (k_mem s)
                                          (Some (ue_iface (u_env s) (uw_nintf (u_wrappers s ! w)))) pipe
                      | None \<Rightarrow> usb_find_native_ep (Some nd) pipe s)
                 in (case epd of
                       None \<Rightarrow> (None, False, s)
                     | Some d \<Rightarrow>
                         let p = ue_alloc_pipe (u_env s) (u_log s);
                             s = uemit (EvAllocPipe nd d ss) s
                         in (case p of
                               None \<Rightarrow> (None, False, s)
                             | Some np \<Rightarrow>
                                 (case found of
                                    Some (w, ep) \<Rightarrow>
                                      (Some np, False,
                                       bind_pipe u np False (Some w) ep
                                         (upd_wrapper w (\<lambda>x. x\<lparr>uw_pipes := (uw_pipes x)(nat ep := Some np)\<rparr>) s))
                                  | None \<Rightarrow> (Some np, True, bind_pipe u np True None (- 1) s)))))"

section \<open>Synchronous messages\<close>

definition usb_sync_xfer :: "nat option \<Rightarrow> u32 \<Rightarrow> int \<Rightarrow> ctrl_request option \<Rightarrow> addr \<Rightarrow> int \<Rightarrow> int \<Rightarrow> usb \<Rightarrow> int \<times> usb" where
  "usb_sync_xfer dev pipe dir cmd data sz timeout_ms s =
     (case usb_native_dev dev s of
        None \<Rightarrow> (- ENODEV, s)
      | Some nd \<Rightarrow>
          let (np, owns, s) = (if usb_pipe_type pipe = PIPE_TYPE_CTRL then (ue_defpipe (u_env s) nd, False, s)
                               else usb_get_native_pipe dev pipe None s)
          in if usb_pipe_type pipe \<noteq> PIPE_TYPE_CTRL \<and> np = None then (- ENOENT, s)
             else
               let timeout_ns = (if timeout_ms \<ge> 0 then word_of_int timeout_ms * 1000000 else - 1);
                   s = (if dir = 0 then usb_sync_out_buffer data sz s else s);
                   (ret, actual) = ue_sync (u_env s) (u_log s);
                   s = uemit (EvSyncXfer np dir cmd data sz timeout_ns) s;
                   s = (if owns then free_pipe nd (the np) s else s)
               in (if ret < 0 then usb_sync_retlen (ue_codes (u_env s)) ret sz else actual, s))"

definition usb_control_msg :: "nat option \<Rightarrow> u32 \<Rightarrow> u8 \<Rightarrow> u8 \<Rightarrow> u16 \<Rightarrow> u16 \<Rightarrow> addr \<Rightarrow> u16 \<Rightarrow> int \<Rightarrow> usb \<Rightarrow> int \<times> usb" where
  "usb_control_msg dev pipe request requesttype v i data sz timeout_ms s =
     (let req = \<lparr>cr_type = requesttype, cr_request = request, cr_value = v, cr_index = i, cr_length = sz\<rparr>;
          dir = requesttype AND 0x80;
          (ret, s) = usb_sync_xfer dev pipe (int (unat dir)) (Some req) data (int (unat sz)) timeout_ms s
      in if ret < 0 then (ret, s)
         else (ret, if dir \<noteq> 0 \<and> data \<noteq> 0 \<and> ret > 0 then uemit (EvSyncIn data ret) s else s))"

text \<open>The status and the transferred length written to the caller.\<close>

definition usb_bulk_msg :: "nat option \<Rightarrow> u32 \<Rightarrow> addr \<Rightarrow> int \<Rightarrow> int \<Rightarrow> usb \<Rightarrow> (int \<times> int) \<times> usb" where
  "usb_bulk_msg dev pipe data n timeout s =
     (if dev = None \<or> n < 0 then ((- EINVAL, 0), s)
      else
        let (ret, s) = usb_sync_xfer dev pipe (if usb_pipe_dir_in pipe then 0x80 else 0) None data n timeout s
        in if ret < 0 then ((ret, 0), s)
           else ((0, ret), if usb_pipe_dir_in pipe \<and> data \<noteq> 0 \<and> ret > 0 then uemit (EvSyncIn data ret) s else s))"

section \<open>URBs\<close>

definition free_urb_entry :: "nat \<Rightarrow> usb \<Rightarrow> usb" where
  "free_urb_entry u s = s\<lparr>u_urbs := (u_urbs s)(u := None)\<rparr>"

definition new_urb :: usb_urb where
  "new_urb = \<lparr>ur_dev = None, ur_pipe = 0, ur_buffer = 0, ur_buffer_len = 0, ur_actual = 0, ur_status = 0, ur_flags = 0,
     ur_complete = False, ur_hcpriv = False, ur_sg = None, ur_num_sgs = 0, ur_submitted = False, ur_killed = False,
     ur_refcount = 1\<rparr>"

definition new_urb_state :: urb_state where
  "new_urb_state = \<lparr>us_pipe = None, us_owns = False, us_completed_len = 0, us_submitted_len = 0, us_submitted_sg = False,
     us_zlp = False, us_sg_buffer = 0, us_sg_buffer_len = 0, us_owner = None, us_ep = 0, us_queued = False\<rparr>"

definition usb_alloc_urb :: "usb \<Rightarrow> nat option \<times> usb" where
  "usb_alloc_urb s =
     (case kzalloc_obj s of
        (None, s) \<Rightarrow> (None, s)
      | (Some u, s) \<Rightarrow> (Some u, s\<lparr>u_urbs := (u_urbs s)(u := Some new_urb)\<rparr>))"

definition usb_free_urb :: "nat \<Rightarrow> usb \<Rightarrow> usb" where
  "usb_free_urb u s =
     (case u_urbs s u of
        None \<Rightarrow> s
      | Some b \<Rightarrow>
          let refs = ur_refcount b - 1;
              s = upd_urb u (\<lambda>x. x\<lparr>ur_refcount := refs\<rparr>) s
          in if sint refs > 0 then s
             else if sint refs < 0 then s
             else
               let t = u_states s u;
                   s = (if ur_hcpriv b then
                          (let s = (if us_owns t \<and> us_pipe t \<noteq> None \<and> ur_dev b \<noteq> None
                                    then free_pipe (the (usb_native_dev (ur_dev b) s)) (the (us_pipe t)) s else s);
                               s = lcompat_kfree (us_sg_buffer t) s
                           in kfree_obj s)
                        else s)
               in kfree_obj (free_urb_entry u s))"

definition usb_fill_bulk_urb :: "nat \<Rightarrow> nat option \<Rightarrow> u32 \<Rightarrow> addr \<Rightarrow> int \<Rightarrow> bool \<Rightarrow> usb \<Rightarrow> usb" where
  "usb_fill_bulk_urb u dev pipe buf n complete_fn s =
     upd_urb u (\<lambda>x. x\<lparr>ur_dev := dev, ur_pipe := pipe, ur_buffer := buf, ur_buffer_len := n, ur_complete := complete_fn\<rparr>) s"

definition usb_init_urb :: "nat \<Rightarrow> usb \<Rightarrow> usb" where
  "usb_init_urb u s = upd_urb u (\<lambda>_. new_urb) s"

definition usb_unpoison_urb :: "nat \<Rightarrow> usb \<Rightarrow> usb" where
  "usb_unpoison_urb u s = upd_urb u (\<lambda>x. x\<lparr>ur_killed := False\<rparr>) s"

text \<open>Status, data and length of the transfer to submit.\<close>

definition urb_uses_sg :: "usb_urb \<Rightarrow> bool" where
  "urb_uses_sg b = (ur_sg b \<noteq> None \<and> ur_num_sgs b > 0)"

definition prepare_sg_buffer :: "nat \<Rightarrow> int \<Rightarrow> usb \<Rightarrow> bool \<times> usb" where
  "prepare_sg_buffer u n s =
     (if n > us_sg_buffer_len (u_states s u) then
        let (p, s) = lcompat_krealloc (us_sg_buffer (u_states s u)) (word_of_int n) s
        in if p = 0 then (False, s)
           else (True, upd_state u (\<lambda>t. t\<lparr>us_sg_buffer := p, us_sg_buffer_len := n\<rparr>) s)
      else (True, s))"

definition run_copy :: "(int \<times> (addr \<Rightarrow> u8)) option \<Rightarrow> usb \<Rightarrow> int \<times> usb" where
  "run_copy r s = (case r of None \<Rightarrow> (0, s\<lparr>u_fault := True\<rparr>) | Some (ret, m) \<Rightarrow> (ret, s\<lparr>k_mem := m\<rparr>))"

definition usb_prepare_urb_buffer :: "nat \<Rightarrow> usb \<Rightarrow> (int \<times> addr \<times> int) \<times> usb" where
  "usb_prepare_urb_buffer u s =
     (case u_urbs s u of
        None \<Rightarrow> ((- EINVAL, 0, 0), s)
      | Some b \<Rightarrow>
          let n = usb_urb_data_len (ur_sg b) (ur_num_sgs b) (ur_buffer_len b)
          in if n < 0 then ((n, 0, 0), s)
             else
               let s = upd_state u (\<lambda>t. t\<lparr>us_submitted_len := n, us_submitted_sg := urb_uses_sg b\<rparr>) s
               in if \<not> urb_uses_sg b then ((0, ur_buffer b, n), s)
                  else
                    let (ok, s) = prepare_sg_buffer u n s
                    in if \<not> ok then ((- ENOMEM, 0, 0), s)
                       else
                         let buf = us_sg_buffer (u_states s u);
                             (ret, s) = (if usb_pipe_dir_in (ur_pipe b) then (0, s)
                                         else run_copy (usb_sg_copy_from_urb (k_mem s) (the (ur_sg b)) (ur_num_sgs b) buf n) s)
                         in if ret < 0 then ((ret, 0, 0), s) else ((0, buf, n), s))"

definition usb_submit_native_urb :: "nat \<Rightarrow> addr \<Rightarrow> int \<Rightarrow> usb \<Rightarrow> int \<times> usb" where
  "usb_submit_native_urb u data n s =
     (case (u_urbs s u, us_pipe (u_states s u)) of
        (Some b, Some p) \<Rightarrow>
          let s = upd_state u (\<lambda>t. t\<lparr>us_submitted_len := n\<rparr>) s;
              s = (if usb_pipe_dir_in (ur_pipe b) then s else usb_sync_out_buffer data n s);
              ret = ue_submit (u_env s) (u_log s)
          in (ret, uemit (EvSubmitUrb u p (usb_pipe_dir_in (ur_pipe b)) data n) s)
      | _ \<Rightarrow> (- EINVAL, s))"

text \<open>Prepare and submit, as submission and completion both do.\<close>

definition start_urb :: "nat \<Rightarrow> usb \<Rightarrow> int \<times> usb" where
  "start_urb u s =
     (let ((ret, data, n), s) = usb_prepare_urb_buffer u s
      in if ret = 0 then usb_submit_native_urb u data n s else (ret, s))"

definition owner_ep :: "nat option \<Rightarrow> int \<Rightarrow> (nat \<times> nat) option" where
  "owner_ep owner ep = (if owner \<noteq> None \<and> ep \<ge> 0 \<and> ep < MAX_EP then Some (the owner, nat ep) else None)"

text \<open>
  Submission, split where it lets go of the lock: \<open>submit_init\<close> up to the queueing decision, \<open>submit_claim\<close>
  the decision under the lock, \<open>submit_link\<close> the second critical section, \<open>submit_start\<close> the rest.
\<close>

definition submit_ready :: "nat \<Rightarrow> usb \<Rightarrow> usb" where
  "submit_ready u s =
     upd_state u (\<lambda>t. t\<lparr>us_completed_len := 0, us_zlp := False, us_queued := False\<rparr>)
       (upd_urb u (\<lambda>x. x\<lparr>ur_status := - EINPROGRESS, ur_actual := 0, ur_submitted := True, ur_killed := False,
                          ur_refcount := ur_refcount x + 1\<rparr>) (s\<lparr>u_next := (u_next s)(u := None)\<rparr>))"

definition submit_init :: "nat \<Rightarrow> usb \<Rightarrow> int \<times> usb" where
  "submit_init u s =
     (case u_urbs s u of
        None \<Rightarrow> (- EINVAL, s)
      | Some b \<Rightarrow>
          if ur_dev b = None then (- EINVAL, s)
          else if ur_submitted b then (- EBUSY, s)
          else
            let (ok, s) = (if ur_hcpriv b then (True, s)
                           else (case kzalloc_obj s of
                                   (None, s) \<Rightarrow> (False, s)
                                 | (Some _, s) \<Rightarrow> (True, upd_urb u (\<lambda>x. x\<lparr>ur_hcpriv := True\<rparr>)
                                                         (upd_state u (\<lambda>_. new_urb_state) s))))
            in if \<not> ok then (- ENOMEM, s)
               else
                 let (np, _, s) = usb_get_native_pipe (ur_dev b) (ur_pipe b) (Some u) s
                 in if np = None then (- ENOENT, s) else (0, submit_ready u s))"

definition submit_claim :: "nat \<Rightarrow> nat \<Rightarrow> usb \<Rightarrow> bool \<times> usb" where
  "submit_claim w ep s = (if uw_busy (u_wrappers s ! w) ep then (True, s) else (False, set_busy w ep True s))"

definition submit_link :: "nat \<Rightarrow> nat \<Rightarrow> nat \<Rightarrow> usb \<Rightarrow> usb" where
  "submit_link w ep u s = usb_queue_append (Some w) (int ep) u s"

definition submit_start :: "nat \<Rightarrow> usb \<Rightarrow> int \<times> usb" where
  "submit_start u s =
     (let q = owner_ep (us_owner (u_states s u)) (us_ep (u_states s u));
          (ret, s) = start_urb u s
      in if ret < 0 then
           let s = (case q of None \<Rightarrow> s | Some (w, ep) \<Rightarrow> set_busy w ep False s)
           in (ret, usb_free_urb u (upd_urb u (\<lambda>x. x\<lparr>ur_submitted := False\<rparr>) s))
         else (0, s))"

definition usb_submit_urb :: "nat \<Rightarrow> usb \<Rightarrow> int \<times> usb" where
  "usb_submit_urb u s =
     (let (r, s) = submit_init u s
      in if r < 0 then (r, s)
         else
           (case owner_ep (us_owner (u_states s u)) (us_ep (u_states s u)) of
              None \<Rightarrow> submit_start u s
            | Some (w, ep) \<Rightarrow>
                let (should_queue, s) = submit_claim w ep s
                in if should_queue then (0, submit_link w ep u s) else submit_start u s))"

section \<open>Completion\<close>

definition call_complete :: "(nat \<Rightarrow> usb \<Rightarrow> usb) \<Rightarrow> nat \<Rightarrow> usb \<Rightarrow> usb" where
  "call_complete cb u s =
     (if ur_killed (the_urb s u) \<or> \<not> ur_complete (the_urb s u) then s
      else cb u (uemit (EvComplete u (ur_status (the_urb s u)) (ur_actual (the_urb s u))) s))"

text \<open>Is a packet of length zero due after this one?\<close>

definition zlp_due :: "nat \<Rightarrow> int \<Rightarrow> int \<Rightarrow> usb \<Rightarrow> bool" where
  "zlp_due u status actual s =
     (let b = the_urb s u; t = u_states s u
      in status = 0 \<and> \<not> usb_pipe_dir_in (ur_pipe b) \<and> ur_flags b AND URB_ZERO_PACKET \<noteq> 0 \<and> ur_buffer_len b > 0 \<and>
         us_pipe t \<noteq> None \<and> ue_maxpacket (u_env s) (the (us_pipe t)) > 0 \<and> actual = ur_buffer_len b \<and>
         actual mod ue_maxpacket (u_env s) (the (us_pipe t)) = 0)"

text \<open>The mapped status and length, or None when a zero-length packet was sent and its completion is awaited.\<close>

definition complete_status :: "nat \<Rightarrow> int \<Rightarrow> int \<Rightarrow> usb \<Rightarrow> (int \<times> int) option \<times> usb" where
  "complete_status u status actual_length s =
     (let t = u_states s u;
          c = ue_codes (u_env s);
          mapped = usb_urb_status c status;
          (mapped, actual) = (if mapped = 0 \<and> actual_length > us_submitted_len t
                              then (- EOVERFLOW, us_submitted_len t) else (mapped, actual_length))
      in if us_zlp t then (Some (mapped, us_completed_len t), upd_state u (\<lambda>t. t\<lparr>us_zlp := False\<rparr>) s)
         else if zlp_due u mapped actual s then
           let s = upd_state u (\<lambda>t. t\<lparr>us_completed_len := actual, us_zlp := True\<rparr>) s;
               (ret, s) = usb_submit_native_urb u 0 0 s
           in if ret = 0 then (None, s)
              else (Some (usb_urb_status c ret, actual), upd_state u (\<lambda>t. t\<lparr>us_zlp := False\<rparr>) s)
         else (Some (mapped, actual), s))"

text \<open>Data received is made visible to the processor and copied back to the scatter list.\<close>

definition complete_data :: "nat \<Rightarrow> int \<Rightarrow> int \<Rightarrow> usb \<Rightarrow> int \<times> usb" where
  "complete_data u mapped actual s =
     (let b = the_urb s u; t = u_states s u
      in if mapped = 0 \<and> usb_pipe_dir_in (ur_pipe b) \<and> actual > 0 then
           (if us_submitted_sg t then
              let s = uemit (EvSyncIn (us_sg_buffer t) actual) s
              in run_copy (if ur_sg b = None \<and> ur_num_sgs b > 0 then None
                           else usb_sg_copy_to_urb (k_mem s) (case ur_sg b of None \<Rightarrow> [] | Some l \<Rightarrow> l) (ur_num_sgs b)
                                  (us_sg_buffer t) actual) s
            else if ur_buffer b \<noteq> 0 then (mapped, uemit (EvSyncIn (ur_buffer b) actual) s)
            else (mapped, s))
         else (mapped, s))"

text \<open>Take the next pending URB of the endpoint and start it.\<close>

definition complete_next :: "(nat \<Rightarrow> usb \<Rightarrow> usb) \<Rightarrow> nat \<Rightarrow> nat \<Rightarrow> usb \<Rightarrow> usb" where
  "complete_next cb w ep s =
     (let (nxt, s) = usb_queue_pop (Some w) (int ep) s
      in case nxt of
           None \<Rightarrow> set_busy w ep False s
         | Some n \<Rightarrow>
             let (ret, s) = start_urb n s
             in if ret < 0 then
                  let s = upd_urb n (\<lambda>x. x\<lparr>ur_status := ret, ur_actual := 0, ur_submitted := False\<rparr>) s;
                      s = set_busy w ep False s;
                      s = call_complete cb n s
                  in usb_free_urb n s
                else s)"

definition complete_finish :: "(nat \<Rightarrow> usb \<Rightarrow> usb) \<Rightarrow> nat option \<Rightarrow> nat \<Rightarrow> int \<Rightarrow> int \<Rightarrow> usb \<Rightarrow> usb" where
  "complete_finish cb owner u mapped actual s =
     (let s = upd_urb u (\<lambda>x. x\<lparr>ur_submitted := False\<rparr>) s;
          s = upd_urb u (\<lambda>x. x\<lparr>ur_status := mapped, ur_actual := actual\<rparr>) s;
          s = call_complete cb u s;
          s = (case owner_ep owner (us_ep (u_states s u)) of None \<Rightarrow> s | Some (w, ep) \<Rightarrow> complete_next cb w ep s)
      in usb_free_urb u s)"

definition usb_urb_complete :: "(nat \<Rightarrow> usb \<Rightarrow> usb) \<Rightarrow> int \<Rightarrow> int \<Rightarrow> nat \<Rightarrow> usb \<Rightarrow> usb" where
  "usb_urb_complete cb status actual_length u s =
     (case u_urbs s u of
        None \<Rightarrow> s
      | Some b \<Rightarrow>
          if \<not> ur_submitted b then s
          else
            let owner = us_owner (u_states s u);
                (r, s) = complete_status u status actual_length s
            in (case r of
                  None \<Rightarrow> s
                | Some (mapped, actual) \<Rightarrow>
                    let (mapped, s) = complete_data u mapped actual s
                    in complete_finish cb owner u mapped actual s))"

text \<open>
  \<^verbatim>\<open>usb_kill_urb\<close> marks the URB and waits; \<open>w n\<close> is the state at its n-th look, and None a wait
  that never ends.
\<close>

definition kill_mark :: "nat \<Rightarrow> usb \<Rightarrow> usb" where
  "kill_mark u s = upd_urb u (\<lambda>x. x\<lparr>ur_killed := True\<rparr>) s"

partial_function (option) kill_wait :: "nat \<Rightarrow> (nat \<Rightarrow> usb) \<Rightarrow> nat \<Rightarrow> nat option" where
  "kill_wait u w n = (if ur_submitted (the_urb (w n) u) then kill_wait u w (n + 1) else Some n)"

section \<open>Wrappers and drivers\<close>

definition new_wrapper :: "nat \<Rightarrow> nat \<Rightarrow> usb \<Rightarrow> usb_wrapper" where
  "new_wrapper nd ni s =
     (let i = ue_iface (u_env s) ni
      in \<lparr>uw_used = True, uw_ndev = nd, uw_nintf = ni,
          uw_state = (if ue_online (u_env s) nd then USB_STATE_CONFIGURED else USB_STATE_NOTATTACHED),
          uw_speed = usb_linux_speed (ue_codes (u_env s)) (ue_speed (u_env s) nd),
          uw_vendor = ni_vendor i, uw_product = ni_product i,
          uw_eps = usb_collect_endpoints (ue_codes (u_env s)) (k_mem s) (Some i),
          uw_pipes = (\<lambda>_. None), uw_head = (\<lambda>_. None), uw_tail = (\<lambda>_. None), uw_busy = (\<lambda>_. False)\<rparr>)"

definition usb_wrap :: "nat option \<Rightarrow> nat option \<Rightarrow> usb \<Rightarrow> nat option \<times> usb" where
  "usb_wrap nd ni s =
     (case (nd, ni) of
        (Some d, Some i) \<Rightarrow>
          (case find (\<lambda>k. let w = u_wrappers s ! k in uw_used w \<and> uw_ndev w = d \<and> uw_nintf w = i) [0..<length (u_wrappers s)] of
             Some k \<Rightarrow> (Some k, s)
           | None \<Rightarrow>
               (case find (\<lambda>k. \<not> uw_used (u_wrappers s ! k)) [0..<length (u_wrappers s)] of
                  None \<Rightarrow> (None, s)
                | Some k \<Rightarrow> (Some k, upd_wrapper k (\<lambda>_. new_wrapper d i s) s)))
      | _ \<Rightarrow> (None, s))"

definition usb_native_probe ::
  "(nat \<Rightarrow> nat \<Rightarrow> usb_device_id \<Rightarrow> usb \<Rightarrow> int \<times> usb) \<Rightarrow> nat option \<Rightarrow> nat option \<Rightarrow> usb \<Rightarrow> int \<times> usb" where
  "usb_native_probe pr nd ni s =
     (let cur = ue_current (u_env s) (u_log s);
          binding = (case cur of None \<Rightarrow> None
                     | Some k \<Rightarrow> if k < length (u_bindings s) \<and> ub_used (u_bindings s ! k) then Some (u_bindings s ! k) else None);
          drv = (case binding of None \<Rightarrow> None | Some b \<Rightarrow> ub_driver b)
      in case drv of
           None \<Rightarrow> (- EINVAL, s)
         | Some d \<Rightarrow>
             if \<not> ud_probe (u_drivers s d) then (- EINVAL, s)
             else
               (case usb_wrap nd ni s of
                  (None, s) \<Rightarrow> (- ENOMEM, s)
                | (Some w, s) \<Rightarrow>
                    (case usb_match_one (k_mem s) (ud_id_table (u_drivers s d)) (map_option (ue_iface (u_env s)) ni) of
                       None \<Rightarrow> (- ENODEV, s)
                     | Some i \<Rightarrow> pr d w i s)))"

text \<open>The first bound driver with a disconnect callback whose table matches the interface.\<close>

definition disconnect_driver :: "nat \<Rightarrow> usb \<Rightarrow> nat option" where
  "disconnect_driver w s =
     (case find (\<lambda>b. ub_used b \<and> ub_driver b \<noteq> None \<and> ud_disconnect (u_drivers s (the (ub_driver b))) \<and>
                   usb_match_one (k_mem s) (ud_id_table (u_drivers s (the (ub_driver b))))
                     (Some (ue_iface (u_env s) (uw_nintf (u_wrappers s ! w)))) \<noteq> None) (u_bindings s) of
        None \<Rightarrow> None
      | Some b \<Rightarrow> ub_driver b)"

definition remove_pipe :: "nat \<Rightarrow> nat \<Rightarrow> usb \<Rightarrow> usb" where
  "remove_pipe w ep s =
     (case uw_pipes (u_wrappers s ! w) ep of
        None \<Rightarrow> s
      | Some p \<Rightarrow> upd_wrapper w (\<lambda>x. x\<lparr>uw_pipes := (uw_pipes x)(ep := None)\<rparr>) (free_pipe (uw_ndev (u_wrappers s ! w)) p s))"

definition remove_wrapper :: "(nat \<Rightarrow> nat \<Rightarrow> usb \<Rightarrow> usb) \<Rightarrow> nat \<Rightarrow> nat \<Rightarrow> usb \<Rightarrow> usb" where
  "remove_wrapper disc nd w s =
     (if \<not> uw_used (u_wrappers s ! w) \<or> uw_ndev (u_wrappers s ! w) \<noteq> nd then s
      else
        let s = upd_wrapper w (\<lambda>x. x\<lparr>uw_state := USB_STATE_NOTATTACHED\<rparr>) s;
            s = (case disconnect_driver w s of None \<Rightarrow> s | Some d \<Rightarrow> disc d w s);
            s = fold (remove_pipe w) [0..<length (uw_eps (u_wrappers s ! w))] s
        in upd_wrapper w (\<lambda>x. x\<lparr>uw_used := False\<rparr>) s)"

definition usb_native_remove :: "(nat \<Rightarrow> nat \<Rightarrow> usb \<Rightarrow> usb) \<Rightarrow> nat \<Rightarrow> usb \<Rightarrow> int \<times> usb" where
  "usb_native_remove disc nd s = (0, fold (remove_wrapper disc nd) [0..<length (u_wrappers s)] s)"

definition usb_register_driver :: "nat option \<Rightarrow> usb \<Rightarrow> int \<times> usb" where
  "usb_register_driver drv s =
     (case drv of
        None \<Rightarrow> (- EINVAL, s)
      | Some d \<Rightarrow>
          if \<not> ud_probe (u_drivers s d) then (- EINVAL, s)
          else
            (case find (\<lambda>k. \<not> ub_used (u_bindings s ! k)) [0..<length (u_bindings s)] of
               None \<Rightarrow> (- ENOSPC, s)
             | Some k \<Rightarrow>
                 (case kzalloc_obj s of
                    (None, s) \<Rightarrow> (- ENOMEM, s\<lparr>u_bindings := (u_bindings s)[k := \<lparr>ub_used = False, ub_driver = Some d, ub_ids = None\<rparr>]\<rparr>)
                  | (Some _, s) \<Rightarrow>
                      (0, uemit (EvRegister k)
                            (s\<lparr>u_bindings := (u_bindings s)[k := \<lparr>ub_used = True, ub_driver = Some d,
                                 ub_ids = Some (native_ids (ud_id_table (u_drivers s d)))\<rparr>]\<rparr>)))))"

definition usb_deregister :: "nat option \<Rightarrow> usb \<Rightarrow> usb" where
  "usb_deregister drv s =
     (case find (\<lambda>k. ub_used (u_bindings s ! k) \<and> ub_driver (u_bindings s ! k) = drv) [0..<length (u_bindings s)] of
        None \<Rightarrow> s
      | Some k \<Rightarrow>
          let s = uemit (EvUnregister k) s;
              s = (if ub_ids (u_bindings s ! k) = None then s else kfree_obj s)
          in s\<lparr>u_bindings := (u_bindings s)[k := (u_bindings s ! k)\<lparr>ub_ids := None, ub_used := False\<rparr>]\<rparr>)"

definition usb_reset_device :: "nat option \<Rightarrow> int" where
  "usb_reset_device dev = 0"

definition usb_maxpacket :: "nat option \<Rightarrow> u32 \<Rightarrow> int" where
  "usb_maxpacket dev pipe = 512"

end
