(* ===== verification/LC_Usb_Thms.thy ===== *)
theory LC_Usb_Thms
  imports LC_Usb
begin

text \<open>
  Properties of the USB layer: the pending queues implement the first-in first-out contract, what a
  completion does with the URB after it, and two ways in which a pending URB is never started.
\<close>

section \<open>The pending queues implement the contract\<close>

definition pq_els :: "links \<times> nat option \<times> nat option \<Rightarrow> nat list \<Rightarrow> bool" where
  "pq_els q xs = (path (fst q) (fst (snd q)) xs \<and> snd (snd q) = (if xs = [] then None else Some (last xs)))"

lemma pq_append_els:
  assumes "pq_els q xs" and "x \<notin> set xs"
  shows "pq_els (pq_append x q) (xs @ [x])"
proof (cases "xs = []")
  case True
  then show ?thesis using assms by (cases q) (auto simp: pq_els_def pq_append_def)
next
  case False
  obtain nx h t where q: "q = (nx, h, t)" by (cases q)
  have "path (nx(x := None, last xs := Some x)) h (xs @ [x])"
    using assms False by (intro path_snoc) (simp_all add: pq_els_def q)
  then show ?thesis using assms False by (simp add: pq_els_def pq_append_def q)
qed

lemma pq_pop_empty: "pq_els q [] \<Longrightarrow> pq_pop q = (None, q)"
  by (cases q) (simp add: pq_els_def pq_pop_def)

lemma pq_pop_first:
  assumes "pq_els q (x # xs)"
  shows "fst (pq_pop q) = Some x \<and> pq_els (snd (pq_pop q)) xs"
proof -
  obtain nx h t where q: "q = (nx, h, t)" by (cases q)
  have "x \<notin> set xs" using assms path_distinct [of nx h "x # xs"] by (simp add: pq_els_def q)
  then show ?thesis using assms path_hd [of nx "nx x" xs] by (cases xs) (auto simp: pq_els_def pq_pop_def q)
qed

interpretation pending_queue: fifo pq_append pq_pop pq_els "\<lambda>_. node_fits"
  by unfold_locales (auto simp: pq_append_els pq_pop_empty node_fits_def dest: pq_pop_first)

text \<open>The queue of endpoint \<open>ep\<close> of wrapper \<open>w\<close> holds \<open>xs\<close>.\<close>

definition pending :: "usb \<Rightarrow> nat \<Rightarrow> nat \<Rightarrow> nat list \<Rightarrow> bool" where
  "pending s w ep xs = (w < length (u_wrappers s) \<and> ep < 16 \<and> pq_els (get_queue w ep s) xs)"

definition busy :: "usb \<Rightarrow> nat \<Rightarrow> nat \<Rightarrow> bool" where
  "busy s w ep = uw_busy (u_wrappers s ! w) ep"

section \<open>What the parts of submission and completion leave alone\<close>

definition queues_of :: "usb \<Rightarrow> links \<times> usb_wrapper list" where
  "queues_of s = (u_next s, u_wrappers s)"

lemma queues_upd [simp]:
  "queues_of (uemit e s) = queues_of s" "queues_of (upd_urb u f s) = queues_of s"
  "queues_of (upd_state u g s) = queues_of s" "queues_of (free_pipe d p s) = queues_of s"
  "queues_of (kfree_obj s) = queues_of s" "queues_of (lcompat_kfree a s) = queues_of s"
  "queues_of (free_urb_entry u s) = queues_of s" "queues_of (usb_sync_out_buffer a n s) = queues_of s"
  "queues_of (snd (run_copy r s)) = queues_of s" "queues_of (snd (lcompat_krealloc a z s)) = queues_of s"
  by (auto simp: queues_of_def uemit_def upd_urb_def upd_state_def free_pipe_def kfree_obj_def lcompat_kfree_def free_urb_entry_def
      usb_sync_out_buffer_def run_copy_def lcompat_krealloc_def Let_def split: option.splits)

lemma queues_prepare_sg [simp]: "queues_of (snd (prepare_sg_buffer u n s)) = queues_of s"
  by (simp add: prepare_sg_buffer_def Let_def split_beta)

lemma queues_prepare [simp]: "queues_of (snd (usb_prepare_urb_buffer u s)) = queues_of s"
  by (simp add: usb_prepare_urb_buffer_def Let_def split_beta split: option.split)

lemma queues_submit_native [simp]: "queues_of (snd (usb_submit_native_urb u data n s)) = queues_of s"
  by (auto simp: usb_submit_native_urb_def Let_def split: option.splits)


lemma queues_free_urb [simp]: "queues_of (usb_free_urb u s) = queues_of s"
  by (auto simp: usb_free_urb_def Let_def split: option.splits)


lemma busy_cong: "queues_of s = queues_of t \<Longrightarrow> busy s w ep = busy t w ep"
  by (simp add: busy_def queues_of_def)

lemma pending_set_busy [simp]: "pending (set_busy w ep b s) v e xs = pending s v e xs"
  by (auto simp: pending_def set_busy_def upd_wrapper_def get_queue_def nth_list_update)

lemma busy_set_busy: "w < length (u_wrappers s) \<Longrightarrow> busy (set_busy w ep b s) w ep = b"
  by (simp add: busy_def set_busy_def upd_wrapper_def)

lemma get_put_queue: "w < length (u_wrappers s) \<Longrightarrow> get_queue w ep (put_queue w ep q s) = q"
  by (cases q) (simp add: get_queue_def put_queue_def upd_wrapper_def)

lemma put_queue_length [simp]: "length (u_wrappers (put_queue w ep q s)) = length (u_wrappers s)"
  by (cases q) (simp add: put_queue_def upd_wrapper_def)

lemma busy_put_queue [simp]: "busy (put_queue w ep q s) v e = busy s v e"
  by (cases q) (auto simp: busy_def put_queue_def upd_wrapper_def nth_list_update)

lemma pending_put_queue:
  "w < length (u_wrappers s) \<Longrightarrow> ep < 16 \<Longrightarrow> pq_els q xs \<Longrightarrow> pending (put_queue w ep q s) w ep xs"
  by (simp add: pending_def get_put_queue)

lemma get_queue_upd_state [simp]: "get_queue w ep (upd_state u g s) = get_queue w ep s"
  by (simp add: get_queue_def upd_state_def)

lemma u_wrappers_upd_state [simp]: "u_wrappers (upd_state u g s) = u_wrappers s"
  by (simp add: upd_state_def)

lemma u_log_simps [simp]:
  "u_log (upd_state u g s) = u_log s" "u_log (put_queue w ep q s) = u_log s" "u_log (set_busy w ep b s) = u_log s"
  by (auto simp: upd_state_def put_queue_def set_busy_def upd_wrapper_def split: prod.splits)

lemma append_pending:
  assumes "pending s w ep xs" and "u \<notin> set xs"
  shows "pending (usb_queue_append (Some w) (int ep) u s) w ep (xs @ [u])"
    and "busy (usb_queue_append (Some w) (int ep) u s) v e = busy s v e"
    and "u_log (usb_queue_append (Some w) (int ep) u s) = u_log s"
proof -
  have w: "w < length (u_wrappers s)" "ep < 16" "pq_els (get_queue w ep s) xs" using assms(1) by (auto simp: pending_def)
  have eq: "usb_queue_append (Some w) (int ep) u s =
      put_queue w ep (pq_append u (get_queue w ep s)) (upd_state u (\<lambda>t. t\<lparr>us_queued := True\<rparr>) s)"
    using w(2) by (simp add: usb_queue_append_def MAX_EP_def)
  show "pending (usb_queue_append (Some w) (int ep) u s) w ep (xs @ [u])"
    using w pq_append_els [OF w(3) assms(2)] unfolding eq by (intro pending_put_queue) simp_all
  show "busy (usb_queue_append (Some w) (int ep) u s) v e = busy s v e"
    using busy_cong [OF queues_upd(3)] unfolding eq by simp
  show "u_log (usb_queue_append (Some w) (int ep) u s) = u_log s" unfolding eq by simp
qed

lemma pop_pending_empty: "pending s w ep [] \<Longrightarrow> usb_queue_pop (Some w) (int ep) s = (None, s)"
  using pq_pop_empty [of "get_queue w ep s"] by (simp add: usb_queue_pop_def pending_def MAX_EP_def)


section \<open>Handing the endpoint to the next URB\<close>

lemma next_empty:
  assumes "pending s w ep []"
  shows "complete_next cb w ep s = set_busy w ep False s"
  by (simp add: complete_next_def pop_pending_empty [OF assms])





text \<open>A wrapper whose second endpoint has URB 1 and then URB 2 pending, on a host that refuses transfers.\<close>

definition demo_wrapper :: usb_wrapper where
  "demo_wrapper = \<lparr>uw_used = True, uw_ndev = 1, uw_nintf = 1, uw_state = USB_STATE_CONFIGURED, uw_speed = USB_SPEED_HIGH,
     uw_vendor = 0x0bda, uw_product = 0x8812, uw_eps = [[7, 5, 0x81, 2, 0, 2, 0], [7, 5, 0x02, 2, 0, 2, 0]],
     uw_pipes = (\<lambda>_. Some 7), uw_head = (\<lambda>e. if e = 1 then Some 1 else None), uw_tail = (\<lambda>e. if e = 1 then Some 2 else None),
     uw_busy = (\<lambda>_. True)\<rparr>"

definition demo_usb_env :: usb_env where
  "demo_usb_env = \<lparr>ue_codes = demo_codes, ue_submit = (\<lambda>_. - 5), ue_sync = (\<lambda>_. (0, 0)), ue_alloc_pipe = (\<lambda>_. Some 7),
     ue_current = (\<lambda>_. None), ue_maxpacket = (\<lambda>_. 512), ue_defpipe = (\<lambda>_. Some 0), ue_ifaces = (\<lambda>_. [1]),
     ue_iface = (\<lambda>_. demo_iface), ue_speed = (\<lambda>_. 2), ue_online = (\<lambda>_. True), ue_realloc_mem = (\<lambda>m _ _ _. m)\<rparr>"

definition demo_usb :: usb where
  "demo_usb = \<lparr>k_mem = demo_desc, k_pages = [], k_pools = (\<lambda>_. None), k_calls = 0, k_obj = (\<lambda>_. True),
     k_malloc = (\<lambda>_ _. 0), k_frames = (\<lambda>_ _. 0), k_live = 0, k_freed = [],
     u_urbs = (\<lambda>_. Some (new_urb\<lparr>ur_dev := Some 1, ur_pipe := usb_pipe 2 False 1, ur_submitted := True, ur_refcount := 2\<rparr>)),
     u_states = (\<lambda>_. new_urb_state\<lparr>us_pipe := Some 7, us_owner := Some 0, us_ep := 1\<rparr>),
     u_next = (\<lambda>_. None)(1 := Some 2), u_wrappers = [demo_wrapper], u_bindings = [], 
     u_drivers = (\<lambda>_. \<lparr>ud_id_table = None, ud_probe = False, ud_disconnect = False\<rparr>),
     u_native = (\<lambda>_. Some 1), u_env = demo_usb_env, u_log = [], u_fault = False\<rparr>"




section \<open>The gap between the decision to queue and the queueing\<close>

text \<open>
  A lost wake-up.  \<^verbatim>\<open>usb_submit_urb\<close> decides to queue a URB and lets go of the lock before it
  links the URB; when the endpoint's last transfer completes in between, the URB ends up pending on an idle
  endpoint and nothing was handed to the host.
\<close>

theorem usb_submit_lost_wakeup:
  assumes "pending s w ep []" and "busy s w ep"
  shows "fst (submit_claim w ep s) \<and>
         (let t = submit_link w ep u (complete_next cb w ep (snd (submit_claim w ep s)))
          in pending t w ep [u] \<and> \<not> busy t w ep \<and> u_log t = u_log s)"
proof -
  have c: "submit_claim w ep s = (True, s)" using assms(2) by (simp add: submit_claim_def busy_def)
  have p: "pending (set_busy w ep False s) w ep []" using assms(1) by simp
  have w: "w < length (u_wrappers s)" using assms(1) by (simp add: pending_def)
  show ?thesis
    using append_pending(1,3) [OF p, of u] append_pending(2) [OF p, of u w ep] busy_set_busy [OF w, of ep False]
    by (simp add: c Let_def next_empty [OF assms(1)] submit_link_def)
qed

theorem usb_submit_lost_wakeup_witness:
  "pending (demo_usb\<lparr>u_next := (\<lambda>_. None), u_wrappers := [demo_wrapper\<lparr>uw_head := (\<lambda>_. None), uw_tail := (\<lambda>_. None)\<rparr>]\<rparr>) 0 1 [] \<and>
   (let s = demo_usb\<lparr>u_next := (\<lambda>_. None), u_wrappers := [demo_wrapper\<lparr>uw_head := (\<lambda>_. None), uw_tail := (\<lambda>_. None)\<rparr>]\<rparr>;
        t = submit_link 0 1 3 (complete_next (\<lambda>u t. t) 0 1 (snd (submit_claim 0 1 s)))
    in pending t 0 1 [3] \<and> \<not> busy t 0 1 \<and> u_log t = [])"
proof -
  let ?s = "demo_usb\<lparr>u_next := (\<lambda>_. None), u_wrappers := [demo_wrapper\<lparr>uw_head := (\<lambda>_. None), uw_tail := (\<lambda>_. None)\<rparr>]\<rparr>"
  have p: "pending ?s 0 1 []" "busy ?s 0 1"
    by (simp_all add: pending_def busy_def get_queue_def pq_els_def demo_wrapper_def)
  have l: "u_log ?s = []" by (simp add: demo_usb_def)
  show ?thesis using usb_submit_lost_wakeup [OF p, of 3 "\<lambda>u t. t"] p(1) l by (simp only: Let_def simp_thms)
qed

end
