(* ===== verification/LC_Pci_Thms.thy ===== *)
theory LC_Pci_Thms
  imports LC_Pci
begin

text \<open>
  Properties of the PCI layer: at most one wrapper per host device, each showing the device as the host
  describes it, kept by every operation; and the lengths of the resources a driver reads.
\<close>

section \<open>Bit patterns\<close>

lemma PCI_DEVFN_fields:
  "PCI_SLOT (PCI_DEVFN slot func) = slot AND 0x1f" "PCI_FUNC (PCI_DEVFN slot func) = func AND 0x07"
proof -
  have m5: "(31 :: u32) = mask 5" and m3: "(7 :: u32) = mask 3" by (simp_all add: mask_eq_exp_minus_1)
  show "PCI_SLOT (PCI_DEVFN slot func) = slot AND 0x1f"
    unfolding PCI_SLOT_def PCI_DEVFN_def m5 m3
    by (rule bit_word_eqI, simp only: bit_and_iff bit_or_iff bit_drop_bit_eq o_apply bit_push_bit_iff bit_mask_iff possible_bit_word)
       (auto dest: bit_imp_le_length)
  show "PCI_FUNC (PCI_DEVFN slot func) = func AND 0x07"
    unfolding PCI_FUNC_def PCI_DEVFN_def m5 m3
    by (rule bit_word_eqI, simp only: bit_and_iff bit_or_iff bit_push_bit_iff bit_mask_iff possible_bit_word) auto
qed

lemma byte_ucast: "(ucast (ucast (push_bit 3 (a AND 0x1f) OR (b AND 0x07) :: u32) :: u8) :: u32) = push_bit 3 (a AND 0x1f) OR (b AND 0x07)"
proof -
  have m5: "(31 :: u32) = mask 5" and m3: "(7 :: u32) = mask 3" by (simp_all add: mask_eq_exp_minus_1)
  show ?thesis unfolding m5 m3
    by (rule bit_word_eqI) (auto simp: bit_simps)
qed

section \<open>The invariant\<close>

text \<open>
  What a resource says of a BAR: the bytes from its start to its end, inclusive, are those of the BAR, and
  its flags tell the kind.  An absent BAR, of size 0, is a marked resource of one byte.
\<close>

definition shows_bar :: "pci_resource \<Rightarrow> pci_bar \<Rightarrow> bool" where
  "shows_bar r b =
     (res_start r = bar_address b \<and> res_end r - res_start r + 1 = (if bar_size b = 0 then 1 else bar_size b) \<and>
      (res_flags r AND IORESOURCE_MEM \<noteq> 0 \<longleftrightarrow> bar_mmio b) \<and> (res_flags r AND IORESOURCE_IO \<noteq> 0 \<longleftrightarrow> \<not> bar_mmio b) \<and>
      (res_flags r AND IORESOURCE_PREFETCH \<noteq> 0 \<longleftrightarrow> bar_prefetchable b) \<and>
      (res_flags r AND IORESOURCE_UNSET \<noteq> 0 \<longleftrightarrow> bar_size b = 0))"

text \<open>What a driver reads of a device, member by member, against the host's record of it.\<close>

definition shows_device :: "pci_dev \<Rightarrow> pci_native \<Rightarrow> bool" where
  "shows_device d n =
     (pd_domain_nr d = pn_segment n \<and> pd_bus_number d = pn_bus n \<and>
      PCI_SLOT (ucast (pd_devfn d)) = ucast (pn_slot n) AND 0x1f \<and> PCI_FUNC (ucast (pd_devfn d)) = ucast (pn_func n) AND 0x07 \<and>
      pd_vendor d = pn_vendor n \<and> pd_device d = pn_device n \<and>
      pd_subvendor d = pn_subvendor n \<and> pd_subdevice d = pn_subdevice n \<and>
      pd_revision d = pn_revision n \<and> pd_class d = pn_class n \<and> pd_irq d = pn_irq n \<and>
      (\<forall>bar<6. shows_bar (pd_resource d bar) (pn_bars n bar)))"

definition pci_ok :: "pci \<Rightarrow> bool" where
  "pci_ok s =
     ((\<forall>i<length (p_wrappers s). \<forall>j<length (p_wrappers s).
         pw_used (p_wrappers s ! i) \<and> pw_used (p_wrappers s ! j) \<and> pd_native (dev_of s i) = pd_native (dev_of s j) \<longrightarrow> i = j) \<and>
      (\<forall>i<length (p_wrappers s). pw_used (p_wrappers s ! i) \<longrightarrow>
         shows_device (dev_of s i) (p_native s (pd_native (dev_of s i)))))"

lemma resource_of_shows: "shows_bar (resource_of b) b"
proof -
  have "IORESOURCE_MEM AND IORESOURCE_MEM \<noteq> 0" "IORESOURCE_IO AND IORESOURCE_IO \<noteq> 0"
    "IORESOURCE_MEM AND IORESOURCE_IO = 0" "IORESOURCE_IO AND IORESOURCE_MEM = 0"
    "IORESOURCE_PREFETCH AND IORESOURCE_PREFETCH \<noteq> 0" "IORESOURCE_UNSET AND IORESOURCE_UNSET \<noteq> 0"
    "IORESOURCE_PREFETCH AND IORESOURCE_MEM = 0" "IORESOURCE_PREFETCH AND IORESOURCE_IO = 0"
    "IORESOURCE_MEM AND IORESOURCE_PREFETCH = 0" "IORESOURCE_IO AND IORESOURCE_PREFETCH = 0"
    "IORESOURCE_UNSET AND IORESOURCE_MEM = 0" "IORESOURCE_UNSET AND IORESOURCE_IO = 0" "IORESOURCE_UNSET AND IORESOURCE_PREFETCH = 0"
    "IORESOURCE_MEM AND IORESOURCE_UNSET = 0" "IORESOURCE_IO AND IORESOURCE_UNSET = 0" "IORESOURCE_PREFETCH AND IORESOURCE_UNSET = 0"
    by (simp_all add: IORESOURCE_MEM_def IORESOURCE_IO_def IORESOURCE_PREFETCH_def IORESOURCE_UNSET_def)
  then show ?thesis by (simp add: shows_bar_def resource_of_def Let_def bit.conj_disj_distrib2)
qed

lemma new_pci_dev_shows: "shows_device (new_pci_dev k n) n"
proof -
  have "(ucast (ucast (PCI_DEVFN a b) :: u8) :: u32) = PCI_DEVFN a b" for a b
    unfolding PCI_DEVFN_def by (rule byte_ucast)
  then show ?thesis
    by (simp add: shows_device_def new_pci_dev_def resource_of_shows PCI_DEVFN_fields)
qed

lemma pci_ok_cong: "p_wrappers s = p_wrappers t \<Longrightarrow> p_native s = p_native t \<Longrightarrow> pci_ok s = pci_ok t"
  by (simp add: pci_ok_def dev_of_def)

lemma find_upt: "find P [0..<n] = Some i \<Longrightarrow> i < n \<and> P i"
  by (auto simp: find_Some_iff)

lemma find_upt_None: "find P [0..<n] = None \<Longrightarrow> i < n \<Longrightarrow> \<not> P i"
  by (auto simp: find_None_iff)

lemma pci_wrap_cases:
  assumes "pci_wrap dev s = r"
  obtains "r = (None, s)"
  | n i where "dev = Some n" "r = (Some i, s)" "i < length (p_wrappers s)" "pw_used (p_wrappers s ! i)" "pd_native (dev_of s i) = n"
  | n i where "dev = Some n" "i < length (p_wrappers s)" "\<not> pw_used (p_wrappers s ! i)"
      "\<forall>j<length (p_wrappers s). pw_used (p_wrappers s ! j) \<longrightarrow> pd_native (dev_of s j) \<noteq> n"
      "r = (Some i, s\<lparr>p_wrappers := (p_wrappers s)[i := \<lparr>pw_used = True, pw_dev = new_pci_dev n (p_native s n)\<rparr>]\<rparr>)"
proof -
  let ?mine = "\<lambda>n i. pw_used (p_wrappers s ! i) \<and> pd_native (pw_dev (p_wrappers s ! i)) = n"
  let ?free = "\<lambda>i. \<not> pw_used (p_wrappers s ! i)"
  show ?thesis
  proof (cases dev)
    case None
    then show ?thesis using assms that(1) by (simp add: pci_wrap_def)
  next
    case (Some n)
    show ?thesis
    proof (cases "find (?mine n) [0..<length (p_wrappers s)]")
      case (Some i)
      then show ?thesis using assms \<open>dev = Some n\<close> that(2) [of n i] find_upt [OF Some] by (simp add: pci_wrap_def dev_of_def)
    next
      case none: None
      show ?thesis
      proof (cases "find ?free [0..<length (p_wrappers s)]")
        case None
        then show ?thesis using assms \<open>dev = Some n\<close> none that(1) by (simp add: pci_wrap_def)
      next
        case (Some i)
        then show ?thesis
          using assms \<open>dev = Some n\<close> none that(3) [of n i] find_upt [OF Some] find_upt_None [OF none]
          by (simp add: pci_wrap_def dev_of_def)
      qed
    qed
  qed
qed

lemma new_pci_dev_native [simp]: "pd_native (new_pci_dev n x) = n"
  by (simp add: new_pci_dev_def)

lemma pci_ok_unique:
  "pci_ok s \<Longrightarrow> i < length (p_wrappers s) \<Longrightarrow> j < length (p_wrappers s) \<Longrightarrow> pw_used (p_wrappers s ! i) \<Longrightarrow>
     pw_used (p_wrappers s ! j) \<Longrightarrow> pd_native (dev_of s i) = pd_native (dev_of s j) \<Longrightarrow> i = j"
  by (simp add: pci_ok_def)

lemma pci_ok_identity:
  "pci_ok s \<Longrightarrow> i < length (p_wrappers s) \<Longrightarrow> pw_used (p_wrappers s ! i) \<Longrightarrow>
     shows_device (dev_of s i) (p_native s (pd_native (dev_of s i)))"
  by (simp add: pci_ok_def)

text \<open>Replacing one wrapper by \<open>v\<close>.\<close>

lemma pci_ok_update:
  assumes ok: "pci_ok s" and i: "i < length (p_wrappers s)" and used: "pw_used v"
    and ident: "shows_device (pw_dev v) (p_native s (pd_native (pw_dev v)))"
    and others: "\<And>j. j < length (p_wrappers s) \<Longrightarrow> j \<noteq> i \<Longrightarrow> pw_used (p_wrappers s ! j) \<Longrightarrow>
       pd_native (dev_of s j) \<noteq> pd_native (pw_dev v)"
  shows "pci_ok (s\<lparr>p_wrappers := (p_wrappers s)[i := v]\<rparr>)"
proof -
  let ?t = "s\<lparr>p_wrappers := (p_wrappers s)[i := v]\<rparr>"
  have at: "p_wrappers ?t ! k = (if k = i then v else p_wrappers s ! k)" "dev_of ?t k = (if k = i then pw_dev v else dev_of s k)"
    if "k < length (p_wrappers s)" for k
    using that i by (auto simp: dev_of_def nth_list_update)
  show ?thesis
    unfolding pci_ok_def
  proof (intro conjI allI impI)
    fix a b assume "a < length (p_wrappers ?t)" "b < length (p_wrappers ?t)"
      and h: "pw_used (p_wrappers ?t ! a) \<and> pw_used (p_wrappers ?t ! b) \<and> pd_native (dev_of ?t a) = pd_native (dev_of ?t b)"
    then have l: "a < length (p_wrappers s)" "b < length (p_wrappers s)" by simp_all
    show "a = b"
      using h others [OF l(1)] others [OF l(2)] pci_ok_unique [OF ok l] unfolding at [OF l(1)] at [OF l(2)]
      by (cases "a = i"; cases "b = i") auto
  next
    fix a assume "a < length (p_wrappers ?t)" and h: "pw_used (p_wrappers ?t ! a)"
    then have l: "a < length (p_wrappers s)" by simp
    show "shows_device (dev_of ?t a) (p_native ?t (pd_native (dev_of ?t a)))"
      using h ident pci_ok_identity [OF ok l] unfolding at [OF l] by (cases "a = i") simp_all
  qed
qed

lemma wrap_ok: "pci_ok s \<Longrightarrow> pci_ok (snd (pci_wrap n s))"
  by (rule pci_wrap_cases [of n s, OF refl]) (auto intro: pci_ok_update simp: new_pci_dev_shows)

lemma upd_dev_ok:
  assumes "pci_ok s" and "\<And>d n. shows_device d n \<Longrightarrow> shows_device (f d) n" and "\<And>d. pd_native (f d) = pd_native d"
  shows "pci_ok (upd_dev w f s)"
proof (cases "w < length (p_wrappers s) \<and> pw_used (p_wrappers s ! w)")
  case True
  then show ?thesis
    using pci_ok_unique [OF assms(1), of w] pci_ok_identity [OF assms(1), of w] assms(2,3)
    by (auto simp: upd_dev_def intro!: pci_ok_update [OF assms(1)] simp flip: dev_of_def) (metis dev_of_def)
next
  case False
  then show ?thesis using assms(1) unfolding upd_dev_def pci_ok_def dev_of_def by (auto simp: nth_list_update)
qed

lemma small_updates_ok:
  assumes "pci_ok s"
  shows "pci_ok (upd_dev w (\<lambda>d. d\<lparr>pd_msi_enabled := b\<rparr>) s)" "pci_ok (upd_dev w (\<lambda>d. d\<lparr>pd_current_state := z\<rparr>) s)"
    "pci_ok (upd_dev w (\<lambda>d. d\<lparr>pd_driver_data := a\<rparr>) s)"
  by (rule upd_dev_ok [OF assms]; simp add: shows_device_def)+

lemma config_ok: "pci_ok s \<Longrightarrow> pci_ok (snd (config_read n k where s)) \<and> pci_ok (config_write n k where v s)"
  using pci_ok_cong [of "snd (config_read n k where s)" s] pci_ok_cong [of "config_write n k where v s" s]
  by (simp add: config_read_def config_write_def)

lemma probe_present_ok:
  assumes pr: "\<And>d w i t. pci_ok t \<Longrightarrow> pci_ok (snd (pr d w i t))"
  shows "pci_ok s \<Longrightarrow> pci_ok (probe_present pr d ns s)"
proof (induction ns arbitrary: s)
  case (Cons n ns)
  show ?case
  proof (cases "pci_match_one s (pr_id_table (p_drivers s d)) (Some n)")
    case None
    then show ?thesis using Cons by simp
  next
    case (Some i)
    obtain r t where w: "pci_wrap (Some n) s = (r, t)" by (cases "pci_wrap (Some n) s")
    have t: "pci_ok t" using wrap_ok [OF Cons.prems, of "Some n"] w by simp
    show ?thesis
    proof (cases r)
      case None
      then show ?thesis using Some w t pci_ok_cong [of "t\<lparr>p_fault := True\<rparr>" t] by simp
    next
      case (Some k)
      obtain ret u where p: "pr d k i t = (ret, u)" by (cases "pr d k i t")
      have "pci_ok u" using pr [OF t, of d k i] p by simp
      then show ?thesis using Cons.IH [of u] \<open>pci_match_one _ _ _ = Some i\<close> Some w p by simp
    qed
  qed
qed simp

lemma register_ok:
  assumes pr: "\<And>d w i t. pci_ok t \<Longrightarrow> pci_ok (snd (pr d w i t))" and ok: "pci_ok s"
  shows "pci_ok (snd (pci_register_driver pr drv s))"
proof -
  have bind: "pci_ok (s\<lparr>p_bindings := bs, p_log := l\<rparr>)" for bs l
    using ok pci_ok_cong [of "s\<lparr>p_bindings := bs, p_log := l\<rparr>" s] by simp
  show ?thesis using ok bind probe_present_ok [OF pr bind]
    by (auto simp: pci_register_driver_def Let_def split: option.split)
qed

lemma unregister_ok: "pci_ok s \<Longrightarrow> pci_ok (pci_unregister_driver drv s)"
  using pci_ok_cong [of "pci_unregister_driver drv s" s] by (simp add: pci_unregister_driver_def split: option.split)

lemma native_probe_ok:
  assumes pr: "\<And>d w i t. pci_ok t \<Longrightarrow> pci_ok (snd (pr d w i t))" and ok: "pci_ok s"
  shows "pci_ok (snd (pci_native_probe pr dev s))"
  using wrap_ok [OF ok, of dev] ok pr by (auto simp: pci_native_probe_def split: option.split prod.split) 

lemma native_remove_ok:
  assumes rm: "\<And>d w t. pci_ok t \<Longrightarrow> pci_ok (rm d w t)" and ok: "pci_ok s"
  shows "pci_ok (pci_native_remove rm dev s)" "pci_ok (pci_native_shutdown rm dev s)"
  using wrap_ok [OF ok, of dev] rm
  by (auto simp: pci_native_remove_def pci_native_shutdown_def split: option.split prod.split)

lemma get_class_ok: "pci_ok s \<Longrightarrow> pci_ok (snd (pci_get_class c from s))"
  using wrap_ok by (auto simp: pci_get_class_def Let_def split: option.split prod.split) (metis snd_conv)+

lemma enable_ok: "pci_ok s \<Longrightarrow> pci_ok (snd (pci_enable_device pdev s))"
proof (cases pdev)
  case (Some w)
  assume ok: "pci_ok s"
  let ?r = "config_read (pd_native (dev_of s w)) 16 PCI_COMMAND s"
  have "pci_ok (snd ?r)" using config_ok [OF ok] by blast
  then show ?thesis using Some config_ok [of "snd ?r"] by (simp add: pci_enable_device_def Let_def split_beta)
qed (simp add: pci_enable_device_def)

text \<open>
  C18. One wrapper per device, true to the host.  In every state the layer reaches, two wrappers in use
  never stand for the same host device, and each shows, member by member, the location, identifiers, class
  and interrupt the host reports, and for each of the six BARs a resource with its bytes and its kind.  Every operation
  keeps this: wrapping, the host's probe, remove and shutdown callbacks, registering and unregistering a driver, the
  lookups, and the operations a driver calls on a device.
\<close>

theorem pci_wrappers_invariant:
  assumes "pci_ok s" and "\<And>d w i t. pci_ok t \<Longrightarrow> pci_ok (snd (pr d w i t))" and "\<And>d w t. pci_ok t \<Longrightarrow> pci_ok (rm d w t)"
  shows "pci_ok (snd (pci_wrap dev s)) \<and> pci_ok (snd (pci_native_probe pr dev s)) \<and>
         pci_ok (pci_native_remove rm dev s) \<and> pci_ok (pci_native_shutdown rm dev s) \<and>
         pci_ok (snd (pci_register_driver pr drv s)) \<and> pci_ok (pci_unregister_driver drv s) \<and>
         pci_ok (snd (pci_get_class c pdev s)) \<and> pci_ok (snd (pci_get_domain_bus_and_slot host domain bus devfn s)) \<and>
         pci_ok (snd (pci_enable_device pdev s)) \<and> pci_ok (pci_set_master pdev s) \<and>
         pci_ok (snd (pci_enable_msi pdev s)) \<and> pci_ok (snd (pci_set_power_state pdev z s)) \<and>
         pci_ok (pci_set_drvdata pdev a s) \<and> pci_ok (snd (pci_write_config k pdev where v s))"
proof -
  have "pci_ok (snd (pci_get_domain_bus_and_slot host domain bus devfn s))"
    using wrap_ok [OF assms(1)] by (simp add: pci_get_domain_bus_and_slot_def)
  moreover have "pci_ok (pci_set_master pdev s)" using enable_ok [OF assms(1)] by (simp add: pci_set_master_def)
  moreover have "pci_ok (snd (pci_enable_msi pdev s))" "pci_ok (snd (pci_set_power_state pdev z s))" "pci_ok (pci_set_drvdata pdev a s)"
    using assms(1) small_updates_ok [OF assms(1)]
    by (simp_all add: pci_enable_msi_def pci_set_power_state_def pci_set_drvdata_def split: option.split)
  moreover have "pci_ok (snd (pci_write_config k pdev where v s))"
    using assms(1) config_ok [OF assms(1)] by (simp add: pci_write_config_def split: option.split)
  ultimately show ?thesis
    using wrap_ok [OF assms(1)] native_probe_ok [of pr, OF assms(2,1)] native_remove_ok [of rm, OF assms(3,1)]
      register_ok [of pr, OF assms(2,1)] unregister_ok [OF assms(1)] get_class_ok [OF assms(1)] enable_ok [OF assms(1)]
    by blast
qed

text \<open>Two devices, a network card whose second BAR is absent and a bridge.\<close>

definition demo_card :: pci_native where
  "demo_card = \<lparr>pn_segment = 0, pn_bus = 2, pn_slot = 3, pn_func = 1, pn_vendor = 0x10ec, pn_device = 0x8852, pn_subvendor = 0,
     pn_subdevice = 0, pn_revision = 1, pn_class = 0x028000, pn_irq = 11,
     pn_bars = (\<lambda>b. if b = 0 then \<lparr>bar_address = 0xfe000000, bar_size = 0x4000, bar_mmio = True, bar_prefetchable = False\<rparr>
                    else \<lparr>bar_address = 0, bar_size = 0, bar_mmio = False, bar_prefetchable = False\<rparr>)\<rparr>"

definition demo_pci :: pci where
  "demo_pci = \<lparr>p_wrappers = replicate 2 \<lparr>pw_used = False, pw_dev = new_pci_dev 0 demo_card\<rparr>, p_bindings = replicate 2 \<lparr>pb_used = False, pb_driver = None\<rparr>,
     p_drivers = (\<lambda>_. \<lparr>pr_id_table = Some [\<lparr>pi_vendor = 0x10ec, pi_device = PCI_ANY_ID, pi_subvendor = PCI_ANY_ID, pi_subdevice = PCI_ANY_ID,
        pi_class = 0, pi_class_mask = 0\<rparr>], pr_probe = True, pr_remove = True, pr_shutdown = False\<rparr>),
     p_devices = [7, 8], p_native = (\<lambda>_. demo_card),
     p_env = \<lparr>pe_read = (\<lambda>_ _ _ _. 0), pe_regist = (\<lambda>_. 0), pe_current = (\<lambda>_. Some 0), pe_phys_to_virt = unat\<rparr>,
     p_log = [], p_fault = False\<rparr>"

lemma demo_pci_ok: "pci_ok demo_pci"
  by (simp add: pci_ok_def demo_pci_def less_Suc_eq numeral_2_eq_2)

definition demo_probe :: "nat \<Rightarrow> nat \<Rightarrow> pci_device_id \<Rightarrow> pci \<Rightarrow> int \<times> pci" where
  "demo_probe d w i t = (0, pci_set_drvdata (Some w) 4096 t)"

lemma demo_probe_ok: "pci_ok t \<Longrightarrow> pci_ok (snd (demo_probe d w i t))"
  using small_updates_ok(3) [of t] by (simp add: demo_probe_def pci_set_drvdata_def)

lemma demo_wrapped:
  "snd (pci_wrap (Some 7) demo_pci) = demo_pci\<lparr>p_wrappers := (p_wrappers demo_pci)[0 := \<lparr>pw_used = True, pw_dev = new_pci_dev 7 demo_card\<rparr>]\<rparr>"
  by (simp add: pci_wrap_def demo_pci_def numeral_2_eq_2)

theorem pci_wrappers_invariant_witness:
  "case snd (pci_wrap (Some 7) demo_pci) of t \<Rightarrow>
     pci_ok t \<and> pd_vendor (dev_of t 0) = 0x10ec \<and> res_end (pd_resource (dev_of t 0) 0) = 0xfe003fff \<and>
     pci_ok (snd (pci_register_driver demo_probe (Some 5) t))"
proof -
  note inv = pci_wrappers_invariant [where pr = demo_probe and rm = "\<lambda>d w t. t" and dev = "Some 7" and drv = "Some 5",
      OF _ demo_probe_ok, simplified]
  have ok: "pci_ok (snd (pci_wrap (Some 7) demo_pci))" using inv [OF demo_pci_ok] by blast
  have "pci_ok (snd (pci_register_driver demo_probe (Some 5) (snd (pci_wrap (Some 7) demo_pci))))"
    using inv [OF ok] by blast
  moreover have "dev_of (snd (pci_wrap (Some 7) demo_pci)) 0 = new_pci_dev 7 demo_card"
    by (simp only: demo_wrapped) (simp add: dev_of_def demo_pci_def)
  ultimately show ?thesis using ok by (simp add: new_pci_dev_def demo_card_def resource_of_def)
qed

section \<open>Resource lengths\<close>

definition res_len :: "pci_resource \<Rightarrow> u64" where
  "res_len r = (if res_end r < res_start r then 0 else res_end r - res_start r + 1)"

lemma pci_resource_len_eq: "pci_resource_len (Some d) bar = res_len (pd_resource d bar)"
  by (simp add: pci_resource_len_def res_len_def)

lemma unat_dec: "(z :: u64) \<noteq> 0 \<Longrightarrow> unat (z - 1) + 1 = unat z"
  using unat_gt_0 [of z] by (simp add: unat_minus_one)

lemma shown_bar_len:
  assumes "shows_bar r b" and "unat (bar_address b) + unat (bar_size b) \<le> 2 ^ 64"
  shows "res_len r = (if bar_size b = 0 then 1 else bar_size b)"
proof -
  let ?z = "if bar_size b = 0 then 1 else bar_size b"
  have r: "res_start r = bar_address b" "res_end r - res_start r + 1 = ?z" using assms(1) unfolding shows_bar_def by blast+
  have e: "res_end r = res_start r + (?z - 1)" using r(2) by (simp only: diff_eq_eq eq_diff_eq add_diff_eq) (simp add: algebra_simps)
  have z: "?z \<noteq> 0" by simp
  then have "unat (?z - 1) + 1 = unat ?z" by (rule unat_dec)
  moreover have "unat (res_start r) + unat ?z \<le> 2 ^ 64"
    using assms(2) r(1) u64_bound [of "res_start r"] by (cases "bar_size b = 0") simp_all
  ultimately have "unat (res_start r + (?z - 1)) = unat (res_start r) + unat (?z - 1)"
    by (intro unat_add_lem [THEN iffD1]) simp
  then have "\<not> res_end r < res_start r" by (simp add: e word_less_nat_alt)
  then show ?thesis using r(2) by (simp add: res_len_def)
qed

text \<open>
  What a driver gets for a device.  When wrapping a device succeeds, the wrapper is in use and stands
  for that device, wrapping it again gives the same wrapper and changes nothing, and the length of each resource is the
  size of the BAR, except that an absent BAR, of size 0, has length 1.
\<close>

theorem pci_wrap_resources:
  assumes "pci_ok s" and "pci_wrap (Some n) s = (Some w, t)"
  shows "pd_native (dev_of t w) = n \<and> pci_wrap (Some n) t = (Some w, t) \<and>
    (\<forall>bar<6. unat (bar_address (pn_bars (p_native s n) bar)) + unat (bar_size (pn_bars (p_native s n) bar)) \<le> 2 ^ 64 \<longrightarrow>
       pci_resource_len (Some (dev_of t w)) bar =
         (if bar_size (pn_bars (p_native s n) bar) = 0 then 1 else bar_size (pn_bars (p_native s n) bar)))"
proof -
  have t: "pci_ok t" using wrap_ok [OF assms(1), of "Some n"] assms(2) by simp
  have w: "w < length (p_wrappers t)" "pw_used (p_wrappers t ! w)" "pd_native (dev_of t w) = n" "p_native t = p_native s"
    by (rule pci_wrap_cases [OF assms(2)]; simp add: dev_of_def)+
  have again: "pci_wrap (Some n) t = (Some w, t)"
  proof -
    obtain i where i: "find (\<lambda>i. pw_used (p_wrappers t ! i) \<and> pd_native (pw_dev (p_wrappers t ! i)) = n) [0..<length (p_wrappers t)] = Some i"
    proof (cases "find (\<lambda>i. pw_used (p_wrappers t ! i) \<and> pd_native (pw_dev (p_wrappers t ! i)) = n) [0..<length (p_wrappers t)]")
      case None
      then show ?thesis using w find_upt_None [OF None w(1)] by (simp add: dev_of_def)
    qed
    then have "i = w" using find_upt [OF i] pci_ok_unique [OF t _ w(1) _ w(2)] w(3) by (simp add: dev_of_def)
    then show ?thesis using i by (simp add: pci_wrap_def)
  qed
  have "shows_bar (pd_resource (dev_of t w) bar) (pn_bars (p_native s n) bar)" if "bar < 6" for bar
    using pci_ok_identity [OF t w(1,2)] that w(3,4) by (simp add: shows_device_def)
  then show ?thesis
    using w(3) again by (simp add: pci_resource_len_eq shown_bar_len)
qed

theorem pci_wrap_resources_witness:
  "\<exists>t. pci_wrap (Some 7) demo_pci = (Some 0, t) \<and> pci_resource_len (Some (dev_of t 0)) 0 = 0x4000 \<and>
     pci_resource_len (Some (dev_of t 0)) 1 = 1"
proof -
  obtain t where t: "pci_wrap (Some 7) demo_pci = (Some 0, t)"
    by (simp add: pci_wrap_def demo_pci_def numeral_2_eq_2)
  then show ?thesis
    using pci_wrap_resources [OF demo_pci_ok t] by (simp add: demo_pci_def demo_card_def)
qed

end
