(* ===== verification/LC_List.thy ===== *)
theory LC_List
  imports LC_Queue
begin

text \<open>
  The circular doubly linked lists of \<^verbatim>\<open>linux/list.h\<close>.  A node is its address; \<open>dl_next\<close> and \<open>dl_prev\<close>
  are the members of all nodes.  \<open>ring s h xs\<close> reads the list of a head off the pointers in both directions; the
  operations are refined to list operations and implement the queue contract.
\<close>

section \<open>Operations\<close>

record dlinks =
  dl_next :: "nat \<Rightarrow> nat"
  dl_prev :: "nat \<Rightarrow> nat"

definition set_next :: "nat \<Rightarrow> nat \<Rightarrow> dlinks \<Rightarrow> dlinks" where
  "set_next a b s = s\<lparr>dl_next := (dl_next s)(a := b)\<rparr>"

definition set_prev :: "nat \<Rightarrow> nat \<Rightarrow> dlinks \<Rightarrow> dlinks" where
  "set_prev a b s = s\<lparr>dl_prev := (dl_prev s)(a := b)\<rparr>"

definition INIT_LIST_HEAD :: "nat \<Rightarrow> dlinks \<Rightarrow> dlinks" where
  "INIT_LIST_HEAD l s = set_prev l l (set_next l l s)"

definition list_empty :: "nat \<Rightarrow> dlinks \<Rightarrow> bool" where
  "list_empty head s = (dl_next s head = head)"

definition list_add_raw :: "nat \<Rightarrow> nat \<Rightarrow> nat \<Rightarrow> dlinks \<Rightarrow> dlinks" where
  "list_add_raw node prev nxt s = set_next prev node (set_prev node prev (set_next node nxt (set_prev nxt node s)))"

definition list_add :: "nat \<Rightarrow> nat \<Rightarrow> dlinks \<Rightarrow> dlinks" where
  "list_add node head s = list_add_raw node head (dl_next s head) s"

definition list_add_tail :: "nat \<Rightarrow> nat \<Rightarrow> dlinks \<Rightarrow> dlinks" where
  "list_add_tail node head s = list_add_raw node (dl_prev s head) head s"

definition list_del_raw :: "nat \<Rightarrow> nat \<Rightarrow> dlinks \<Rightarrow> dlinks" where
  "list_del_raw prev nxt s = set_next prev nxt (set_prev nxt prev s)"

definition list_del :: "nat \<Rightarrow> dlinks \<Rightarrow> dlinks" where
  "list_del entry s = set_prev entry entry (set_next entry entry (list_del_raw (dl_prev s entry) (dl_next s entry) s))"

definition list_del_init :: "nat \<Rightarrow> dlinks \<Rightarrow> dlinks" where
  "list_del_init entry s = INIT_LIST_HEAD entry (list_del entry s)"

definition list_replace :: "nat \<Rightarrow> nat \<Rightarrow> dlinks \<Rightarrow> dlinks" where
  "list_replace old node s =
     (let s = set_next node (dl_next s old) s;
          s = set_prev node (dl_prev s old) s;
          s = set_prev (dl_next s node) node s
      in set_next (dl_prev s node) node s)"

definition list_splice_init :: "nat \<Rightarrow> nat \<Rightarrow> dlinks \<Rightarrow> dlinks" where
  "list_splice_init list head s =
     (if list_empty list s then s
      else
        let s = set_prev (dl_next s list) head s;
            s = set_next (dl_prev s list) (dl_next s head) s;
            s = set_prev (dl_next s head) (dl_prev s list) s;
            s = set_next head (dl_next s list) s
        in INIT_LIST_HEAD list s)"

text \<open>\<^verbatim>\<open>list_first_entry_or_null\<close>, by the node.\<close>

definition list_first_or_null :: "nat \<Rightarrow> dlinks \<Rightarrow> nat option" where
  "list_first_or_null head s = (if list_empty head s then None else Some (dl_next s head))"

text \<open>\<^verbatim>\<open>list_for_each\<close>: the nodes visited; None is a walk that does not come back to the head.\<close>

partial_function (option) list_walk :: "nat \<Rightarrow> nat \<Rightarrow> dlinks \<Rightarrow> nat list option" where
  "list_walk pos head s =
     (if pos = head then Some []
      else Option.bind (list_walk (dl_next s pos) head s) (\<lambda>r. Some (pos # r)))"

definition list_for_each :: "nat \<Rightarrow> dlinks \<Rightarrow> nat list option" where
  "list_for_each head s = list_walk (dl_next s head) head s"

section \<open>Rings\<close>

primrec seg :: "dlinks \<Rightarrow> nat \<Rightarrow> nat list \<Rightarrow> nat \<Rightarrow> bool" where
  "seg s a [] b = (dl_next s a = b \<and> dl_prev s b = a)"
| "seg s a (x # xs) b = (dl_next s a = x \<and> dl_prev s x = a \<and> seg s x xs b)"

definition ring :: "dlinks \<Rightarrow> nat \<Rightarrow> nat list \<Rightarrow> bool" where
  "ring s h xs = (distinct (h # xs) \<and> seg s h xs h)"

lemma set_link_simps [simp]:
  "dl_next (set_next a b s) = (dl_next s)(a := b)" "dl_prev (set_next a b s) = dl_prev s"
  "dl_next (set_prev a b s) = dl_next s" "dl_prev (set_prev a b s) = (dl_prev s)(a := b)"
  by (simp_all add: set_next_def set_prev_def)

lemma seg_append: "seg s a (xs @ y # ys) b = (seg s a xs y \<and> seg s y ys b)"
  by (induction xs arbitrary: a) auto

lemma seg_cong:
  "(\<And>x. x \<in> set (a # xs) \<Longrightarrow> dl_next s x = dl_next t x) \<Longrightarrow> (\<And>x. x \<in> set (xs @ [b]) \<Longrightarrow> dl_prev s x = dl_prev t x) \<Longrightarrow>
     seg s a xs b = seg t a xs b"
  by (induction xs arbitrary: a) auto

lemma seg_frame:
  "c \<notin> set (a # xs) \<Longrightarrow> seg (set_next c d s) a xs b = seg s a xs b"
  "c \<notin> set (xs @ [b]) \<Longrightarrow> seg (set_prev c d s) a xs b = seg s a xs b"
  by (auto intro!: seg_cong)

lemma seg_first: "seg s a xs b \<Longrightarrow> dl_next s a = (case xs of [] \<Rightarrow> b | x # _ \<Rightarrow> x)"
  by (cases xs) auto

lemma seg_last: "seg s a xs b \<Longrightarrow> dl_prev s b = (if xs = [] then a else last xs)"
  by (induction xs arbitrary: a) auto

text \<open>Lead a segment to another end.\<close>

lemma seg_redirect:
  "seg s a us x \<Longrightarrow> distinct (a # us) \<Longrightarrow> y \<notin> set us \<Longrightarrow>
     seg (set_next (last (a # us)) y (set_prev y (last (a # us)) s)) a us y"
proof (induction us arbitrary: a)
  case (Cons u us)
  have "seg (set_next (last (u # us)) y (set_prev y (last (u # us)) s)) u us y"
    using Cons.prems by (intro Cons.IH) auto
  moreover have "a \<noteq> last (u # us)" using Cons.prems(2) by (metis distinct.simps(2) last_in_set list.distinct(1))
  ultimately show ?case using Cons.prems by auto
qed simp

lemma ring_empty: "ring s h xs \<Longrightarrow> list_empty h s = (xs = [])"
  by (cases xs) (auto simp: ring_def list_empty_def)

lemma ring_init: "ring (INIT_LIST_HEAD h s) h []"
  by (simp add: ring_def INIT_LIST_HEAD_def)

lemma ring_add:
  assumes "ring s h xs" and "n \<notin> set (h # xs)"
  shows "ring (list_add n h s) h (n # xs)"
proof (cases xs)
  case Nil
  then show ?thesis using assms by (auto simp: ring_def list_add_def list_add_raw_def)
next
  case (Cons x ys)
  have "seg s x ys h" "dl_next s h = x" using assms(1) Cons by (auto simp: ring_def)
  moreover have "seg (list_add n h s) x ys h = seg s x ys h"
    using assms Cons by (intro seg_cong) (auto simp: ring_def list_add_def list_add_raw_def)
  ultimately show ?thesis using assms Cons by (auto simp: ring_def list_add_def list_add_raw_def)
qed

lemma ring_add_tail:
  assumes "ring s h xs" and "n \<notin> set (h # xs)"
  shows "ring (list_add_tail n h s) h (xs @ [n])"
proof (cases xs rule: rev_cases)
  case Nil
  then show ?thesis using assms by (auto simp: ring_def list_add_tail_def list_add_raw_def)
next
  case (snoc us p)
  have s: "seg s h us p" "dl_next s p = h" "dl_prev s h = p" using assms(1) snoc by (auto simp: ring_def seg_append)
  moreover have "seg (list_add_tail n h s) h us p = seg s h us p"
    using assms snoc s by (intro seg_cong) (auto simp: ring_def list_add_tail_def list_add_raw_def)
  ultimately show ?thesis using assms snoc by (auto simp: ring_def seg_append list_add_tail_def list_add_raw_def)
qed

lemma seg_unlink:
  assumes "seg s a us x" and "seg s x vs b" and "distinct (a # us @ x # vs)" and "b \<notin> set (us @ x # vs)"
  shows "seg (list_del x s) a (us @ vs) b"
proof -
  let ?p = "last (a # us)" and ?q = "case vs of [] \<Rightarrow> b | v # _ \<Rightarrow> v"
  have p: "dl_prev s x = ?p" using seg_last [OF assms(1)] by simp
  have q: "dl_next s x = ?q" using seg_first [OF assms(2)] .
  have px: "?p \<noteq> x" using assms(3) by (cases us rule: rev_cases) auto
  have qx: "?q \<noteq> x" "?q \<notin> set us" using assms(3,4) by (auto split: list.splits)
  have d: "list_del x s = set_prev x x (set_next x x (set_next ?p ?q (set_prev ?q ?p s)))"
    by (simp add: list_del_def list_del_raw_def p q)
  have "seg (set_next ?p ?q (set_prev ?q ?p s)) a us ?q"
    using assms(3) qx by (intro seg_redirect [OF assms(1)]) auto
  then have A: "seg (list_del x s) a us ?q"
    unfolding d using assms(3) qx by (subst seg_frame, simp, subst seg_frame) auto
  show ?thesis
  proof (cases vs)
    case Nil
    then show ?thesis using A by simp
  next
    case (Cons v ws)
    have "?p \<notin> set vs" using assms(3) by (cases us rule: rev_cases) auto
    then have "seg (list_del x s) v ws b = seg s v ws b"
      using Cons assms(3,4) px by (intro seg_cong) (auto simp: d)
    then show ?thesis using A Cons assms(2) by (simp add: seg_append)
  qed
qed

lemma ring_del:
  assumes "ring s h xs" and "x \<in> set xs"
  shows "ring (list_del x s) h (remove1 x xs) \<and> list_empty x (list_del x s)"
proof -
  obtain us vs where xs: "xs = us @ x # vs" and us: "x \<notin> set us" using split_list_first [OF assms(2)] by blast
  have d: "distinct (h # us @ x # vs)" and sg: "seg s h us x" "seg s x vs h"
    using assms(1) xs by (auto simp: ring_def seg_append)
  have "seg (list_del x s) h (us @ vs) h" using d by (intro seg_unlink [OF sg]) auto
  then show ?thesis using xs us d by (auto simp: ring_def remove1_append list_del_def list_empty_def)
qed

lemma ring_replace:
  assumes "ring s h (us @ x # vs)" and "n \<notin> set (h # us @ x # vs)"
  shows "ring (list_replace x n s) h (us @ n # vs)"
proof -
  let ?p = "last (h # us)" and ?q = "case vs of [] \<Rightarrow> h | v # _ \<Rightarrow> v"
  have d: "distinct (h # us @ x # vs)" and sg: "seg s h us x" "seg s x vs h" using assms(1) by (auto simp: ring_def seg_append)
  have p: "dl_prev s x = ?p" using seg_last [OF sg(1)] by simp
  have q: "dl_next s x = ?q" using seg_first [OF sg(2)] .
  have pn: "?p \<noteq> n" "?p \<noteq> x" "?p \<notin> set vs" using assms(2) d by (cases us rule: rev_cases; auto)+
  have qn: "?q \<noteq> n" "?q \<noteq> x" "?q \<notin> set us" using assms(2) d by (auto split: list.splits)
  have e: "dl_next (list_replace x n s) = (dl_next s)(n := ?q, ?p := n)" "dl_prev (list_replace x n s) = (dl_prev s)(n := ?p, ?q := n)"
    using pn qn by (simp_all add: list_replace_def Let_def p q)
  have "seg (set_next ?p n (set_prev n ?p s)) h us n" using d assms(2) by (intro seg_redirect [OF sg(1)]) auto
  moreover have "seg (list_replace x n s) h us n = seg (set_next ?p n (set_prev n ?p s)) h us n"
    using assms(2) qn by (intro seg_cong) (auto simp: e)
  moreover have "seg (list_replace x n s) n vs h"
  proof (cases vs)
    case Nil
    then show ?thesis using pn by (auto simp: e)
  next
    case (Cons v ws)
    then have "seg (list_replace x n s) v ws h = seg s v ws h"
      using assms(2) d pn by (intro seg_cong) (auto simp: e)
    then show ?thesis using Cons sg(2) pn by (auto simp: e)
  qed
  ultimately show ?thesis using d assms(2) by (auto simp: ring_def seg_append)
qed

lemma ring_walk: "seg s a xs h \<Longrightarrow> h \<notin> set xs \<Longrightarrow> list_walk (dl_next s a) h s = Some xs"
proof (induction xs arbitrary: a)
  case Nil
  then show ?case by (subst list_walk.simps) simp
next
  case (Cons x xs)
  then show ?case by (subst list_walk.simps) simp
qed

lemma ring_for_each: "ring s h xs \<Longrightarrow> list_for_each h s = Some xs"
  unfolding list_for_each_def by (rule ring_walk) (auto simp: ring_def)

lemma ring_del_init: "ring s h xs \<Longrightarrow> x \<in> set xs \<Longrightarrow> ring (list_del_init x s) h (remove1 x xs)"
proof -
  assume r: "ring s h xs" and x: "x \<in> set xs"
  have "set_prev x x (set_next x x (list_del x s)) = list_del x s"
    by (simp add: list_del_def set_next_def set_prev_def)
  then show ?thesis using ring_del [OF r x] by (simp add: list_del_init_def INIT_LIST_HEAD_def)
qed

lemma ring_splice:
  assumes l: "ring s l xs" and h: "ring s h ys" and dis: "set (l # xs) \<inter> set (h # ys) = {}"
  shows "ring (list_splice_init l h s) h (xs @ ys) \<and> ring (list_splice_init l h s) l []"
proof (cases xs)
  case Nil
  then have "list_splice_init l h s = s" using ring_empty [OF l] by (simp add: list_splice_init_def)
  then show ?thesis using l h Nil by simp
next
  case (Cons f us)
  let ?e = "last (f # us)" and ?q = "case ys of [] \<Rightarrow> h | y # _ \<Rightarrow> y"
  have sl: "dl_next s l = f" "seg s f us l" "distinct (l # f # us)" using l Cons by (auto simp: ring_def)
  have sh: "seg s h ys h" "distinct (h # ys)" using h by (auto simp: ring_def)
  have e: "dl_prev s l = ?e" using seg_last [OF sl(2)] by simp
  have q: "dl_next s h = ?q" using seg_first [OF sh(1)] .
  have f: "f \<noteq> l" "f \<noteq> h" "f \<notin> set ys" using sl(3) dis Cons by auto
  have "?e \<in> set (f # us)" by (rule last_in_set) simp
  then have el: "?e \<noteq> l" "?e \<noteq> h" "?e \<notin> set ys" using sl(3) dis Cons by auto
  have ql: "?q \<noteq> l" "?q \<noteq> f" "?q \<notin> set us" using sh(2) dis Cons by (auto split: list.splits)
  have ne: "\<not> list_empty l s" using sl f by (simp add: list_empty_def)
  have n: "dl_next (list_splice_init l h s) = (dl_next s)(?e := ?q, h := f, l := l)"
    and p: "dl_prev (list_splice_init l h s) = (dl_prev s)(f := h, ?q := ?e, l := l)"
    using ne f el ql dis by (auto simp: list_splice_init_def Let_def e q sl(1) INIT_LIST_HEAD_def)
  have "seg (set_next ?e ?q (set_prev ?q ?e s)) f us ?q" using sl ql by (intro seg_redirect) auto
  moreover have "seg (list_splice_init l h s) f us ?q = seg (set_next ?e ?q (set_prev ?q ?e s)) f us ?q"
    using f ql sl(3) dis Cons by (intro seg_cong) (auto simp: n p)
  ultimately have A: "seg (list_splice_init l h s) f us ?q" by simp
  have hl: "h \<noteq> l" using dis by auto
  have B: "seg (list_splice_init l h s) h (f # us @ ys) h"
  proof (cases ys)
    case Nil
    then show ?thesis using A f hl el ql by (auto simp: n p)
  next
    case (Cons y ws)
    then have "seg (list_splice_init l h s) y ws h = seg s y ws h"
      using f el dis sh(2) by (intro seg_cong) (auto simp: n p)
    then show ?thesis using A Cons sh(1) f hl ql by (auto simp: seg_append n p)
  qed
  have "list_splice_init l h s = INIT_LIST_HEAD l (list_splice_init l h s)"
    by (intro dlinks.equality) (auto simp: INIT_LIST_HEAD_def n p set_next_def set_prev_def fun_eq_iff)
  then have "ring (list_splice_init l h s) l []" by (metis ring_init)
  then show ?thesis using B Cons dis sl(3) sh(2) by (auto simp: ring_def)
qed

section \<open>Lists as queues\<close>

text \<open>Append with \<^verbatim>\<open>list_add_tail\<close>, take the first entry and delete it.\<close>

definition list_enq :: "nat \<Rightarrow> dlinks \<times> nat \<Rightarrow> dlinks \<times> nat" where
  "list_enq x q = (list_add_tail x (snd q) (fst q), snd q)"

definition list_deq :: "dlinks \<times> nat \<Rightarrow> nat option \<times> dlinks \<times> nat" where
  "list_deq q =
     (case list_first_or_null (snd q) (fst q) of
        None \<Rightarrow> (None, q)
      | Some x \<Rightarrow> (Some x, list_del x (fst q), snd q))"

interpretation list_queue: unlink_fifo list_enq list_deq "\<lambda>q. ring (fst q) (snd q)" "\<lambda>q xs. distinct (snd q # xs)"
  "\<lambda>x q. if x \<in> set (the (list_for_each (snd q) (fst q))) then (list_del x (fst q), snd q) else q"
proof unfold_locales
  show "fst (list_deq q) = Some x \<and> ring (fst (snd (list_deq q))) (snd (snd (list_deq q))) xs"
    if r: "ring (fst q) (snd q) (x # xs)" for q x xs
  proof -
    have "dl_next (fst q) (snd q) = x" using r by (simp add: ring_def)
    then have "list_first_or_null (snd q) (fst q) = Some x"
      using ring_empty [OF r] by (simp add: list_first_or_null_def)
    then show ?thesis using ring_del [OF r, of x] by (simp add: list_deq_def)
  qed
qed (auto simp: list_enq_def list_deq_def list_first_or_null_def ring_add_tail ring_empty ring_for_each remove1_idem
      dest: ring_del intro: ring_add_tail)

section \<open>The list operations\<close>

text \<open>
  C15. The operations of \<^verbatim>\<open>list.h\<close> are list operations.  On a well-formed ring, adding at either end, deleting,
  replacing and splicing leave a ring, linked consistently in both directions, that holds the expected list; a
  deleted node is an empty list; and iterating comes back to the head after visiting exactly the entries in order.
\<close>

theorem list_operations:
  assumes "ring s h xs" and "n \<notin> set (h # xs)"
  shows "ring (list_add n h s) h (n # xs) \<and> ring (list_add_tail n h s) h (xs @ [n]) \<and>
    (\<forall>x\<in>set xs. ring (list_del x s) h (remove1 x xs) \<and> list_empty x (list_del x s)) \<and>
    (\<forall>us x vs. xs = us @ x # vs \<longrightarrow> ring (list_replace x n s) h (us @ n # vs)) \<and>
    (\<forall>l ys. ring s l ys \<and> set (l # ys) \<inter> set (h # xs) = {} \<longrightarrow>
       ring (list_splice_init l h s) h (ys @ xs) \<and> ring (list_splice_init l h s) l []) \<and>
    list_for_each h s = Some xs"
  using ring_add [OF assms] ring_add_tail [OF assms] ring_del [OF assms(1)] ring_replace [of s h _ _ _ n]
    ring_splice [OF _ assms(1)] ring_for_each [OF assms(1)] assms by blast

theorem list_operations_witness:
  "let s = list_add_tail 2 0 (list_add_tail 1 0 (INIT_LIST_HEAD 0 \<lparr>dl_next = (\<lambda>_. 0), dl_prev = (\<lambda>_. 0)\<rparr>))
   in ring (list_add 3 0 s) 0 [3, 1, 2] \<and> ring (list_del 1 s) 0 [2] \<and> list_for_each 0 s = Some [1, 2]"
proof -
  let ?s = "list_add_tail 2 0 (list_add_tail 1 0 (INIT_LIST_HEAD 0 \<lparr>dl_next = (\<lambda>_. 0), dl_prev = (\<lambda>_. 0)\<rparr>))"
  have "ring ?s 0 [1, 2]"
    using ring_add_tail [OF ring_add_tail [OF ring_init, of 1 0], of 2] by simp
  from list_operations [OF this, of 3] have "ring (list_add 3 0 ?s) 0 [3, 1, 2]" "list_for_each 0 ?s = Some [1, 2]"
    "ring (list_del 1 ?s) 0 (remove1 1 [1, 2])" by simp_all
  then show ?thesis by (simp add: Let_def)
qed

end
