(* ===== verification/LC_Ids.thy ===== *)
theory LC_Ids
  imports LC_Pages LC_Queue
begin

text \<open>
  Containers: identifier tables (\<^verbatim>\<open>linux/idr.h\<close>), index arrays (\<^verbatim>\<open>linux/xarray.h\<close>) and ring
  buffers (\<^verbatim>\<open>linux/kfifo.h\<close>).  A stored pointer is an address, 0 for NULL.  Both tables implement one
  contract, of a table from indices to pointers; the ring buffer implements the queue contract, its free-running 32-bit
  counters included.
\<close>

section \<open>The contract of a table\<close>

locale table =
  fixes get :: "'t \<Rightarrow> nat \<Rightarrow> addr"
    and put :: "nat \<Rightarrow> addr \<Rightarrow> 't \<Rightarrow> 't option"
    and del :: "nat \<Rightarrow> 't \<Rightarrow> 't"
    and ok :: "'t \<Rightarrow> bool"
  assumes put_ok: "ok t \<Longrightarrow> put i p t = Some t' \<Longrightarrow> ok t'"
    and get_put: "ok t \<Longrightarrow> put i p t = Some t' \<Longrightarrow> get t' j = (if j = i then p else get t j)"
    and del_ok: "ok t \<Longrightarrow> ok (del i t)"
    and get_del: "ok t \<Longrightarrow> get (del i t) j = (if j = i then 0 else get t j)"

text \<open>Store a list of entries, stopping at the first that fails.\<close>

fun put_all :: "(nat \<Rightarrow> addr \<Rightarrow> 't \<Rightarrow> 't option) \<Rightarrow> (nat \<times> addr) list \<Rightarrow> 't \<Rightarrow> 't option" where
  "put_all f [] t = Some t"
| "put_all f ((i, p) # es) t = (case f i p t of None \<Rightarrow> None | Some t' \<Rightarrow> put_all f es t')"

context table
begin

lemma put_all_get:
  "ok t \<Longrightarrow> put_all put es t = Some t' \<Longrightarrow>
     ok t' \<and> get t' j = (case map_of (rev es) j of None \<Rightarrow> get t j | Some p \<Rightarrow> p)"
proof (induction es arbitrary: t)
  case (Cons e es)
  obtain i p where e: "e = (i, p)" by (cases e)
  obtain u where u: "put i p t = Some u" "put_all put es u = Some t'" using Cons.prems(2) e by (auto split: option.splits)
  show ?case
    using Cons.IH [OF put_ok [OF Cons.prems(1) u(1)] u(2)] get_put [OF Cons.prems(1) u(1)]
    by (auto simp: e map_add_def split: option.splits)
qed simp

lemma put_del: "ok t \<Longrightarrow> put i p t = Some t' \<Longrightarrow> get t i = 0 \<Longrightarrow> get (del i t') j = get t j"
  using get_del [OF put_ok] get_put by auto

end

section \<open>Reallocation\<close>

text \<open>Whether growing an array of pointers succeeds; the old block, if there is one, is given up.\<close>

definition krealloc_slots :: "bool \<Rightarrow> 'a kst_scheme \<Rightarrow> bool \<times> 'a kst_scheme" where
  "krealloc_slots had s =
     (k_obj s (k_calls s),
      s\<lparr>k_calls := k_calls s + 1, k_live := k_live s + (if k_obj s (k_calls s) \<and> \<not> had then 1 else 0)\<rparr>)"

section \<open>idr.h\<close>

record idr =
  idr_slots :: "addr list option"
  idr_size :: int

definition idr_init :: idr where
  "idr_init = \<lparr>idr_slots = None, idr_size = 0\<rparr>"

definition idr_destroy :: "idr \<Rightarrow> 'a kst_scheme \<Rightarrow> idr \<times> 'a kst_scheme" where
  "idr_destroy d s = (idr_init, if idr_slots d = None then s else kfree_obj s)"

definition idr_is_empty :: "idr option \<Rightarrow> bool" where
  "idr_is_empty d =
     (case d of
        None \<Rightarrow> True
      | Some d \<Rightarrow> (case idr_slots d of None \<Rightarrow> True | Some l \<Rightarrow> list_all (\<lambda>p. p = 0) (take (nat (idr_size d)) l)))"

text \<open>The first free slot of \<open>i, \<dots>, limit - 1\<close>.\<close>

function first_free :: "addr list \<Rightarrow> nat \<Rightarrow> nat \<Rightarrow> nat option" where
  "first_free l i limit = (if i < limit then (if l ! i = 0 then Some i else first_free l (i + 1) limit) else None)"
  by pat_completeness auto
termination
  by (relation "measure (\<lambda>(l, i, limit). limit - i)") auto

declare first_free.simps [simp del]

definition idr_grow :: "idr \<Rightarrow> int \<Rightarrow> 'a kst_scheme \<Rightarrow> idr option \<times> 'a kst_scheme" where
  "idr_grow d limit s =
     (if limit > idr_size d then
        (case krealloc_slots (idr_slots d \<noteq> None) s of
           (False, s) \<Rightarrow> (None, s)
         | (True, s) \<Rightarrow>
             (Some \<lparr>idr_slots = Some ((case idr_slots d of None \<Rightarrow> [] | Some l \<Rightarrow> l) @ replicate (nat (limit - idr_size d)) 0),
                    idr_size = limit\<rparr>, s))
      else (Some d, s))"

text \<open>
  Identifiers are C ints.  None is undefined behaviour: a negative \<open>start\<close> makes the code read before its
  array, and \<open>start + 1\<close> overflows for the greatest int.
\<close>

definition idr_alloc :: "idr option \<Rightarrow> addr \<Rightarrow> int \<Rightarrow> int \<Rightarrow> 'a kst_scheme \<Rightarrow> (int \<times> idr option \<times> 'a kst_scheme) option" where
  "idr_alloc d ptr start stop s =
     (case d of
        None \<Rightarrow> Some (- EINVAL, None, s)
      | Some d \<Rightarrow>
          if start < 0 \<or> (stop \<le> start \<and> start = int_max) then None
          else
            let limit = (if stop > start then stop else start + 1)
            in (case idr_grow d limit s of
                  (None, s) \<Rightarrow> Some (- ENOMEM, Some d, s)
                | (Some d, s) \<Rightarrow>
                    (case first_free (the (idr_slots d)) (nat start) (nat limit) of
                       Some i \<Rightarrow> Some (int i, Some (d\<lparr>idr_slots := Some ((the (idr_slots d))[i := ptr])\<rparr>), s)
                     | None \<Rightarrow> Some (- ENOSPC, Some d, s))))"

definition idr_find :: "idr option \<Rightarrow> int \<Rightarrow> addr" where
  "idr_find d i =
     (case d of
        None \<Rightarrow> 0
      | Some d \<Rightarrow> if i < 0 \<or> i \<ge> idr_size d \<or> idr_slots d = None then 0 else the (idr_slots d) ! nat i)"

definition idr_remove :: "idr option \<Rightarrow> int \<Rightarrow> addr \<times> idr option" where
  "idr_remove d i =
     (case d of
        None \<Rightarrow> (0, None)
      | Some d \<Rightarrow>
          if i < 0 \<or> i \<ge> idr_size d \<or> idr_slots d = None then (0, Some d)
          else (the (idr_slots d) ! nat i, Some (d\<lparr>idr_slots := Some ((the (idr_slots d))[nat i := 0])\<rparr>)))"

section \<open>xarray.h\<close>

record xarray =
  xa_slots :: "nat \<Rightarrow> addr"
  xa_some :: bool
  xa_capacity :: u64
  xa_next :: u64

record xa_limit =
  xl_min :: u64
  xl_max :: u64

definition xa_init :: xarray where
  "xa_init = \<lparr>xa_slots = (\<lambda>_. 0), xa_some = False, xa_capacity = 0, xa_next = 0\<rparr>"

definition xa_destroy :: "xarray \<Rightarrow> 'a kst_scheme \<Rightarrow> xarray \<times> 'a kst_scheme" where
  "xa_destroy x s = (xa_init, if xa_some x then kfree_obj s else s)"

text \<open>The doubling loop: None if it never ends, Some None if the capacity would overflow.\<close>

partial_function (option) xa_double :: "u64 \<Rightarrow> u64 \<Rightarrow> u64 option option" where
  "xa_double c i =
     (if c \<le> i then (if c > (- 1) div 2 then Some None else xa_double (c * 2) i) else Some (Some c))"

definition xa_ensure_capacity :: "xarray \<Rightarrow> u64 \<Rightarrow> 'a kst_scheme \<Rightarrow> (int \<times> xarray \<times> 'a kst_scheme) option" where
  "xa_ensure_capacity x i s =
     (if i < xa_capacity x then Some (0, x, s)
      else
        (case xa_double (if xa_capacity x \<noteq> 0 then xa_capacity x else 16) i of
           None \<Rightarrow> None
         | Some None \<Rightarrow> Some (- 1, x, s)
         | Some (Some c) \<Rightarrow>
             if c > SIZE_MAX div 8 then Some (- 1, x, s)
             else
               (case krealloc_slots (xa_some x) s of
                  (False, s) \<Rightarrow> Some (- 1, x, s)
                | (True, s) \<Rightarrow>
                    Some (0, x\<lparr>xa_slots := (\<lambda>k. if unat (xa_capacity x) \<le> k \<and> k < unat c then 0 else xa_slots x k),
                               xa_some := True, xa_capacity := c\<rparr>, s))))"

definition xa_load :: "xarray option \<Rightarrow> u64 \<Rightarrow> addr" where
  "xa_load x i = (case x of None \<Rightarrow> 0 | Some x \<Rightarrow> if i \<ge> xa_capacity x then 0 else xa_slots x (unat i))"

text \<open>The pointer \<open>-1\<close> is the error value.\<close>

definition XA_ERR :: addr where "XA_ERR = 2 ^ 64 - 1"

definition xa_store :: "xarray option \<Rightarrow> u64 \<Rightarrow> addr \<Rightarrow> 'a kst_scheme \<Rightarrow> (addr \<times> xarray option \<times> 'a kst_scheme) option" where
  "xa_store x i entry s =
     (case x of
        None \<Rightarrow> Some (XA_ERR, None, s)
      | Some x \<Rightarrow>
          (case xa_ensure_capacity x i s of
             None \<Rightarrow> None
           | Some (r, x, s) \<Rightarrow>
               if r \<noteq> 0 then Some (XA_ERR, Some x, s)
               else Some (xa_slots x (unat i), Some (x\<lparr>xa_slots := (xa_slots x)(unat i := entry)\<rparr>), s)))"

definition xa_erase :: "xarray option \<Rightarrow> u64 \<Rightarrow> addr \<times> xarray option" where
  "xa_erase x i =
     (case x of
        None \<Rightarrow> (0, None)
      | Some x \<Rightarrow> if i \<ge> xa_capacity x then (0, Some x)
                 else (xa_slots x (unat i), Some (x\<lparr>xa_slots := (xa_slots x)(unat i := 0)\<rparr>)))"

definition xa_is_err :: "addr \<Rightarrow> bool" where
  "xa_is_err e = (e = XA_ERR)"

definition xa_err :: "addr \<Rightarrow> int" where
  "xa_err e = (if xa_is_err e then - 1 else 0)"

text \<open>The search of \<^verbatim>\<open>xa_alloc\<close> for a free index.\<close>

function xa_search :: "xarray \<Rightarrow> u64 \<Rightarrow> u64 \<Rightarrow> u64" where
  "xa_search x lim i = (if i \<le> lim \<and> xa_load (Some x) i \<noteq> 0 then xa_search x lim (i + 1) else i)"
  by pat_completeness auto
termination
proof (relation "measure (\<lambda>(x, lim, i). unat (xa_capacity x) - unat i)")
  fix x :: xarray and lim i :: u64
  assume "i \<le> lim \<and> xa_load (Some x) i \<noteq> 0"
  then have c: "unat i < unat (xa_capacity x)" by (auto simp: xa_load_def word_less_nat_alt not_le split: if_splits)
  then have "unat i + 1 < 2 ^ 64" using u64_bound [of "xa_capacity x"] by simp
  then have "unat (i + 1) = unat i + 1" by (simp add: unat_word_ariths)
  then show "((x, lim, i + 1), x, lim, i) \<in> measure (\<lambda>(x, lim, i). unat (xa_capacity x) - unat i)" using c by simp
qed simp

declare xa_search.simps [simp del]

text \<open>Status, the index, the array.\<close>

definition xa_alloc :: "xarray option \<Rightarrow> addr \<Rightarrow> xa_limit \<Rightarrow> 'a kst_scheme \<Rightarrow> (int \<times> u64 \<times> xarray option \<times> 'a kst_scheme) option" where
  "xa_alloc x entry lim s =
     (case x of
        None \<Rightarrow> Some (- 1, 0, None, s)
      | Some x \<Rightarrow>
          let i = xa_search x (xl_max lim) (if xa_next x < xl_min lim then xl_min lim else xa_next x)
          in if i > xl_max lim then Some (- 1, 0, Some x, s)
             else
               (case xa_ensure_capacity x i s of
                  None \<Rightarrow> None
                | Some (r, x, s) \<Rightarrow>
                    if r \<noteq> 0 then Some (- 1, 0, Some x, s)
                    else Some (0, i, Some (x\<lparr>xa_slots := (xa_slots x)(unat i := entry), xa_next := i + 1\<rparr>), s)))"

definition xa_alloc_cyclic_irq ::
  "xarray \<Rightarrow> addr \<Rightarrow> xa_limit \<Rightarrow> u64 \<Rightarrow> 'a kst_scheme \<Rightarrow> (int \<times> u64 \<times> u64 \<times> xarray option \<times> 'a kst_scheme) option" where
  "xa_alloc_cyclic_irq x entry lim nxt s =
     (case xa_alloc (Some (x\<lparr>xa_next := nxt\<rparr>)) entry lim s of
        None \<Rightarrow> None
      | Some (r, i, x', s) \<Rightarrow> Some (r, i, if r = 0 then xa_next (the x') else nxt, x', s))"

definition xa_mk_value :: "u64 \<Rightarrow> u64" where "xa_mk_value v = push_bit 1 v OR 1"
definition xa_to_value :: "u64 \<Rightarrow> u64" where "xa_to_value v = drop_bit 1 v"
definition xa_is_value :: "u64 \<Rightarrow> bool" where "xa_is_value v = (v AND 1 \<noteq> 0)"

section \<open>kfifo.h\<close>

record 'v kfifo =
  kf_buffer :: "'v list"
  kf_size :: u32
  kf_in :: u32
  kf_out :: u32

definition kfifo_init :: "'v list \<Rightarrow> u32 \<Rightarrow> 'v kfifo" where
  "kfifo_init buf n = \<lparr>kf_buffer = buf, kf_size = n, kf_in = 0, kf_out = 0\<rparr>"

definition kfifo_len :: "'v kfifo \<Rightarrow> u32" where
  "kfifo_len f = kf_in f - kf_out f"

definition kfifo_is_empty :: "'v kfifo \<Rightarrow> bool" where
  "kfifo_is_empty f = (kfifo_len f = 0)"

definition kfifo_is_full :: "'v kfifo \<Rightarrow> bool" where
  "kfifo_is_full f = (kf_size f = 0 \<or> kfifo_len f \<ge> kf_size f)"

definition kfifo_put :: "'v \<Rightarrow> 'v kfifo \<Rightarrow> bool \<times> 'v kfifo" where
  "kfifo_put v f =
     (if kfifo_is_full f then (False, f)
      else (True, f\<lparr>kf_buffer := (kf_buffer f)[unat (kf_in f AND (kf_size f - 1)) := v], kf_in := kf_in f + 1\<rparr>))"

definition kfifo_get :: "'v kfifo \<Rightarrow> 'v option \<times> 'v kfifo" where
  "kfifo_get f =
     (if kfifo_is_empty f then (None, f)
      else (Some (kf_buffer f ! unat (kf_out f AND (kf_size f - 1))), f\<lparr>kf_out := kf_out f + 1\<rparr>))"

section \<open>Identifier tables implement the contract\<close>

definition idr_ok :: "idr \<Rightarrow> bool" where
  "idr_ok d =
     (idr_size d \<le> int_max \<and> (case idr_slots d of None \<Rightarrow> idr_size d = 0 | Some l \<Rightarrow> idr_size d = int (length l)))"

lemma first_free_Some:
  "first_free l i limit = Some k \<Longrightarrow> i \<le> k \<and> k < limit \<and> l ! k = 0 \<and> (\<forall>j. i \<le> j \<and> j < k \<longrightarrow> l ! j \<noteq> 0)"
proof (induction l i limit rule: first_free.induct)
  case (1 l i limit)
  show ?case
  proof (cases "i < limit \<and> l ! i \<noteq> 0")
    case True
    then have "first_free l (i + 1) limit = Some k" using "1.prems" by (subst (asm) first_free.simps) simp
    then have r: "i + 1 \<le> k \<and> k < limit \<and> l ! k = 0 \<and> (\<forall>j. i + 1 \<le> j \<and> j < k \<longrightarrow> l ! j \<noteq> 0)" using "1.IH" True by blast
    have "l ! j \<noteq> 0" if "i \<le> j" "j < k" for j using r True that by (cases "j = i") simp_all
    then show ?thesis using r by simp
  next
    case False
    then show ?thesis using first_free.simps [of l i limit] "1.prems" by (cases "i < limit") simp_all
  qed
qed

lemma first_free_None: "first_free l i limit = None \<Longrightarrow> i \<le> j \<Longrightarrow> j < limit \<Longrightarrow> l ! j \<noteq> 0"
proof (induction l i limit rule: first_free.induct)
  case (1 l i limit)
  have i: "i < limit" using "1.prems"(2,3) by simp
  then have f: "l ! i \<noteq> 0" "first_free l (i + 1) limit = None"
    using first_free.simps [of l i limit] "1.prems"(1) by (cases "l ! i = 0"; simp)+
  show ?case
  proof (cases "j = i")
    case False
    then show ?thesis using "1.IH" [OF i f] "1.prems"(2,3) by simp
  qed (use f in simp)
qed

lemma idr_grow_ok:
  assumes "idr_ok d" and "idr_grow d limit s = (Some e, t)" and "0 < limit" and "limit \<le> int_max"
  shows "idr_ok e" and "limit \<le> idr_size e" and "idr_slots e \<noteq> None" and "idr_find (Some e) i = idr_find (Some d) i"
proof -
  have *: "idr_ok e \<and> limit \<le> idr_size e \<and> idr_slots e \<noteq> None \<and> idr_find (Some e) i = idr_find (Some d) i"
  proof (cases "limit > idr_size d")
    case False
    then show ?thesis using assms by (auto simp: idr_grow_def idr_ok_def split: option.splits)
  next
    case True
    define old where "old = (case idr_slots d of None \<Rightarrow> [] | Some l \<Rightarrow> l)"
    have sz: "idr_size d = int (length old)" using assms(1) by (auto simp: idr_ok_def old_def split: option.splits)
    have e: "e = \<lparr>idr_slots = Some (old @ replicate (nat (limit - idr_size d)) 0), idr_size = limit\<rparr>"
      using assms(2) True by (auto simp: idr_grow_def old_def split: prod.splits bool.splits)
    have "idr_find (Some e) i = idr_find (Some d) i"
      using sz True by (auto simp: idr_find_def e nth_append old_def nat_less_iff split: option.splits)
    then show ?thesis using sz True assms(4) by (simp add: e idr_ok_def)
  qed
  then show "idr_ok e" "limit \<le> idr_size e" "idr_slots e \<noteq> None" "idr_find (Some e) i = idr_find (Some d) i" by auto
qed

text \<open>What an allocation does, with the table grown when needed.\<close>

lemma idr_alloc_result:
  assumes ok: "idr_ok d" and start: "0 \<le> start" and limit: "limit = (if stop > start then stop else start + 1)"
    and max: "limit \<le> int_max"
  obtains t where "idr_alloc (Some d) p start stop s = Some (- ENOMEM, Some d, t)"
  | e t where "idr_alloc (Some d) p start stop s = Some (- ENOSPC, Some e, t)" "idr_ok e"
      "\<And>i. idr_find (Some e) i = idr_find (Some d) i" "\<And>i. start \<le> i \<Longrightarrow> i < limit \<Longrightarrow> idr_find (Some d) i \<noteq> 0"
  | k e t where "idr_alloc (Some d) p start stop s = Some (k, Some e, t)" "idr_ok e" "start \<le> k" "k < limit"
      "idr_find (Some d) k = 0" "\<And>i. start \<le> i \<Longrightarrow> i < k \<Longrightarrow> idr_find (Some d) i \<noteq> 0"
      "\<And>i. idr_find (Some e) i = (if i = k then p else idr_find (Some d) i)"
proof -
  obtain r t where g: "idr_grow d limit s = (r, t)" by (cases "idr_grow d limit s")
  have lim: "0 < limit" using start limit by auto
  have alloc: "idr_alloc (Some d) p start stop s =
      (case idr_grow d limit s of
         (None, s) \<Rightarrow> Some (- ENOMEM, Some d, s)
       | (Some d, s) \<Rightarrow>
           (case first_free (the (idr_slots d)) (nat start) (nat limit) of
              Some i \<Rightarrow> Some (int i, Some (d\<lparr>idr_slots := Some ((the (idr_slots d))[i := p])\<rparr>), s)
            | None \<Rightarrow> Some (- ENOSPC, Some d, s)))"
    using start max unfolding idr_alloc_def Let_def limit by auto
  show ?thesis
  proof (cases r)
    case None
    then show ?thesis using alloc g that(1) by simp
  next
    case (Some e)
    note e = idr_grow_ok [OF ok g [unfolded Some] lim max]
    obtain l where l: "idr_slots e = Some l" "idr_size e = int (length l)" using e(1,3) by (auto simp: idr_ok_def split: option.splits)
    have at: "idr_find (Some e) (int j) = l ! j" if "int j < limit" for j
      using that e(2) l by (simp add: idr_find_def)
    show ?thesis
    proof (cases "first_free l (nat start) (nat limit)")
      case None
      have "idr_find (Some d) i \<noteq> 0" if i: "start \<le> i" "i < limit" for i
        using first_free_None [OF None, of "nat i"] at [of "nat i"] e(4) i start by simp
      then show ?thesis using alloc g Some None l e(1,4) that(2) by simp
    next
      case (Some k)
      note k = first_free_Some [OF Some]
      let ?e = "e\<lparr>idr_slots := Some (l[k := p])\<rparr>"
      have kl: "int k < limit" "start \<le> int k" using k start by linarith+
      have "idr_find (Some ?e) i = (if i = int k then p else idr_find (Some d) i)" for i
        using kl e(2) e(4) [of i] l by (auto simp: idr_find_def nth_list_update)
      moreover have "idr_find (Some d) i \<noteq> 0" if i: "start \<le> i" "i < int k" for i
      proof -
        have "l ! nat i \<noteq> 0" using k i start by (simp add: nat_le_iff nat_less_iff)
        then show ?thesis using at [of "nat i"] e(4) i start kl by simp
      qed
      moreover have "idr_find (Some d) (int k) = 0" using at [of k] kl k e(4) by simp
      moreover have "idr_ok ?e" using l e(1) by (simp add: idr_ok_def)
      ultimately show ?thesis using alloc g \<open>r = Some e\<close> Some l kl that(3) by simp
    qed
  qed
qed

text \<open>Allocating at one index only.\<close>

definition idr_put :: "nat \<Rightarrow> addr \<Rightarrow> idr \<times> kst \<Rightarrow> (idr \<times> kst) option" where
  "idr_put i p t =
     (if int i \<ge> int_max then None
      else case idr_alloc (Some (fst t)) p (int i) (int i + 1) (snd t) of
        Some (r, Some d, s) \<Rightarrow> if r = int i then Some (d, s) else None
      | _ \<Rightarrow> None)"

definition idr_del :: "nat \<Rightarrow> idr \<times> kst \<Rightarrow> idr \<times> kst" where
  "idr_del i t = (the (snd (idr_remove (Some (fst t)) (int i))), snd t)"

lemma idr_put_result:
  assumes ok: "idr_ok (fst t)" and put: "idr_put i p t = Some u"
  shows "idr_ok (fst u) \<and> (\<forall>j. idr_find (Some (fst u)) j = (if j = int i then p else idr_find (Some (fst t)) j))"
proof (rule idr_alloc_result [OF ok, of "int i" "int i + 1" "int i + 1" p "snd t"])
  show "int i + 1 \<le> int_max" using put by (auto simp: idr_put_def split: if_splits)
next
  fix w assume "idr_alloc (Some (fst t)) p (int i) (int i + 1) (snd t) = Some (- ENOMEM, Some (fst t), w)"
  then show ?thesis using put by (auto simp: idr_put_def errno_defs split: if_splits)
next
  fix e w assume "idr_alloc (Some (fst t)) p (int i) (int i + 1) (snd t) = Some (- ENOSPC, Some e, w)"
  then show ?thesis using put by (auto simp: idr_put_def errno_defs split: if_splits)
next
  fix k e w assume a: "idr_alloc (Some (fst t)) p (int i) (int i + 1) (snd t) = Some (k, Some e, w)" "idr_ok e"
    "int i \<le> k" "k < int i + 1" "\<And>j. idr_find (Some e) j = (if j = k then p else idr_find (Some (fst t)) j)"
  then have "k = int i" by simp
  then show ?thesis using put a by (auto simp: idr_put_def split: if_splits)
qed simp_all

lemma idr_remove_result:
  "idr_ok d \<Longrightarrow> \<exists>e. snd (idr_remove (Some d) i) = Some e \<and> idr_ok e \<and>
     fst (idr_remove (Some d) i) = idr_find (Some d) i \<and>
     (\<forall>j. idr_find (Some e) j = (if j = i then 0 else idr_find (Some d) j))"
  by (auto simp: idr_remove_def idr_find_def idr_ok_def nth_list_update split: option.splits)

interpretation idr_table: table "\<lambda>t j. idr_find (Some (fst t)) (int j)" idr_put idr_del "\<lambda>t. idr_ok (fst t)"
proof unfold_locales
  fix t :: "idr \<times> kst" and i j p u
  assume ok: "idr_ok (fst t)"
  show "idr_put i p t = Some u \<Longrightarrow> idr_ok (fst u)" using idr_put_result [OF ok] by blast
  show "idr_put i p t = Some u \<Longrightarrow> idr_find (Some (fst u)) (int j) = (if j = i then p else idr_find (Some (fst t)) (int j))"
    using idr_put_result [OF ok] by simp
  show "idr_ok (fst (idr_del i t))" using idr_remove_result [OF ok, of "int i"] by (auto simp: idr_del_def)
  show "idr_find (Some (fst (idr_del i t))) (int j) = (if j = i then 0 else idr_find (Some (fst t)) (int j))"
    using idr_remove_result [OF ok, of "int i"] by (auto simp: idr_del_def)
qed

section \<open>Index arrays implement the contract\<close>

text \<open>Slots from the capacity on are not part of the array; the model keeps them NULL.\<close>

definition xa_ok :: "xarray \<Rightarrow> bool" where
  "xa_ok x = (\<forall>k\<ge>unat (xa_capacity x). xa_slots x k = 0)"

lemma xa_load_slots: "xa_ok x \<Longrightarrow> xa_load (Some x) i = xa_slots x (unat i)"
  by (auto simp: xa_load_def xa_ok_def word_le_nat_alt)

lemma double_u64: "(c :: u64) \<le> (- 1) div 2 \<Longrightarrow> unat (c * 2) = 2 * unat c"
proof -
  assume "c \<le> (- 1) div 2"
  then have "unat c \<le> unat ((- 1) div 2 :: u64)" by (simp add: word_le_nat_alt)
  then have "unat c \<le> 9223372036854775807" by (simp add: unat_div)
  then show ?thesis by (simp add: unat_word_ariths)
qed

lemma xa_double_ends: "c \<noteq> 0 \<Longrightarrow> \<exists>r. xa_double c i = Some r \<and> (\<forall>d. r = Some d \<longrightarrow> i < d \<and> c \<le> d)"
proof (induction "2 ^ 64 - unat c" arbitrary: c rule: less_induct)
  case less
  show ?case
  proof (cases "c \<le> i \<and> c \<le> (- 1) div 2")
    case True
    have u: "unat (c * 2) = 2 * unat c" using double_u64 True by simp
    have pos: "0 < unat c" using less.prems by (simp add: unat_gt_0)
    have "unat (c * 2) < 2 ^ 64" using u64_bound [of "c * 2"] by simp
    then have "2 ^ 64 - unat (c * 2) < 2 ^ 64 - unat c" using u pos by linarith
    moreover have "c * 2 \<noteq> 0" using u pos by fastforce
    ultimately obtain r where r: "xa_double (c * 2) i = Some r" "\<forall>d. r = Some d \<longrightarrow> i < d \<and> c * 2 \<le> d" using less.hyps by blast
    have "c \<le> c * 2" using u by (simp add: word_le_nat_alt)
    then show ?thesis using r True by (subst xa_double.simps) (auto intro: order_trans)
  next
    case False
    then show ?thesis by (subst xa_double.simps) auto
  qed
qed

lemma xa_ensure_result:
  assumes ok: "xa_ok x"
  obtains r y t where "xa_ensure_capacity x i s = Some (r, y, t)" "xa_ok y" "r \<noteq> 0 \<Longrightarrow> y = x" "r = 0 \<or> r = - 1"
    "r = 0 \<Longrightarrow> i < xa_capacity y" "xa_slots y = xa_slots x" "xa_next y = xa_next x"
proof (cases "i < xa_capacity x")
  case True
  then show ?thesis using that [of 0 x s] ok by (simp add: xa_ensure_capacity_def)
next
  case False
  let ?c = "if xa_capacity x \<noteq> 0 then xa_capacity x else 16"
  have "?c \<noteq> 0" by simp
  from xa_double_ends [OF this, of i] obtain r where d: "xa_double ?c i = Some r" "\<forall>d. r = Some d \<longrightarrow> i < d \<and> ?c \<le> d" by blast
  show ?thesis
  proof (cases r)
    case None
    then show ?thesis using that [of "- 1" x s] ok False d(1) by (simp add: xa_ensure_capacity_def)
  next
    case (Some c)
    obtain b t where k: "krealloc_slots (xa_some x) s = (b, t)" by (cases "krealloc_slots (xa_some x) s")
    show ?thesis
    proof (cases "c > SIZE_MAX div 8 \<or> \<not> b")
      case True
      then show ?thesis using that [of "- 1" x s] that [of "- 1" x t] ok False d(1) Some k
        by (cases "c > SIZE_MAX div 8") (simp_all add: xa_ensure_capacity_def)
    next
      case no: False
      let ?y = "x\<lparr>xa_slots := (\<lambda>k. if unat (xa_capacity x) \<le> k \<and> k < unat c then 0 else xa_slots x k), xa_some := True, xa_capacity := c\<rparr>"
      have sl: "xa_slots ?y = xa_slots x" using ok by (auto simp: xa_ok_def fun_eq_iff)
      have le: "xa_capacity x \<le> c" and ic: "i < c" using d(2) Some by (auto split: if_splits)
      have "xa_ok ?y" using ok sl le by (auto simp: xa_ok_def word_le_nat_alt)
      moreover have "xa_ensure_capacity x i s = Some (0, ?y, t)"
        using no False d(1) Some k by (simp add: xa_ensure_capacity_def)
      ultimately show ?thesis using that [of 0 ?y t] sl ic by simp
    qed
  qed
qed

definition xa_put :: "nat \<Rightarrow> addr \<Rightarrow> xarray \<times> kst \<Rightarrow> (xarray \<times> kst) option" where
  "xa_put i p t =
     (if i < 2 ^ 64 then
        (case xa_store (Some (fst t)) (word_of_nat i) p (snd t) of
           Some (old, Some x, s) \<Rightarrow> if unat (word_of_nat i :: u64) < unat (xa_capacity x) then Some (x, s) else None
         | _ \<Rightarrow> None)
      else None)"

definition xa_del :: "nat \<Rightarrow> xarray \<times> kst \<Rightarrow> xarray \<times> kst" where
  "xa_del i t = (if i < 2 ^ 64 then the (snd (xa_erase (Some (fst t)) (word_of_nat i))) else fst t, snd t)"

definition xa_get :: "xarray \<times> kst \<Rightarrow> nat \<Rightarrow> addr" where
  "xa_get t i = (if i < 2 ^ 64 then xa_load (Some (fst t)) (word_of_nat i) else 0)"

lemma xa_get_slots: "xa_ok (fst t) \<Longrightarrow> xa_get t i = xa_slots (fst t) i"
proof (cases "i < 2 ^ 64")
  case True
  assume "xa_ok (fst t)"
  then show ?thesis using True xa_load_slots [of "fst t" "word_of_nat i"] by (simp add: xa_get_def unat_of_nat)
next
  case False
  assume "xa_ok (fst t)"
  then show ?thesis using False u64_bound [of "xa_capacity (fst t)"] by (simp add: xa_get_def xa_ok_def)
qed

lemma xa_ok_update: "xa_ok x \<Longrightarrow> i < unat (xa_capacity x) \<Longrightarrow> xa_ok (x\<lparr>xa_slots := (xa_slots x)(i := p)\<rparr>)"
  by (auto simp: xa_ok_def)

lemma xa_put_result:
  assumes ok: "xa_ok (fst t)" and put: "xa_put i p t = Some u"
  shows "xa_ok (fst u) \<and> xa_slots (fst u) = (xa_slots (fst t))(i := p)"
proof -
  have i: "i < 2 ^ 64" "unat (word_of_nat i :: u64) = i" using put by (auto simp: xa_put_def unat_of_nat split: if_splits)
  from xa_ensure_result [OF ok, of "word_of_nat i" "snd t"] obtain r y s where e:
    "xa_ensure_capacity (fst t) (word_of_nat i) (snd t) = Some (r, y, s)" "xa_ok y" "r \<noteq> 0 \<Longrightarrow> y = fst t"
    "r = 0 \<Longrightarrow> word_of_nat i < xa_capacity y" "xa_slots y = xa_slots (fst t)" by blast
  show ?thesis
  proof (cases "r = 0")
    case True
    then have "i < unat (xa_capacity y)" using e(4) i(2) by (simp add: word_less_nat_alt)
    then show ?thesis using put e True i xa_ok_update [OF e(2)] by (auto simp: xa_put_def xa_store_def)
  next
    case False
    have "\<not> i < unat (xa_capacity (fst t))"
      using e(1) False i(2) by (auto simp: xa_ensure_capacity_def word_less_nat_alt)
    then show ?thesis using put e False i by (auto simp: xa_put_def xa_store_def)
  qed
qed

lemma xa_del_result: "xa_ok (fst t) \<Longrightarrow> xa_ok (fst (xa_del i t)) \<and> xa_slots (fst (xa_del i t)) = (xa_slots (fst t))(i := 0)"
proof (cases "i < 2 ^ 64")
  case True
  assume "xa_ok (fst t)"
  then show ?thesis using True by (auto simp: xa_del_def xa_erase_def xa_ok_def unat_of_nat word_le_nat_alt fun_eq_iff)
next
  case False
  assume ok: "xa_ok (fst t)"
  then have "xa_slots (fst t) i = 0" using False u64_bound [of "xa_capacity (fst t)"] by (simp add: xa_ok_def)
  then show ?thesis using False ok by (auto simp: xa_del_def fun_eq_iff)
qed

interpretation xa_table: table xa_get xa_put xa_del "\<lambda>t. xa_ok (fst t)"
proof unfold_locales
  fix t :: "xarray \<times> kst" and i j p u
  assume ok: "xa_ok (fst t)"
  show "xa_put i p t = Some u \<Longrightarrow> xa_ok (fst u)" using xa_put_result [OF ok] by blast
  show "xa_put i p t = Some u \<Longrightarrow> xa_get u j = (if j = i then p else xa_get t j)"
    using xa_put_result [OF ok, of i p u] by (simp add: xa_get_slots ok)
  show "xa_ok (fst (xa_del i t))" using xa_del_result [OF ok] by blast
  show "xa_get (xa_del i t) j = (if j = i then 0 else xa_get t j)"
    using xa_del_result [OF ok, of i] by (simp add: xa_get_slots ok)
qed

section \<open>Ring buffers implement the queue contract\<close>

text \<open>The size is a power of two; the counters run freely modulo 2^32.\<close>

definition kf_index :: "'v kfifo \<Rightarrow> u32 \<Rightarrow> nat" where
  "kf_index f c = unat (c AND (kf_size f - 1))"

definition kf_els :: "'v kfifo \<Rightarrow> 'v list \<Rightarrow> bool" where
  "kf_els f xs =
     ((\<exists>k<32. kf_size f = 2 ^ k) \<and> length (kf_buffer f) = unat (kf_size f) \<and>
      length xs \<le> unat (kf_size f) \<and> kf_in f = kf_out f + word_of_nat (length xs) \<and>
      (\<forall>j<length xs. kf_buffer f ! ((unat (kf_out f) + j) mod unat (kf_size f)) = xs ! j))"

lemma kf_pow:
  assumes "kf_size f = 2 ^ k" and "k < 32"
  shows "unat (kf_size f) = 2 ^ k" and "kf_index f c = unat c mod 2 ^ k"
proof -
  have "(2 :: nat) ^ k < 2 ^ 32" using assms(2) by (intro power_strict_increasing) auto
  then show "unat (kf_size f) = 2 ^ k" using unat_of_nat [where 'a = 32, of "2 ^ k"] assms(1) by simp
  have "c AND (kf_size f - 1) = take_bit k c" using assms(1) by (simp add: take_bit_eq_mask mask_eq_exp_minus_1)
  moreover have "unat (take_bit k c) = take_bit k (unat c)" by (rule unsigned_take_bit_eq)
  ultimately show "kf_index f c = unat c mod 2 ^ k" by (simp only: kf_index_def take_bit_eq_mod [of k "unat c"])
qed

lemma kf_index_add:
  assumes "kf_size f = 2 ^ k" and "k < 32"
  shows "kf_index f (c + word_of_nat j) = (unat c + j) mod 2 ^ k"
proof -
  have d: "(2 :: nat) ^ k dvd 2 ^ 32" using assms(2) by (intro le_imp_power_dvd) simp
  have "unat (c + word_of_nat j) = (unat c + j) mod 2 ^ 32"
    by (simp add: unat_word_ariths unat_of_nat mod_simps)
  then show ?thesis using kf_pow(2) [OF assms] mod_mod_cancel [OF d] by simp
qed

lemma unat_len: "n \<le> unat (w :: u32) \<Longrightarrow> unat (word_of_nat n :: u32) = n"
  using u32_bound [of w] by (simp add: unat_of_nat)

lemma kf_len: "kf_els f xs \<Longrightarrow> unat (kfifo_len f) = length xs"
  using unat_len [of "length xs" "kf_size f"] by (simp add: kf_els_def kfifo_len_def)

lemma kf_put:
  assumes els: "kf_els f xs" and room: "length xs < unat (kf_size f)"
  shows "fst (kfifo_put v f) \<and> kf_els (snd (kfifo_put v f)) (xs @ [v]) \<and> kf_size (snd (kfifo_put v f)) = kf_size f"
proof -
  obtain k where k: "kf_size f = 2 ^ k" "k < 32" using els by (auto simp: kf_els_def)
  note sz = kf_pow(1) [OF k]
  have nf: "\<not> kfifo_is_full f"
    using kf_len [OF els] room by (auto simp: kfifo_is_full_def word_le_nat_alt)
  let ?n = "length xs"
  have ix: "unat (kf_in f AND (kf_size f - 1)) = (unat (kf_out f) + ?n) mod 2 ^ k"
    using els kf_index_add [OF k, of "kf_out f" ?n] by (simp add: kf_els_def kf_index_def)
  have other: "(unat (kf_out f) + j) mod 2 ^ k \<noteq> (unat (kf_out f) + ?n) mod 2 ^ k" if "j < ?n" for j
  proof
    assume "(unat (kf_out f) + j) mod 2 ^ k = (unat (kf_out f) + ?n) mod 2 ^ k"
    then have "2 ^ k dvd (unat (kf_out f) + ?n) - (unat (kf_out f) + j)"
      using that by (metis add_le_cancel_left less_imp_le mod_eq_dvd_iff_nat)
    then have "2 ^ k dvd ?n - j" by simp
    then show False using that room sz by (auto dest: dvd_imp_le)
  qed
  have f': "snd (kfifo_put v f) = f\<lparr>kf_buffer := (kf_buffer f)[(unat (kf_out f) + ?n) mod 2 ^ k := v], kf_in := kf_in f + 1\<rparr>"
    using nf ix by (simp add: kfifo_put_def)
  have "kf_buffer (snd (kfifo_put v f)) ! ((unat (kf_out f) + j) mod 2 ^ k) = (xs @ [v]) ! j" if "j < Suc ?n" for j
  proof (cases "j = ?n")
    case True
    then show ?thesis using els sz by (simp add: f' kf_els_def nth_append)
  next
    case False
    then have "j < ?n" using that by simp
    then show ?thesis using els sz nth_list_update_neq [OF other [OF \<open>j < ?n\<close>, symmetric], of "kf_buffer f" v] by (simp add: f' kf_els_def nth_append)
  qed
  then have "kf_els (snd (kfifo_put v f)) (xs @ [v])"
    using els room k sz by (simp add: f' kf_els_def ac_simps)
  then show ?thesis using nf by (simp add: kfifo_put_def)
qed

lemma kf_get_empty: "kf_els f [] \<Longrightarrow> kfifo_get f = (None, f)"
  by (simp add: kfifo_get_def kfifo_is_empty_def kfifo_len_def kf_els_def)

lemma kf_get:
  assumes els: "kf_els f (x # xs)"
  shows "fst (kfifo_get f) = Some x \<and> kf_els (snd (kfifo_get f)) xs"
proof -
  obtain k where k: "kf_size f = 2 ^ k" "k < 32" using els by (auto simp: kf_els_def)
  note sz = kf_pow(1) [OF k]
  have ne: "\<not> kfifo_is_empty f" using kf_len [OF els] by (auto simp: kfifo_is_empty_def)
  have buf: "kf_buffer f ! ((unat (kf_out f) + j) mod 2 ^ k) = (x # xs) ! j" if "j < Suc (length xs)" for j
    using els that sz by (simp add: kf_els_def)
  have "unat (kf_out f AND (kf_size f - 1)) = unat (kf_out f) mod 2 ^ k"
    using kf_pow(2) [OF k, of "kf_out f"] by (simp add: kf_index_def)
  then have fst: "fst (kfifo_get f) = Some x" using ne buf [of 0] by (simp add: kfifo_get_def)
  have nxt: "kf_buffer f ! ((unat (kf_out f + 1) + j) mod 2 ^ k) = xs ! j" if "j < length xs" for j
  proof -
    have "(unat (kf_out f + 1) + j) mod 2 ^ k = (unat (kf_out f) + 1 + j) mod 2 ^ k"
      using kf_index_add [OF k, of "kf_out f" 1] kf_pow(2) [OF k, of "kf_out f + 1"] by (metis mod_add_left_eq of_nat_1)
    then show ?thesis using buf [of "Suc j"] that by simp
  qed
  have "kf_els (f\<lparr>kf_out := kf_out f + 1\<rparr>) xs"
    using els nxt k sz by (auto simp: kf_els_def)
  then show ?thesis using fst ne by (simp add: kfifo_get_def)
qed

interpretation kfifo_queue: fifo "\<lambda>v f. snd (kfifo_put v f)" kfifo_get kf_els "\<lambda>f xs. length xs \<le> unat (kf_size f)"
  by unfold_locales (auto simp: kf_get_empty Suc_le_eq dest: kf_get intro: kf_put [THEN conjunct2, THEN conjunct1] 
      simp: kf_put [THEN conjunct2, THEN conjunct2])

section \<open>Properties\<close>

text \<open>
  C34. \<^verbatim>\<open>idr_alloc\<close> gives the lowest free identifier.  For every table and every range of non-negative
  ints, other than the single identifier \<^verbatim>\<open>INT_MAX\<close>, whose end overflows, it
  either reports that the table could not grow and changes nothing, or reports that every identifier of the range is
  taken, or returns the least free identifier of the range, which then holds the pointer; all other identifiers keep
  theirs.  A range whose end is not above its start has one identifier, its start.
\<close>

theorem idr_alloc_lowest:
  assumes "idr_ok d" and "0 \<le> start" and "limit = (if stop > start then stop else start + 1)" and "limit \<le> int_max"
  shows "\<exists>r e t. idr_alloc (Some d) p start stop s = Some (r, Some e, t) \<and> idr_ok e \<and>
    (r = - ENOMEM \<and> e = d \<or>
     r = - ENOSPC \<and> (\<forall>i. start \<le> i \<and> i < limit \<longrightarrow> idr_find (Some d) i \<noteq> 0) \<and> (\<forall>i. idr_find (Some e) i = idr_find (Some d) i) \<or>
     start \<le> r \<and> r < limit \<and> idr_find (Some d) r = 0 \<and> (\<forall>i. start \<le> i \<and> i < r \<longrightarrow> idr_find (Some d) i \<noteq> 0) \<and>
     (\<forall>i. idr_find (Some e) i = (if i = r then p else idr_find (Some d) i)))"
  by (rule idr_alloc_result [OF assms, of p s]) (use assms(1) in auto)

theorem idr_alloc_lowest_witness:
  "\<exists>r e t. idr_alloc (Some \<lparr>idr_slots = Some [7, 0, 9], idr_size = 3\<rparr>) 5 0 3 kst_init = Some (r, Some e, t) \<and> r = 1 \<and>
     idr_find (Some e) 1 = 5"
proof -
  let ?d = "\<lparr>idr_slots = Some [7, 0, 9], idr_size = 3\<rparr>"
  have ok: "idr_ok ?d" by (simp add: idr_ok_def int_max_def)
  have r: "\<exists>e. idr_alloc (Some ?d) 5 0 3 kst_init = Some (1, Some e, kst_init)"
    by (simp add: idr_alloc_def idr_grow_def first_free.simps numeral_3_eq_3)
  then obtain e where e: "idr_alloc (Some ?d) 5 0 3 kst_init = Some (1, Some e, kst_init)" by blast
  show ?thesis using idr_alloc_lowest [OF ok, of 0 3 3 5 kst_init] e by (auto simp: errno_defs int_max_def)
qed

text \<open>
  C19. A ring buffer is a bounded queue.  For every size that is a power of two, and also when the free-running
  32-bit counters wrap around, values put while there is room come out in the order they went in, after those already
  there.
\<close>

theorem kfifo_order:
  assumes "kf_els f xs" and "length (xs @ ys) \<le> unat (kf_size f)"
  shows "fst (drain kfifo_get (length (xs @ ys)) (fold (\<lambda>v f. snd (kfifo_put v f)) ys f)) = xs @ ys"
  by (rule kfifo_queue.order_kept [OF assms])

theorem kfifo_order_witness:
  "fst (drain kfifo_get 2 (fold (\<lambda>v f. snd (kfifo_put v f)) [11, 12] \<lparr>kf_buffer = [0, 0, 0, 0 :: int], kf_size = 4, kf_in = - 1, kf_out = - 1\<rparr>)) =
     [11, 12]"
proof -
  let ?f = "\<lparr>kf_buffer = [0, 0, 0, 0 :: int], kf_size = 4, kf_in = - 1, kf_out = - 1\<rparr>"
  have f: "kf_els ?f []" by (auto simp: kf_els_def intro!: exI [of _ 2])
  have four: "unat (4 :: u32) = 4" by simp
  have "length ([] @ [11, 12 :: int]) \<le> unat (kf_size ?f)" unfolding kfifo.select_convs four by simp
  from kfifo_order [OF f this] show ?thesis unfolding append_Nil by (simp only: list.size add_0 One_nat_def numeral_2_eq_2 plus_nat.simps)
qed

end
