(* ===== verification/LC_Kthread.thy ===== *)
theory LC_Kthread
  imports LC_Pages LC_Queue
begin

text \<open>
  Kernel threads (\<^verbatim>\<open>kthread.c\<close>): the list of threads, starting one, and the protocol of parking, waking and
  stopping as an interleaving of the thread with its owner.  A step of either is one store, one test, or one call of the
  host.  Whether the host remembers an unblock for a task that is not blocked yet is the parameter \<open>sticky\<close>.
\<close>

section \<open>Threads and their list\<close>

datatype task_state = TASK_RUNNING | TASK_INTERRUPTIBLE

record task_struct =
  kt_task :: "nat option"
  kt_should_stop :: bool
  kt_should_park :: bool
  kt_parked :: bool
  kt_exited :: bool
  kt_state :: task_state
  kt_result :: int

definition new_task :: task_struct where
  "new_task = \<lparr>kt_task = None, kt_should_stop = False, kt_should_park = False, kt_parked = False, kt_exited = False,
     kt_state = TASK_RUNNING, kt_result = 0\<rparr>"

record kth = kst +
  kh_head :: "nat option"
  kh_next :: links
  kh_threads :: "nat \<Rightarrow> task_struct option"
  kh_create :: "nat \<Rightarrow> nat option"

definition upd_thread :: "nat \<Rightarrow> (task_struct \<Rightarrow> task_struct) \<Rightarrow> kth \<Rightarrow> kth" where
  "upd_thread t f s = s\<lparr>kh_threads := (kh_threads s)(t := map_option f (kh_threads s t))\<rparr>"

definition kthread_add :: "nat \<Rightarrow> kth \<Rightarrow> kth" where
  "kthread_add t s = s\<lparr>kh_next := (kh_next s)(t := kh_head s), kh_head := Some t\<rparr>"

text \<open>The loop over \<^verbatim>\<open>pos\<close> finds the member that points to the thread: the head or a predecessor's \<^verbatim>\<open>next\<close>.\<close>

definition kthread_remove :: "nat \<Rightarrow> kth \<Rightarrow> kth option" where
  "kthread_remove t s =
     (case find_prev (kh_next s) t None (kh_head s) of
        None \<Rightarrow> None
      | Some None \<Rightarrow> Some s
      | Some (Some None) \<Rightarrow> Some (s\<lparr>kh_head := kh_next s t, kh_next := (kh_next s)(t := None)\<rparr>)
      | Some (Some (Some p)) \<Rightarrow> Some (s\<lparr>kh_next := (kh_next s)(p := kh_next s t, t := None)\<rparr>))"

text \<open>The thread of the host task \<open>task\<close>; the outer None is a search that does not end.\<close>

partial_function (option) current_from :: "kth \<Rightarrow> nat \<Rightarrow> nat option \<Rightarrow> nat option option" where
  "current_from s task pos =
     (if pos = None then Some None
      else if (case kh_threads s (the pos) of None \<Rightarrow> None | Some t \<Rightarrow> kt_task t) = Some task then Some pos
      else current_from s task (kh_next s (the pos)))"

definition current_thread :: "nat \<Rightarrow> kth \<Rightarrow> nat option option" where
  "current_thread task s = current_from s task (kh_head s)"

text \<open>
  \<^verbatim>\<open>kthread_run\<close>: a negative status, or 0 with the thread; None if removing it does not end.
  \<open>kh_create\<close> is the host's \<^verbatim>\<open>task_create\<close>, a function of the allocations made so far.
\<close>

definition kthread_run :: "bool \<Rightarrow> kth \<Rightarrow> ((int \<times> nat option) \<times> kth) option" where
  "kthread_run fn s =
     (if \<not> fn then Some ((- EINVAL, None), s)
      else
        (case kzalloc_obj s of
           (None, s) \<Rightarrow> Some ((- ENOMEM, None), s)
         | (Some t, s) \<Rightarrow>
             let s = s\<lparr>kh_threads := (kh_threads s)(t := Some new_task)\<rparr>;
                 s = kthread_add t s
             in (case kh_create s (k_calls s) of
                   None \<Rightarrow>
                     (case kthread_remove t s of
                        None \<Rightarrow> None
                      | Some s \<Rightarrow> Some ((- ENOMEM, None), kfree_obj (s\<lparr>kh_threads := (kh_threads s)(t := None)\<rparr>)))
                 | Some task \<Rightarrow> Some ((0, Some t), upd_thread t (\<lambda>x. x\<lparr>kt_task := Some task\<rparr>) s))))"

definition sched_set_fifo_low :: "(nat \<Rightarrow> int) \<Rightarrow> int \<Rightarrow> task_struct option \<Rightarrow> nat \<Rightarrow> int" where
  "sched_set_fifo_low prio normal t =
     (case t of None \<Rightarrow> prio | Some t \<Rightarrow> (case kt_task t of None \<Rightarrow> prio | Some k \<Rightarrow> prio(k := normal)))"

subsection \<open>The list\<close>

definition threads :: "kth \<Rightarrow> nat list \<Rightarrow> bool" where
  "threads s xs = path (kh_next s) (kh_head s) xs"

lemma threads_add: "threads s xs \<Longrightarrow> t \<notin> set xs \<Longrightarrow> threads (kthread_add t s) (t # xs)"
  by (simp add: threads_def kthread_add_def)

lemma threads_remove:
  assumes "threads s xs"
  shows "\<exists>s'. kthread_remove t s = Some s' \<and> threads s' (remove1 t xs) \<and> kh_threads s' = kh_threads s \<and>
     k_live s' = k_live s \<and> k_calls s' = k_calls s"
proof (cases "t \<in> set xs")
  case False
  then show ?thesis using find_prev_absent [of "kh_next s" "kh_head s" xs t None] assms
    by (simp add: kthread_remove_def threads_def remove1_idem)
next
  case True
  obtain us vs where xs: "xs = us @ t # vs" and us: "t \<notin> set us" using split_list_first [OF True] by blast
  have p: "path (kh_next s) (kh_head s) (us @ t # vs)" using assms xs by (simp add: threads_def)
  note f = find_prev_present [OF p us, of None]
  have d: "distinct (us @ t # vs)" by (rule path_distinct [OF p])
  have "path (kh_next s) (kh_next s t) vs" using path_append [of "kh_next s" "kh_head s" "us @ [t]" vs] p by simp
  then have "path ((kh_next s)(t := None)) (kh_next s t) vs" using d by simp
  then show ?thesis using f path_unlink [OF p] us xs
    by (cases "us = []") (auto simp: kthread_remove_def threads_def remove1_append)
qed

lemma current_finds:
  "path (kh_next s) pos xs \<Longrightarrow>
     current_from s task pos = Some (find (\<lambda>t. (case kh_threads s t of None \<Rightarrow> None | Some t \<Rightarrow> kt_task t) = Some task) xs)"
  by (induction xs arbitrary: pos) (subst current_from.simps, auto)+

text \<open>A thread that could not be started leaves the list and the objects as they were.\<close>

lemma kthread_run_result:
  assumes "threads s xs" and "k_calls s \<notin> set xs"
  shows "\<exists>r t s'. kthread_run fn s = Some ((r, t), s') \<and>
    (r = 0 \<and> t \<noteq> None \<and> threads s' (the t # xs) \<and> k_live s' = k_live s + 1 \<or>
     r < 0 \<and> t = None \<and> threads s' xs \<and> k_live s' = k_live s)"
proof (cases "fn \<and> k_obj s (k_calls s)")
  case False
  then show ?thesis using assms by (auto simp: kthread_run_def kzalloc_obj_def errno_defs threads_def)
next
  case True
  let ?t = "k_calls s"
  let ?s = "kthread_add ?t (s\<lparr>k_calls := k_calls s + 1, k_live := k_live s + 1, kh_threads := (kh_threads s)(?t := Some new_task)\<rparr>)"
  have th: "threads ?s (?t # xs)" using assms by (intro threads_add) (simp_all add: threads_def)
  have live: "k_live ?s = k_live s + 1" by (simp add: kthread_add_def)
  show ?thesis
  proof (cases "kh_create ?s (k_calls ?s)")
    case None
    obtain u where "kthread_remove ?t ?s = Some u" "threads u xs" "k_live u = k_live ?s"
      using threads_remove [OF th, of ?t] by auto
    then show ?thesis using True None live by (auto simp: kthread_run_def kzalloc_obj_def errno_defs threads_def kfree_obj_def)
  next
    case (Some task)
    have "threads (upd_thread ?t (\<lambda>x. x\<lparr>kt_task := Some task\<rparr>) ?s) (?t # xs)" using th by (simp add: threads_def upd_thread_def)
    moreover have "k_live (upd_thread ?t (\<lambda>x. x\<lparr>kt_task := Some task\<rparr>) ?s) = k_live s + 1" using live by (simp add: upd_thread_def)
    ultimately show ?thesis using True Some by (simp add: kthread_run_def kzalloc_obj_def)
  qed
qed

section \<open>Parking, waking and stopping\<close>

text \<open>
  Where the thread is.  \<open>KRun\<close> is its function, which may set its state, sleep, park or return.  \<open>KTest\<close> and \<open>KTest2\<close>
  are the two tests of \<^verbatim>\<open>lcompat_schedule\<close>; \<open>KPTest\<close>, \<open>KPTest2\<close> and \<open>KPState\<close> the loop of
  \<^verbatim>\<open>kthread_parkme\<close>; \<open>KBlock p\<close> is about to block, for parking if \<open>p\<close>, and \<open>KBlocked p\<close> is blocked.
\<close>

datatype kpc = KBegin | KInit | KRun | KTest | KTest2 | KBlock bool | KBlocked bool | KWake | KPark | KPTest | KPTest2 | KPState
  | KUnparked | KResume | KResult int | KRemove | KExit | KGone

datatype kchoice = CSetState task_state | CSchedule | CPark | CReturn int

text \<open>What the owner does after waking the thread, and where it is.\<close>

datatype wake_for = ForWake | ForPark | ForStop

datatype opc = OIdle | OWake wake_for | OUnblock wake_for | OParkWait | OStopFlag | OStopWait | OStopRead | ODone int

record ksys =
  ks_thread :: task_struct
  ks_listed :: bool
  ks_pc :: kpc
  ks_owner :: opc
  ks_note :: bool
  ks_ret :: "int option"

text \<open>The thread's next step; \<open>c\<close> is what its function does next.  None: it cannot move.\<close>

definition thread_next :: "kchoice \<Rightarrow> ksys \<Rightarrow> ksys option" where
  "thread_next c s =
     (let t = ks_thread s
      in case ks_pc s of
           KBegin \<Rightarrow> Some (s\<lparr>ks_pc := KInit\<rparr>)
         | KInit \<Rightarrow> Some (s\<lparr>ks_thread := t\<lparr>kt_state := TASK_RUNNING\<rparr>, ks_pc := KRun\<rparr>)
         | KRun \<Rightarrow>
             (case c of
                CSetState z \<Rightarrow> Some (s\<lparr>ks_thread := t\<lparr>kt_state := z\<rparr>\<rparr>)
              | CSchedule \<Rightarrow> Some (s\<lparr>ks_pc := KTest\<rparr>)
              | CPark \<Rightarrow> Some (s\<lparr>ks_pc := KPark\<rparr>)
              | CReturn r \<Rightarrow> Some (s\<lparr>ks_pc := KResult r, ks_ret := Some r\<rparr>))
         | KTest \<Rightarrow> Some (s\<lparr>ks_pc := (if kt_state t \<noteq> TASK_RUNNING then KTest2 else KRun)\<rparr>)
         | KTest2 \<Rightarrow> Some (s\<lparr>ks_pc := (if kt_should_stop t then KRun else KBlock False)\<rparr>)
         | KBlock p \<Rightarrow>
             if ks_note s then Some (s\<lparr>ks_note := False, ks_pc := (if p then KPTest else KWake)\<rparr>)
             else Some (s\<lparr>ks_pc := KBlocked p\<rparr>)
         | KBlocked p \<Rightarrow> None
         | KWake \<Rightarrow> Some (s\<lparr>ks_thread := t\<lparr>kt_state := TASK_RUNNING\<rparr>, ks_pc := KRun\<rparr>)
         | KPark \<Rightarrow> Some (s\<lparr>ks_thread := t\<lparr>kt_parked := True\<rparr>, ks_pc := KPTest\<rparr>)
         | KPTest \<Rightarrow> Some (s\<lparr>ks_pc := (if kt_should_park t then KPTest2 else KUnparked)\<rparr>)
         | KPTest2 \<Rightarrow> Some (s\<lparr>ks_pc := (if kt_should_stop t then KUnparked else KPState)\<rparr>)
         | KPState \<Rightarrow> Some (s\<lparr>ks_thread := t\<lparr>kt_state := TASK_INTERRUPTIBLE\<rparr>, ks_pc := KBlock True\<rparr>)
         | KUnparked \<Rightarrow> Some (s\<lparr>ks_thread := t\<lparr>kt_parked := False\<rparr>, ks_pc := KResume\<rparr>)
         | KResume \<Rightarrow> Some (s\<lparr>ks_thread := t\<lparr>kt_state := TASK_RUNNING\<rparr>, ks_pc := KRun\<rparr>)
         | KResult r \<Rightarrow> Some (s\<lparr>ks_thread := t\<lparr>kt_result := r\<rparr>, ks_pc := KRemove\<rparr>)
         | KRemove \<Rightarrow> Some (s\<lparr>ks_listed := False, ks_pc := KExit\<rparr>)
         | KExit \<Rightarrow> Some (s\<lparr>ks_thread := t\<lparr>kt_exited := True\<rparr>, ks_pc := KGone\<rparr>)
         | KGone \<Rightarrow> None)"

text \<open>\<^verbatim>\<open>task_unblock\<close> wakes a blocked thread; otherwise a \<open>sticky\<close> host remembers it.\<close>

definition host_unblock :: "bool \<Rightarrow> ksys \<Rightarrow> ksys" where
  "host_unblock sticky s =
     (case ks_pc s of
        KBlocked p \<Rightarrow> s\<lparr>ks_pc := (if p then KPTest else KWake)\<rparr>
      | _ \<Rightarrow> if sticky then s\<lparr>ks_note := True\<rparr> else s)"

datatype kcmd = KCWake | KCPark | KCUnpark | KCStop

text \<open>The owner's next step; \<open>k\<close> is the operation it starts when it is idle.\<close>

definition owner_next :: "bool \<Rightarrow> kcmd \<Rightarrow> ksys \<Rightarrow> ksys option" where
  "owner_next sticky k s =
     (let t = ks_thread s
      in case ks_owner s of
           OIdle \<Rightarrow>
             (case k of
                KCWake \<Rightarrow> Some (s\<lparr>ks_owner := OWake ForWake\<rparr>)
              | KCPark \<Rightarrow> Some (s\<lparr>ks_thread := t\<lparr>kt_should_park := True\<rparr>, ks_owner := OWake ForPark\<rparr>)
              | KCUnpark \<Rightarrow> Some (s\<lparr>ks_thread := t\<lparr>kt_should_park := False\<rparr>, ks_owner := OWake ForWake\<rparr>)
              | KCStop \<Rightarrow> Some (s\<lparr>ks_thread := t\<lparr>kt_should_stop := True\<rparr>, ks_owner := OStopFlag\<rparr>))
         | OWake f \<Rightarrow> Some (s\<lparr>ks_thread := t\<lparr>kt_state := TASK_RUNNING\<rparr>, ks_owner := OUnblock f\<rparr>)
         | OUnblock f \<Rightarrow>
             Some ((host_unblock sticky s)\<lparr>ks_owner := (case f of ForWake \<Rightarrow> OIdle | ForPark \<Rightarrow> OParkWait | ForStop \<Rightarrow> OStopWait)\<rparr>)
         | OParkWait \<Rightarrow> if kt_parked t \<or> kt_exited t then Some (s\<lparr>ks_owner := OIdle\<rparr>) else None
         | OStopFlag \<Rightarrow> Some (s\<lparr>ks_thread := t\<lparr>kt_should_park := False\<rparr>, ks_owner := OWake ForStop\<rparr>)
         | OStopWait \<Rightarrow> if kt_exited t then Some (s\<lparr>ks_owner := OStopRead\<rparr>) else None
         | OStopRead \<Rightarrow> Some (s\<lparr>ks_owner := ODone (kt_result t)\<rparr>)
         | ODone r \<Rightarrow> None)"

text \<open>From the moment \<^verbatim>\<open>kthread_run\<close> has returned the thread.\<close>

definition ksys_init :: "nat \<Rightarrow> ksys" where
  "ksys_init task =
     \<lparr>ks_thread = new_task\<lparr>kt_task := Some task\<rparr>, ks_listed = True, ks_pc = KBegin, ks_owner = OIdle, ks_note = False, ks_ret = None\<rparr>"

inductive kreach :: "bool \<Rightarrow> ksys \<Rightarrow> bool" for sticky where
  kreach_init: "kreach sticky (ksys_init task)"
| kreach_thread: "kreach sticky s \<Longrightarrow> thread_next c s = Some t \<Longrightarrow> kreach sticky t"
| kreach_owner: "kreach sticky s \<Longrightarrow> owner_next sticky k s = Some t \<Longrightarrow> kreach sticky t"

subsection \<open>Invariants\<close>

text \<open>How far the thread is on its way out, and what the owner may conclude.\<close>

fun result_ok :: "kpc \<Rightarrow> int option \<Rightarrow> int \<Rightarrow> bool" where
  "result_ok (KResult r) ret x = (ret = Some r)"
| "result_ok KRemove ret x = (ret = Some x)"
| "result_ok KExit ret x = (ret = Some x)"
| "result_ok KGone ret x = (ret = Some x)"
| "result_ok _ ret x = True"

fun done_ok :: "opc \<Rightarrow> kpc \<Rightarrow> int \<Rightarrow> bool" where
  "done_ok OStopRead pc x = (pc = KGone)"
| "done_ok (ODone r) pc x = (pc = KGone \<and> x = r)"
| "done_ok _ pc x = True"

definition leaving_ok :: "ksys \<Rightarrow> bool" where
  "leaving_ok s =
     (kt_exited (ks_thread s) = (ks_pc s = KGone) \<and>
      ks_listed s = (ks_pc s \<noteq> KExit \<and> ks_pc s \<noteq> KGone) \<and>
      result_ok (ks_pc s) (ks_ret s) (kt_result (ks_thread s)) \<and>
      done_ok (ks_owner s) (ks_pc s) (kt_result (ks_thread s)))"

lemma done_not_gone: "done_ok w pc x \<Longrightarrow> pc \<noteq> KGone \<Longrightarrow> done_ok w pc' y"
  by (cases w) auto

text \<open>A stopping owner past its unblock has left the thread awake or with an unblock pending.\<close>

fun stopping :: "opc \<Rightarrow> bool" where
  "stopping (OWake f) = (f = ForStop)"
| "stopping (OUnblock f) = (f = ForStop)"
| "stopping OIdle = False"
| "stopping OParkWait = False"
| "stopping _ = True"

fun blocked :: "kpc \<Rightarrow> bool" where
  "blocked (KBlocked p) = True"
| "blocked _ = False"

fun about_to_block :: "kpc \<Rightarrow> bool" where
  "about_to_block (KBlock p) = True"
| "about_to_block KPState = True"
| "about_to_block _ = False"

definition awake_ok :: "bool \<Rightarrow> ksys \<Rightarrow> bool" where
  "awake_ok sticky s =
     ((stopping (ks_owner s) \<longrightarrow> kt_should_stop (ks_thread s)) \<and>
      (sticky \<and> ks_owner s = OStopWait \<longrightarrow>
         \<not> blocked (ks_pc s) \<and> (about_to_block (ks_pc s) \<longrightarrow> ks_note s)))"

lemma thread_leaving:
  assumes "leaving_ok s" and "thread_next c s = Some t"
  shows "leaving_ok t"
proof -
  have gone: "ks_pc s \<noteq> KGone" using assms(2) by (auto simp: thread_next_def)
  have owner: "ks_owner t = ks_owner s"
    using assms(2) by (cases "ks_pc s") (auto simp: thread_next_def Let_def split: kchoice.splits if_splits)
  have "done_ok (ks_owner t) (ks_pc t) (kt_result (ks_thread t))"
    unfolding owner by (rule done_not_gone [OF _ gone]) (use assms(1) in \<open>auto simp: leaving_ok_def\<close>)
  moreover have "kt_exited (ks_thread t) = (ks_pc t = KGone) \<and> ks_listed t = (ks_pc t \<noteq> KExit \<and> ks_pc t \<noteq> KGone) \<and>
      result_ok (ks_pc t) (ks_ret t) (kt_result (ks_thread t))"
    using assms by (cases "ks_pc s") (auto simp: thread_next_def leaving_ok_def Let_def split: kchoice.splits if_splits)
  ultimately show ?thesis by (simp add: leaving_ok_def)
qed

lemma thread_awake:
  assumes "awake_ok sticky s" and "thread_next c s = Some t"
  shows "awake_ok sticky t"
proof -
  have same: "ks_owner t = ks_owner s" "kt_should_stop (ks_thread t) = kt_should_stop (ks_thread s)"
    using assms(2) by (cases "ks_pc s"; auto simp: thread_next_def Let_def split: kchoice.splits if_splits)+
  have step: "\<not> blocked (ks_pc t) \<and> (about_to_block (ks_pc t) \<longrightarrow> ks_note t)"
    if "kt_should_stop (ks_thread s)" "\<not> blocked (ks_pc s)" "about_to_block (ks_pc s) \<longrightarrow> ks_note s"
    using assms(2) that by (cases "ks_pc s") (auto simp: thread_next_def Let_def split: kchoice.splits if_splits)
  show ?thesis using assms(1) step unfolding awake_ok_def same by auto
qed

lemma host_unblock_frame [simp]:
  "ks_thread (host_unblock sticky s) = ks_thread s" "ks_listed (host_unblock sticky s) = ks_listed s"
  "ks_ret (host_unblock sticky s) = ks_ret s" "ks_owner (host_unblock sticky s) = ks_owner s"
  by (simp_all add: host_unblock_def split: kpc.split)

lemma leaving_unblock: "leaving_ok s \<Longrightarrow> leaving_ok (host_unblock sticky s)"
proof (cases "blocked (ks_pc s)")
  case True
  assume ok: "leaving_ok s"
  obtain p where p: "ks_pc s = KBlocked p" using True by (cases "ks_pc s") auto
  then have "done_ok (ks_owner s) pc y" for pc y
    using ok done_not_gone [of "ks_owner s" "KBlocked p" "kt_result (ks_thread s)" pc y] by (simp add: leaving_ok_def)
  then show ?thesis using ok p by (simp add: leaving_ok_def) (simp add: host_unblock_def)
next
  case False
  assume ok: "leaving_ok s"
  have "ks_pc (host_unblock sticky s) = ks_pc s" using False by (cases "ks_pc s") (simp_all add: host_unblock_def)
  then show ?thesis using ok by (simp add: leaving_ok_def)
qed

lemma unblock_awake: "\<not> blocked (ks_pc (host_unblock True s)) \<and> (about_to_block (ks_pc (host_unblock True s)) \<longrightarrow> ks_note (host_unblock True s))"
  by (cases "ks_pc s") (simp_all add: host_unblock_def)

text \<open>The owner's steps, for the invariants: what it does to the thread, and where it goes.\<close>

lemma owner_leaving:
  assumes "leaving_ok s" and "owner_next sticky k s = Some t"
  shows "leaving_ok t"
proof (cases "ks_owner s")
  case (OUnblock f)
  then have t: "t = (host_unblock sticky s)\<lparr>ks_owner := (case f of ForWake \<Rightarrow> OIdle | ForPark \<Rightarrow> OParkWait | ForStop \<Rightarrow> OStopWait)\<rparr>"
    using assms(2) by (simp add: owner_next_def Let_def)
  show ?thesis using leaving_unblock [OF assms(1), of sticky] unfolding t leaving_ok_def by (cases f) simp_all
next
  case OIdle
  then show ?thesis using assms by (cases k) (auto simp: owner_next_def leaving_ok_def)
qed (use assms in \<open>auto simp: owner_next_def leaving_ok_def Let_def split: if_splits\<close>)

lemma owner_awake:
  assumes "awake_ok sticky s" and "owner_next sticky k s = Some t"
  shows "awake_ok sticky t"
proof (cases "ks_owner s")
  case (OUnblock f)
  then have t: "t = (host_unblock sticky s)\<lparr>ks_owner := (case f of ForWake \<Rightarrow> OIdle | ForPark \<Rightarrow> OParkWait | ForStop \<Rightarrow> OStopWait)\<rparr>"
    using assms(2) by (simp add: owner_next_def Let_def)
  show ?thesis using assms(1) OUnblock unblock_awake [of s] unfolding t awake_ok_def by (cases f; cases sticky) simp_all
next
  case OIdle
  then show ?thesis using assms by (cases k) (auto simp: owner_next_def awake_ok_def)
next
  case (OWake f)
  then show ?thesis using assms by (cases f) (auto simp: owner_next_def awake_ok_def)
qed (use assms in \<open>auto simp: owner_next_def awake_ok_def Let_def split: if_splits\<close>)

lemma kreach_ok: "kreach sticky s \<Longrightarrow> leaving_ok s \<and> awake_ok sticky s"
proof (induction rule: kreach.induct)
  case (kreach_init task)
  then show ?case by (simp add: ksys_init_def leaving_ok_def awake_ok_def new_task_def)
next
  case (kreach_thread s c t)
  then show ?case using thread_leaving thread_awake by blast
next
  case (kreach_owner s k t)
  then show ?case using owner_leaving owner_awake by blast
qed

section \<open>Stopping a thread\<close>

text \<open>
  C12. Stopping a thread is safe, in every interleaving.  When \<^verbatim>\<open>kthread_stop\<close> has freed the thread, the thread
  takes no further step, is off the list, and the status returned is the one its function returned.  While it
  waits, and the host remembers unblocks, the thread is never left blocked.
\<close>

theorem kthread_stop_safe:
  assumes "kreach sticky s"
  shows "(\<forall>r. ks_owner s = ODone r \<longrightarrow> ks_ret s = Some r \<and> \<not> ks_listed s \<and> (\<forall>c. thread_next c s = None)) \<and>
         (sticky \<and> ks_owner s = OStopWait \<longrightarrow> (\<forall>p. ks_pc s \<noteq> KBlocked p))"
  using kreach_ok [OF assms] by (auto simp: leaving_ok_def awake_ok_def thread_next_def)

text \<open>A run of both, for concrete interleavings.\<close>

datatype kact = AThread kchoice | AOwner kcmd

fun krun :: "bool \<Rightarrow> kact list \<Rightarrow> ksys \<Rightarrow> ksys option" where
  "krun st [] s = Some s"
| "krun st (AThread c # as) s = (case thread_next c s of None \<Rightarrow> None | Some t \<Rightarrow> krun st as t)"
| "krun st (AOwner k # as) s = (case owner_next st k s of None \<Rightarrow> None | Some t \<Rightarrow> krun st as t)"

lemma krun_reach: "kreach st s \<Longrightarrow> krun st as s = Some t \<Longrightarrow> kreach st t"
  by (induction st as s rule: krun.induct) (auto split: option.splits intro: kreach_thread kreach_owner)

lemmas krun_defs = thread_next_def owner_next_def host_unblock_def ksys_init_def new_task_def Let_def

theorem kthread_stop_safe_witness:
  "\<exists>s. kreach True s \<and> ks_owner s = ODone 7 \<and> ks_ret s = Some 7 \<and> \<not> ks_listed s"
proof -
  let ?as = "[AThread CPark, AThread CPark, AOwner KCStop, AOwner KCStop, AOwner KCStop, AOwner KCStop, AThread (CReturn 7),
    AThread CPark, AThread CPark, AThread CPark, AOwner KCStop, AOwner KCStop]"
  obtain s where s: "krun True ?as (ksys_init 3) = Some s" "ks_owner s = ODone 7"
    by (simp add: krun_defs)
  have "kreach True s" by (rule krun_reach [OF kreach_init s(1)])
  from kthread_stop_safe [OF this] show ?thesis using \<open>kreach True s\<close> s(2) by blast
qed

text \<open>
  On a host that forgets an unblock for a task that is not blocked yet, a thread between its last test and
  \<^verbatim>\<open>task_block\<close> misses the wake-up of \<^verbatim>\<open>kthread_stop\<close>, and nobody can move any more.
\<close>

lemma kthread_stop_missed_wakeup:
  "\<exists>s. kreach False s \<and> ks_owner s = OStopWait \<and> (\<forall>c. thread_next c s = None) \<and> (\<forall>k. owner_next False k s = None)"
proof -
  let ?as = "[AThread CPark, AThread CPark, AThread (CSetState TASK_INTERRUPTIBLE), AThread CSchedule, AThread CPark, AThread CPark,
    AOwner KCStop, AOwner KCStop, AOwner KCStop, AOwner KCStop, AThread CPark]"
  obtain s where s: "krun False ?as (ksys_init 3) = Some s" "ks_owner s = OStopWait" "ks_pc s = KBlocked False"
      "\<not> kt_exited (ks_thread s)"
    by (simp add: krun_defs)
  have "kreach False s" by (rule krun_reach [OF kreach_init s(1)])
  then show ?thesis using s(2-4) by (intro exI [of _ s]) (simp add: thread_next_def owner_next_def Let_def)
qed

end
