(* ===== verification/LC_Kernel.thy ===== *)
theory LC_Kernel
  imports LC_Bits LC_Time
begin

text \<open>
  The small arithmetic, string, error-pointer and atomic helpers: \<^verbatim>\<open>linux/kernel.h\<close>,
  \<^verbatim>\<open>linux/err.h\<close>, \<^verbatim>\<open>linux/atomic.h\<close>, \<^verbatim>\<open>linux/refcount.h\<close>, \<^verbatim>\<open>linux/seqlock.h\<close>,
  \<^verbatim>\<open>linux/wait.h\<close>, \<^verbatim>\<open>linux/average.h\<close> and \<^verbatim>\<open>linux/bcd.h\<close>.

  A C string is the list of its bytes before the terminating zero.  A macro on integers is taken
  at the width its callers use it at.  Division by zero and \<^verbatim>\<open>__builtin_clz(0)\<close>, which C leaves
  undefined, are None.
\<close>

section \<open>kernel.h: arithmetic\<close>

definition DIV_ROUND_UP :: "'a :: len word \<Rightarrow> 'a word \<Rightarrow> 'a word option" where
  "DIV_ROUND_UP n d = (if d = 0 then None else Some ((n + d - 1) div d))"

definition DIV_ROUND_CLOSEST :: "'a :: len word \<Rightarrow> 'a word \<Rightarrow> 'a word option" where
  "DIV_ROUND_CLOSEST x d = (if d = 0 then None else Some ((x + d div 2) div d))"

definition lc_max :: "'a :: len word \<Rightarrow> 'a word \<Rightarrow> 'a word" where
  "lc_max x y = (if x > y then x else y)"

definition lc_min :: "'a :: len word \<Rightarrow> 'a word \<Rightarrow> 'a word" where
  "lc_min x y = (if x < y then x else y)"

definition clamp :: "'a :: len word \<Rightarrow> 'a word \<Rightarrow> 'a word \<Rightarrow> 'a word" where
  "clamp val lo hi = lc_min (lc_max val lo) hi"

definition min3 :: "'a :: len word \<Rightarrow> 'a word \<Rightarrow> 'a word \<Rightarrow> 'a word" where
  "min3 x y z = lc_min (lc_min x y) z"

definition max3 :: "'a :: len word \<Rightarrow> 'a word \<Rightarrow> 'a word \<Rightarrow> 'a word" where
  "max3 x y z = lc_max (lc_max x y) z"

text \<open>The cast to \<^verbatim>\<open>unsigned int\<close> drops the upper half of a longer argument; 31 minus the number of
  leading zeros is the number of the highest bit set.\<close>

definition ilog2 :: "u64 \<Rightarrow> nat option" where
  "ilog2 x =
     (if x = 0 then Some 0
      else if (ucast x :: u32) = 0 then None
      else Some (fls_from (x AND 0xffffffff) 32))"

definition upper_32_bits :: "u64 \<Rightarrow> u32" where
  "upper_32_bits n = ucast (drop_bit 32 n AND 0xffffffff)"

definition lower_32_bits :: "u64 \<Rightarrow> u32" where
  "lower_32_bits n = ucast (n AND 0xffffffff)"

definition abs_signed :: "'a :: len word \<Rightarrow> 'a word" where
  "abs_signed x = (if sint x < 0 then - x else x)"

definition abs_diff :: "'a :: len word \<Rightarrow> 'a word \<Rightarrow> 'a word" where
  "abs_diff a b = (if a > b then a - b else b - a)"

definition bcd2bin :: "u8 \<Rightarrow> u8" where
  "bcd2bin val = drop_bit 4 (val AND 0xf0) * 10 + (val AND 0x0f)"

definition bin2bcd :: "u8 \<Rightarrow> u8" where
  "bin2bcd val = push_bit 4 (val div 10) OR (val mod 10)"

text \<open>The bit counts of \<^verbatim>\<open>bitops.h\<close>; every width counts its own bits.\<close>

definition popcount :: "'a :: len word \<Rightarrow> u32" where
  "popcount w = of_nat (length (filter (bit w) [0..<size w]))"

definition hweight8 :: "u8 \<Rightarrow> u32" where "hweight8 w = popcount (ucast w :: u32)"
definition hweight16 :: "u16 \<Rightarrow> u32" where "hweight16 w = popcount (ucast w :: u32)"
definition hweight32 :: "u32 \<Rightarrow> u32" where "hweight32 w = popcount w"
definition hweight64 :: "u64 \<Rightarrow> u32" where "hweight64 w = popcount w"

definition ffs64 :: "u64 \<Rightarrow> u64" where
  "ffs64 word = (case find (bit word) [0..<64] of None \<Rightarrow> 0 | Some i \<Rightarrow> of_nat i)"

section \<open>kernel.h: strings\<close>

definition E2BIG :: int where [errno_defs]: "E2BIG = 7"

definition lcompat_strscpy :: "addr \<Rightarrow> u8 list option \<Rightarrow> u64 \<Rightarrow> (addr \<Rightarrow> u8) \<Rightarrow> int \<times> (addr \<Rightarrow> u8)" where
  "lcompat_strscpy dst src sz m =
     (case src of
        None \<Rightarrow> (- EINVAL, m)
      | Some s \<Rightarrow>
          if dst = 0 then (- EINVAL, m)
          else if sz = 0 then (- E2BIG, m)
          else let len = (if length s \<ge> unat sz then unat sz - 1 else length s);
                   m = store_bytes m dst (take len s)
               in (int len, m(dst + len := 0)))"

definition tolower :: "u8 \<Rightarrow> u8" where
  "tolower c = (if 65 \<le> c \<and> c \<le> 90 then c + 32 else c)"

text \<open>The byte at the end of a string is the terminating zero.\<close>

fun strcasecmp :: "u8 list \<Rightarrow> u8 list \<Rightarrow> int" where
  "strcasecmp [] [] = 0"
| "strcasecmp [] (c2 # s2) = (if tolower c2 \<noteq> 0 then - uint (tolower c2) else 0)"
| "strcasecmp (c1 # s1) [] = (if tolower c1 \<noteq> 0 then uint (tolower c1) else 0)"
| "strcasecmp (c1 # s1) (c2 # s2) =
     (if tolower c1 \<noteq> tolower c2 then uint (tolower c1) - uint (tolower c2)
      else if tolower c1 \<noteq> 0 then strcasecmp s1 s2
      else 0)"

section \<open>err.h\<close>

definition MAX_ERRNO :: u64 where "MAX_ERRNO = 4095"

definition ERR_PTR :: "int \<Rightarrow> u64" where "ERR_PTR error = word_of_int error"

definition PTR_ERR :: "u64 \<Rightarrow> int" where "PTR_ERR ptr = sint ptr"

definition IS_ERR :: "u64 \<Rightarrow> bool" where "IS_ERR ptr = (ptr \<ge> - MAX_ERRNO)"

definition IS_ERR_OR_NULL :: "u64 \<Rightarrow> bool" where "IS_ERR_OR_NULL ptr = (ptr = 0 \<or> IS_ERR ptr)"

definition PTR_ERR_OR_ZERO :: "u64 \<Rightarrow> int" where
  "PTR_ERR_OR_ZERO ptr = (if IS_ERR ptr then PTR_ERR ptr else 0)"

section \<open>atomic.h and refcount.h\<close>

text \<open>Each operation maps the counter to its result and the new counter; it is one indivisible step.\<close>

definition atomic_add_return :: "u32 \<Rightarrow> u32 \<Rightarrow> u32 \<times> u32" where
  "atomic_add_return i v = (v + i, v + i)"

definition atomic_sub_return :: "u32 \<Rightarrow> u32 \<Rightarrow> u32 \<times> u32" where
  "atomic_sub_return i v = (v - i, v - i)"

definition atomic_inc_return :: "u32 \<Rightarrow> u32 \<times> u32" where
  "atomic_inc_return v = atomic_add_return 1 v"

definition atomic_dec_return :: "u32 \<Rightarrow> u32 \<times> u32" where
  "atomic_dec_return v = atomic_sub_return 1 v"

definition atomic_fetch_inc :: "u32 \<Rightarrow> u32 \<times> u32" where
  "atomic_fetch_inc v = (v, v + 1)"

definition atomic_fetch_dec :: "u32 \<Rightarrow> u32 \<times> u32" where
  "atomic_fetch_dec v = (v, v - 1)"

definition atomic_cmpxchg :: "u32 \<Rightarrow> u32 \<Rightarrow> u32 \<Rightarrow> u32 \<times> u32" where
  "atomic_cmpxchg old new_value v = (v, if v = old then new_value else v)"

text \<open>
  The loop of \<^verbatim>\<open>atomic_add_unless\<close>.  Other processors may write the counter between the read and the
  exchange and between two rounds: \<open>rd n\<close> is what round \<open>n\<close> reads, \<open>ex n\<close> what the counter holds when
  its exchange takes place.  The result carries the counter after the last step.
\<close>

partial_function (option) atomic_add_unless_from ::
  "u32 \<Rightarrow> u32 \<Rightarrow> (nat \<Rightarrow> u32) \<Rightarrow> (nat \<Rightarrow> u32) \<Rightarrow> nat \<Rightarrow> (bool \<times> nat \<times> u32) option" where
  "atomic_add_unless_from add unless rd ex n =
     (if rd n = unless then Some (False, n, rd n)
      else if fst (atomic_cmpxchg (rd n) (rd n + add) (ex n)) \<noteq> rd n
      then atomic_add_unless_from add unless rd ex (n + 1)
      else Some (True, n, snd (atomic_cmpxchg (rd n) (rd n + add) (ex n))))"

definition atomic_add_unless :: "u32 \<Rightarrow> u32 \<Rightarrow> (nat \<Rightarrow> u32) \<Rightarrow> (nat \<Rightarrow> u32) \<Rightarrow> (bool \<times> nat \<times> u32) option" where
  "atomic_add_unless add unless rd ex = atomic_add_unless_from add unless rd ex 0"

definition atomic_inc_not_zero :: "(nat \<Rightarrow> u32) \<Rightarrow> (nat \<Rightarrow> u32) \<Rightarrow> (bool \<times> nat \<times> u32) option" where
  "atomic_inc_not_zero rd ex = atomic_add_unless 1 0 rd ex"

definition refcount_inc_not_zero :: "(nat \<Rightarrow> u32) \<Rightarrow> (nat \<Rightarrow> u32) \<Rightarrow> (bool \<times> nat \<times> u32) option" where
  "refcount_inc_not_zero rd ex = atomic_inc_not_zero rd ex"

definition atomic64_set :: "u64 \<Rightarrow> u64 option \<Rightarrow> u64 option" where
  "atomic64_set i v = map_option (\<lambda>_. i) v"

definition atomic64_read :: "u64 option \<Rightarrow> u64" where
  "atomic64_read v = (case v of None \<Rightarrow> 0 | Some c \<Rightarrow> c)"

definition atomic64_inc_return :: "u64 option \<Rightarrow> u64 \<times> u64 option" where
  "atomic64_inc_return v = (case v of None \<Rightarrow> (0, None) | Some c \<Rightarrow> (c + 1, Some (c + 1)))"

section \<open>seqlock.h\<close>

text \<open>A sequence counter; a null counter reads as 0 and never asks for a retry.\<close>

definition seqcount_init :: "u32 option \<Rightarrow> u32 option" where
  "seqcount_init s = map_option (\<lambda>_. 0) s"

definition write_seqcount_begin :: "u32 option \<Rightarrow> u32 option" where
  "write_seqcount_begin s = map_option (\<lambda>q. q + 1) s"

definition write_seqcount_end :: "u32 option \<Rightarrow> u32 option" where
  "write_seqcount_end s = map_option (\<lambda>q. q + 1) s"

definition write_seqcount_invalidate :: "u32 option \<Rightarrow> u32 option" where
  "write_seqcount_invalidate s = map_option (\<lambda>q. q + 1) s"

definition read_seqcount_begin :: "u32 option \<Rightarrow> u32" where
  "read_seqcount_begin s = (case s of None \<Rightarrow> 0 | Some q \<Rightarrow> q)"

definition read_seqcount_retry :: "u32 option \<Rightarrow> u32 \<Rightarrow> bool" where
  "read_seqcount_retry s start = (case s of None \<Rightarrow> False | Some q \<Rightarrow> q \<noteq> start)"

section \<open>wait.h\<close>

text \<open>
  Others make the condition true: \<open>cnd n\<close> is its value at evaluation \<open>n\<close>.  \<open>clk n\<close> is the result of
  clock read \<open>n\<close>.  None is a wait that never ends.
\<close>

partial_function (option) wait_event :: "(nat \<Rightarrow> bool) \<Rightarrow> nat \<Rightarrow> nat option" where
  "wait_event cnd n = (if \<not> cnd n then wait_event cnd (n + 1) else Some n)"

partial_function (option) wait_event_loop :: "(nat \<Rightarrow> bool) \<Rightarrow> (nat \<Rightarrow> u64) \<Rightarrow> nat \<Rightarrow> u64 \<Rightarrow> int option" where
  "wait_event_loop cnd clk n deadline =
     (if cnd n then Some 1
      else if time_after_eq (clk n) deadline then Some 0
      else wait_event_loop cnd clk (n + 1) deadline)"

definition wait_event_timeout :: "(nat \<Rightarrow> bool) \<Rightarrow> (nat \<Rightarrow> u64) \<Rightarrow> int \<Rightarrow> int option" where
  "wait_event_timeout cnd clk timeout =
     (if cnd 0 then Some (if timeout > 0 then timeout else 1)
      else if timeout > 0 then wait_event_loop cnd clk 1 (clk 0 + word_of_int timeout)
      else Some 0)"

section \<open>average.h\<close>

text \<open>The moving average keeps the last value only; \<^verbatim>\<open>precision\<close> and \<^verbatim>\<open>weight_rcp\<close> are not used.\<close>

definition ewma_init :: "u64 option \<Rightarrow> u64 option" where "ewma_init avg = map_option (\<lambda>_. 0) avg"
definition ewma_add :: "u64 \<Rightarrow> u64 option \<Rightarrow> u64 option" where "ewma_add val avg = map_option (\<lambda>_. val) avg"
definition ewma_read :: "u64 option \<Rightarrow> u64" where "ewma_read avg = (case avg of None \<Rightarrow> 0 | Some v \<Rightarrow> v)"

section \<open>Facts\<close>

lemma DIV_ROUND_UP_ceiling:
  fixes n d :: "'a :: len word"
  assumes "0 < d" and "unat n + unat d \<le> 2 ^ LENGTH('a)"
  shows "map_option unat (DIV_ROUND_UP n d) = Some ((unat n + unat d - 1) div unat d)"
proof -
  have d: "0 < unat d" using assms(1) by (simp add: word_gt_0_no unat_gt_0)
  have "n + d - 1 = word_of_nat (unat n + unat d - 1)" using d by (simp add: of_nat_diff)
  then have "unat (n + d - 1) = (unat n + unat d - 1) mod 2 ^ LENGTH('a)"
    by (simp only: unat_of_nat)
  then have "unat (n + d - 1) = unat n + unat d - 1"
    using assms(2) d by (simp del: unat_of_nat)
  then show ?thesis using assms(1) by (auto simp: DIV_ROUND_UP_def unat_div)
qed

lemma clamp_range: "lo \<le> hi \<Longrightarrow> lo \<le> clamp val lo hi \<and> clamp val lo hi \<le> hi"
  by (auto simp: clamp_def lc_min_def lc_max_def)

lemma clamp_inside: "lo \<le> val \<Longrightarrow> val \<le> hi \<Longrightarrow> clamp val lo hi = val"
  by (auto simp: clamp_def lc_min_def lc_max_def)

lemma upper_lower_32_bits: "push_bit 32 (ucast (upper_32_bits n)) OR ucast (lower_32_bits n) = n"
proof -
  have m: "(0xffffffff :: u64) = mask 32" by (simp add: mask_eq_exp_minus_1)
  show ?thesis
    unfolding upper_32_bits_def lower_32_bits_def m by (rule bit_word_eqI) (auto simp: bit_simps)
qed

text \<open>Complementing a word exchanges the counts of ones and zeros.\<close>

lemma hweight32_complement: "hweight32 w + hweight32 (NOT w) = 32"
proof -
  have e: "filter (bit (NOT w)) [0..<32] = filter (\<lambda>i. \<not> bit w i) [0..<32]"
    by (rule filter_cong) (auto simp: bit_not_iff)
  have "length (filter (bit w) [0..<32]) + length (filter (\<lambda>i. \<not> bit w i) [0..<32]) = 32"
    using sum_length_filter_compl [of "bit w" "[0..<32]"] by (simp del: upt_Suc)
  then have "of_nat (length (filter (bit w) [0..<32]) + length (filter (\<lambda>i. \<not> bit w i) [0..<32])) = (32 :: u32)"
    by (simp only:) simp
  then show ?thesis by (simp add: hweight32_def popcount_def word_size e del: upt_Suc)
qed

lemma bcd_roundtrip:
  assumes "v < 100"
  shows "bcd2bin (bin2bcd v) = v"
proof -
  have "\<forall>i < 100. bcd2bin (bin2bcd (word_of_nat i)) = word_of_nat i" by code_simp
  moreover have "unat v < 100" using assms by (simp add: word_less_nat_alt)
  moreover have "word_of_nat (unat v) = v" by (simp add: of_nat_unat ucast_id)
  ultimately show ?thesis by metis
qed

lemma strcasecmp_antisym: "strcasecmp s t = - strcasecmp t s"
  by (induction s t rule: strcasecmp.induct) auto

lemma tolower_eq_0: "tolower c = 0 \<longleftrightarrow> c = 0"
proof
  assume z: "tolower c = 0"
  have "\<forall>i < 256. tolower (word_of_nat i) = 0 \<longrightarrow> i = 0" by code_simp
  then have "unat c = 0" using z by (metis unat_u8_less of_nat_unat ucast_id)
  then show "c = 0" by (simp add: unat_eq_0)
qed (simp add: tolower_def)

lemma strcasecmp_eq_0:
  "0 \<notin> set s \<Longrightarrow> 0 \<notin> set t \<Longrightarrow> strcasecmp s t = 0 \<longleftrightarrow> map tolower s = map tolower t"
  by (induction s t rule: strcasecmp.induct) (auto simp: tolower_eq_0 unsigned_word_eqI uint_0_iff)

lemma err_ptr_roundtrip:
  assumes "1 \<le> e" and "e \<le> 4095"
  shows "IS_ERR (ERR_PTR (- e)) \<and> PTR_ERR (ERR_PTR (- e)) = - e"
proof -
  have u: "uint (ERR_PTR (- e)) = 2 ^ 64 - e"
    unfolding ERR_PTR_def uint_word_of_int using assms by (simp add: zmod_zminus1_eq_if)
  have "sint (ERR_PTR (- e)) = - e"
    unfolding ERR_PTR_def sint_sbintrunc' using assms by (simp add: signed_take_bit_int_eq_self)
  with u show ?thesis
    using assms by (simp add: IS_ERR_def MAX_ERRNO_def PTR_ERR_def word_le_def)
qed

lemma err_ptr_exact: "IS_ERR p \<longleftrightarrow> (\<exists>e. 1 \<le> e \<and> e \<le> 4095 \<and> p = ERR_PTR (- e))"
proof
  assume "IS_ERR p"
  then have "1 \<le> 2 ^ 64 - uint p" "2 ^ 64 - uint p \<le> 4095" 
    using uint_bounded [of p] by (simp_all add: IS_ERR_def MAX_ERRNO_def word_le_def)
  moreover have "p = ERR_PTR (- (2 ^ 64 - uint p))" 
    by (simp add: ERR_PTR_def)
  ultimately show "\<exists>e. 1 \<le> e \<and> e \<le> 4095 \<and> p = ERR_PTR (- e)" by blast
qed (use err_ptr_roundtrip in blast)

text \<open>The bytes at an address up to the first zero.\<close>

definition cstring_at :: "(addr \<Rightarrow> u8) \<Rightarrow> addr \<Rightarrow> u8 list \<Rightarrow> bool" where
  "cstring_at m a s = (0 \<notin> set s \<and> load_bytes m a (length s) = s \<and> m (a + length s) = 0)"

text \<open>
  C36. \<^verbatim>\<open>strscpy\<close> into a buffer of \<open>sz\<close> bytes leaves a terminated string there, the longest prefix of the
  source that fits, returns its length, and writes no byte outside the buffer; with no buffer, no source
  or no room it writes nothing and returns the error.
\<close>

theorem strscpy_bounded:
  "(\<forall>s. src = Some s \<and> 0 \<notin> set s \<and> dst \<noteq> 0 \<and> sz \<noteq> 0 \<longrightarrow>
      (let (r, m') = lcompat_strscpy dst src sz m;
           t = take (unat sz - 1) s
       in r = int (length t) \<and> cstring_at m' dst t \<and>
          (\<forall>a. a < dst \<or> dst + unat sz \<le> a \<longrightarrow> m' a = m a))) \<and>
   (src = None \<or> dst = 0 \<or> sz = 0 \<longrightarrow>
      lcompat_strscpy dst src sz m = (if src = None \<or> dst = 0 then - EINVAL else - E2BIG, m))"
proof (intro conjI allI impI, goal_cases)
  case (1 s)
  define n where "n = length (take (unat sz - 1) s)"
  have sz: "0 < unat sz" using 1 by (simp add: unat_gt_0)
  then have n: "n = (if length s \<ge> unat sz then unat sz - 1 else length s)" "n < unat sz"
    by (auto simp: n_def min_def)
  have t: "take n s = take (unat sz - 1) s" by (simp add: n_def min_def)
  have e: "lcompat_strscpy dst src sz m = (int n, (store_bytes m dst (take n s)) (dst + n := 0))"
    using 1 by (auto simp: lcompat_strscpy_def n(1) Let_def)
  have "load_bytes ((store_bytes m dst (take n s)) (dst + n := 0)) dst n = take n s"
    using n_def by (intro nth_equalityI) (auto simp: store_bytes_def t)
  moreover have "0 \<notin> set (take n s)" using 1 by (meson in_set_takeD)
  ultimately show ?case
    using n n_def unfolding e t [symmetric]
    by (auto simp: cstring_at_def store_bytes_def)
qed (auto simp: lcompat_strscpy_def split: option.splits)

theorem strscpy_bounded_witness:
  "let (r, m') = lcompat_strscpy 100 (Some [0x77, 0x6c, 0x61, 0x6e]) 3 (\<lambda>_. 0xff) in
     r = 2 \<and> cstring_at m' 100 [0x77, 0x6c] \<and> m' 103 = 0xff"
  using strscpy_bounded [of "Some [0x77, 0x6c, 0x61, 0x6e]" 100 3 "\<lambda>_. 0xff"]
  by (auto simp: split_beta)

lemma add_unless_round:
  "rd n = unless \<Longrightarrow> atomic_add_unless_from add unless rd ex n = Some (False, n, unless)"
  "rd n \<noteq> unless \<Longrightarrow> ex n = rd n \<Longrightarrow> atomic_add_unless_from add unless rd ex n = Some (True, n, rd n + add)"
  "rd n \<noteq> unless \<Longrightarrow> ex n \<noteq> rd n \<Longrightarrow> atomic_add_unless_from add unless rd ex n = atomic_add_unless_from add unless rd ex (n + 1)"
  by (subst atomic_add_unless_from.simps; simp add: atomic_cmpxchg_def)+

lemma add_unless_runs:
  "(\<And>i. i < k \<Longrightarrow> rd (n + i) \<noteq> unless \<and> ex (n + i) \<noteq> rd (n + i)) \<Longrightarrow>
   atomic_add_unless_from add unless rd ex n = atomic_add_unless_from add unless rd ex (n + k)"
proof (induction k arbitrary: n)
  case (Suc k)
  have "rd n \<noteq> unless \<and> ex n \<noteq> rd n" using Suc.prems [of 0] by simp
  moreover have "atomic_add_unless_from add unless rd ex (n + 1) = atomic_add_unless_from add unless rd ex (n + 1 + k)"
    using Suc.prems [of "Suc _"] by (intro Suc.IH) simp
  ultimately show ?case by (simp add: add_unless_round(3))
qed simp

text \<open>
  The loop ends in the first round whose read finds the forbidden value or whose exchange meets the value
  read, whatever other processors do; it adds exactly once, to a value other than the forbidden one, or
  not at all.
\<close>

lemma atomic_add_unless_result:
  assumes "rd n = unless \<or> ex n = rd n"
    and "\<And>i. i < n \<Longrightarrow> rd i \<noteq> unless \<and> ex i \<noteq> rd i"
  shows "atomic_add_unless add unless rd ex =
    Some (if rd n = unless then (False, n, unless) else (True, n, ex n + add))"
  using add_unless_runs [of n rd 0 unless ex add] assms add_unless_round
  by (auto simp: atomic_add_unless_def)

text \<open>
  A reader sees a change exactly when a writer made a step between its two reads, up to the wrap-around
  of the 32-bit counter; whether a writer was inside its section at the first read does not matter.
\<close>

lemma seqcount_retry:
  "read_seqcount_retry (((\<lambda>s. write_seqcount_begin s) ^^ k) (Some q)) (read_seqcount_begin (Some q))
     \<longleftrightarrow> (word_of_nat k :: u32) \<noteq> 0"
proof -
  have "((\<lambda>s. write_seqcount_begin s) ^^ k) (Some q) = Some (q + word_of_nat k)"
    by (induction k) (simp_all add: write_seqcount_begin_def add_ac)
  then show ?thesis by (simp add: read_seqcount_retry_def read_seqcount_begin_def)
qed

lemma wait_event_ends:
  "cnd m \<Longrightarrow> n \<le> m \<Longrightarrow> \<exists>k. wait_event cnd n = Some k \<and> n \<le> k \<and> k \<le> m \<and> cnd k"
proof (induction "m - n" arbitrary: n)
  case 0
  then show ?case by (subst wait_event.simps) simp
next
  case (Suc d)
  show ?case
  proof (cases "cnd n")
    case False
    then have "n < m" using Suc by (cases "n = m") auto
    then have "\<exists>k. wait_event cnd (n + 1) = Some k \<and> n + 1 \<le> k \<and> k \<le> m \<and> cnd k"
      using Suc by (intro Suc.hyps(1)) auto
    with False show ?thesis by (subst wait_event.simps) auto
  qed (subst wait_event.simps, use Suc in auto)
qed

lemma wait_event_loop_ends:
  "\<not> time_before (clk m) dl \<Longrightarrow> n \<le> m \<Longrightarrow>
   \<exists>k. n \<le> k \<and> k \<le> m \<and> (wait_event_loop cnd clk n dl = Some 1 \<and> cnd k \<or>
     wait_event_loop cnd clk n dl = Some 0 \<and> \<not> time_before (clk k) dl \<and> (\<forall>i. n \<le> i \<and> i \<le> k \<longrightarrow> \<not> cnd i))"
proof (induction "m - n" arbitrary: n)
  case 0
  then have "n = m" by simp
  with 0 show ?case
    using wait_event_loop.simps [of cnd clk n dl] by (intro exI [of _ m]) (auto simp: time_order(1))
next
  case (Suc d)
  consider "cnd n" | "\<not> cnd n" "\<not> time_before (clk n) dl" | "\<not> cnd n" "time_before (clk n) dl" by blast
  then show ?case
  proof cases
    case 3
    then have "n < m" using Suc by (cases "n = m") auto
    then obtain k where k: "n + 1 \<le> k" "k \<le> m"
      "wait_event_loop cnd clk (n + 1) dl = Some 1 \<and> cnd k \<or>
       wait_event_loop cnd clk (n + 1) dl = Some 0 \<and> \<not> time_before (clk k) dl \<and> (\<forall>i. n + 1 \<le> i \<and> i \<le> k \<longrightarrow> \<not> cnd i)"
      using Suc.hyps(1) [of "n + 1"] Suc.hyps(2) Suc.prems \<open>n < m\<close> by fastforce
    moreover have "wait_event_loop cnd clk n dl = wait_event_loop cnd clk (n + 1) dl"
      using 3 by (subst wait_event_loop.simps) (simp add: time_order(1))
    moreover have "\<not> cnd i" if "n \<le> i" "\<forall>i. n + 1 \<le> i \<and> i \<le> k \<longrightarrow> \<not> cnd i" "i \<le> k" for i
      using that 3 by (cases "i = n") auto
    ultimately show ?thesis by (intro exI [of _ k]) auto
  qed (intro exI [of _ n], use Suc wait_event_loop.simps [of cnd clk n dl] in \<open>auto simp: time_order(1)\<close>)+
qed

text \<open>
  \<^verbatim>\<open>wait_event_timeout\<close> with a positive timeout returns, once the clock has been read at or after the
  deadline at least once, whatever the condition does: a positive number when an evaluation of the
  condition held, and 0 only when every evaluation up to one made with the deadline passed was false.
\<close>

theorem wait_event_timeout_returns:
  assumes "0 < timeout" and "1 \<le> m" and "\<not> time_before (clk m) (clk 0 + word_of_int timeout)"
  shows "\<exists>r k. wait_event_timeout cnd clk timeout = Some r \<and> k \<le> m \<and>
    (0 < r \<and> cnd k \<or>
     r = 0 \<and> 1 \<le> k \<and> \<not> time_before (clk k) (clk 0 + word_of_int timeout) \<and> (\<forall>i \<le> k. \<not> cnd i))"
proof (cases "cnd 0")
  case True
  then show ?thesis using assms by (intro exI [of _ timeout] exI [of _ 0]) (simp add: wait_event_timeout_def)
next
  case False
  obtain k where k: "1 \<le> k" "k \<le> m"
    "wait_event_loop cnd clk 1 (clk 0 + word_of_int timeout) = Some 1 \<and> cnd k \<or>
     wait_event_loop cnd clk 1 (clk 0 + word_of_int timeout) = Some 0 \<and>
       \<not> time_before (clk k) (clk 0 + word_of_int timeout) \<and> (\<forall>i. 1 \<le> i \<and> i \<le> k \<longrightarrow> \<not> cnd i)"
    using wait_event_loop_ends [of clk m, OF assms(3,2)] by blast
  have "\<not> cnd i" if "\<forall>i. 1 \<le> i \<and> i \<le> k \<longrightarrow> \<not> cnd i" "i \<le> k" for i
    using that False by (cases "i = 0") auto
  with k False assms(1) show ?thesis by (auto simp: wait_event_timeout_def intro!: exI [of _ k])
qed

theorem wait_event_timeout_returns_witness:
  "wait_event_timeout (\<lambda>n. False) word_of_nat 5 = Some 0"
proof -
  have "\<not> time_before (word_of_nat 5) (word_of_nat 0 + word_of_int 5)"
    by (simp add: time_before_def time_after_def)
  from wait_event_timeout_returns [of 5 5 word_of_nat "\<lambda>n. False", OF _ _ this] show ?thesis by auto
qed

end
