(* ===== verification/LC_Lock.thy ===== *)
theory LC_Lock
  imports LC_Kernel
begin

text \<open>
  Spin locks and mutexes: \<^verbatim>\<open>lcompat/spinlock.h\<close>, \<^verbatim>\<open>linux/mutex.h\<close> and
  \<^verbatim>\<open>refcount_dec_and_lock_irqsave\<close>.

  Several processors take one lock.  A processor has the preemption counter of its current task (None
  when there is no task), its interrupt flag, the flags word of its caller and the point it has
  reached.  What it does to its own counter and flag is one step, the access to the lock word is
  another.  \<^verbatim>\<open>raw_spin_lock\<close> and \<^verbatim>\<open>raw_spin_unlock\<close> of the host are one exchange of the lock word: the
  first waits until the word is 0 and makes it 1, the second makes it 0.
\<close>

datatype lock_kind = Plain | Irq | Irqsave

datatype lock_pc = LIdle | LWait lock_kind bool | LHeld lock_kind | LLeft lock_kind

record cpu =
  cp_preempt :: "int option"
  cp_irq :: bool
  cp_flags :: bool
  cp_pc :: lock_pc

section \<open>Steps of one processor\<close>

definition preempt_inc :: "cpu \<Rightarrow> cpu" where
  "preempt_inc c = c\<lparr>cp_preempt := map_option (\<lambda>n. n + 1) (cp_preempt c)\<rparr>"

definition preempt_dec :: "cpu \<Rightarrow> cpu" where
  "preempt_dec c = c\<lparr>cp_preempt := map_option (\<lambda>n. n - 1) (cp_preempt c)\<rparr>"

definition lcompat_spin_lock :: "lock_kind \<Rightarrow> cpu \<Rightarrow> cpu" where
  "lcompat_spin_lock k c = (preempt_inc c)\<lparr>cp_pc := LWait k False\<rparr>"

definition lcompat_spin_unlock :: "cpu \<Rightarrow> cpu" where
  "lcompat_spin_unlock c = (preempt_dec c)\<lparr>cp_pc := LIdle\<rparr>"

text \<open>A trylock of a NULL lock returns false at once and touches nothing.\<close>

definition lcompat_spin_trylock :: "bool \<Rightarrow> cpu \<Rightarrow> cpu" where
  "lcompat_spin_trylock is_null c = (if is_null then c else (preempt_inc c)\<lparr>cp_pc := LWait Plain True\<rparr>)"

definition lcompat_spin_trylock_failed :: "cpu \<Rightarrow> cpu" where
  "lcompat_spin_trylock_failed c = (preempt_dec c)\<lparr>cp_pc := LIdle\<rparr>"

definition spin_lock_irq :: "cpu \<Rightarrow> cpu" where
  "spin_lock_irq c = lcompat_spin_lock Irq (c\<lparr>cp_irq := False\<rparr>)"

definition spin_lock_bh :: "cpu \<Rightarrow> cpu" where
  "spin_lock_bh c = lcompat_spin_lock Plain c"

definition spin_unlock_irq :: "cpu \<Rightarrow> cpu" where
  "spin_unlock_irq c = (lcompat_spin_unlock c)\<lparr>cp_irq := True\<rparr>"

definition spin_unlock_bh :: "cpu \<Rightarrow> cpu" where
  "spin_unlock_bh c = lcompat_spin_unlock c"

definition spin_lock_irqsave :: "cpu \<Rightarrow> cpu" where
  "spin_lock_irqsave c =
     (let c = c\<lparr>cp_flags := cp_irq c\<rparr>;
          c = c\<lparr>cp_irq := False\<rparr>
      in lcompat_spin_lock Irqsave c)"

definition spin_unlock_irqrestore :: "cpu \<Rightarrow> cpu" where
  "spin_unlock_irqrestore c =
     (let c = lcompat_spin_unlock c
      in if cp_flags c then c\<lparr>cp_irq := True\<rparr> else c)"

definition spin_is_locked :: "u64 option \<Rightarrow> bool" where
  "spin_is_locked lk = (case lk of None \<Rightarrow> False | Some w \<Rightarrow> w \<noteq> 0)"

definition lock_leave :: "lock_kind \<Rightarrow> cpu \<Rightarrow> cpu" where
  "lock_leave k c = (case k of Plain \<Rightarrow> spin_unlock_bh c | Irq \<Rightarrow> spin_unlock_irq c | Irqsave \<Rightarrow> spin_unlock_irqrestore c)"

definition lock_enter :: "lock_kind \<Rightarrow> bool \<Rightarrow> cpu \<Rightarrow> cpu" where
  "lock_enter k try c =
     (case k of
        Plain \<Rightarrow> if try then lcompat_spin_trylock False c else spin_lock_bh c
      | Irq \<Rightarrow> spin_lock_irq c
      | Irqsave \<Rightarrow> spin_lock_irqsave c)"

section \<open>Several processors\<close>

record lock_sys =
  ls_word :: u64
  ls_cpus :: "cpu list"

text \<open>An idle processor starts to take the lock, or tries to; the other steps have one outcome, and a
  processor waiting in \<^verbatim>\<open>raw_spin_lock\<close> has none while the word is set.\<close>

definition lock_next :: "nat \<Rightarrow> lock_kind \<Rightarrow> bool \<Rightarrow> lock_sys \<Rightarrow> lock_sys option" where
  "lock_next i k try s =
     (if i \<ge> length (ls_cpus s) then None
      else let c = ls_cpus s ! i
           in case cp_pc c of
                LIdle \<Rightarrow> Some (s\<lparr>ls_cpus := (ls_cpus s)[i := lock_enter k try c]\<rparr>)
              | LWait k' t \<Rightarrow>
                  if ls_word s = 0
                  then Some (s\<lparr>ls_word := 1, ls_cpus := (ls_cpus s)[i := c\<lparr>cp_pc := LHeld k'\<rparr>]\<rparr>)
                  else if t
                  then Some (s\<lparr>ls_cpus := (ls_cpus s)[i := lcompat_spin_trylock_failed c]\<rparr>)
                  else None
              | LHeld k' \<Rightarrow> Some (s\<lparr>ls_word := 0, ls_cpus := (ls_cpus s)[i := c\<lparr>cp_pc := LLeft k'\<rparr>]\<rparr>)
              | LLeft k' \<Rightarrow> Some (s\<lparr>ls_cpus := (ls_cpus s)[i := lock_leave k' c]\<rparr>))"

fun lock_run :: "(nat \<times> lock_kind \<times> bool) list \<Rightarrow> lock_sys \<Rightarrow> lock_sys" where
  "lock_run [] s = s"
| "lock_run ((i, k, t) # as) s = lock_run as (case lock_next i k t s of None \<Rightarrow> s | Some s' \<Rightarrow> s')"

definition lock_init :: "(int option \<times> bool) list \<Rightarrow> lock_sys" where
  "lock_init cs = \<lparr>ls_word = 0,
     ls_cpus = map (\<lambda>(p, q). \<lparr>cp_preempt = p, cp_irq = q, cp_flags = False, cp_pc = LIdle\<rparr>) cs\<rparr>"

section \<open>Mutexes\<close>

text \<open>The host's mutex is a value with the four operations of \<^verbatim>\<open>libs/mutex.h\<close>.\<close>

record 'm mutex_host =
  mh_init :: 'm
  mh_lock :: "'m \<Rightarrow> 'm"
  mh_trylock :: "'m \<Rightarrow> bool \<times> 'm"
  mh_unlock :: "'m \<Rightarrow> 'm"

definition lcompat_mutex_is_locked :: "'m mutex_host \<Rightarrow> 'm option \<Rightarrow> bool \<times> 'm option" where
  "lcompat_mutex_is_locked h lk =
     (case lk of
        None \<Rightarrow> (False, None)
      | Some m \<Rightarrow>
          let (ok, m) = mh_trylock h m
          in if \<not> ok then (True, Some m) else (False, Some (mh_unlock h m)))"

section \<open>A counter that takes the lock when it reaches zero\<close>

definition refcount_dec_and_test :: "u32 \<Rightarrow> bool \<times> u32" where
  "refcount_dec_and_test r = (r - 1 = 0, r - 1)"

definition refcount_dec_and_lock_irqsave :: "u32 \<Rightarrow> cpu \<Rightarrow> bool \<times> u32 \<times> cpu" where
  "refcount_dec_and_lock_irqsave r c =
     (let (zero, r) = refcount_dec_and_test r
      in if \<not> zero then (False, r, c) else (True, r, spin_lock_irqsave c))"

section \<open>Invariant\<close>

fun holds_lock :: "lock_pc \<Rightarrow> bool" where
  "holds_lock (LHeld k) = True"
| "holds_lock _ = False"

fun kind_of :: "lock_pc \<Rightarrow> lock_kind" where
  "kind_of (LWait k t) = k" | "kind_of (LHeld k) = k" | "kind_of (LLeft k) = k" | "kind_of LIdle = Plain"

fun try_plain :: "lock_pc \<Rightarrow> bool" where
  "try_plain (LWait k t) = (t \<longrightarrow> k = Plain)"
| "try_plain _ = True"

text \<open>Against the counter \<open>p\<close> the processor started with.\<close>

definition cpu_ok :: "int option \<Rightarrow> cpu \<Rightarrow> bool" where
  "cpu_ok p c =
     (cp_preempt c = map_option (\<lambda>n. if cp_pc c = LIdle then n else n + 1) p \<and>
      (kind_of (cp_pc c) \<noteq> Plain \<longrightarrow> \<not> cp_irq c) \<and> try_plain (cp_pc c))"

definition holders :: "lock_sys \<Rightarrow> nat" where
  "holders s = length (filter (holds_lock \<circ> cp_pc) (ls_cpus s))"

definition lock_inv :: "(int option \<times> bool) list \<Rightarrow> lock_sys \<Rightarrow> bool" where
  "lock_inv cs s =
     (list_all2 (\<lambda>(p, q) c. cpu_ok p c) cs (ls_cpus s) \<and> ls_word s = (if holders s = 0 then 0 else 1) \<and> holders s \<le> 1)"

lemmas lock_ops = preempt_inc_def preempt_dec_def lcompat_spin_lock_def lcompat_spin_unlock_def
  lcompat_spin_trylock_def lcompat_spin_trylock_failed_def spin_lock_irq_def spin_lock_bh_def
  spin_unlock_irq_def spin_unlock_bh_def spin_lock_irqsave_def spin_unlock_irqrestore_def
  lock_leave_def lock_enter_def

lemma filter_update_length:
  "i < length xs \<Longrightarrow> length (filter P (xs[i := y])) + (if P (xs ! i) then 1 else 0) =
     length (filter P xs) + (if P y then 1 else 0)"
proof (induction xs arbitrary: i)
  case (Cons x xs)
  then show ?case by (cases i) (auto simp: Cons.IH)
qed simp

lemma holders_update:
  "i < length (ls_cpus s) \<Longrightarrow>
   holders (s\<lparr>ls_cpus := (ls_cpus s)[i := c]\<rparr>) + (if holds_lock (cp_pc (ls_cpus s ! i)) then 1 else 0) =
   holders s + (if holds_lock (cp_pc c) then 1 else 0)"
  using filter_update_length [of i "ls_cpus s" "holds_lock \<circ> cp_pc" c] by (simp add: holders_def)

lemma holders_word [simp]: "holders (s\<lparr>ls_word := w\<rparr>) = holders s"
  by (simp add: holders_def)

lemma cpu_ok_steps:
  "cpu_ok p c \<Longrightarrow> cp_pc c = LIdle \<Longrightarrow> cpu_ok p (lock_enter k t c)"
  "cpu_ok p c \<Longrightarrow> cp_pc c = LWait k' t \<Longrightarrow> cpu_ok p (c\<lparr>cp_pc := LHeld k'\<rparr>)"
  "cpu_ok p c \<Longrightarrow> cp_pc c = LWait Plain t \<Longrightarrow> cpu_ok p (lcompat_spin_trylock_failed c)"
  "cpu_ok p c \<Longrightarrow> cp_pc c = LHeld k' \<Longrightarrow> cpu_ok p (c\<lparr>cp_pc := LLeft k'\<rparr>)"
  "cpu_ok p c \<Longrightarrow> cp_pc c = LLeft k' \<Longrightarrow> cpu_ok p (lock_leave k' c)"
  by (cases k; cases p; auto simp: cpu_ok_def lock_ops Let_def split: lock_kind.splits)
     (cases p; auto simp: cpu_ok_def lock_ops Let_def split: lock_kind.splits)+


lemma holders_step:
  assumes "i < length (ls_cpus s)" and "holds_lock (cp_pc (ls_cpus s ! i)) = holds_lock (cp_pc c)"
  shows "holders (s\<lparr>ls_cpus := (ls_cpus s)[i := c]\<rparr>) = holders s"
  using holders_update [OF assms(1), of c] assms(2) by auto

lemma lock_inv_update:
  assumes "lock_inv cs s" and "i < length (ls_cpus s)"
    and "\<And>p. cpu_ok p (ls_cpus s ! i) \<Longrightarrow> cpu_ok p c"
    and "s' = s\<lparr>ls_cpus := (ls_cpus s)[i := c]\<rparr> \<and> holds_lock (cp_pc (ls_cpus s ! i)) = holds_lock (cp_pc c) \<or>
         s' = s\<lparr>ls_word := 1, ls_cpus := (ls_cpus s)[i := c]\<rparr> \<and> ls_word s = 0 \<and>
           \<not> holds_lock (cp_pc (ls_cpus s ! i)) \<and> holds_lock (cp_pc c) \<or>
         s' = s\<lparr>ls_word := 0, ls_cpus := (ls_cpus s)[i := c]\<rparr> \<and>
           holds_lock (cp_pc (ls_cpus s ! i)) \<and> \<not> holds_lock (cp_pc c)"
  shows "lock_inv cs s'"
proof -
  have l: "list_all2 (\<lambda>(p, q) c. cpu_ok p c) cs (ls_cpus s)" using assms(1) by (simp add: lock_inv_def)
  then have "case cs ! i of (p, q) \<Rightarrow> cpu_ok p (ls_cpus s ! i)"
    using assms(2) by (auto simp: list_all2_conv_all_nth split: prod.splits)
  then have "list_all2 (\<lambda>(p, q) c. cpu_ok p c) cs ((ls_cpus s)[i := c])"
    using l assms(2,3) by (auto simp: list_all2_conv_all_nth nth_list_update split: prod.splits)
  moreover have "ls_cpus s' = (ls_cpus s)[i := c]" using assms(4) by auto
  moreover have "holders s' = holders (s\<lparr>ls_cpus := (ls_cpus s)[i := c]\<rparr>)"
    using assms(4) by (auto simp: holders_def)
  then have "ls_word s' = (if holders s' = 0 then 0 else 1) \<and> holders s' \<le> 1"
    using assms(1,4) holders_update [OF assms(2), of c]
    by (auto simp: lock_inv_def split: if_splits)
  ultimately show ?thesis by (simp add: lock_inv_def)
qed

lemma lock_next_inv:
  assumes "lock_inv cs s" and "lock_next i k t s = Some s'"
  shows "lock_inv cs s'"
proof (cases "i < length (ls_cpus s)")
  case i: True
  note up = lock_inv_update [OF assms(1) i]
  show ?thesis
  proof (cases "cp_pc (ls_cpus s ! i)")
    case LIdle
    then show ?thesis using assms(2) i
      by (intro up [of "lock_enter k t (ls_cpus s ! i)"] cpu_ok_steps)
         (auto simp: lock_next_def lock_ops Let_def split: lock_kind.splits)
  next
    case (LWait k' t')
    show ?thesis
    proof (cases "ls_word s = 0")
      case True
      then show ?thesis using assms(2) i LWait
        by (intro up [of "(ls_cpus s ! i)\<lparr>cp_pc := LHeld k'\<rparr>"] cpu_ok_steps) (auto simp: lock_next_def)
    next
      case False
      then have t: "t'" "s' = s\<lparr>ls_cpus := (ls_cpus s)[i := lcompat_spin_trylock_failed (ls_cpus s ! i)]\<rparr>"
        using assms(2) i LWait by (auto simp: lock_next_def split: if_splits)
      show ?thesis
      proof (rule up [of "lcompat_spin_trylock_failed (ls_cpus s ! i)"])
        fix p assume ok: "cpu_ok p (ls_cpus s ! i)"
        then have "cp_pc (ls_cpus s ! i) = LWait Plain t'" using LWait t(1) by (simp add: cpu_ok_def)
        then show "cpu_ok p (lcompat_spin_trylock_failed (ls_cpus s ! i))" by (rule cpu_ok_steps(3) [OF ok])
      qed (use t LWait in \<open>simp add: lock_ops\<close>)
    qed
  next
    case (LHeld k')
    then show ?thesis using assms(2) i
      by (intro up [of "(ls_cpus s ! i)\<lparr>cp_pc := LLeft k'\<rparr>"] cpu_ok_steps) (auto simp: lock_next_def)
  next
    case (LLeft k')
    then show ?thesis using assms(2) i
      by (intro up [of "lock_leave k' (ls_cpus s ! i)"] cpu_ok_steps)
         (auto simp: lock_next_def lock_ops Let_def split: lock_kind.splits)
  qed
qed (use assms(2) in \<open>simp add: lock_next_def\<close>)

lemma lock_run_inv: "lock_inv cs s \<Longrightarrow> lock_inv cs (lock_run as s)"
proof (induction as s rule: lock_run.induct)
  case (2 i k t as s)
  then show ?case using lock_next_inv [of cs s i k t] by (auto split: option.splits)
qed simp

lemma lock_init_inv: "lock_inv cs (lock_init cs)"
  by (auto simp: lock_inv_def lock_init_def holders_def list_all2_conv_all_nth cpu_ok_def filter_empty_conv
     option.map_ident split: prod.splits)

section \<open>Properties\<close>

text \<open>
  C14. In every interleaving of any number of processors taking, trying and leaving a spin lock, at most one
  holds it and the lock word is set exactly then; the preemption counter of every task is one above
  its start from before the lock is waited for until after it is free again, and back at its start
  otherwise; and interrupts are off on a processor that waits for or holds the lock with
  \<^verbatim>\<open>spin_lock_irq\<close> or \<^verbatim>\<open>spin_lock_irqsave\<close>.
\<close>

theorem spin_lock_exclusive:
  "let s = lock_run as (lock_init cs) in
     length (ls_cpus s) = length cs \<and>
     holders s = (if ls_word s = 0 then 0 else 1) \<and>
     (\<forall>i < length cs. let c = ls_cpus s ! i in
        cp_preempt c = map_option (\<lambda>n. if cp_pc c = LIdle then n else n + 1) (fst (cs ! i)) \<and>
        (cp_irq c \<longrightarrow> kind_of (cp_pc c) = Plain))"
proof -
  have inv: "lock_inv cs (lock_run as (lock_init cs))" by (rule lock_run_inv [OF lock_init_inv])
  then have l: "list_all2 (\<lambda>(p, q) c. cpu_ok p c) cs (ls_cpus (lock_run as (lock_init cs)))"
    by (simp add: lock_inv_def)
  have "cpu_ok (fst (cs ! i)) (ls_cpus (lock_run as (lock_init cs)) ! i)" if "i < length cs" for i
    using list_all2_nthD [OF l that] by (simp add: split_beta)
  moreover have "length (ls_cpus (lock_run as (lock_init cs))) = length cs"
    using list_all2_lengthD [OF l] by simp
  moreover have "holders (lock_run as (lock_init cs)) = (if ls_word (lock_run as (lock_init cs)) = 0 then 0 else 1)"
    using inv by (auto simp: lock_inv_def split: if_splits)
  ultimately show ?thesis by (auto simp: Let_def cpu_ok_def)
qed

text \<open>A failed attempt, then the other processor leaves and the first gets the lock.\<close>

definition lock_demo :: lock_sys where
  "lock_demo = lock_run [(0, Irqsave, False), (0, Plain, False), (1, Plain, True), (1, Plain, True),
      (1, Irq, False), (0, Plain, False), (1, Plain, False)] (lock_init [(Some 0, True), (Some 3, True)])"

theorem spin_lock_exclusive_witness:
  "holders lock_demo = 1 \<and> cp_preempt (ls_cpus lock_demo ! 1) = Some 4"
proof -
  have "ls_word lock_demo \<noteq> 0 \<and> cp_pc (ls_cpus lock_demo ! 1) \<noteq> LIdle" by code_simp
  moreover have "holders lock_demo = (if ls_word lock_demo = 0 then 0 else 1) \<and>
     cp_preempt (ls_cpus lock_demo ! 1) =
       map_option (\<lambda>n. if cp_pc (ls_cpus lock_demo ! 1) = LIdle then n else n + 1) (Some 3)"
    using spin_lock_exclusive [of "[(0, Irqsave, False), (0, Plain, False), (1, Plain, True), (1, Plain, True),
      (1, Irq, False), (0, Plain, False), (1, Plain, False)]" "[(Some 0, True), (Some 3, True)]"]
    unfolding lock_demo_def [symmetric] Let_def by simp
  ultimately show ?thesis by simp
qed

text \<open>
  Leaving puts the interrupt flag back: to its value before \<^verbatim>\<open>spin_lock_irqsave\<close>, while
  \<^verbatim>\<open>spin_unlock_irq\<close> turns interrupts on whatever they were.
\<close>

lemma irqsave_restores:
  "cp_irq (spin_unlock_irqrestore ((spin_lock_irqsave c)\<lparr>cp_pc := p\<rparr>)) = cp_irq c"
  "cp_irq (spin_unlock_irq ((spin_lock_irq c)\<lparr>cp_pc := p\<rparr>))"
  by (simp_all add: lock_ops Let_def)

text \<open>The test of a mutex leaves it as it was, for a host whose unlock undoes a successful try.\<close>

lemma mutex_is_locked_same:
  assumes "\<And>m. fst (mh_trylock h m) \<Longrightarrow> mh_unlock h (snd (mh_trylock h m)) = m"
    and "\<And>m. \<not> fst (mh_trylock h m) \<Longrightarrow> snd (mh_trylock h m) = m"
  shows "lcompat_mutex_is_locked h (Some m) = (\<not> fst (mh_trylock h m), Some m)"
  using assms by (cases "mh_trylock h m") (auto simp: lcompat_mutex_is_locked_def, (metis fst_conv snd_conv)+)

end
