(* ===== verification/LC_Fence.thy ===== *)
theory LC_Fence
  imports LC_List LC_Lock
begin

text \<open>
  Reference counts, fences and reservation objects: \<^verbatim>\<open>linux/kref.h\<close>, \<^verbatim>\<open>linux/dma-fence.h\<close> and
  \<^verbatim>\<open>linux/dma-resv.h\<close>.

  A fence, a callback and a reservation object are named by numbers; the callback list of a fence is a
  ring of \<^verbatim>\<open>list.h\<close> whose head is the node \<open>fe_head\<close> and whose entries are the nodes of the
  callbacks.  The three operations of the host on a counter are the parameter \<open>kref_host\<close>.  The
  operations a fence's owner supplies are in \<open>fence_ops\<close>: the answer of \<^verbatim>\<open>signaled\<close> is an arbitrary
  function of the log, and every call that leaves the code is recorded in the log, newest first.  A
  result of None is a call through a null \<^verbatim>\<open>ops\<close>.
\<close>

section \<open>kref.h\<close>

record kref_host =
  kh_set :: "int \<Rightarrow> int"
  kh_ref :: "int \<Rightarrow> int"
  kh_unref :: "int \<Rightarrow> int"

definition kref_init :: "kref_host \<Rightarrow> int" where
  "kref_init h = kh_set h 1"

definition kref_get_unless_zero :: "kref_host \<Rightarrow> int option \<Rightarrow> bool \<times> int option" where
  "kref_get_unless_zero h k =
     (case k of
        None \<Rightarrow> (False, None)
      | Some n \<Rightarrow> if n \<le> 0 then (False, Some n) else (True, Some (kh_ref h n)))"

definition kref_read :: "int option \<Rightarrow> int" where
  "kref_read k = (case k of None \<Rightarrow> 0 | Some n \<Rightarrow> n)"

text \<open>
  \<^verbatim>\<open>kref_put\<close> counts down and then reads the counter again: two steps, between which other tasks may
  run.  The second answers the result and whether \<^verbatim>\<open>release\<close> is called; \<open>rel\<close> says it is not null.
\<close>

definition kref_drop :: "kref_host \<Rightarrow> int \<Rightarrow> int" where
  "kref_drop h n = kh_unref h n"

definition kref_check :: "bool \<Rightarrow> int \<Rightarrow> int \<times> bool" where
  "kref_check rel n = (if n = 0 then (1, rel) else (0, False))"

definition kref_put :: "kref_host \<Rightarrow> bool \<Rightarrow> int \<Rightarrow> int \<times> int \<times> bool" where
  "kref_put h rel n = (let n = kref_drop h n; (r, call) = kref_check rel n in (r, n, call))"

definition host_counts :: "kref_host \<Rightarrow> bool" where
  "host_counts h = ((\<forall>n. kh_set h n = n) \<and> (\<forall>n. kh_ref h n = n + 1) \<and> (\<forall>n. kh_unref h n = n - 1))"

section \<open>dma-fence.h\<close>

datatype fence_event = EvSignaled nat | EvRelease nat | EvCallback nat nat nat

record fence_ops =
  fo_signaled :: "(fence_event list \<Rightarrow> bool) option"
  fo_release :: bool

record dma_fence =
  fe_ops :: "fence_ops option"
  fe_head :: nat
  fe_refcount :: int
  fe_context :: u64
  fe_seqno :: u64
  fe_flags :: u64
  fe_error :: int
  fe_timestamp :: u64

record dma_resv =
  rs_fence :: "nat option"
  rs_locking_ctx :: addr

text \<open>\<open>fs_links\<close> are the links of all list nodes, \<open>fs_func\<close> the function of each callback, None for NULL.\<close>

record fst_state =
  fs_host :: kref_host
  fs_fences :: "nat \<Rightarrow> dma_fence option"
  fs_resvs :: "dma_resv list"
  fs_links :: dlinks
  fs_func :: "nat \<Rightarrow> nat option"
  fs_log :: "fence_event list"

definition DMA_FENCE_FLAG_SIGNALED_BIT :: nat where "DMA_FENCE_FLAG_SIGNALED_BIT = 0"
definition DMA_FENCE_FLAG_TIMESTAMP_BIT :: nat where "DMA_FENCE_FLAG_TIMESTAMP_BIT = 2"

definition upd_fence :: "nat \<Rightarrow> (dma_fence \<Rightarrow> dma_fence) \<Rightarrow> fst_state \<Rightarrow> fst_state" where
  "upd_fence f g s = s\<lparr>fs_fences := (fs_fences s)(f := map_option g (fs_fences s f))\<rparr>"

definition dma_fence_init :: "nat option \<Rightarrow> nat \<Rightarrow> fence_ops option \<Rightarrow> u64 \<Rightarrow> u64 \<Rightarrow> fst_state \<Rightarrow> fst_state" where
  "dma_fence_init fence head ops ctx seqno s =
     (case fence of
        None \<Rightarrow> s
      | Some f \<Rightarrow>
          s\<lparr>fs_fences := (fs_fences s)(f := Some
               \<lparr>fe_ops = ops, fe_head = head, fe_refcount = kref_init (fs_host s), fe_context = ctx,
                fe_seqno = seqno, fe_flags = 0, fe_error = 0, fe_timestamp = 0\<rparr>),
            fs_links := INIT_LIST_HEAD head (fs_links s)\<rparr>)"

definition dma_fence_get :: "nat option \<Rightarrow> fst_state \<Rightarrow> nat option \<times> fst_state" where
  "dma_fence_get fence s =
     (fence,
      case fence of
        None \<Rightarrow> s
      | Some f \<Rightarrow> upd_fence f (\<lambda>x. x\<lparr>fe_refcount := kh_ref (fs_host s) (fe_refcount x)\<rparr>) s)"

definition dma_fence_get_rcu :: "nat option \<Rightarrow> fst_state \<Rightarrow> nat option \<times> fst_state" where
  "dma_fence_get_rcu fence s = dma_fence_get fence s"

definition dma_fence_get_rcu_safe :: "nat option option \<Rightarrow> fst_state \<Rightarrow> nat option \<times> fst_state" where
  "dma_fence_get_rcu_safe fencep s =
     (case fencep of None \<Rightarrow> (None, s) | Some fence \<Rightarrow> dma_fence_get fence s)"

text \<open>A put in its two steps, and uninterrupted.\<close>

definition dma_fence_drop :: "nat \<Rightarrow> fst_state \<Rightarrow> fst_state option" where
  "dma_fence_drop f s =
     Option.bind (fs_fences s f) (\<lambda>x.
     Option.bind (fe_ops x) (\<lambda>ops. Some (upd_fence f (\<lambda>x. x\<lparr>fe_refcount := kref_drop (fs_host s) (fe_refcount x)\<rparr>) s)))"

definition dma_fence_check :: "nat \<Rightarrow> fst_state \<Rightarrow> fst_state option" where
  "dma_fence_check f s =
     Option.bind (fs_fences s f) (\<lambda>x.
     Option.bind (fe_ops x) (\<lambda>ops.
       Some (if snd (kref_check (fo_release ops) (fe_refcount x)) then s\<lparr>fs_log := EvRelease f # fs_log s\<rparr> else s)))"

definition dma_fence_put :: "nat option \<Rightarrow> fst_state \<Rightarrow> fst_state option" where
  "dma_fence_put fence s =
     (case fence of None \<Rightarrow> Some s | Some f \<Rightarrow> Option.bind (dma_fence_drop f s) (dma_fence_check f))"

definition dma_fence_is_signaled :: "nat option \<Rightarrow> fst_state \<Rightarrow> bool \<times> fst_state" where
  "dma_fence_is_signaled fence s =
     (case fence of
        None \<Rightarrow> (True, s)
      | Some f \<Rightarrow>
          case fs_fences s f of
            None \<Rightarrow> (False, s)
          | Some x \<Rightarrow>
              if test_bit DMA_FENCE_FLAG_SIGNALED_BIT (fe_flags x) then (True, s)
              else case Option.bind (fe_ops x) fo_signaled of
                     Some sig \<Rightarrow> (sig (fs_log s), s\<lparr>fs_log := EvSignaled f # fs_log s\<rparr>)
                   | None \<Rightarrow> (False, s))"

definition dma_fence_wait :: "nat option \<Rightarrow> fst_state \<Rightarrow> int \<times> fst_state" where
  "dma_fence_wait fence s =
     (let (sig, s) = dma_fence_is_signaled fence s in (if sig then 0 else - 1, s))"

definition dma_fence_add_callback :: "nat option \<Rightarrow> nat option \<Rightarrow> nat option \<Rightarrow> fst_state \<Rightarrow> int \<times> fst_state" where
  "dma_fence_add_callback fence cb func s =
     (case (fence, cb) of
        (Some f, Some c) \<Rightarrow>
          (let s = s\<lparr>fs_func := (fs_func s)(c := func)\<rparr>;
               s = s\<lparr>fs_links := INIT_LIST_HEAD c (fs_links s)\<rparr>;
               s = s\<lparr>fs_links := list_add_tail c (case fs_fences s f of None \<Rightarrow> 0 | Some x \<Rightarrow> fe_head x) (fs_links s)\<rparr>;
               (sig, s) = dma_fence_is_signaled fence s
           in (0, case func of
                    Some g \<Rightarrow> if sig then s\<lparr>fs_log := EvCallback g f c # fs_log s\<rparr> else s
                  | None \<Rightarrow> s))
      | _ \<Rightarrow> (- 1, s))"

definition dma_fence_remove_callback :: "nat option \<Rightarrow> nat option \<Rightarrow> fst_state \<Rightarrow> bool \<times> fst_state" where
  "dma_fence_remove_callback fence cb s =
     (case cb of
        None \<Rightarrow> (False, s)
      | Some c \<Rightarrow> (True, s\<lparr>fs_links := list_del_init c (fs_links s)\<rparr>))"

text \<open>\<open>now\<close> is the value of \<^verbatim>\<open>ktime_get\<close>.\<close>

definition dma_fence_signal :: "u64 \<Rightarrow> nat option \<Rightarrow> fst_state \<Rightarrow> fst_state" where
  "dma_fence_signal now fence s =
     (case fence of
        None \<Rightarrow> s
      | Some f \<Rightarrow>
          let s = upd_fence f (\<lambda>x. x\<lparr>fe_flags := set_bit DMA_FENCE_FLAG_SIGNALED_BIT (fe_flags x)\<rparr>) s;
              s = upd_fence f (\<lambda>x. x\<lparr>fe_flags := set_bit DMA_FENCE_FLAG_TIMESTAMP_BIT (fe_flags x)\<rparr>) s
          in upd_fence f (\<lambda>x. x\<lparr>fe_timestamp := now\<rparr>) s)"

definition dma_fence_is_later :: "dma_fence option \<Rightarrow> dma_fence option \<Rightarrow> bool" where
  "dma_fence_is_later fence other =
     (case (fence, other) of (Some a, Some b) \<Rightarrow> fe_seqno a > fe_seqno b | _ \<Rightarrow> False)"

section \<open>dma-resv.h\<close>

datatype dma_resv_usage = DMA_RESV_USAGE_KERNEL | DMA_RESV_USAGE_WRITE | DMA_RESV_USAGE_READ | DMA_RESV_USAGE_BOOKKEEP

definition dma_resv_usage_rw :: "bool \<Rightarrow> dma_resv_usage" where
  "dma_resv_usage_rw wr = (if wr then DMA_RESV_USAGE_WRITE else DMA_RESV_USAGE_READ)"

definition upd_resv :: "nat \<Rightarrow> (dma_resv \<Rightarrow> dma_resv) \<Rightarrow> fst_state \<Rightarrow> fst_state" where
  "upd_resv r g s = s\<lparr>fs_resvs := (fs_resvs s)[r := g (fs_resvs s ! r)]\<rparr>"

definition resv_fence :: "fst_state \<Rightarrow> nat \<Rightarrow> nat option" where
  "resv_fence s r = rs_fence (fs_resvs s ! r)"

definition dma_resv_init :: "nat option \<Rightarrow> fst_state \<Rightarrow> fst_state" where
  "dma_resv_init resv s =
     (case resv of None \<Rightarrow> s | Some r \<Rightarrow> upd_resv r (\<lambda>x. x\<lparr>rs_fence := None, rs_locking_ctx := 0\<rparr>) s)"

definition dma_resv_fini :: "nat option \<Rightarrow> fst_state \<Rightarrow> fst_state option" where
  "dma_resv_fini resv s =
     (case resv of
        None \<Rightarrow> Some s
      | Some r \<Rightarrow>
          Option.bind (dma_fence_put (resv_fence s r) s) (\<lambda>s.
            Some (upd_resv r (\<lambda>x. x\<lparr>rs_fence := None\<rparr>) s)))"

definition dma_resv_lock :: "nat option \<Rightarrow> addr \<Rightarrow> fst_state \<Rightarrow> int \<times> fst_state" where
  "dma_resv_lock resv ctx s =
     (0, case resv of None \<Rightarrow> s | Some r \<Rightarrow> upd_resv r (\<lambda>x. x\<lparr>rs_locking_ctx := ctx\<rparr>) s)"

definition dma_resv_lock_interruptible :: "nat option \<Rightarrow> addr \<Rightarrow> fst_state \<Rightarrow> int \<times> fst_state" where
  "dma_resv_lock_interruptible resv ctx s = dma_resv_lock resv ctx s"

definition dma_resv_lock_slow :: "nat option \<Rightarrow> addr \<Rightarrow> fst_state \<Rightarrow> int \<times> fst_state" where
  "dma_resv_lock_slow resv ctx s = dma_resv_lock resv ctx s"

definition dma_resv_lock_slow_interruptible :: "nat option \<Rightarrow> addr \<Rightarrow> fst_state \<Rightarrow> int \<times> fst_state" where
  "dma_resv_lock_slow_interruptible resv ctx s = dma_resv_lock resv ctx s"

definition dma_resv_unlock :: "nat option \<Rightarrow> fst_state \<Rightarrow> fst_state" where
  "dma_resv_unlock resv s =
     (case resv of None \<Rightarrow> s | Some r \<Rightarrow> upd_resv r (\<lambda>x. x\<lparr>rs_locking_ctx := 0\<rparr>) s)"

definition dma_resv_trylock :: "nat option \<Rightarrow> fst_state \<Rightarrow> bool \<times> fst_state" where
  "dma_resv_trylock resv s = (True, s)"

definition dma_resv_locking_ctx :: "nat option \<Rightarrow> fst_state \<Rightarrow> addr" where
  "dma_resv_locking_ctx resv s = (case resv of None \<Rightarrow> 0 | Some r \<Rightarrow> rs_locking_ctx (fs_resvs s ! r))"

definition dma_resv_reserve_fences :: "nat option \<Rightarrow> u32 \<Rightarrow> fst_state \<Rightarrow> int \<times> fst_state" where
  "dma_resv_reserve_fences resv num s = (0, s)"

definition dma_resv_add_fence :: "nat option \<Rightarrow> nat option \<Rightarrow> dma_resv_usage \<Rightarrow> fst_state \<Rightarrow> fst_state option" where
  "dma_resv_add_fence resv fence usage s =
     (case resv of
        None \<Rightarrow> Some s
      | Some r \<Rightarrow>
          Option.bind (dma_fence_put (resv_fence s r) s) (\<lambda>s.
            let (f, s) = dma_fence_get fence s
            in Some (upd_resv r (\<lambda>x. x\<lparr>rs_fence := f\<rparr>) s)))"

definition dma_resv_test_signaled :: "nat option \<Rightarrow> dma_resv_usage \<Rightarrow> fst_state \<Rightarrow> bool \<times> fst_state" where
  "dma_resv_test_signaled resv usage s =
     (case resv of
        None \<Rightarrow> (True, s)
      | Some r \<Rightarrow> if resv_fence s r = None then (True, s) else dma_fence_is_signaled (resv_fence s r) s)"

text \<open>The flag says that the caller's pointer is null.\<close>

definition dma_resv_get_singleton :: "nat option \<Rightarrow> bool \<Rightarrow> fst_state \<Rightarrow> int \<times> nat option \<times> fst_state" where
  "dma_resv_get_singleton resv is_null s =
     (if is_null then (- 1, None, s)
      else let (f, s) = (case resv of None \<Rightarrow> (None, s) | Some r \<Rightarrow> dma_fence_get (resv_fence s r) s)
           in (0, f, s))"

definition dma_resv_wait_timeout :: "nat option \<Rightarrow> dma_resv_usage \<Rightarrow> u64 \<Rightarrow> fst_state \<Rightarrow> int \<times> fst_state" where
  "dma_resv_wait_timeout resv usage timeout s =
     (let (sig, s) = dma_resv_test_signaled resv usage s in (if sig then sint timeout else 0, s))"

record dma_resv_iter =
  it_resv :: "nat option"
  it_fence :: "nat option"
  it_usage :: dma_resv_usage
  it_done :: bool

definition dma_resv_iter_begin :: "nat option \<Rightarrow> dma_resv_usage \<Rightarrow> fst_state \<Rightarrow> dma_resv_iter" where
  "dma_resv_iter_begin resv usage s =
     \<lparr>it_resv = resv, it_fence = (case resv of None \<Rightarrow> None | Some r \<Rightarrow> resv_fence s r), it_usage = usage, it_done = False\<rparr>"

definition dma_resv_iter_usage :: "dma_resv_iter option \<Rightarrow> dma_resv_usage" where
  "dma_resv_iter_usage iter = (case iter of None \<Rightarrow> DMA_RESV_USAGE_KERNEL | Some i \<Rightarrow> it_usage i)"

text \<open>The fences the body of the loop sees.\<close>

function dma_resv_for_each_from :: "dma_resv_iter \<Rightarrow> nat option \<Rightarrow> nat list" where
  "dma_resv_for_each_from iter fence =
     (if \<not> it_done iter \<and> fence \<noteq> None
      then the fence # dma_resv_for_each_from (iter\<lparr>it_done := True\<rparr>) None
      else [])"
  by pat_completeness auto
termination by (relation "measure (\<lambda>(i, f). if f = None then 0 else 1)") auto

declare dma_resv_for_each_from.simps [simp del]

definition dma_resv_for_each_fence :: "nat option \<Rightarrow> dma_resv_usage \<Rightarrow> fst_state \<Rightarrow> nat list" where
  "dma_resv_for_each_fence resv usage s =
     (let iter = dma_resv_iter_begin resv usage s in dma_resv_for_each_from iter (it_fence iter))"

definition dma_resv_for_each_fence_unlocked :: "dma_resv_iter \<Rightarrow> nat list" where
  "dma_resv_for_each_fence_unlocked iter = dma_resv_for_each_from iter (it_fence iter)"

section \<open>Clients\<close>

text \<open>
  What the users of fences may do, in any interleaving.  A put of a client is two steps, \<open>FDrop\<close> and
  \<open>FCheck\<close>; the operations of a reservation object, which its lock protects, run whole.  \<open>cl_refs\<close>
  counts the references the clients hold, \<open>cl_puts\<close> the puts between their two steps, and \<open>cl_busy\<close>
  remembers how many puts of a fence were at most under way at once.  Clients pass on only fences they
  hold, and initialise a fence once.
\<close>

record clients =
  cl_refs :: "nat \<Rightarrow> nat"
  cl_puts :: "nat \<Rightarrow> nat"
  cl_busy :: "nat \<Rightarrow> nat"

datatype fence_act =
    FInit nat nat fence_ops u64 u64
  | FGet nat
  | FDrop nat
  | FCheck nat
  | FSignal u64 nat
  | FTest nat
  | RAdd nat "nat option" dma_resv_usage
  | RFini nat
  | RSingleton nat
  | RLock nat addr

fun fence_legal :: "fence_act \<Rightarrow> fst_state \<Rightarrow> clients \<Rightarrow> bool" where
  "fence_legal (FInit f h ops ctx n) s c = (fs_fences s f = None)"
| "fence_legal (FGet f) s c = (cl_refs c f > 0)"
| "fence_legal (FDrop f) s c = (cl_refs c f > 0)"
| "fence_legal (FCheck f) s c = (cl_puts c f > 0)"
| "fence_legal (FSignal now f) s c = (cl_refs c f > 0)"
| "fence_legal (FTest f) s c = (cl_refs c f > 0)"
| "fence_legal (RAdd r f u) s c = (r < length (fs_resvs s) \<and> (f \<noteq> None \<longrightarrow> cl_refs c (the f) > 0))"
| "fence_legal (RFini r) s c = (r < length (fs_resvs s))"
| "fence_legal (RSingleton r) s c = (r < length (fs_resvs s))"
| "fence_legal (RLock r ctx) s c = (r < length (fs_resvs s))"

definition busy_with :: "nat option \<Rightarrow> clients \<Rightarrow> nat \<Rightarrow> nat" where
  "busy_with v c f = (if v = Some f then max (cl_busy c f) (cl_puts c f + 1) else cl_busy c f)"

fun fence_do :: "fence_act \<Rightarrow> fst_state \<Rightarrow> clients \<Rightarrow> (fst_state \<times> clients) option" where
  "fence_do (FInit f h ops ctx n) s c =
     Some (dma_fence_init (Some f) h (Some ops) ctx n s, c\<lparr>cl_refs := (cl_refs c)(f := 1)\<rparr>)"
| "fence_do (FGet f) s c =
     Some (snd (dma_fence_get (Some f) s), c\<lparr>cl_refs := (cl_refs c)(f := cl_refs c f + 1)\<rparr>)"
| "fence_do (FDrop f) s c =
     map_option (\<lambda>s. (s, c\<lparr>cl_refs := (cl_refs c)(f := cl_refs c f - 1), cl_puts := (cl_puts c)(f := cl_puts c f + 1),
       cl_busy := busy_with (Some f) c\<rparr>)) (dma_fence_drop f s)"
| "fence_do (FCheck f) s c =
     map_option (\<lambda>s. (s, c\<lparr>cl_puts := (cl_puts c)(f := cl_puts c f - 1)\<rparr>)) (dma_fence_check f s)"
| "fence_do (FSignal now f) s c = Some (dma_fence_signal now (Some f) s, c)"
| "fence_do (FTest f) s c = Some (snd (dma_fence_is_signaled (Some f) s), c)"
| "fence_do (RAdd r f u) s c =
     map_option (\<lambda>s'. (s', c\<lparr>cl_busy := busy_with (resv_fence s r) c\<rparr>)) (dma_resv_add_fence (Some r) f u s)"
| "fence_do (RFini r) s c =
     map_option (\<lambda>s'. (s', c\<lparr>cl_busy := busy_with (resv_fence s r) c\<rparr>)) (dma_resv_fini (Some r) s)"
| "fence_do (RSingleton r) s c =
     (case dma_resv_get_singleton (Some r) False s of
        (_, None, s) \<Rightarrow> Some (s, c)
      | (_, Some f, s) \<Rightarrow> Some (s, c\<lparr>cl_refs := (cl_refs c)(f := cl_refs c f + 1)\<rparr>))"
| "fence_do (RLock r ctx) s c = Some (snd (dma_resv_lock (Some r) ctx s), c)"

text \<open>A step the clients may not take is left out.  None is a call through a null pointer.\<close>

fun fence_run :: "fence_act list \<Rightarrow> fst_state \<times> clients \<Rightarrow> (fst_state \<times> clients) option" where
  "fence_run [] (s, c) = Some (s, c)"
| "fence_run (a # as) (s, c) =
     (if fence_legal a s c then Option.bind (fence_do a s c) (fence_run as) else fence_run as (s, c))"

definition no_clients :: clients where
  "no_clients = \<lparr>cl_refs = (\<lambda>_. 0), cl_puts = (\<lambda>_. 0), cl_busy = (\<lambda>_. 0)\<rparr>"

definition fence_start :: "kref_host \<Rightarrow> nat \<Rightarrow> fst_state" where
  "fence_start h n = \<lparr>fs_host = h, fs_fences = (\<lambda>_. None),
     fs_resvs = replicate n \<lparr>rs_fence = None, rs_locking_ctx = 0\<rparr>,
     fs_links = \<lparr>dl_next = (\<lambda>x. x), dl_prev = (\<lambda>x. x)\<rparr>, fs_func = (\<lambda>_. None), fs_log = []\<rparr>"

section \<open>References are counted\<close>

definition slots :: "fst_state \<Rightarrow> nat \<Rightarrow> nat" where
  "slots s f = length (filter (\<lambda>r. rs_fence r = Some f) (fs_resvs s))"

definition releases :: "fst_state \<Rightarrow> nat \<Rightarrow> nat" where
  "releases s f = length (filter (\<lambda>e. e = EvRelease f) (fs_log s))"

text \<open>
  Fence \<open>f\<close> has \<open>n\<close> references and \<open>p\<close> puts that have still to look at the counter, at most \<open>b\<close> at
  once so far: each of them that looks when no reference is left releases the fence.
\<close>

definition fence_refs :: "fst_state \<Rightarrow> nat \<Rightarrow> nat \<Rightarrow> nat \<Rightarrow> nat \<Rightarrow> bool" where
  "fence_refs s f n p b =
     (case fs_fences s f of
        None \<Rightarrow> n = 0 \<and> p = 0 \<and> releases s f = 0
      | Some x \<Rightarrow> fe_refcount x = int n \<and> fe_ops x \<noteq> None \<and> p \<le> b \<and>
          (n > 0 \<or> \<not> fo_release (the (fe_ops x)) \<longrightarrow> releases s f = 0) \<and>
          (n = 0 \<and> fo_release (the (fe_ops x)) \<longrightarrow> 1 \<le> releases s f + p \<and> releases s f + p \<le> b))"

definition fence_inv :: "fst_state \<Rightarrow> clients \<Rightarrow> bool" where
  "fence_inv s c = (host_counts (fs_host s) \<and>
     (\<forall>f. fence_refs s f (cl_refs c f + slots s f) (cl_puts c f) (cl_busy c f)))"

text \<open>The parts of the state a step on fence \<open>f\<close> leaves alone.\<close>

definition fence_frame :: "nat \<Rightarrow> fst_state \<Rightarrow> fst_state \<Rightarrow> bool" where
  "fence_frame f s s' = (fs_host s' = fs_host s \<and> fs_resvs s' = fs_resvs s \<and>
     (\<forall>g. g \<noteq> f \<longrightarrow> fs_fences s' g = fs_fences s g \<and> releases s' g = releases s g))"

lemma upd_fence_simps [simp]:
  "fs_fences (upd_fence f g s) = (fs_fences s)(f := map_option g (fs_fences s f))"
  "fs_resvs (upd_fence f g s) = fs_resvs s" "fs_host (upd_fence f g s) = fs_host s"
  "fs_log (upd_fence f g s) = fs_log s" "releases (upd_fence f g s) k = releases s k" "slots (upd_fence f g s) k = slots s k"
  by (auto simp: upd_fence_def releases_def slots_def fun_eq_iff)

lemma slots_resvs: "fs_resvs s' = fs_resvs s \<Longrightarrow> slots s' = slots s"
  by (simp add: slots_def fun_eq_iff)

lemma fence_get_refs:
  assumes "host_counts (fs_host s)" and "fence_refs s f n p b" and "0 < n"
  shows "fence_refs (snd (dma_fence_get (Some f) s)) f (n + 1) p b \<and> fence_frame f s (snd (dma_fence_get (Some f) s))"
  using assms by (auto simp: dma_fence_get_def fence_refs_def fence_frame_def host_counts_def split: option.splits)

lemma fence_drop_refs:
  assumes h: "host_counts (fs_host s)" and r: "fence_refs s f (Suc n) p b"
  shows "\<exists>s'. dma_fence_drop f s = Some s' \<and> fence_refs s' f n (p + 1) (max b (p + 1)) \<and> fence_frame f s s'"
proof -
  obtain x ops where x: "fs_fences s f = Some x" "fe_ops x = Some ops" "fe_refcount x = int n + 1" "releases s f = 0" "p \<le> b"
    using r by (auto simp: fence_refs_def split: option.splits)
  have "dma_fence_drop f s = Some (upd_fence f (\<lambda>x. x\<lparr>fe_refcount := kref_drop (fs_host s) (fe_refcount x)\<rparr>) s)"
    using x by (simp add: dma_fence_drop_def)
  then show ?thesis using h x by (auto simp: fence_refs_def fence_frame_def host_counts_def kref_drop_def)
qed

lemma fence_check_refs:
  assumes r: "fence_refs s f n (Suc p) b"
  shows "\<exists>s'. dma_fence_check f s = Some s' \<and> fence_refs s' f n p b \<and> fence_frame f s s'"
proof -
  obtain x ops where x: "fs_fences s f = Some x" "fe_ops x = Some ops" "fe_refcount x = int n"
    using r by (auto simp: fence_refs_def split: option.splits)
  have e: "releases (s\<lparr>fs_log := EvRelease f # fs_log s\<rparr>) g = releases s g + of_bool (g = f)" for g
    by (simp add: releases_def)
  show ?thesis using r x
    by (auto simp: dma_fence_check_def kref_check_def fence_refs_def fence_frame_def e split: if_splits)
qed

lemma fence_put_refs:
  assumes h: "host_counts (fs_host s)" and r: "fence_refs s f (Suc n) p b"
  shows "\<exists>s'. dma_fence_put (Some f) s = Some s' \<and> fence_refs s' f n p (max b (p + 1)) \<and> fence_frame f s s'"
proof -
  obtain s1 where s1: "dma_fence_drop f s = Some s1" "fence_refs s1 f n (Suc p) (max b (p + 1))" "fence_frame f s s1"
    using fence_drop_refs [OF assms] by auto
  from fence_check_refs [OF s1(2)] obtain s2 where
    "dma_fence_check f s1 = Some s2" "fence_refs s2 f n p (max b (p + 1))" "fence_frame f s1 s2" by blast
  with s1 show ?thesis by (auto simp: dma_fence_put_def fence_frame_def)
qed

lemma fence_frame_refs: "fence_frame f s s' \<Longrightarrow> g \<noteq> f \<Longrightarrow> fence_refs s' g n p b = fence_refs s g n p b"
  by (auto simp: fence_frame_def fence_refs_def split: option.splits)

lemma slots_upd_resv:
  assumes "r < length (fs_resvs s)"
  shows "slots (upd_resv r (\<lambda>x. x\<lparr>rs_fence := v\<rparr>) s) f + (if resv_fence s r = Some f then 1 else 0) =
    slots s f + (if v = Some f then 1 else 0)"
  using filter_update_length [OF assms, of "\<lambda>x. rs_fence x = Some f" "(fs_resvs s ! r)\<lparr>rs_fence := v\<rparr>"]
  by (simp add: slots_def upd_resv_def resv_fence_def)

lemma upd_resv_simps [simp]:
  "fs_fences (upd_resv r g s) = fs_fences s" "fs_host (upd_resv r g s) = fs_host s" "releases (upd_resv r g s) f = releases s f"
  "length (fs_resvs (upd_resv r g s)) = length (fs_resvs s)"
  by (auto simp: upd_resv_def releases_def)

lemma fence_refs_upd_resv [simp]: "fence_refs (upd_resv r g s) f n p b = fence_refs s f n p b"
  by (simp add: fence_refs_def split: option.splits)

lemma fence_get_all:
  assumes "host_counts (fs_host s)" and "\<And>f. fence_refs s f (m f) (p f) (b f)" and "\<And>g. v = Some g \<Longrightarrow> 0 < m g"
  shows "\<exists>s'. dma_fence_get v s = (v, s') \<and> fs_host s' = fs_host s \<and> fs_resvs s' = fs_resvs s \<and>
    (\<forall>f. fence_refs s' f (m f + (if v = Some f then 1 else 0)) (p f) (b f))"
proof (cases v)
  case None
  then show ?thesis using assms(2) by (simp add: dma_fence_get_def)
next
  case (Some g)
  let ?s = "snd (dma_fence_get (Some g) s)"
  have *: "fence_refs ?s g (m g + 1) (p g) (b g)" "fence_frame g s ?s"
    using fence_get_refs [OF assms(1) assms(2) assms(3) [OF Some]] by simp_all
  have "fence_refs ?s f (m f + (if v = Some f then 1 else 0)) (p f) (b f)" for f
    using * Some fence_frame_refs [OF *(2), of f] assms(2) by (cases "f = g") auto
  moreover have "fs_host ?s = fs_host s \<and> fs_resvs ?s = fs_resvs s" using *(2) by (simp add: fence_frame_def)
  moreover have "dma_fence_get v s = (v, ?s)" using Some by (simp add: dma_fence_get_def)
  ultimately show ?thesis by blast
qed

lemma fence_put_all:
  assumes "host_counts (fs_host s)" and "\<And>f. fence_refs s f (m f) (cl_puts c f) (cl_busy c f)"
    and "\<And>g. v = Some g \<Longrightarrow> 0 < m g"
  shows "\<exists>s'. dma_fence_put v s = Some s' \<and> fs_host s' = fs_host s \<and> fs_resvs s' = fs_resvs s \<and>
    (\<forall>f. fence_refs s' f (m f - (if v = Some f then 1 else 0)) (cl_puts c f) (busy_with v c f))"
proof (cases v)
  case None
  then show ?thesis using assms(2) by (simp add: dma_fence_put_def busy_with_def)
next
  case (Some g)
  obtain k where k: "m g = Suc k" using assms(3) [OF Some] by (cases "m g") auto
  obtain s' where s': "dma_fence_put (Some g) s = Some s'"
      "fence_refs s' g k (cl_puts c g) (max (cl_busy c g) (cl_puts c g + 1))" "fence_frame g s s'"
    using fence_put_refs [OF assms(1), of g k] assms(2) [of g] k by metis
  have "fence_refs s' f (m f - (if v = Some f then 1 else 0)) (cl_puts c f) (busy_with v c f)" for f
    using s' k Some fence_frame_refs [OF s'(3), of f] assms(2) by (cases "f = g") (auto simp: busy_with_def)
  then show ?thesis using s' Some by (auto simp: fence_frame_def)
qed

lemma fence_quiet:
  assumes "fence_inv s c" and "fs_host s' = fs_host s" and "fs_resvs s' = fs_resvs s"
    and "\<And>f n p b. fence_refs s' f n p b = fence_refs s f n p b"
  shows "fence_inv s' c"
  using assms slots_resvs [OF assms(3)] by (simp add: fence_inv_def)

lemma signal_refs: "fence_refs (dma_fence_signal now (Some g) s) f n p b = fence_refs s f n p b"
  by (auto simp: dma_fence_signal_def Let_def fence_refs_def split: option.splits)

lemma test_refs:
  "fence_refs (snd (dma_fence_is_signaled v s)) f n p b = fence_refs s f n p b"
  "fs_host (snd (dma_fence_is_signaled v s)) = fs_host s" "fs_resvs (snd (dma_fence_is_signaled v s)) = fs_resvs s"
  by (auto simp: dma_fence_is_signaled_def fence_refs_def releases_def split: option.splits)

lemma resv_slot: "r < length (fs_resvs s) \<Longrightarrow> resv_fence s r = Some g \<Longrightarrow> 0 < slots s g"
  unfolding slots_def resv_fence_def by (rule length_pos_if_in_set [of "fs_resvs s ! r"]) simp

lemma swap_count: "(a :: nat) + d = b + e \<Longrightarrow> d \<le> b \<Longrightarrow> c + a = c + b - d + e"
  by arith

lemma resv_set_inv:
  assumes inv: "fence_inv s c" and r: "r < length (fs_resvs s)" and v: "\<And>f. v = Some f \<Longrightarrow> 0 < cl_refs c f"
  shows "\<exists>s1 s2. dma_fence_put (resv_fence s r) s = Some s1 \<and> dma_fence_get v s1 = (v, s2) \<and>
    fence_inv (upd_resv r (\<lambda>x. x\<lparr>rs_fence := v\<rparr>) s2) (c\<lparr>cl_busy := busy_with (resv_fence s r) c\<rparr>)"
proof -
  let ?p = "cl_puts c" and ?b = "busy_with (resv_fence s r) c"
  have h: "host_counts (fs_host s)" and m: "\<And>f. fence_refs s f (cl_refs c f + slots s f) (?p f) (cl_busy c f)"
    using inv by (auto simp: fence_inv_def)
  let ?d = "\<lambda>u f. if u = Some f then 1 else 0 :: nat"
  obtain s1 where s1: "dma_fence_put (resv_fence s r) s = Some s1" "fs_host s1 = fs_host s" "fs_resvs s1 = fs_resvs s"
      "\<And>f. fence_refs s1 f (cl_refs c f + slots s f - ?d (resv_fence s r) f) (?p f) (?b f)"
    using fence_put_all [OF h m, of "resv_fence s r"] resv_slot [OF r] by auto
  have pos: "0 < cl_refs c f + slots s f - ?d (resv_fence s r) f" if "v = Some f" for f
    using v [OF that] resv_slot [OF r, of f] by auto
  obtain s2 where s2: "dma_fence_get v s1 = (v, s2)" "fs_host s2 = fs_host s" "fs_resvs s2 = fs_resvs s"
      "\<And>f. fence_refs s2 f (cl_refs c f + slots s f - ?d (resv_fence s r) f + ?d v f) (?p f) (?b f)"
    using fence_get_all [of s1 "\<lambda>f. cl_refs c f + slots s f - ?d (resv_fence s r) f" ?p ?b v] s1 h pos by auto
  have e: "slots (upd_resv r (\<lambda>x. x\<lparr>rs_fence := v\<rparr>) s2) f + ?d (resv_fence s r) f = slots s f + ?d v f" for f
    using slots_upd_resv [of r s2 v f] r s2(3) slots_resvs [OF s2(3)] by (simp add: resv_fence_def)
  have "?d (resv_fence s r) f \<le> slots s f" for f using resv_slot [OF r, of f] by auto
  then have "cl_refs c f + slots (upd_resv r (\<lambda>x. x\<lparr>rs_fence := v\<rparr>) s2) f =
      cl_refs c f + slots s f - ?d (resv_fence s r) f + ?d v f" for f
    by (rule swap_count [OF e])
  then show ?thesis using s1 s2 h by (auto simp: fence_inv_def)
qed

text \<open>A step that changes the counter of one fence only.\<close>

lemma fence_inv_one:
  assumes "fence_inv s c" and "fence_frame f s s'" and "fence_refs s' f (cl_refs c' f + slots s f) (cl_puts c' f) (cl_busy c' f)"
    and "\<And>g. g \<noteq> f \<Longrightarrow> cl_refs c' g = cl_refs c g \<and> cl_puts c' g = cl_puts c g \<and> cl_busy c' g = cl_busy c g"
  shows "fence_inv s' c'"
proof -
  have "slots s' = slots s" using assms(2) by (intro slots_resvs) (simp add: fence_frame_def)
  then have "fence_refs s' g (cl_refs c' g + slots s' g) (cl_puts c' g) (cl_busy c' g)" for g
    using assms fence_frame_refs [OF assms(2), of g] by (cases "g = f") (simp_all add: fence_inv_def)
  then show ?thesis using assms(1,2) by (simp add: fence_inv_def fence_frame_def)
qed

lemma fence_do_inv:
  assumes inv: "fence_inv s c" and legal: "fence_legal a s c"
  shows "\<exists>s' c'. fence_do a s c = Some (s', c') \<and> fence_inv s' c'"
proof -
  have h: "host_counts (fs_host s)" and m: "\<And>f. fence_refs s f (cl_refs c f + slots s f) (cl_puts c f) (cl_busy c f)"
    using inv by (auto simp: fence_inv_def)
  show ?thesis
  proof (cases a)
    case (FInit f hd ops ctx n)
    let ?s = "dma_fence_init (Some f) hd (Some ops) ctx n s"
    have z: "fs_fences s f = None" "cl_refs c f = 0" "slots s f = 0" "releases s f = 0" "cl_puts c f = 0"
      using m [of f] legal FInit by (auto simp: fence_refs_def)
    have sl: "slots ?s = slots s" "fs_host ?s = fs_host s" "releases ?s g = releases s g" for g
      by (auto simp: dma_fence_init_def releases_def intro!: slots_resvs)
    have fn: "fs_fences ?s g = (if g = f then Some \<lparr>fe_ops = Some ops, fe_head = hd, fe_refcount = 1, fe_context = ctx,
        fe_seqno = n, fe_flags = 0, fe_error = 0, fe_timestamp = 0\<rparr> else fs_fences s g)" for g
      using h by (simp add: dma_fence_init_def kref_init_def host_counts_def)
    have "fence_refs ?s g (((cl_refs c)(f := 1)) g + slots ?s g) (cl_puts c g) (cl_busy c g)" for g
      using m [of g] z unfolding fence_refs_def sl fn by (cases "g = f"; cases "fs_fences s g") auto
    then show ?thesis using FInit h by (auto simp: fence_inv_def sl)
  next
    case (FGet f)
    have "0 < cl_refs c f + slots s f" using legal FGet by simp
    from fence_get_refs [OF h m this] show ?thesis
      using FGet fence_inv_one [OF inv, of f "snd (dma_fence_get (Some f) s)" "c\<lparr>cl_refs := (cl_refs c)(f := cl_refs c f + 1)\<rparr>"]
      by simp
  next
    case (FDrop f)
    obtain k where k: "cl_refs c f = Suc k" using legal FDrop by (cases "cl_refs c f") auto
    have "fence_refs s f (Suc (k + slots s f)) (cl_puts c f) (cl_busy c f)" using m [of f] k by simp
    from fence_drop_refs [OF h this] obtain s' where s': "dma_fence_drop f s = Some s'"
      "fence_refs s' f (k + slots s f) (cl_puts c f + 1) (max (cl_busy c f) (cl_puts c f + 1))" "fence_frame f s s'" by blast
    show ?thesis using s' FDrop k by (auto simp: busy_with_def intro!: fence_inv_one [OF inv s'(3)])
  next
    case (FCheck f)
    obtain k where k: "cl_puts c f = Suc k" using legal FCheck by (cases "cl_puts c f") auto
    have "fence_refs s f (cl_refs c f + slots s f) (Suc k) (cl_busy c f)" using m [of f] k by simp
    from fence_check_refs [OF this] obtain s' where s': "dma_fence_check f s = Some s'"
      "fence_refs s' f (cl_refs c f + slots s f) k (cl_busy c f)" "fence_frame f s s'" by blast
    show ?thesis using s' FCheck k by (auto intro!: fence_inv_one [OF inv s'(3)])
  next
    case (FSignal now f)
    then show ?thesis
      using fence_quiet [OF inv, of "dma_fence_signal now (Some f) s"] signal_refs
      by (simp add: dma_fence_signal_def Let_def)
  next
    case (FTest f)
    then show ?thesis using fence_quiet [OF inv] test_refs by simp
  next
    case (RAdd r v u)
    then have "r < length (fs_resvs s)" "\<And>f. v = Some f \<Longrightarrow> 0 < cl_refs c f" using legal by auto
    from resv_set_inv [where v = v, OF inv this] show ?thesis
      using RAdd by (auto simp: dma_resv_add_fence_def)
  next
    case (RFini r)
    then have "r < length (fs_resvs s)" using legal by simp
    from resv_set_inv [OF inv this, of None] show ?thesis
      using RFini by (auto simp: dma_resv_fini_def dma_fence_get_def)
  next
    case (RSingleton r)
    then have r: "r < length (fs_resvs s)" using legal by simp
    obtain s' where s': "dma_fence_get (resv_fence s r) s = (resv_fence s r, s')" "fs_host s' = fs_host s"
        "fs_resvs s' = fs_resvs s"
        "\<And>f. fence_refs s' f (cl_refs c f + slots s f + (if resv_fence s r = Some f then 1 else 0)) (cl_puts c f) (cl_busy c f)"
      using fence_get_all [OF h m, of "resv_fence s r"] resv_slot [OF r] by auto
    show ?thesis
    proof (cases "resv_fence s r")
      case None
      then show ?thesis using RSingleton h s'
        by (simp add: dma_resv_get_singleton_def fence_inv_def slots_resvs [OF s'(3)])
    next
      case (Some k)
      have "fence_refs s' f (((cl_refs c)(k := cl_refs c k + 1)) f + slots s' f) (cl_puts c f) (cl_busy c f)" for f
        using s'(4) [of f] Some by (cases "f = k") (simp_all add: slots_resvs [OF s'(3)])
      then show ?thesis using RSingleton h s' Some
        by (simp add: dma_resv_get_singleton_def fence_inv_def)
    qed
  next
    case (RLock r ctx)
    have "slots (upd_resv r (\<lambda>x. x\<lparr>rs_locking_ctx := ctx\<rparr>) s) f = slots s f" for f
      using filter_update_length [of r "fs_resvs s" "\<lambda>x. rs_fence x = Some f"
        "(fs_resvs s ! r)\<lparr>rs_locking_ctx := ctx\<rparr>"] legal RLock
      by (simp add: slots_def upd_resv_def split: if_splits)
    then show ?thesis using RLock inv by (simp add: dma_resv_lock_def fence_inv_def)
  qed
qed

lemma fence_run_inv: "fence_inv s c \<Longrightarrow> \<exists>s' c'. fence_run as (s, c) = Some (s', c') \<and> fence_inv s' c'"
proof (induction as arbitrary: s c)
  case (Cons a as)
  show ?case
  proof (cases "fence_legal a s c")
    case True
    from fence_do_inv [OF Cons.prems True] obtain s' c' where "fence_do a s c = Some (s', c')" "fence_inv s' c'" by blast
    with True Cons.IH [of s' c'] show ?thesis by simp
  qed (use Cons in simp)
qed simp

lemma fence_start_inv: "host_counts h \<Longrightarrow> fence_inv (fence_start h n) no_clients"
  by (simp add: fence_inv_def fence_start_def fence_refs_def slots_def releases_def no_clients_def)

section \<open>Properties\<close>

text \<open>
  C13. Clients that only use fences they hold run any operations on them and on reservation objects, the
  two halves of their puts interleaved with everything else (the operations of a reservation object run
  whole).  No operation goes through a null pointer; the counter of a fence is the number of references
  held by clients and reservation objects; its release function is not called while a reference is left;
  once none is left, the calls made and still to come are at least one, and at most as many as puts of
  the fence were ever under way at once.  So puts that never overlap release it exactly once.
\<close>

theorem fence_released_with_last_reference:
  assumes "host_counts h"
  shows "\<exists>s c. fence_run as (fence_start h n, no_clients) = Some (s, c) \<and>
    (\<forall>f x. fs_fences s f = Some x \<longrightarrow>
       fe_refcount x = int (cl_refs c f + slots s f) \<and>
       (if 0 < cl_refs c f + slots s f \<or> \<not> fo_release (the (fe_ops x)) then releases s f = 0
        else 1 \<le> releases s f + cl_puts c f \<and> releases s f + cl_puts c f \<le> cl_busy c f))"
proof -
  obtain s c where r: "fence_run as (fence_start h n, no_clients) = Some (s, c)" "fence_inv s c"
    using fence_run_inv [OF fence_start_inv [OF assms], of as n] by blast
  have m: "fence_refs s f (cl_refs c f + slots s f) (cl_puts c f) (cl_busy c f)" for f
    using r(2) by (simp add: fence_inv_def)
  have "fe_refcount x = int (cl_refs c f + slots s f) \<and>
       (if 0 < cl_refs c f + slots s f \<or> \<not> fo_release (the (fe_ops x)) then releases s f = 0
        else 1 \<le> releases s f + cl_puts c f \<and> releases s f + cl_puts c f \<le> cl_busy c f)"
    if "fs_fences s f = Some x" for f x
    using m [of f] that by (simp add: fence_refs_def)
  with r(1) show ?thesis by blast
qed

definition host_ex :: kref_host where
  "host_ex = \<lparr>kh_set = (\<lambda>n. n), kh_ref = (\<lambda>n. n + 1), kh_unref = (\<lambda>n. n - 1)\<rparr>"

text \<open>A fence put into two reservation objects, dropped by its client, and replaced in both.\<close>

definition fence_demo :: "fence_act list" where
  "fence_demo = [FInit 7 100 \<lparr>fo_signaled = None, fo_release = True\<rparr> 1 1, RAdd 0 (Some 7) DMA_RESV_USAGE_READ,
     RAdd 1 (Some 7) DMA_RESV_USAGE_WRITE, FDrop 7, FCheck 7, RSingleton 0, RFini 0, RAdd 1 None DMA_RESV_USAGE_READ,
     FDrop 7, FCheck 7]"

theorem fence_released_with_last_reference_witness:
  "\<exists>s c. fence_run fence_demo (fence_start host_ex 2, no_clients) = Some (s, c) \<and> releases s 7 = 1"
proof -
  have "host_counts host_ex" by (simp add: host_counts_def host_ex_def)
  from fence_released_with_last_reference [OF this, of fence_demo 2] obtain s c where
    r: "fence_run fence_demo (fence_start host_ex 2, no_clients) = Some (s, c)" and
    x: "\<And>x. fs_fences s 7 = Some x \<Longrightarrow>
      (if 0 < cl_refs c 7 + slots s 7 \<or> \<not> fo_release (the (fe_ops x)) then releases s 7 = 0
        else 1 \<le> releases s 7 + cl_puts c 7 \<and> releases s 7 + cl_puts c 7 \<le> cl_busy c 7)" by blast
  have "map_option (\<lambda>(s, c). cl_refs c 7 + slots s 7 = 0 \<and> cl_puts c 7 = 0 \<and> cl_busy c 7 = 1 \<and>
      map_option (\<lambda>x. fo_release (the (fe_ops x))) (fs_fences s 7) = Some True)
     (fence_run fence_demo (fence_start host_ex 2, no_clients)) = Some True"
    by code_simp
  with r x show ?thesis by auto
qed

text \<open>
  The bound is met: two clients that drop the last two references before either looks at the counter both
  find it 0, and the fence is released twice.
\<close>

definition double_put :: "fence_act list" where
  "double_put = [FInit 7 100 \<lparr>fo_signaled = None, fo_release = True\<rparr> 1 1, FGet 7, FDrop 7, FDrop 7, FCheck 7, FCheck 7]"

lemma overlapping_puts_release_twice:
  "map_option (\<lambda>(s, c). (releases s 7, cl_busy c 7)) (fence_run double_put (fence_start host_ex 0, no_clients)) = Some (2, 2)"
  by (simp add: double_put_def fence_start_def no_clients_def dma_fence_init_def dma_fence_get_def dma_fence_drop_def
      dma_fence_check_def kref_init_def kref_drop_def kref_check_def host_ex_def busy_with_def releases_def upd_fence_def)

text \<open>
  A callback joins the ring of its fence, at the end, and is called at once if the fence is signalled; it
  leaves the ring when it is removed.  Signalling runs no callback.
\<close>

lemma callback_ring:
  assumes "fs_fences s f = Some x" and "ring (fs_links s) (fe_head x) cs" and "c \<notin> set (fe_head x # cs)"
  shows "ring (fs_links (snd (dma_fence_add_callback (Some f) (Some c) func s))) (fe_head x) (cs @ [c])"
proof -
  have "ring (INIT_LIST_HEAD c (fs_links s)) (fe_head x) cs"
    using assms(2,3) by (auto simp: ring_def INIT_LIST_HEAD_def seg_frame)
  from ring_add_tail [OF this assms(3)] show ?thesis
    using assms(1)
    by (auto simp: dma_fence_add_callback_def dma_fence_is_signaled_def Let_def split: option.splits)
qed

lemma callback_removed:
  "ring (fs_links s) h cs \<Longrightarrow> c \<in> set cs \<Longrightarrow>
     ring (fs_links (snd (dma_fence_remove_callback fence (Some c) s))) h (remove1 c cs)"
  by (simp add: dma_fence_remove_callback_def ring_del_init)

lemma signal_runs_no_callback: "fs_log (dma_fence_signal now fence s) = fs_log s"
  by (cases fence) (simp_all add: dma_fence_signal_def Let_def)

lemma signalled_afterwards:
  "fs_fences s f = Some x \<Longrightarrow> fst (dma_fence_is_signaled (Some f) (dma_fence_signal now (Some f) s))"
proof -
  have "test_bit 0 (set_bit 2 (set_bit 0 (fe_flags x)))" by (simp only: test_bit_set_bit) simp
  then show "fs_fences s f = Some x \<Longrightarrow> ?thesis"
    by (simp add: dma_fence_signal_def dma_fence_is_signaled_def Let_def DMA_FENCE_FLAG_SIGNALED_BIT_def
        DMA_FENCE_FLAG_TIMESTAMP_BIT_def del: test_bit_iff)
qed

text \<open>
  A reservation object keeps the last fence only: with an unsignalled fence in it, adding a signalled one
  makes it answer that everything is signalled.
\<close>

lemma resv_forgets:
  assumes "r < length (fs_resvs s)" and "dma_fence_put (resv_fence s r) s = Some s1"
    and "fs_fences s1 g = Some y" and "test_bit DMA_FENCE_FLAG_SIGNALED_BIT (fe_flags y)" and "fs_resvs s1 = fs_resvs s"
  shows "\<exists>s'. dma_resv_add_fence (Some r) (Some g) usage s = Some s' \<and> fst (dma_resv_test_signaled (Some r) usage s')"
  using assms
  by (simp add: dma_resv_add_fence_def dma_fence_get_def dma_resv_test_signaled_def resv_fence_def upd_resv_def
      dma_fence_is_signaled_def upd_fence_def)

text \<open>The loop over the fences of an object sees its fence, once.\<close>

lemma for_each_fence: "dma_resv_for_each_fence (Some r) usage s = (case resv_fence s r of None \<Rightarrow> [] | Some f \<Rightarrow> [f])"
  by (cases "resv_fence s r")
     (simp_all add: dma_resv_for_each_fence_def dma_resv_iter_begin_def dma_resv_for_each_from.simps Let_def)

end
