(* ===== verification/LC_Firmware.thy ===== *)
theory LC_Firmware
  imports LC_Pages LC_Kernel
begin

text \<open>
  Loading firmware files (\<^verbatim>\<open>linux/firmware.h\<close>) and starting and stopping the module
  (\<^verbatim>\<open>module.c\<close>).

  The file system of the host is three parameters of the state: \<open>fw_open\<close> gives the status and the
  file of a path, \<open>fw_size\<close> the size in the inode of a file (None for no inode), \<open>fw_read\<close> the status
  of a read and the bytes it puts into the buffer.  Calls to the host and the frees of the data block
  are recorded in \<open>fw_log\<close>, newest first.  Paths are the bytes before the terminating zero.
\<close>

section \<open>firmware.h\<close>

datatype fw_event =
    FwOpen "u8 list"
  | FwRead nat u64
  | FwClose nat
  | FwFrames addr u64
  | FwKfree addr
  | FwFreeFrames addr u64
  | FwCont bool

record firmware =
  fw_len :: u64
  fw_data :: addr

record fwst = kst +
  fw_open :: "u8 list \<Rightarrow> int \<times> nat option"
  fw_size :: "nat \<Rightarrow> u64 option"
  fw_read :: "nat \<Rightarrow> u64 \<Rightarrow> int \<times> u8 list"
  fw_log :: "fw_event list"

definition fw_emit :: "fw_event \<Rightarrow> fwst \<Rightarrow> fwst" where
  "fw_emit e s = s\<lparr>fw_log := e # fw_log s\<rparr>"

text \<open>\<^verbatim>\<open>"/lib/firmware/"\<close>.\<close>

definition fw_prefix :: "u8 list" where
  "fw_prefix = [47, 108, 105, 98, 47, 102, 105, 114, 109, 119, 97, 114, 101, 47]"

definition fw_path :: "u8 list \<Rightarrow> u8 list" where
  "fw_path name = (if name \<noteq> [] \<and> hd name = 47 then name else fw_prefix @ name)"

definition out_close :: "nat option \<Rightarrow> int \<Rightarrow> firmware option \<Rightarrow> fwst \<Rightarrow> int \<times> firmware option \<times> fwst" where
  "out_close file ret fw s = (ret, fw, case file of None \<Rightarrow> s | Some f \<Rightarrow> fw_emit (FwClose f) s)"

definition out_free_image :: "nat option \<Rightarrow> int \<Rightarrow> fwst \<Rightarrow> int \<times> firmware option \<times> fwst" where
  "out_free_image file ret s = out_close file ret None (kfree_obj s)"

definition out_free_data :: "nat option \<Rightarrow> addr \<Rightarrow> int \<Rightarrow> fwst \<Rightarrow> int \<times> firmware option \<times> fwst" where
  "out_free_data file data ret s = out_free_image file ret (fw_emit (FwKfree data) s)"

text \<open>The result, what \<^verbatim>\<open>*fw\<close> is afterwards (None for NULL), and the state.  \<open>fw_null\<close> is a null \<^verbatim>\<open>fw\<close>.\<close>

definition request_firmware :: "bool \<Rightarrow> u8 list option \<Rightarrow> fwst \<Rightarrow> int \<times> firmware option \<times> fwst" where
  "request_firmware fw_null name s =
     (case name of
        None \<Rightarrow> (- EINVAL, None, s)
      | Some nm \<Rightarrow>
          if fw_null then (- EINVAL, None, s)
          else if length (fw_path nm) \<ge> 256 then (- ENAMETOOLONG, None, s)
          else
            let (ret, file) = fw_open s (fw_path nm);
                s = fw_emit (FwOpen (fw_path nm)) s
            in if ret < 0 then (ret, None, s)
               else case Option.bind file (fw_size s) of
                      None \<Rightarrow> out_close file (- ENOENT) None s
                    | Some sz \<Rightarrow>
                        (case kzalloc_obj s of
                           (None, s) \<Rightarrow> out_close file (- ENOMEM) None s
                         | (Some img, s) \<Rightarrow>
                             let n = (if sz \<noteq> 0 then sz else 1);
                                 (data, s) = alloc_frames_bytes n s
                             in if data = 0 then out_free_image file (- ENOMEM) s
                                else
                                  let s = fw_emit (FwFrames data n) s;
                                      (nread, bytes) = fw_read s (the file) sz;
                                      s = s\<lparr>k_mem := store_bytes (k_mem s) data bytes\<rparr>;
                                      s = fw_emit (FwRead (the file) sz) s
                                  in if nread < 0
                                     then out_free_data file data (sint (word_of_int nread :: u32)) s
                                     else if word_of_int nread \<noteq> sz then out_free_data file data (- EIO) s
                                     else out_close file 0 (Some \<lparr>fw_len = sz, fw_data = data\<rparr>) s))"

definition firmware_request_nowarn :: "bool \<Rightarrow> u8 list option \<Rightarrow> fwst \<Rightarrow> int \<times> firmware option \<times> fwst" where
  "firmware_request_nowarn fw_null name s = request_firmware fw_null name s"

definition release_firmware :: "firmware option \<Rightarrow> fwst \<Rightarrow> fwst" where
  "release_firmware fw s =
     (case fw of
        None \<Rightarrow> s
      | Some f \<Rightarrow> kfree_obj (free_frames_bytes (fw_data f) (fw_len f) (fw_emit (FwFreeFrames (fw_data f) (fw_len f)) s)))"

text \<open>\<open>has_cont\<close> says that \<^verbatim>\<open>cont\<close> is not null; its call is recorded with whether it is given an image.\<close>

definition request_firmware_nowait :: "u8 list option \<Rightarrow> bool \<Rightarrow> fwst \<Rightarrow> int \<times> firmware option \<times> fwst" where
  "request_firmware_nowait name has_cont s =
     (let (ret, fw, s) = request_firmware False name s
      in if \<not> has_cont then (ret, fw, s)
         else let fw = (if ret \<noteq> 0 then None else fw)
              in (0, fw, fw_emit (FwCont (fw \<noteq> None)) s))"

section \<open>module.c\<close>

text \<open>The two sections of the module are lists of pointers; a null pointer is None.\<close>

fun lcompat_module_bootstrap :: "('s \<Rightarrow> int \<times> 's) option list \<Rightarrow> 's \<Rightarrow> int \<times> 's" where
  "lcompat_module_bootstrap [] s = (0, s)"
| "lcompat_module_bootstrap (None # it) s = lcompat_module_bootstrap it s"
| "lcompat_module_bootstrap (Some f # it) s =
     (let (ret, s) = f s in if ret \<noteq> 0 then (ret, s) else lcompat_module_bootstrap it s)"

fun module_exit_loop :: "('s \<Rightarrow> 's) option list \<Rightarrow> nat \<Rightarrow> 's \<Rightarrow> 's" where
  "module_exit_loop es 0 s = s"
| "module_exit_loop es (Suc it) s =
     (let s = (case es ! it of None \<Rightarrow> s | Some f \<Rightarrow> f s) in module_exit_loop es it s)"

definition lcompat_module_shutdown :: "('s \<Rightarrow> 's) option list \<Rightarrow> 's \<Rightarrow> 's" where
  "lcompat_module_shutdown es s = module_exit_loop es (length es) s"

section \<open>Facts\<close>

lemma fw_emit_simps [simp]:
  "k_live (fw_emit e s) = k_live s" "k_mem (fw_emit e s) = k_mem s" "k_calls (fw_emit e s) = k_calls s"
  "k_obj (fw_emit e s) = k_obj s" "k_frames (fw_emit e s) = k_frames s" "k_freed (fw_emit e s) = k_freed s"
  "fw_log (fw_emit e s) = e # fw_log s" "fw_open (fw_emit e s) = fw_open s" "fw_size (fw_emit e s) = fw_size s"
  "fw_read (fw_emit e s) = fw_read s"
  by (simp_all add: fw_emit_def)

lemma exit_loop_foldr:
  "n \<le> length es \<Longrightarrow> module_exit_loop es n s = foldl (\<lambda>s f. case f of None \<Rightarrow> s | Some g \<Rightarrow> g s) s (rev (take n es))"
proof (induction n arbitrary: s)
  case (Suc n)
  then show ?case by (simp add: take_Suc_conv_app_nth)
qed simp

text \<open>The exit functions run once each, the last first.\<close>

lemma module_shutdown_reverse:
  "lcompat_module_shutdown es s = foldl (\<lambda>s f. case f of None \<Rightarrow> s | Some g \<Rightarrow> g s) s (rev es)"
  by (simp add: lcompat_module_shutdown_def exit_loop_foldr)

definition run_inits :: "('s \<Rightarrow> int \<times> 's) option list \<Rightarrow> 's \<Rightarrow> 's" where
  "run_inits fs s = foldl (\<lambda>s f. case f of None \<Rightarrow> s | Some g \<Rightarrow> snd (g s)) s fs"

lemma run_inits_simps [simp]:
  "run_inits [] s = s" "run_inits (None # fs) s = run_inits fs s" "run_inits (Some g # fs) s = run_inits fs (snd (g s))"
  by (simp_all add: run_inits_def)

text \<open>The init functions run in order, all of them or up to the first that fails, whose status is the result.\<close>

lemma module_bootstrap_prefix:
  "lcompat_module_bootstrap fs s = (ret, s') \<Longrightarrow>
   (if ret = 0 then s' = run_inits fs s
    else \<exists>us f vs. fs = us @ Some f # vs \<and> s' = run_inits (us @ [Some f]) s \<and> fst (f (run_inits us s)) = ret)"
proof (induction fs arbitrary: s)
  case (Cons a fs)
  show ?case
  proof (cases a)
    case None
    with Cons show ?thesis by (auto split: if_splits) (metis append_Cons run_inits_simps(2))
  next
    case (Some f)
    obtain r t where f: "f s = (r, t)" by (cases "f s")
    show ?thesis
    proof (cases "r = 0")
      case True
      then have b: "lcompat_module_bootstrap fs t = (ret, s')" using Cons.prems f Some by simp
      show ?thesis
      proof (cases "ret = 0")
        case False
        then obtain us g vs where "fs = us @ Some g # vs" "s' = run_inits (us @ [Some g]) t" "fst (g (run_inits us t)) = ret"
          using Cons.IH [OF b] by auto
        then show ?thesis using Some f False
          by (simp, intro exI [of _ "Some f # us"] exI [of _ g] exI [of _ vs]) simp
      qed (use Cons.IH [OF b] f Some in simp)
    next
      case False
      then show ?thesis using Cons.prems f Some
        by (auto intro!: exI [of _ "[]"])
    qed
  qed
qed simp

section \<open>Properties\<close>

text \<open>What the file system of the host promises: a read that succeeds delivers as many bytes as it says and
  no more than were asked for, and a status is a small number.\<close>

definition fw_host_ok :: "fwst \<Rightarrow> bool" where
  "fw_host_ok s = (\<forall>f n. let (r, bs) = fw_read s f n in
     - 4095 \<le> r \<and> (0 \<le> r \<longrightarrow> int (length bs) = r \<and> length bs \<le> unat n))"

text \<open>The events by which the data block is taken from the frame allocator and given back.\<close>

definition block_event :: "fw_event \<Rightarrow> bool" where
  "block_event e = (case e of FwFrames _ _ \<Rightarrow> True | FwKfree _ \<Rightarrow> True | FwFreeFrames _ _ \<Rightarrow> True | _ \<Rightarrow> False)"

lemma block_event_simps [simp]:
  "block_event (FwFrames a n)" "block_event (FwKfree a)" "block_event (FwFreeFrames a n)"
  "\<not> block_event (FwOpen p)" "\<not> block_event (FwRead f n)" "\<not> block_event (FwClose f)" "\<not> block_event (FwCont b)"
  by (simp_all add: block_event_def)

text \<open>
  The outcome: the result, the objects, what the log gained after the open, and in it the history of the
  data block.
\<close>

definition fw_outcome :: "nat option \<Rightarrow> fwst \<Rightarrow> int \<times> firmware option \<times> fwst \<Rightarrow> bool" where
  "fw_outcome file s r =
     (case r of (ret, fw, s') \<Rightarrow>
       (case fw of
          None \<Rightarrow> ret \<noteq> 0 \<and> k_live s' = k_live s
        | Some i \<Rightarrow> ret = 0 \<and> k_live s' = k_live s + 1 \<and> fw_data i \<noteq> 0 \<and>
            (\<exists>f. file = Some f \<and> fw_size s f = Some (fw_len i) \<and>
              load_bytes (k_mem s') (fw_data i) (unat (fw_len i)) = snd (fw_read s f (fw_len i)))) \<and>
       (\<exists>mid. fw_log s' = (case file of None \<Rightarrow> [] | Some f \<Rightarrow> [FwClose f]) @ mid @ fw_log s \<and> (\<forall>f. FwClose f \<notin> set mid) \<and>
         (case fw of
            Some i \<Rightarrow> filter block_event mid = [FwFrames (fw_data i) (if fw_len i \<noteq> 0 then fw_len i else 1)]
          | None \<Rightarrow> filter block_event mid = [] \<or> (\<exists>d n. filter block_event mid = [FwKfree d, FwFrames d n]))))"

lemma small_status: "- 4095 \<le> r \<Longrightarrow> r < 0 \<Longrightarrow> sint (word_of_int r :: u32) = r"
  unfolding sint_sbintrunc' by (simp add: signed_take_bit_int_eq_self)

lemma read_all:
  assumes "0 \<le> r" and "nat r \<le> unat sz" and "word_of_int r = (sz :: u64)"
  shows "nat r = unat sz"
proof -
  have "r \<le> int (unat sz)" using assms(1,2) by linarith
  then have "r < 18446744073709551616" using u64_bound [of sz] by linarith
  then have "uint (word_of_int r :: u64) = r" unfolding uint_word_of_int using assms(1) by simp
  then show ?thesis unfolding unat_eq_nat_uint using assms(3) by simp
qed

lemma request_firmware_opened:
  assumes ok: "fw_host_ok s0" and nm: "length (fw_path nm) < 256" and op: "fw_open s0 (fw_path nm) = (r, file)" and r: "0 \<le> r"
  shows "fw_outcome file (fw_emit (FwOpen (fw_path nm)) s0) (request_firmware False (Some nm) s0)"
proof -
  define s where "s = fw_emit (FwOpen (fw_path nm)) s0"
  have rd: "fw_read s = fw_read s0" by (simp add: s_def)
  have nm': "\<not> 256 \<le> length (fw_path nm)" "\<not> r < 0" using nm r by auto
  note R = request_firmware_def op s_def [symmetric] out_close_def out_free_image_def out_free_data_def Let_def
  show ?thesis
  proof (cases "Option.bind file (fw_size s)")
    case None
    then show ?thesis using nm' op
      by (auto simp: R fw_outcome_def errno_defs split: option.splits)
  next
    case (Some sz)
    then obtain f where f: "file = Some f" "fw_size s f = Some sz" by (cases "file :: nat option") auto
    show ?thesis
    proof (cases "k_obj s (k_calls s)")
      case False
      then show ?thesis using nm' op f
        by (auto simp: R fw_outcome_def errno_defs kzalloc_obj_def)
    next
      case True
      have f0: "fw_size s0 f = Some sz" using f(2) by (simp add: s_def)
      define n where "n = (if sz \<noteq> 0 then sz else 1)"
      define d where "d = k_frames s (k_calls s + 1) n"
      define s2 where "s2 = s\<lparr>k_live := k_live s + 1, k_calls := k_calls s + 2\<rparr>"
      obtain nr bs where nr: "fw_read s0 f sz = (nr, bs)" by (cases "fw_read s0 f sz")
      have host: "- 4095 \<le> nr" "0 \<le> nr \<Longrightarrow> int (length bs) = nr \<and> length bs \<le> unat sz"
        using ok nr by (auto simp: fw_host_ok_def dest!: spec [of _ f] spec [of _ sz])
      have rq: "request_firmware False (Some nm) s0 =
        (if d = 0 then out_free_image file (- ENOMEM) s2
         else let s3 = fw_emit (FwRead f sz) ((fw_emit (FwFrames d n) s2)\<lparr>k_mem := store_bytes (k_mem s) d bs\<rparr>)
              in if nr < 0 then out_free_data file d (sint (word_of_int nr :: u32)) s3
                 else if word_of_int nr \<noteq> sz then out_free_data file d (- EIO) s3
                 else out_close file 0 (Some \<lparr>fw_len = sz, fw_data = d\<rparr>) s3)"
        using nm' op f True nr
        by (simp add: request_firmware_def s_def [symmetric] Let_def kzalloc_obj_def alloc_frames_bytes_def rd
            n_def [symmetric] d_def s2_def f0)
      have full: "length bs = unat sz" if "0 \<le> nr" "word_of_int nr = sz"
        using host(2) [OF that(1)] read_all [of nr sz] that by auto
      show ?thesis
        unfolding s_def [symmetric] rq using host(1) small_status [of nr] full f
        by (auto simp: fw_outcome_def out_close_def out_free_image_def out_free_data_def Let_def s2_def errno_defs
            kfree_obj_def rd nr mem_simps n_def)
    qed
  qed
qed

text \<open>
  C20. \<^verbatim>\<open>request_firmware\<close> gives an image or nothing.  On success the image has the size in the inode, its
  data block, taken once from the frame allocator and not given back, holds the bytes the read delivered,
  and one \<^verbatim>\<open>kzalloc\<close> object more is live.  On an error \<^verbatim>\<open>*fw\<close> is NULL, no object more is live, and the
  data block was never taken or was handed back exactly once, to \<^verbatim>\<open>kfree\<close> (which is not the frame
  allocator it came from).  A name whose path does not fit the buffer is refused before the file
  system is asked; a file that was opened is closed, once, as the last call.
\<close>

theorem request_firmware_result:
  assumes "fw_host_ok s" and "request_firmware False (Some nm) s = (ret, fw, s')"
  shows "if length (fw_path nm) \<ge> 256 then ret = - ENAMETOOLONG \<and> fw = None \<and> s' = s
    else let (r, file) = fw_open s (fw_path nm); s1 = fw_emit (FwOpen (fw_path nm)) s
         in if r < 0 then ret = r \<and> fw = None \<and> s' = s1
            else fw_outcome file s1 (ret, fw, s')"
  using assms request_firmware_opened [of s nm] 
  by (cases "fw_open s (fw_path nm)") (auto simp: Let_def request_firmware_def [of False "Some nm" s])

definition fw_demo :: fwst where
  "fw_demo = kst.extend kst_init \<lparr>fw_open = (\<lambda>p. if length p = 17 then (0, Some 3) else (- ENOENT, None)),
     fw_size = (\<lambda>f. Some 2), fw_read = (\<lambda>f n. if n = 2 then (2, [9, 8]) else (0, [])), fw_log = []\<rparr>"

theorem request_firmware_result_witness:
  "fw_outcome (Some 3) (fw_emit (FwOpen (fw_path [97, 98, 99])) fw_demo) (request_firmware False (Some [97, 98, 99]) fw_demo)"
proof -
  have ok: "fw_host_ok fw_demo" by (auto simp: fw_host_ok_def fw_demo_def kst.extend_def)
  have op: "fw_open fw_demo (fw_path [97, 98, 99]) = (0, Some 3)" "length (fw_path [97, 98, 99]) = 17"
    by (simp_all add: fw_demo_def kst.extend_def fw_path_def fw_prefix_def)
  obtain ret fw s' where r: "request_firmware False (Some [97, 98, 99]) fw_demo = (ret, fw, s')"
    by (cases "request_firmware False (Some [97, 98, 99]) fw_demo") auto
  from request_firmware_result [OF ok r] show ?thesis by (simp add: op r)
qed

text \<open>
  The block comes from the frame allocator, but a failed read gives it to \<^verbatim>\<open>kfree\<close>; and the block of an
  empty file is one byte long and released with size 0.
\<close>

lemma firmware_read_error_kfrees_frames:
  assumes "fw_open s (fw_path nm) = (0, Some f)" and "length (fw_path nm) < 256" and "fw_size s f = Some 4"
    and "k_obj s (k_calls s)" and "k_frames s (k_calls s + 1) 4 = d" and "d \<noteq> 0" and "fw_read s f 4 = (- EIO, [])"
  shows "fw_log (snd (snd (request_firmware False (Some nm) s))) =
    FwClose f # FwKfree d # FwRead f 4 # FwFrames d 4 # FwOpen (fw_path nm) # fw_log s"
  using assms
  by (simp add: request_firmware_def Let_def kzalloc_obj_def alloc_frames_bytes_def out_free_data_def out_free_image_def
      out_close_def kfree_obj_def EIO_def)

lemma firmware_empty_file_size:
  "fw_log (release_firmware (Some \<lparr>fw_len = 0, fw_data = d\<rparr>) s) = FwFreeFrames d 0 # fw_log s"
  by (simp add: release_firmware_def free_frames_bytes_def kfree_obj_def)

end
