(* ===== verification/LC_Io.thy ===== *)
theory LC_Io
  imports LC_Pages LC_Kernel
begin

text \<open>
  Device memory, busy waiting, polling, scatterlists and DMA addresses: \<^verbatim>\<open>linux/io.h\<close>,
  \<^verbatim>\<open>linux/delay.h\<close>, \<^verbatim>\<open>linux/iopoll.h\<close>, \<^verbatim>\<open>linux/scatterlist.h\<close>, \<^verbatim>\<open>linux/dma-mapping.h\<close> and
  \<^verbatim>\<open>linux/ktime.h\<close>.

  Mapped device memory is byte memory on a little-endian host.  \<open>phys_to_virt\<close> and the clock
  \<^verbatim>\<open>nano_time\<close> of the host are parameters; a clock is the function of its reads.
\<close>

section \<open>io.h\<close>

definition ioremap :: "(u64 \<Rightarrow> addr) \<Rightarrow> u64 \<Rightarrow> u64 \<Rightarrow> addr" where
  "ioremap phys_to_virt phys sz = phys_to_virt phys"

definition ioremap_wc :: "(u64 \<Rightarrow> addr) \<Rightarrow> u64 \<Rightarrow> u64 \<Rightarrow> addr" where
  "ioremap_wc phys_to_virt phys sz = ioremap phys_to_virt phys sz"

definition readb :: "addr \<Rightarrow> (addr \<Rightarrow> u8) \<Rightarrow> u8" where "readb a m = m a"
definition readw :: "addr \<Rightarrow> (addr \<Rightarrow> u8) \<Rightarrow> u16" where "readw a m = get_unaligned_le16 m a"
definition readl :: "addr \<Rightarrow> (addr \<Rightarrow> u8) \<Rightarrow> u32" where "readl a m = get_unaligned_le32 m a"
definition readq :: "addr \<Rightarrow> (addr \<Rightarrow> u8) \<Rightarrow> u64" where
  "readq a m = ucast (readl a m) OR push_bit 32 (ucast (readl (a + 4) m))"

definition writeb :: "u8 \<Rightarrow> addr \<Rightarrow> (addr \<Rightarrow> u8) \<Rightarrow> (addr \<Rightarrow> u8)" where "writeb v a m = m(a := v)"
definition writew :: "u16 \<Rightarrow> addr \<Rightarrow> (addr \<Rightarrow> u8) \<Rightarrow> (addr \<Rightarrow> u8)" where "writew v a m = put_unaligned_le16 v a m"
definition writel :: "u32 \<Rightarrow> addr \<Rightarrow> (addr \<Rightarrow> u8) \<Rightarrow> (addr \<Rightarrow> u8)" where "writel v a m = put_unaligned_le32 v a m"
definition writeq :: "u64 \<Rightarrow> addr \<Rightarrow> (addr \<Rightarrow> u8) \<Rightarrow> (addr \<Rightarrow> u8)" where
  "writeq v a m = writel (ucast (drop_bit 32 v)) (a + 4) (writel (ucast v) a m)"

definition ioread8 :: "addr \<Rightarrow> (addr \<Rightarrow> u8) \<Rightarrow> u8" where "ioread8 a m = readb a m"
definition ioread16 :: "addr \<Rightarrow> (addr \<Rightarrow> u8) \<Rightarrow> u16" where "ioread16 a m = readw a m"
definition ioread32 :: "addr \<Rightarrow> (addr \<Rightarrow> u8) \<Rightarrow> u32" where "ioread32 a m = readl a m"
definition iowrite8 :: "u8 \<Rightarrow> addr \<Rightarrow> (addr \<Rightarrow> u8) \<Rightarrow> (addr \<Rightarrow> u8)" where "iowrite8 v a m = writeb v a m"
definition iowrite16 :: "u16 \<Rightarrow> addr \<Rightarrow> (addr \<Rightarrow> u8) \<Rightarrow> (addr \<Rightarrow> u8)" where "iowrite16 v a m = writew v a m"
definition iowrite32 :: "u32 \<Rightarrow> addr \<Rightarrow> (addr \<Rightarrow> u8) \<Rightarrow> (addr \<Rightarrow> u8)" where "iowrite32 v a m = writel v a m"

definition memcpy_toio :: "addr \<Rightarrow> addr \<Rightarrow> nat \<Rightarrow> (addr \<Rightarrow> u8) \<Rightarrow> (addr \<Rightarrow> u8)" where
  "memcpy_toio dst src n m = store_bytes m dst (load_bytes m src n)"

definition memcpy_fromio :: "addr \<Rightarrow> addr \<Rightarrow> nat \<Rightarrow> (addr \<Rightarrow> u8) \<Rightarrow> (addr \<Rightarrow> u8)" where
  "memcpy_fromio dst src n m = store_bytes m dst (load_bytes m src n)"

section \<open>delay.h\<close>

text \<open>The clock is read in order; the result is the number of the first read not used.\<close>

partial_function (option) ndelay_from :: "(nat \<Rightarrow> u64) \<Rightarrow> nat \<Rightarrow> u64 \<Rightarrow> nat option" where
  "ndelay_from clk n deadline =
     (if clk n < deadline then ndelay_from clk (n + 1) deadline else Some (n + 1))"

definition ndelay :: "(nat \<Rightarrow> u64) \<Rightarrow> u64 \<Rightarrow> nat \<Rightarrow> nat option" where
  "ndelay clk nsecs n = ndelay_from clk (n + 1) (clk n + nsecs)"

definition udelay :: "(nat \<Rightarrow> u64) \<Rightarrow> u64 \<Rightarrow> nat \<Rightarrow> nat option" where
  "udelay clk usecs n = ndelay clk (usecs * 1000) n"

definition mdelay :: "(nat \<Rightarrow> u64) \<Rightarrow> u64 \<Rightarrow> nat \<Rightarrow> nat option" where
  "mdelay clk msecs n = ndelay clk (msecs * 1000000) n"

definition msleep :: "(nat \<Rightarrow> u64) \<Rightarrow> u64 \<Rightarrow> u32 \<Rightarrow> (int \<times> nat) option" where
  "msleep jif hz msecs = schedule_timeout jif (sint (msecs_to_jiffies hz msecs))"

definition usleep_range :: "(nat \<Rightarrow> u64) \<Rightarrow> u64 \<Rightarrow> u64 \<Rightarrow> nat \<Rightarrow> nat option" where
  "usleep_range clk mn mx n = udelay clk mn n"

definition fsleep :: "(nat \<Rightarrow> u64) \<Rightarrow> u64 \<Rightarrow> nat \<Rightarrow> nat option" where
  "fsleep clk usecs n = usleep_range clk usecs usecs n"

section \<open>iopoll.h\<close>

text \<open>
  \<open>op i\<close> is the value of poll \<open>i\<close> and \<open>cnd\<close> the condition on it; the result is the status and the number of
  polls made.  The delay between two polls is left out.  \<^verbatim>\<open>__loops\<close>, an int, is the number of the poll,
  counted only when there is a timeout; None is a loop that does not end, or one that counts past the
  greatest int, which is undefined.
\<close>

partial_function (option) poll_from :: "(nat \<Rightarrow> 'v) \<Rightarrow> ('v \<Rightarrow> bool) \<Rightarrow> u64 \<Rightarrow> u64 \<Rightarrow> nat \<Rightarrow> nat option" where
  "poll_from op cnd sleep_us timeout_us i =
     (if cnd (op i) then Some i
      else if timeout_us \<noteq> 0 \<and> int i + 1 > int_max then None
      else if timeout_us \<noteq> 0 \<and> i + 1 > unat (timeout_us div (if sleep_us \<noteq> 0 then sleep_us else 1)) then Some i
      else poll_from op cnd sleep_us timeout_us (i + 1))"

definition read_poll_timeout :: "(nat \<Rightarrow> 'v) \<Rightarrow> ('v \<Rightarrow> bool) \<Rightarrow> u64 \<Rightarrow> u64 \<Rightarrow> (int \<times> nat) option" where
  "read_poll_timeout op cnd sleep_us timeout_us =
     Option.bind (poll_from op cnd sleep_us timeout_us 0) (\<lambda>i. Some (if cnd (op i) then 0 else - ETIMEDOUT, i + 1))"

section \<open>ktime.h\<close>

definition ktime_sub :: "u64 \<Rightarrow> u64 \<Rightarrow> u64" where "ktime_sub lhs rhs = lhs - rhs"
definition ktime_to_us :: "int \<Rightarrow> int" where "ktime_to_us kt = (if kt < 0 then - (- kt div 1000) else kt div 1000)"

section \<open>scatterlist.h: tables and chains\<close>

text \<open>\<open>sg_nx\<close> is the member \<^verbatim>\<open>next\<close> of the entry at an address, 0 for NULL; an entry has 40 bytes.\<close>

definition sizeof_sg :: nat where "sizeof_sg = 40"

record sg_table =
  sgt_sgl :: addr
  sgt_nents :: u32
  sgt_orig_nents :: u32

type_synonym sg_links = "addr \<Rightarrow> addr"

definition sg_next :: "sg_links \<Rightarrow> addr \<Rightarrow> addr" where "sg_next l sg = (if sg \<noteq> 0 then l sg else 0)"

definition sg_mark_end :: "addr \<Rightarrow> sg_links \<Rightarrow> sg_links" where "sg_mark_end sg l = (if sg \<noteq> 0 then l(sg := 0) else l)"

definition sg_is_last :: "sg_links \<Rightarrow> addr \<Rightarrow> bool" where "sg_is_last l sg = (sg = 0 \<or> l sg = 0)"

definition sg_chain_ptr :: "sg_links \<Rightarrow> addr \<Rightarrow> addr" where "sg_chain_ptr l sg = (if sg \<noteq> 0 then l sg else 0)"

text \<open>The loop over \<open>i\<close> of the two initialisers: entry \<open>i\<close> leads to entry \<open>i + 1\<close> while \<open>i + 1 < nents\<close>.\<close>

function sg_link_from :: "addr \<Rightarrow> u32 \<Rightarrow> nat \<Rightarrow> sg_links \<Rightarrow> sg_links" where
  "sg_link_from sgl nents i l =
     (if i + 1 < unat nents
      then sg_link_from sgl nents (i + 1) (l(sgl + i * sizeof_sg := sgl + (i + 1) * sizeof_sg))
      else l)"
  by pat_completeness auto
termination by (relation "measure (\<lambda>(sgl, nents, i, l). unat nents - i)") auto

declare sg_link_from.simps [simp del]

definition sg_link_table :: "addr \<Rightarrow> u32 \<Rightarrow> sg_links \<Rightarrow> sg_links" where
  "sg_link_table sgl nents l =
     (let l = sg_link_from sgl nents 0 l
      in if nents \<noteq> 0 then l(sgl + (unat nents - 1) * sizeof_sg := 0) else l)"

definition sg_alloc_table :: "bool \<Rightarrow> u32 \<Rightarrow> sg_table \<Rightarrow> sg_links \<Rightarrow> 'a kst_scheme \<Rightarrow> int \<times> sg_table \<times> sg_links \<times> 'a kst_scheme" where
  "sg_alloc_table is_null nents t l s =
     (if is_null then (- 1, t, l, s)
      else let (p, s) = lcompat_kcalloc (ucast nents) (of_nat sizeof_sg) s;
               t = t\<lparr>sgt_sgl := p\<rparr>
           in if p = 0 then (- 1, t, l, s)
              else (0, t\<lparr>sgt_nents := nents, sgt_orig_nents := nents\<rparr>, sg_link_table p nents l, s))"

definition sg_free_table :: "bool \<Rightarrow> sg_table \<Rightarrow> 'a kst_scheme \<Rightarrow> sg_table \<times> 'a kst_scheme" where
  "sg_free_table is_null t s =
     (if is_null then (t, s)
      else (t\<lparr>sgt_sgl := 0, sgt_nents := 0, sgt_orig_nents := 0\<rparr>, lcompat_kfree (sgt_sgl t) s))"

definition sg_init_table :: "addr \<Rightarrow> u32 \<Rightarrow> sg_links \<Rightarrow> sg_links" where
  "sg_init_table sgl nents l =
     (if sgl = 0 then l
      else if (ucast nents :: u64) > SIZE_MAX div of_nat sizeof_sg then l
      else sg_link_table sgl nents (\<lambda>a. if list_ex (\<lambda>i. a = sgl + i * sizeof_sg) [0..<unat nents] then 0 else l a))"

text \<open>\<^verbatim>\<open>for_each_sg\<close>: the entries its body sees, at most \<open>n\<close>.\<close>

fun for_each_sg :: "sg_links \<Rightarrow> addr \<Rightarrow> nat \<Rightarrow> addr list" where
  "for_each_sg l sg 0 = []"
| "for_each_sg l sg (Suc n) = (if sg = 0 then [] else sg # for_each_sg l (sg_next l sg) n)"

section \<open>dma-mapping.h\<close>

definition DMA_BIT_MASK :: "nat \<Rightarrow> u64" where
  "DMA_BIT_MASK n = (if n = 64 then - 1 else push_bit n 1 - 1)"

definition dma_map_page :: "pid option \<Rightarrow> u64 \<Rightarrow> u64 \<Rightarrow> u64" where "dma_map_page page off sz = 0"

definition dma_map_single :: "addr \<Rightarrow> u64 \<Rightarrow> u64" where "dma_map_single cpu_addr sz = of_nat cpu_addr"

definition dma_mapping_error :: "u64 \<Rightarrow> int" where "dma_mapping_error a = 0"

definition dma_map_sg :: "addr \<Rightarrow> int \<Rightarrow> int" where "dma_map_sg sgl nents = nents"

definition dma_map_sg_attrs :: "addr \<Rightarrow> int \<Rightarrow> u64 \<Rightarrow> int" where "dma_map_sg_attrs sgl nents attrs = dma_map_sg sgl nents"

definition dma_map_sgtable :: "sg_table option \<Rightarrow> u64 \<Rightarrow> int" where
  "dma_map_sgtable sgt attrs =
     (case sgt of
        None \<Rightarrow> - EINVAL
      | Some t \<Rightarrow> if dma_map_sg (sgt_sgl t) (sint (sgt_nents t)) > 0 then 0 else - EINVAL)"

text \<open>The pointer, the handle (None when the caller passed no pointer for it) and the state.\<close>

definition dma_alloc_coherent :: "u64 \<Rightarrow> bool \<Rightarrow> 'a kst_scheme \<Rightarrow> addr \<times> u64 option \<times> 'a kst_scheme" where
  "dma_alloc_coherent sz has_handle s =
     (let (p, s) = lcompat_kzalloc sz s
      in (p, if has_handle then Some (of_nat p) else None, s))"

definition dma_free_coherent :: "u64 \<Rightarrow> addr \<Rightarrow> u64 \<Rightarrow> 'a kst_scheme \<Rightarrow> 'a kst_scheme" where
  "dma_free_coherent sz cpu_addr handle s = lcompat_kfree cpu_addr s"

definition dmam_alloc_coherent :: "u64 \<Rightarrow> bool \<Rightarrow> 'a kst_scheme \<Rightarrow> addr \<times> u64 option \<times> 'a kst_scheme" where
  "dmam_alloc_coherent sz has_handle s = dma_alloc_coherent sz has_handle s"

section \<open>Facts\<close>

lemma ucast_low_byte: "(ucast ((w :: 'a :: len word) AND 255) :: u8) = ucast w"
proof -
  have "(255 :: 'a word) = mask 8" by (simp add: mask_eq_exp_minus_1)
  then have "(ucast (w AND 255) :: u8) = ucast (w AND mask 8)" by (rule arg_cong)
  also have "\<dots> = ucast w"
    by (rule bit_word_eqI) (auto simp: bit_simps simp del: mask_numeral dest: bit_imp_le_length)
  finally show ?thesis .
qed

lemma readw_writew: "readw a (writew v a m) = v"
proof -
  have b: "writew v a m a = ucast v" "writew v a m (a + 1) = ucast (drop_bit 8 v)"
    by (simp_all add: writew_def put_unaligned_le16_def ucast_low_byte)
  show ?thesis unfolding readw_def get_unaligned_le16_def b by (rule bit_word_eqI) (auto simp: bit_simps)
qed

lemma readl_eq: "readl a m = ucast (m a) OR push_bit 8 (ucast (m (a + 1))) OR push_bit 16 (ucast (m (a + 2))) OR push_bit 24 (ucast (m (a + 3)))"
  by (simp add: readl_def get_unaligned_le32_def)

lemma writel_at:
  "writel v a m a = ucast v" "writel v a m (a + 1) = ucast (drop_bit 8 v)" "writel v a m (a + 2) = ucast (drop_bit 16 v)"
  "writel v a m (a + 3) = ucast (drop_bit 24 v)" "b < a \<or> a + 4 \<le> b \<Longrightarrow> writel v a m b = m b"
  by (auto simp: writel_def put_unaligned_le32_def ucast_low_byte)

lemma readl_writel: "readl a (writel v a m) = v"
proof (rule bit_word_eqI)
  fix n assume "n < LENGTH(32)"
  then consider "n < 8" | "8 \<le> n" "n < 16" | "16 \<le> n" "n < 24" | "24 \<le> n" "n < 32" by fastforce
  then show "bit (readl a (writel v a m)) n = bit v n"
    unfolding readl_eq writel_at by cases (auto simp: bit_simps)
qed

lemma readl_writel_apart: "b + 4 \<le> a \<or> a + 4 \<le> b \<Longrightarrow> readl b (writel v a m) = readl b m"
proof -
  assume "b + 4 \<le> a \<or> a + 4 \<le> b"
  then have "writel v a m (b + k) = m (b + k)" if "k < 4" for k using that by (intro writel_at(5)) linarith
  from this [of 0] this [of 1] this [of 2] this [of 3] show ?thesis unfolding readl_eq by simp
qed

text \<open>A value written to device memory is read back at the same width, for all four widths.\<close>

lemma readq_writeq: "readq a (writeq v a m) = v"
proof -
  have "readl a (writeq v a m) = ucast v" by (simp add: writeq_def readl_writel_apart readl_writel)
  moreover have "readl (a + 4) (writeq v a m) = ucast (drop_bit 32 v)" by (simp add: writeq_def readl_writel)
  ultimately show ?thesis
    unfolding readq_def by (intro bit_word_eqI) (auto simp: bit_simps)
qed

lemma ndelay_ends:
  assumes "\<not> clk m < clk n + ns" and "n + 1 \<le> m"
  shows "\<exists>k. ndelay clk ns n = Some k \<and> n + 1 < k \<and> k \<le> m + 1 \<and> \<not> clk (k - 1) < clk n + ns"
proof -
  have "\<exists>k. ndelay_from clk j dl = Some k \<and> j < k \<and> k \<le> m + 1 \<and> \<not> clk (k - 1) < dl"
    if "\<not> clk m < dl" "j \<le> m" for j dl
    using that
  proof (induction "m - j" arbitrary: j)
    case 0
    then show ?case by (subst ndelay_from.simps) simp
  next
    case (Suc d)
    show ?case
    proof (cases "clk j < dl")
      case True
      then have "j < m" using Suc by (cases "j = m") auto
      then obtain k where "ndelay_from clk (j + 1) dl = Some k" "j + 1 < k" "k \<le> m + 1" "\<not> clk (k - 1) < dl"
        using Suc.hyps(1) [of "j + 1"] Suc.hyps(2) Suc.prems by fastforce
      moreover have "ndelay_from clk j dl = ndelay_from clk (j + 1) dl" using True by (subst ndelay_from.simps) simp
      ultimately show ?thesis by (intro exI [of _ k]) simp
    next
      case False
      then have "ndelay_from clk j dl = Some (j + 1)" by (subst ndelay_from.simps) simp
      with False Suc.prems show ?thesis by simp
    qed
  qed
  then show ?thesis using assms unfolding ndelay_def by blast
qed

lemma poll_from_runs:
  assumes "timeout_us \<noteq> 0" and "q = unat (timeout_us div (if sleep_us \<noteq> 0 then sleep_us else 1))" and "i \<le> q"
    and "int q < int_max"
  shows "\<exists>k. poll_from op cnd sleep_us timeout_us i = Some k \<and> i \<le> k \<and> k \<le> q \<and> (\<forall>j. i \<le> j \<and> j < k \<longrightarrow> \<not> cnd (op j)) \<and>
    (cnd (op k) \<or> k = q)"
  using assms(3)
proof (induction "q - i" arbitrary: i)
  case 0
  then show ?case using assms(1,2,4) poll_from.simps [of op cnd sleep_us timeout_us i]
    by (intro exI [of _ q]) auto
next
  case (Suc d)
  show ?case
  proof (cases "cnd (op i)")
    case True
    then show ?thesis using Suc poll_from.simps [of op cnd sleep_us timeout_us i] by (intro exI [of _ i]) auto
  next
    case False
    have "i < q" using Suc by linarith
    then have "\<not> int_max \<le> int i" using assms(4) by linarith
    obtain k where k: "poll_from op cnd sleep_us timeout_us (i + 1) = Some k" "i + 1 \<le> k" "k \<le> q"
      "\<forall>j. i + 1 \<le> j \<and> j < k \<longrightarrow> \<not> cnd (op j)" "cnd (op k) \<or> k = q"
      using Suc.hyps(1) [of "i + 1"] Suc.hyps(2) \<open>i < q\<close> by fastforce
    moreover have "poll_from op cnd sleep_us timeout_us i = poll_from op cnd sleep_us timeout_us (i + 1)"
      using False \<open>i < q\<close> \<open>\<not> int_max \<le> int i\<close> assms(1,2) poll_from.simps [of op cnd sleep_us timeout_us i] by simp
    moreover have "\<not> cnd (op j)" if "i \<le> j" "j < k" for j using that False k(4) by (cases "j = i") auto
    ultimately show ?thesis by (intro exI [of _ k]) simp
  qed
qed

lemma sg_link_from_at:
  "sg_link_from sgl nents i l (sgl + j * sizeof_sg) =
     (if i \<le> j \<and> j + 1 < unat nents then sgl + (j + 1) * sizeof_sg else l (sgl + j * sizeof_sg))"
proof (induction sgl nents i l rule: sg_link_from.induct)
  case (1 sgl nents i l)
  show ?case
  proof (cases "i + 1 < unat nents")
    case True
    have "sg_link_from sgl nents i l (sgl + j * sizeof_sg) =
       (if i + 1 \<le> j \<and> j + 1 < unat nents then sgl + (j + 1) * sizeof_sg
        else (l(sgl + i * sizeof_sg := sgl + (i + 1) * sizeof_sg)) (sgl + j * sizeof_sg))"
      unfolding sg_link_from.simps [of sgl nents i l] using "1.IH" [OF True] True by (simp only: if_True)
    then show ?thesis using True by (cases "j = i") (auto simp: sizeof_sg_def)
  next
    case False
    then show ?thesis by (subst sg_link_from.simps) auto
  qed
qed

lemma sg_link_table_at:
  "0 < unat nents \<Longrightarrow> j < unat nents \<Longrightarrow>
   sg_link_table sgl nents l (sgl + j * sizeof_sg) = (if j + 1 < unat nents then sgl + (j + 1) * sizeof_sg else 0)"
  using sg_link_from_at [of sgl nents 0 l j]
  by (cases "j = unat nents - 1") (auto simp: sg_link_table_def Let_def sizeof_sg_def unat_gt_0)

lemma for_each_sg_from:
  assumes "sgl \<noteq> 0" and "0 < unat nents"
  shows "j < unat nents \<Longrightarrow> for_each_sg (sg_link_table sgl nents l) (sgl + j * sizeof_sg) n =
     map (\<lambda>i. sgl + i * sizeof_sg) [j..<min (j + n) (unat nents)]"
proof (induction n arbitrary: j)
  case (Suc n)
  show ?case
  proof (cases "j + 1 < unat nents")
    case True
    have "[j..<min (j + Suc n) (unat nents)] = j # [j + 1..<min (j + 1 + n) (unat nents)]"
      using Suc.prems by (simp add: upt_conv_Cons)
    then show ?thesis
      using assms Suc.IH [OF True] Suc.prems True sg_link_table_at [OF assms(2) Suc.prems, of sgl l] by (simp add: sg_next_def)
  next
    case False
    then have "min (j + Suc n) (unat nents) = Suc j" using Suc.prems by simp
    then have "[j..<min (j + Suc n) (unat nents)] = [j]" by simp
    moreover have "for_each_sg k 0 n = []" for k by (cases n) simp_all
    ultimately show ?thesis
      using assms False sg_link_table_at [OF assms(2) Suc.prems, of sgl l] by (simp add: sg_next_def del: upt_Suc)
  qed
qed simp

section \<open>Properties\<close>

text \<open>
  C37. Polling with a timeout ends, after at most \<open>timeout / delay + 1\<close> polls, when that number is an int (the
  counter of the loop is one): with 0 at the first poll whose
  value satisfies the condition, and with \<^verbatim>\<open>-ETIMEDOUT\<close> exactly when none of these polls does.
\<close>

theorem read_poll_timeout_ends:
  assumes "timeout_us \<noteq> 0" and "q = unat (timeout_us div (if sleep_us \<noteq> 0 then sleep_us else 1))" and "int q < int_max"
  shows "read_poll_timeout op cnd sleep_us timeout_us =
    (if \<exists>i \<le> q. cnd (op i) then Some (0, (LEAST i. cnd (op i)) + 1) else Some (- ETIMEDOUT, q + 1))"
proof -
  obtain k where k: "poll_from op cnd sleep_us timeout_us 0 = Some k" "k \<le> q" "\<forall>j < k. \<not> cnd (op j)" "cnd (op k) \<or> k = q"
    using poll_from_runs [OF assms(1,2) _ assms(3), of 0 op cnd] by auto
  show ?thesis
  proof (cases "cnd (op k)")
    case True
    then have "(LEAST i. cnd (op i)) = k" using k(3) by (intro Least_equality) (auto simp: not_less [symmetric])
    with True k show ?thesis by (auto simp: read_poll_timeout_def)
  next
    case False
    then have kq: "k = q" using k(4) by simp
    have none: "\<not> (\<exists>i \<le> q. cnd (op i))" using k(3) False kq by (auto simp: le_less)
    show ?thesis unfolding if_not_P [OF none] using False k(1) kq by (simp add: read_poll_timeout_def)
  qed
qed

theorem read_poll_timeout_ends_witness:
  "read_poll_timeout (\<lambda>i. i) (\<lambda>v. v > 7) 10 50 = Some (- ETIMEDOUT, 6)"
proof -
  have none: "\<not> (\<exists>i \<le> 5. 7 < (i :: nat))" by auto
  show ?thesis
    using read_poll_timeout_ends [of 50 5 10 "\<lambda>i. i" "\<lambda>v. v > 7"] unfolding if_not_P [OF none] by (simp add: int_max_def)
qed

text \<open>
  A scatterlist table of \<open>nents\<close> entries is one chain: iterating over it from its first entry visits the
  entries in order, each once, as many as are asked for or there are, and the last one has no successor.
\<close>

theorem sg_table_chain:
  assumes "sgl \<noteq> 0" and "nents \<noteq> 0"
  shows "for_each_sg (sg_link_table sgl nents l) sgl n = map (\<lambda>i. sgl + i * sizeof_sg) [0..<min n (unat nents)] \<and>
    sg_is_last (sg_link_table sgl nents l) (sgl + (unat nents - 1) * sizeof_sg)"
proof -
  have p: "0 < unat nents" using assms(2) by (simp add: unat_gt_0)
  show ?thesis
    using for_each_sg_from [OF assms(1) p p, of l n] sg_link_table_at [OF p, of "unat nents - 1" sgl l] p
    by (simp add: sg_is_last_def)
qed

theorem sg_table_chain_witness:
  "for_each_sg (sg_link_table 4096 3 (\<lambda>_. 77)) 4096 10 = [4096, 4136, 4176]"
  using sg_table_chain [of 4096 3 "\<lambda>_. 77" 10] by (simp add: sizeof_sg_def upt_rec)

end
