(* ===== verification/LC_Device.thy ===== *)
theory LC_Device
  imports LC_Skbuff LC_Kernel
begin

text \<open>
  Devices and the small services around them: \<^verbatim>\<open>linux/device.h\<close>, \<^verbatim>\<open>debugfs.c\<close>,
  \<^verbatim>\<open>linux/ref_tracker.h\<close>, \<^verbatim>\<open>linux/netdevice.h\<close>, \<^verbatim>\<open>linux/hwmon.h\<close>, \<^verbatim>\<open>linux/irq_work.h\<close>,
  \<^verbatim>\<open>linux/perf_event.h\<close>, \<^verbatim>\<open>linux/of.h\<close> and \<^verbatim>\<open>linux/soc/mediatek/mtk_wed.h\<close>.

  A pointer the code only stores is an address; a string is the list of its bytes before the zero.
\<close>

section \<open>device.h\<close>

record device =
  dev_init_name :: "u8 list option"
  dev_kobj_name :: "u8 list option"
  dev_parent :: addr
  dev_of_node :: addr
  dev_busdev :: addr
  dev_driver_data :: addr
  dev_native :: addr
  dev_driver :: addr

definition dev_get_drvdata :: "device option \<Rightarrow> addr" where
  "dev_get_drvdata dev = (case dev of None \<Rightarrow> 0 | Some d \<Rightarrow> dev_driver_data d)"

definition dev_set_drvdata :: "device option \<Rightarrow> addr \<Rightarrow> device option" where
  "dev_set_drvdata dev data = map_option (\<lambda>d. d\<lparr>dev_driver_data := data\<rparr>) dev"

text \<open>\<open>text\<close> is what the format and its arguments expand to.\<close>

definition devm_kasprintf :: "u8 list \<Rightarrow> 'a kst_scheme \<Rightarrow> addr \<times> 'a kst_scheme" where
  "devm_kasprintf expansion s =
     (let (buf, s) = lcompat_kzalloc 128 s
      in if buf = 0 then (0, s)
         else (buf, s\<lparr>k_mem := store_bytes (k_mem s) buf (take 127 expansion @ [0])\<rparr>))"

definition devm_kzalloc :: "u64 \<Rightarrow> 'a kst_scheme \<Rightarrow> addr \<times> 'a kst_scheme" where
  "devm_kzalloc sz s = lcompat_kzalloc sz s"

definition devm_kmalloc :: "u64 \<Rightarrow> 'a kst_scheme \<Rightarrow> addr \<times> 'a kst_scheme" where
  "devm_kmalloc sz s = lcompat_kmalloc sz s"

definition devm_kcalloc :: "u64 \<Rightarrow> u64 \<Rightarrow> 'a kst_scheme \<Rightarrow> addr \<times> 'a kst_scheme" where
  "devm_kcalloc n sz s = lcompat_kcalloc n sz s"

definition devm_kmemdup :: "addr \<Rightarrow> u64 \<Rightarrow> 'a kst_scheme \<Rightarrow> addr \<times> 'a kst_scheme" where
  "devm_kmemdup src len s =
     (if src = 0 then (0, s)
      else let (dst, s) = lcompat_kmalloc len s
           in if dst = 0 then (0, s)
              else (dst, s\<lparr>k_mem := store_bytes (k_mem s) dst (load_bytes (k_mem s) src (unat len))\<rparr>))"

definition devm_kmemdup_array :: "addr \<Rightarrow> u64 \<Rightarrow> u64 \<Rightarrow> 'a kst_scheme \<Rightarrow> addr \<times> 'a kst_scheme" where
  "devm_kmemdup_array src n sz s =
     (if n \<noteq> 0 \<and> sz > SIZE_MAX div n then (0, s) else devm_kmemdup src (n * sz) s)"

definition devm_kfree :: "addr \<Rightarrow> 'a kst_scheme \<Rightarrow> 'a kst_scheme" where
  "devm_kfree p s = lcompat_kfree p s"

text \<open>\<^verbatim>\<open>"(null)"\<close> and \<^verbatim>\<open>"(device)"\<close>.\<close>

definition null_name :: "u8 list" where "null_name = [40, 110, 117, 108, 108, 41]"
definition device_name :: "u8 list" where "device_name = [40, 100, 101, 118, 105, 99, 101, 41]"

definition dev_name :: "device option \<Rightarrow> u8 list" where
  "dev_name dev =
     (case dev of
        None \<Rightarrow> null_name
      | Some d \<Rightarrow>
          case dev_kobj_name d of
            Some n \<Rightarrow> n
          | None \<Rightarrow> (case dev_init_name d of Some n \<Rightarrow> n | None \<Rightarrow> device_name))"

definition devm_hwmon_device_register_with_groups :: "device option \<Rightarrow> addr \<Rightarrow> device option" where
  "devm_hwmon_device_register_with_groups dev drvdata = dev_set_drvdata dev drvdata"

section \<open>debugfs.c\<close>

record dentry =
  de_name :: addr
  de_parent :: "nat option"

record dbst = kst +
  db_entries :: "nat \<Rightarrow> dentry option"

text \<open>\<^verbatim>\<open>strdup\<close> allocates room for the string and its zero and copies both.\<close>

definition strdup :: "u8 list \<Rightarrow> 'a kst_scheme \<Rightarrow> addr \<times> 'a kst_scheme" where
  "strdup str s =
     (let (p, s) = host_malloc (of_nat (length str + 1)) s
      in (p, if p \<noteq> 0 then s\<lparr>k_mem := store_bytes (k_mem s) p (str @ [0])\<rparr> else s))"

definition debugfs_create_dir :: "u8 list option \<Rightarrow> nat option \<Rightarrow> dbst \<Rightarrow> nat option \<times> dbst" where
  "debugfs_create_dir name parent s =
     (case kzalloc_obj s of
        (None, s) \<Rightarrow> (None, s)
      | (Some d, s) \<Rightarrow>
          let (nm, s) = (case name of None \<Rightarrow> (0, s) | Some n \<Rightarrow> strdup n s)
          in (Some d, s\<lparr>db_entries := (db_entries s)(d \<mapsto> \<lparr>de_name = nm, de_parent = parent\<rparr>)\<rparr>))"

definition debugfs_create_file :: "u8 list option \<Rightarrow> u16 \<Rightarrow> nat option \<Rightarrow> addr \<Rightarrow> addr \<Rightarrow> dbst \<Rightarrow> nat option \<times> dbst" where
  "debugfs_create_file name mode parent data fops s = debugfs_create_dir name parent s"

definition debugfs_create_file_unsafe :: "u8 list option \<Rightarrow> u16 \<Rightarrow> nat option \<Rightarrow> addr \<Rightarrow> addr \<Rightarrow> dbst \<Rightarrow> nat option \<times> dbst" where
  "debugfs_create_file_unsafe name mode parent data fops s = debugfs_create_file name mode parent data fops s"

definition debugfs_create_u8 :: "u8 list option \<Rightarrow> u16 \<Rightarrow> nat option \<Rightarrow> addr \<Rightarrow> dbst \<Rightarrow> nat option \<times> dbst" where
  "debugfs_create_u8 name mode parent val s = debugfs_create_file name mode parent val 0 s"

definition debugfs_create_u16 :: "u8 list option \<Rightarrow> u16 \<Rightarrow> nat option \<Rightarrow> addr \<Rightarrow> dbst \<Rightarrow> nat option \<times> dbst" where
  "debugfs_create_u16 name mode parent val s = debugfs_create_file name mode parent val 0 s"

definition debugfs_create_u32 :: "u8 list option \<Rightarrow> u16 \<Rightarrow> nat option \<Rightarrow> addr \<Rightarrow> dbst \<Rightarrow> nat option \<times> dbst" where
  "debugfs_create_u32 name mode parent val s = debugfs_create_file name mode parent val 0 s"

definition debugfs_create_bool :: "u8 list option \<Rightarrow> u16 \<Rightarrow> nat option \<Rightarrow> addr \<Rightarrow> dbst \<Rightarrow> nat option \<times> dbst" where
  "debugfs_create_bool name mode parent val s = debugfs_create_file name mode parent val 0 s"

definition debugfs_create_blob :: "u8 list option \<Rightarrow> u16 \<Rightarrow> nat option \<Rightarrow> addr \<Rightarrow> dbst \<Rightarrow> nat option \<times> dbst" where
  "debugfs_create_blob name mode parent blob s = debugfs_create_file name mode parent blob 0 s"

definition debugfs_create_devm_seqfile :: "u8 list option \<Rightarrow> nat option \<Rightarrow> dbst \<Rightarrow> nat option \<times> dbst" where
  "debugfs_create_devm_seqfile name parent s = debugfs_create_file name 0x100 parent 0 0 s"

definition debugfs_remove :: "nat option \<Rightarrow> dbst \<Rightarrow> dbst" where
  "debugfs_remove entry s =
     (case entry of
        None \<Rightarrow> s
      | Some d \<Rightarrow>
          let s = lcompat_kfree (case db_entries s d of None \<Rightarrow> 0 | Some e \<Rightarrow> de_name e) s;
              s = kfree_obj s
          in s\<lparr>db_entries := (db_entries s)(d := None)\<rparr>)"

definition debugfs_remove_recursive :: "nat option \<Rightarrow> dbst \<Rightarrow> dbst" where
  "debugfs_remove_recursive entry s = debugfs_remove entry s"

section \<open>ref_tracker.h\<close>

record ref_tracker_dir =
  rd_name :: addr
  rd_dead_limit :: int

definition ref_tracker_dir_init :: "ref_tracker_dir option \<Rightarrow> int \<Rightarrow> addr \<Rightarrow> ref_tracker_dir option" where
  "ref_tracker_dir_init dir limit nm = map_option (\<lambda>d. d\<lparr>rd_name := nm, rd_dead_limit := limit\<rparr>) dir"

text \<open>The caller's pointer to the tracker is None when it is null, and holds None for NULL.\<close>

definition ref_tracker_alloc :: "nat option option \<Rightarrow> 'a kst_scheme \<Rightarrow> int \<times> nat option option \<times> 'a kst_scheme" where
  "ref_tracker_alloc tracker s =
     (case tracker of
        None \<Rightarrow> (- EINVAL, None, s)
      | Some _ \<Rightarrow> let (t, s) = kzalloc_obj s in (if t \<noteq> None then 0 else - ENOMEM, Some t, s))"

definition ref_tracker_free :: "nat option option \<Rightarrow> 'a kst_scheme \<Rightarrow> nat option option \<times> 'a kst_scheme" where
  "ref_tracker_free tracker s =
     (case tracker of
        None \<Rightarrow> (None, s)
      | Some None \<Rightarrow> (Some None, s)
      | Some (Some t) \<Rightarrow> (Some None, kfree_obj s))"

section \<open>netdevice.h\<close>

record net_device =
  nd_name :: "u8 list"
  nd_threaded :: bool

definition netif_napi_add :: "nat option \<Rightarrow> nat option option \<Rightarrow> nat option option" where
  "netif_napi_add dev napi = map_option (\<lambda>_. dev) napi"

definition netif_napi_add_tx :: "nat option \<Rightarrow> nat option option \<Rightarrow> nat option option" where
  "netif_napi_add_tx dev napi = netif_napi_add dev napi"

definition napi_complete :: bool where "napi_complete = True"
definition napi_complete_done :: "int \<Rightarrow> bool" where "napi_complete_done n = True"

definition napi_gro_receive :: "'c sk_buff option \<Rightarrow> 'a kst_scheme \<Rightarrow> 'a kst_scheme" where
  "napi_gro_receive skb s = kfree_skb skb s"

text \<open>The buffers on the list, each taken off it and freed; None is a null list head.\<close>

fun free_each :: "'c sk_buff list \<Rightarrow> 'a kst_scheme \<Rightarrow> 'a kst_scheme" where
  "free_each [] s = s"
| "free_each (skb # l) s = free_each l (kfree_skb (Some skb) s)"

definition netif_receive_skb_list :: "'c sk_buff list option \<Rightarrow> 'a kst_scheme \<Rightarrow> 'c sk_buff list option \<times> 'a kst_scheme" where
  "netif_receive_skb_list l s = (case l of None \<Rightarrow> (None, s) | Some xs \<Rightarrow> (Some [], free_each xs s))"

definition napi_consume_skb :: "'c sk_buff option \<Rightarrow> int \<Rightarrow> 'a kst_scheme \<Rightarrow> 'a kst_scheme" where
  "napi_consume_skb skb budget s = kfree_skb skb s"

definition napi_build_skb :: "addr \<Rightarrow> u32 \<Rightarrow> 'a kst_scheme \<Rightarrow> 'c :: zero sk_buff option \<times> 'a kst_scheme" where
  "napi_build_skb data frag_size s = build_skb data (ucast (if frag_size \<noteq> 0 then frag_size else 2048)) s"

text \<open>\<^verbatim>\<open>struct net_device\<close> has 17 bytes.\<close>

definition alloc_netdev_dummy :: "int \<Rightarrow> 'a kst_scheme \<Rightarrow> addr \<times> 'a kst_scheme" where
  "alloc_netdev_dummy sizeof_priv s = lcompat_kzalloc (17 + (if sizeof_priv > 0 then word_of_int sizeof_priv else 0)) s"

definition free_netdev :: "addr \<Rightarrow> 'a kst_scheme \<Rightarrow> 'a kst_scheme" where
  "free_netdev dev s = lcompat_kfree dev s"

definition dev_set_threaded :: "net_device option \<Rightarrow> bool \<Rightarrow> int \<times> net_device option" where
  "dev_set_threaded dev th = (case dev of None \<Rightarrow> (- EINVAL, None) | Some d \<Rightarrow> (0, Some (d\<lparr>nd_threaded := th\<rparr>)))"

section \<open>irq_work.h\<close>

text \<open>The callback is a function on the state of its driver; it runs in the caller.\<close>

definition irq_work_queue :: "('s \<Rightarrow> 's) option option \<Rightarrow> 's \<Rightarrow> bool \<times> 's" where
  "irq_work_queue work s =
     (case work of
        Some (Some f) \<Rightarrow> (True, f s)
      | _ \<Rightarrow> (False, s))"

section \<open>perf_event.h\<close>

text \<open>A counter shared with interrupts; each operation is one indivisible step.\<close>

definition local64_read :: "u64 option \<Rightarrow> u64" where
  "local64_read v = (case v of None \<Rightarrow> 0 | Some c \<Rightarrow> c)"

definition local64_set :: "u64 \<Rightarrow> u64 option \<Rightarrow> u64 option" where
  "local64_set i v = map_option (\<lambda>_. i) v"

text \<open>The result, the counter, and the caller's expected value, which receives the counter on failure.\<close>

definition local64_try_cmpxchg :: "u64 option \<Rightarrow> u64 option \<Rightarrow> u64 \<Rightarrow> bool \<times> u64 option \<times> u64 option" where
  "local64_try_cmpxchg v old new_value =
     (case (v, old) of
        (Some c, Some e) \<Rightarrow> if c = e then (True, Some new_value, Some e) else (False, Some c, Some c)
      | _ \<Rightarrow> (False, v, old))"

definition local64_add :: "u64 \<Rightarrow> u64 option \<Rightarrow> u64 option" where
  "local64_add i v = map_option (\<lambda>c. c + i) v"

definition perf_pmu_register :: "int option \<Rightarrow> int \<Rightarrow> int \<times> int option" where
  "perf_pmu_register pmu ty = (case pmu of None \<Rightarrow> (- EINVAL, None) | Some _ \<Rightarrow> (0, Some ty))"

section \<open>of.h\<close>

text \<open>There is no device tree: no node, no property, and a made-up address.\<close>

definition of_property_read_u32 :: "u32 option \<Rightarrow> int \<times> u32 option" where
  "of_property_read_u32 out_value = (- ENOENT, map_option (\<lambda>_. 0) out_value)"

definition of_get_property :: "int option \<Rightarrow> addr \<times> int option" where
  "of_get_property lenp = (0, map_option (\<lambda>_. 0) lenp)"

definition of_find_property :: "int option \<Rightarrow> addr \<times> int option" where
  "of_find_property lenp = (0, map_option (\<lambda>_. 0) lenp)"

definition of_get_mac_address :: "u8 list option \<Rightarrow> (u8 list) \<Rightarrow> int \<times> u8 list option" where
  "of_get_mac_address a random = (if a \<noteq> None then 0 else - EINVAL, map_option (\<lambda>_. random) a)"

section \<open>mtk_wed.h\<close>

record mtk_wed_device =
  we_hif2 :: bool
  we_token_start :: u16
  we_nbuf :: u16
  we_rx_buf_ring :: addr
  we_active :: bool

datatype wed_op =
    WedActive | WedRegRead u32 | WedRegWrite u32 u32 | WedTxRingSetup | WedTxfreeRingSetup | WedRxRingSetup
  | WedRroRxRingSetup | WedMsduPgRxRingSetup | WedIndRxRingSetup | WedUpdateMsg int | WedGetRxCapa | WedSetupTc
  | WedDetach | WedAttach | WedIrqSetMask u32 | WedIrqGet u32 | WedPpeCheck | WedStart u32 | WedStop | WedStartHwRro u32

text \<open>The value each function returns, with 0 for the ones that return nothing.\<close>

fun wed_step :: "wed_op \<Rightarrow> mtk_wed_device option \<Rightarrow> int \<times> mtk_wed_device option" where
  "wed_step WedActive wed = (case wed of None \<Rightarrow> 0 | Some w \<Rightarrow> if we_active w then 1 else 0, wed)"
| "wed_step WedDetach wed = (0, map_option (\<lambda>w. w\<lparr>we_active := False\<rparr>) wed)"
| "wed_step _ wed = (0, wed)"

definition mtk_wed_device_ppe_check :: "bool option \<Rightarrow> bool option" where
  "mtk_wed_device_ppe_check check = map_option (\<lambda>_. False) check"

section \<open>Facts\<close>

text \<open>An entry can be removed again without a leak, but removing a directory leaves its children behind.\<close>

lemma debugfs_create_remove:
  assumes "debugfs_create_dir name parent s = (Some d, s')"
  shows "k_live (debugfs_remove (Some d) s') = k_live s"
  using assms
  by (cases name)
     (auto simp: debugfs_create_dir_def debugfs_remove_def strdup_def host_malloc_def kzalloc_obj_def lcompat_kfree_def
       kfree_obj_def Let_def split: prod.splits if_splits)

lemma debugfs_children_stay:
  assumes "d \<noteq> c" and "db_entries s c = Some e"
  shows "db_entries (debugfs_remove_recursive (Some d) s) c = Some e"
  using assms by (simp add: debugfs_remove_recursive_def debugfs_remove_def lcompat_kfree_def kfree_obj_def Let_def)

lemma ref_tracker_alloc_free:
  assumes "ref_tracker_alloc (Some x) s = (ret, t, s')"
  shows "k_live (snd (ref_tracker_free t s')) = k_live s" "fst (ref_tracker_free t s') = Some None"
    "ret = 0 \<or> ret = - ENOMEM"
  using assms
  by (auto simp: ref_tracker_alloc_def ref_tracker_free_def kzalloc_obj_def kfree_obj_def Let_def split: if_splits)

text \<open>Registering a sensor replaces the data the driver of the device has stored there.\<close>

lemma hwmon_overwrites_drvdata:
  "dev_get_drvdata (devm_hwmon_device_register_with_groups (dev_set_drvdata (Some d) a) b) = b"
  by (simp add: devm_hwmon_device_register_with_groups_def dev_set_drvdata_def dev_get_drvdata_def)

text \<open>No operation makes a device active, and it reports success nevertheless.\<close>

lemma wed_never_active:
  assumes "case wed of None \<Rightarrow> True | Some w \<Rightarrow> \<not> we_active w"
  shows "fst (wed_step q wed) = 0" "case snd (wed_step q wed) of None \<Rightarrow> True | Some w \<Rightarrow> \<not> we_active w"
  using assms by (cases q; auto split: option.splits)+

text \<open>
  \<^verbatim>\<open>devm_kmemdup_array\<close> either fails without effect on memory or returns a block that holds the
  \<open>n\<close> elements: the product of count and size never wraps.
\<close>

theorem devm_kmemdup_array_copies:
  assumes "devm_kmemdup_array src n sz s = (p, s')" and "p \<noteq> 0"
  shows "unat (n * sz) = unat n * unat sz \<and> src \<noteq> 0 \<and>
    load_bytes (k_mem s') p (unat n * unat sz) = load_bytes (k_mem s) src (unat n * unat sz)"
proof -
  have nn: "\<not> (n \<noteq> 0 \<and> sz > SIZE_MAX div n)" using assms by (auto simp: devm_kmemdup_array_def)
  then have m: "unat (n * sz) = unat n * unat sz"
  proof (cases "n = 0")
    case False
    then have "sz \<le> SIZE_MAX div n" using nn by simp
    then have "unat sz \<le> unat SIZE_MAX div unat n" by (simp add: word_le_nat_alt unat_div)
    then have "unat n * unat sz \<le> unat SIZE_MAX"
      by (meson div_times_less_eq_dividend dual_order.trans mult_le_mono2 times_div_less_eq_dividend)
    then have "unat n * unat sz < 2 ^ 64" by (simp add: SIZE_MAX_def)
    then show ?thesis by (simp add: unat_word_ariths)
  qed simp
  have "devm_kmemdup src (n * sz) s = (p, s')" using assms(1) nn by (simp add: devm_kmemdup_array_def split: if_splits)
  then have "src \<noteq> 0 \<and> load_bytes (k_mem s') p (unat (n * sz)) = load_bytes (k_mem s) src (unat (n * sz))"
    using assms(2) by (auto simp: devm_kmemdup_def lcompat_kmalloc_def host_malloc_def mem_simps Let_def split: if_splits)
  with m show ?thesis by simp
qed

theorem devm_kmemdup_array_copies_witness:
  "load_bytes (k_mem (snd (devm_kmemdup_array 8 2 3 kst_init))) (fst (devm_kmemdup_array 8 2 3 kst_init)) 6 =
     load_bytes (k_mem kst_init) 8 6"
proof -
  have "fst (devm_kmemdup_array 8 2 3 kst_init) \<noteq> 0"
    by (simp add: devm_kmemdup_array_def devm_kmemdup_def lcompat_kmalloc_def host_malloc_def kst_init_def SIZE_MAX_def)
  then show ?thesis
    using devm_kmemdup_array_copies [of 8 2 3 kst_init "fst (devm_kmemdup_array 8 2 3 kst_init)"
      "snd (devm_kmemdup_array 8 2 3 kst_init)"] by simp
qed

end
