(* ===== verification/LC_Layout.thy ===== *)
theory LC_Layout
  imports LC_Prelude
begin

text \<open>
  The memory layout of C types on the 64-bit little-endian hosts the code runs on: size, alignment
  and the offset of a member reached by a path of member names and array indices, by the rules of the
  C ABI (members in order, each at the next multiple of its alignment, the size rounded up to the
  alignment of the whole; a packed structure puts its members side by side, and the layout inside a
  member of it stays what it was; the members of a union start together).

  \<open>CBits\<close> is a run of bit-fields that share one storage unit.  \<open>CExt\<close> is a type declared outside the
  repository: its size and alignment are a parameter.
\<close>

datatype cty =
    CInt nat
  | CPtr
  | CArr nat cty
  | CFlex cty
  | CBits nat "(string \<times> nat) list"
  | CStruct bool cfields
  | CUnion cfields
  | CExt string
and cfields = FNil | FCons string cty cfields

fun fields :: "(string \<times> cty) list \<Rightarrow> cfields" where
  "fields [] = FNil"
| "fields ((n, t) # fs) = FCons n t (fields fs)"

definition cstruct :: "(string \<times> cty) list \<Rightarrow> cty" where "cstruct fs = CStruct False (fields fs)"
definition cpacked :: "(string \<times> cty) list \<Rightarrow> cty" where "cpacked fs = CStruct True (fields fs)"
definition cunion :: "(string \<times> cty) list \<Rightarrow> cty" where "cunion fs = CUnion (fields fs)"

text \<open>The scalar types: an enumeration and \<^verbatim>\<open>int\<close> have four bytes, \<^verbatim>\<open>bool\<close> and \<^verbatim>\<open>char\<close> one.\<close>

abbreviation (input) c_u8 :: cty where "c_u8 \<equiv> CInt 1"
abbreviation (input) c_u16 :: cty where "c_u16 \<equiv> CInt 2"
abbreviation (input) c_u32 :: cty where "c_u32 \<equiv> CInt 4"
abbreviation (input) c_u64 :: cty where "c_u64 \<equiv> CInt 8"
abbreviation (input) c_s8 :: cty where "c_s8 \<equiv> CInt 1"
abbreviation (input) c_bool :: cty where "c_bool \<equiv> CInt 1"
abbreviation (input) c_char :: cty where "c_char \<equiv> CInt 1"
abbreviation (input) c_int :: cty where "c_int \<equiv> CInt 4"
abbreviation (input) c_enum :: cty where "c_enum \<equiv> CInt 4"
abbreviation (input) c_long :: cty where "c_long \<equiv> CInt 8"

text \<open>The extern for types that use none.\<close>

definition no_ext :: "string \<Rightarrow> nat \<times> nat" where "no_ext s = (0, 1)"

text \<open>The layouts of the types of the program.\<close>

named_theorems layout

section \<open>Size, alignment, offsets\<close>

type_synonym extern = "string \<Rightarrow> nat \<times> nat"

definition align_up :: "nat \<Rightarrow> nat \<Rightarrow> nat" where
  "align_up n a = (if a = 0 then n else (n + a - 1) div a * a)"

primrec ct_align :: "extern \<Rightarrow> cty \<Rightarrow> nat" and fs_align :: "extern \<Rightarrow> cfields \<Rightarrow> nat" where
  "ct_align e (CInt n) = n"
| "ct_align e CPtr = 8"
| "ct_align e (CArr k t) = ct_align e t"
| "ct_align e (CFlex t) = ct_align e t"
| "ct_align e (CBits n ws) = n"
| "ct_align e (CStruct p fs) = (if p then 1 else fs_align e fs)"
| "ct_align e (CUnion fs) = fs_align e fs"
| "ct_align e (CExt s) = snd (e s)"
| "fs_align e FNil = 1"
| "fs_align e (FCons n t fs) = max (ct_align e t) (fs_align e fs)"

definition field_at :: "extern \<Rightarrow> bool \<Rightarrow> nat \<Rightarrow> cty \<Rightarrow> nat" where
  "field_at e p off t = (if p then off else align_up off (ct_align e t))"

fun ct_size :: "extern \<Rightarrow> cty \<Rightarrow> nat" and fs_end :: "extern \<Rightarrow> cfields \<Rightarrow> bool \<Rightarrow> nat \<Rightarrow> nat" and fs_max :: "extern \<Rightarrow> cfields \<Rightarrow> nat" where
  "ct_size e (CInt n) = n"
| "ct_size e CPtr = 8"
| "ct_size e (CArr k t) = k * ct_size e t"
| "ct_size e (CFlex t) = 0"
| "ct_size e (CBits n ws) = n"
| "ct_size e (CStruct p fs) = align_up (fs_end e fs p 0) (if p then 1 else fs_align e fs)"
| "ct_size e (CUnion fs) = align_up (fs_max e fs) (fs_align e fs)"
| "ct_size e (CExt s) = fst (e s)"
| "fs_end e FNil p off = off"
| "fs_end e (FCons n t fs) p off = fs_end e fs p (field_at e p off t + ct_size e t)"
| "fs_max e FNil = 0"
| "fs_max e (FCons n t fs) = max (ct_size e t) (fs_max e fs)"

text \<open>
  A path into an object: the offset and type of what it leads to; None for a path that leads nowhere.
  An array index must be below the length, any index fits a flexible array.
\<close>

datatype cstep = Fld string | Idx nat

fun ct_off :: "extern \<Rightarrow> cty \<Rightarrow> cstep list \<Rightarrow> (nat \<times> cty) option"
  and fs_off :: "extern \<Rightarrow> cfields \<Rightarrow> bool \<Rightarrow> bool \<Rightarrow> nat \<Rightarrow> string \<Rightarrow> cstep list \<Rightarrow> (nat \<times> cty) option" where
  "ct_off e t [] = Some (0, t)"
| "ct_off e (CStruct p fs) (Fld n # ps) = fs_off e fs False p 0 n ps"
| "ct_off e (CUnion fs) (Fld n # ps) = fs_off e fs True False 0 n ps"
| "ct_off e (CArr k t) (Idx i # ps) =
     (if i < k then map_option (\<lambda>(o', u). (i * ct_size e t + o', u)) (ct_off e t ps) else None)"
| "ct_off e (CFlex t) (Idx i # ps) = map_option (\<lambda>(o', u). (i * ct_size e t + o', u)) (ct_off e t ps)"
| "ct_off e _ (_ # ps) = None"
| "fs_off e FNil un p off n ps = None"
| "fs_off e (FCons m t fs) un p off n ps =
     (let a = (if un then 0 else field_at e p off t)
      in if m = n then map_option (\<lambda>(o', u). (a + o', u)) (ct_off e t ps)
         else fs_off e fs un p (a + ct_size e t) n ps)"

definition offset_of :: "extern \<Rightarrow> cty \<Rightarrow> cstep list \<Rightarrow> nat option" where
  "offset_of e t ps = map_option fst (ct_off e t ps)"

text \<open>Well-formed: no flexible array except where it ends the object, alignments that divide sizes.\<close>

fun ct_wf :: "extern \<Rightarrow> cty \<Rightarrow> bool" and fs_wf :: "extern \<Rightarrow> cfields \<Rightarrow> bool" where
  "ct_wf e (CInt n) = (n \<in> {1, 2, 4, 8})"
| "ct_wf e CPtr = True"
| "ct_wf e (CArr k t) = ct_wf e t"
| "ct_wf e (CFlex t) = False"
| "ct_wf e (CBits n ws) = (n \<in> {1, 2, 4, 8} \<and> sum_list (map snd ws) \<le> 8 * n)"
| "ct_wf e (CStruct p fs) = fs_wf e fs"
| "ct_wf e (CUnion fs) = fs_wf e fs"
| "ct_wf e (CExt s) = (snd (e s) \<in> {1, 2, 4, 8, 16} \<and> snd (e s) dvd fst (e s))"
| "fs_wf e FNil = True"
| "fs_wf e (FCons n t fs) = (ct_wf e t \<and> fs_wf e fs)"

section \<open>Members lie inside their object\<close>

lemma align_up_ge: "n \<le> align_up n a"
proof (cases "a = 0")
  case False
  have "n + a - 1 = (n + a - 1) div a * a + (n + a - 1) mod a" by simp
  moreover have "(n + a - 1) mod a \<le> a - 1" using False by (metis Suc_pred' less_Suc_eq_le mod_less_divisor neq0_conv)
  ultimately have "n \<le> (n + a - 1) div a * a" using False by linarith
  then show ?thesis using False by (simp add: align_up_def)
qed (simp add: align_up_def)

lemma align_up_dvd: "0 < a \<Longrightarrow> a dvd align_up n a"
  by (simp add: align_up_def)

lemma fs_end_ge_aux: "ct_size e t = ct_size e t" and fs_end_ge: "off \<le> fs_end e fs p off"
proof (induction t and fs arbitrary: off and off rule: cty.induct cfields.induct)
  case (FCons n t fs)
  have "off \<le> field_at e p off t" using align_up_ge by (simp add: field_at_def)
  also have "\<dots> \<le> field_at e p off t + ct_size e t" by simp
  also have "\<dots> \<le> fs_end e fs p (field_at e p off t + ct_size e t)" by (rule FCons.IH(2))
  finally show ?case by simp
qed simp_all

lemma ct_off_inside:
  "ct_wf e t \<Longrightarrow> ct_off e t ps = Some (o', u) \<Longrightarrow> o' + ct_size e u \<le> ct_size e t"
  and "fs_wf e fs \<Longrightarrow> fs_off e fs un p off n ps = Some (o', u) \<Longrightarrow>
     o' + ct_size e u \<le> (if un then fs_max e fs else fs_end e fs p off)"
proof (induction e t ps and e fs un p off n ps arbitrary: o' u and o' u rule: ct_off_fs_off.induct)
  case (2 e p fs n ps)
  then have "o' + ct_size e u \<le> fs_end e fs p 0" by simp
  also have "\<dots> \<le> ct_size e (CStruct p fs)" using align_up_ge by simp
  finally show ?case .
next
  case (3 e fs n ps)
  then have "o' + ct_size e u \<le> fs_max e fs" by simp
  also have "\<dots> \<le> ct_size e (CUnion fs)" using align_up_ge by simp
  finally show ?case .
next
  case (4 e k t i ps)
  then obtain o2 where o2: "i < k" "ct_off e t ps = Some (o2, u)" "o' = i * ct_size e t + o2" by (auto split: if_splits)
  then have "o2 + ct_size e u \<le> ct_size e t" using 4 by simp
  moreover have "i * ct_size e t + ct_size e t \<le> k * ct_size e t"
    using o2(1) by (metis Suc_leI add.commute mult_Suc mult_le_mono1)
  ultimately show ?case using o2 by simp
next
  case (8 e m t fs un p off n ps)
  define a where "a = (if un then 0 else field_at e p off t)"
  show ?case
  proof (cases "m = n")
    case True
    then obtain o2 where o2: "ct_off e t ps = Some (o2, u)" "o' = a + o2" using 8 by (auto simp: a_def Let_def)
    then have "o2 + ct_size e u \<le> ct_size e t" using 8 True by (auto simp: a_def)
    moreover have "a + ct_size e t \<le> fs_end e fs p (a + ct_size e t)" by (rule fs_end_ge)
    ultimately show ?thesis using o2(2) by (auto simp: a_def)
  next
    case False
    then have "fs_off e fs un p (a + ct_size e t) n ps = Some (o', u)" using 8 by (simp add: a_def Let_def)
    then have "o' + ct_size e u \<le> (if un then fs_max e fs else fs_end e fs p (a + ct_size e t))"
      using 8 False by (auto simp: a_def)
    then show ?thesis by (auto simp: a_def split: if_splits)
  qed
qed auto

end
