(* ===== verification/LC_Types.thy ===== *)
theory LC_Types
  imports LC_Layout
begin

text \<open>
  The structures the wireless layer shares with its drivers and with the rest of the library, as
  layouts: buffers, devices, the cfg80211 types, survey, hardware-offload, USB, sysfs and
  performance-monitor types.  A member without a name is called \<open>anon0\<close>, \<open>anon1\<close>, \<open>\<dots>\<close> here, a run of bit-fields
  \<open>bits0\<close>, \<open>\<dots>\<close>; function pointers are pointers.
\<close>

definition struct_list_head :: cty where [layout]:
  "struct_list_head =
     cstruct [(''next'', CPtr), (''prev'', CPtr)]"

definition struct_rcu_head :: cty where [layout]:
  "struct_rcu_head =
     cstruct [(''func'', CPtr)]"

definition struct_device :: cty where [layout]:
  "struct_device =
     cstruct [(''init_name'', CPtr), (''kobj_name'', CPtr), (''parent'', CPtr), (''of_node'', CPtr),
     (''busdev'', CPtr), (''driver_data'', CPtr), (''native'', CPtr), (''driver'', CPtr)]"

definition struct_skb_shared_info :: cty where [layout]:
  "struct_skb_shared_info =
     cstruct [(''nr_frags'', c_int), (''frag_list'', CPtr), (''frags'', CArr 8 (cstruct [(''page'', CPtr),
     (''page_offset'', c_u32), (''size'', c_u32)]))]"

definition struct_sk_buff :: cty where [layout]:
  "struct_sk_buff =
     cstruct [(''next'', CPtr), (''prev'', CPtr), (''list'', struct_list_head), (''head'', CPtr),
     (''data'', CPtr), (''head_page'', CPtr), (''len'', c_u32), (''tail'', c_u32), (''end'', c_u32),
     (''priority'', c_u32), (''data_len'', c_u32), (''queue_mapping'', c_u16), (''ip_summed'', c_int),
     (''protocol'', c_u16), (''cb'', CArr 128 c_u8), (''shinfo'', struct_skb_shared_info)]"

definition struct_sk_buff_head :: cty where [layout]:
  "struct_sk_buff_head =
     cstruct [(''head'', CPtr), (''tail'', CPtr), (''qlen'', c_u32), (''lock'', CExt ''spinlock_t'')]"

definition struct_work_struct :: cty where [layout]:
  "struct_work_struct =
     cstruct [(''func'', CPtr), (''state'', c_u32), (''next'', CPtr), (''wq'', CPtr),
     (''delayed_owner'', CPtr)]"

definition struct_atomic64 :: cty where [layout]:
  "struct_atomic64 = cstruct [(''counter'', c_u64)]"

definition struct_local64 :: cty where [layout]:
  "struct_local64 = cstruct [(''counter'', c_u64)]"

definition struct_cfg80211_ssid :: cty where [layout]:
  "struct_cfg80211_ssid =
     cstruct [(''ssid'', CArr 32 c_u8), (''ssid_len'', c_u8)]"

definition struct_cfg80211_bitrate_mask_control :: cty where [layout]:
  "struct_cfg80211_bitrate_mask_control =
     cstruct [(''legacy'', c_u32), (''ht_mcs'', CArr 10 c_u8), (''vht_mcs'', CArr 8 c_u16),
     (''he_mcs'', CArr 8 c_u16)]"

definition struct_cfg80211_bitrate_mask :: cty where [layout]:
  "struct_cfg80211_bitrate_mask =
     cstruct [(''control'', CArr 4 struct_cfg80211_bitrate_mask_control)]"

definition struct_cfg80211_match_set :: cty where [layout]:
  "struct_cfg80211_match_set =
     cstruct [(''ssid'', struct_cfg80211_ssid), (''rssi_thold'', c_u32)]"

definition struct_cfg80211_sched_scan_plan :: cty where [layout]:
  "struct_cfg80211_sched_scan_plan =
     cstruct [(''interval'', c_u32), (''iterations'', c_u32)]"

definition struct_cfg80211_scan_6ghz_params :: cty where [layout]:
  "struct_cfg80211_scan_6ghz_params =
     cstruct [(''channel_idx'', c_u8), (''bssid'', CArr 6 c_u8)]"

definition struct_cfg80211_scan_request :: cty where [layout]:
  "struct_cfg80211_scan_request =
     cstruct [(''channels'', CPtr), (''n_channels'', c_int), (''ssids'', CPtr), (''n_ssids'', c_int),
     (''ie'', CPtr), (''ie_len'', c_u64), (''duration_mandatory'', c_bool), (''duration'', c_u16),
     (''flags'', c_u32), (''no_cck'', c_bool), (''mac_addr'', CArr 6 c_u8), (''mac_addr_mask'', CArr 6 c_u8),
     (''bssid'', CArr 6 c_u8), (''n_6ghz_params'', c_int), (''scan_6ghz_params'', CPtr)]"

definition struct_cfg80211_scan_info :: cty where [layout]:
  "struct_cfg80211_scan_info =
     cstruct [(''aborted'', c_bool)]"

definition struct_cfg80211_chan_def :: cty where [layout]:
  "struct_cfg80211_chan_def =
     cstruct [(''chan'', CPtr), (''width'', c_u32), (''center_freq1'', c_u32), (''center_freq2'', c_u32)]"

definition struct_mac_address :: cty where [layout]:
  "struct_mac_address =
     cstruct [(''addr'', CArr 6 c_u8)]"

definition struct_cfg80211_pkt_pattern :: cty where [layout]:
  "struct_cfg80211_pkt_pattern =
     cstruct [(''mask'', CPtr), (''pattern'', CPtr), (''pattern_len'', c_u32), (''pkt_offset'', c_u32)]"

definition struct_cfg80211_sched_scan_request :: cty where [layout]:
  "struct_cfg80211_sched_scan_request =
     cstruct [(''channels'', CPtr), (''n_channels'', c_int), (''ssids'', CPtr), (''n_ssids'', c_int),
     (''match_sets'', CPtr), (''n_match_sets'', c_int), (''ie'', CPtr), (''ie_len'', c_u64),
     (''flags'', c_u32), (''mac_addr'', CArr 6 c_u8), (''mac_addr_mask'', CArr 6 c_u8), (''delay'', c_u32),
     (''scan_plans'', CPtr), (''n_scan_plans'', c_int)]"

definition struct_cfg80211_wowlan :: cty where [layout]:
  "struct_cfg80211_wowlan =
     cstruct [(''nd_config'', CPtr)]"

definition struct_cfg80211_wowlan_wakeup :: cty where [layout]:
  "struct_cfg80211_wowlan_wakeup =
     cstruct [(''disconnect'', c_bool), (''gtk_rekey_failure'', c_bool), (''eap_identity_req'', c_bool),
     (''four_way_handshake'', c_bool)]"

definition struct_cfg80211_gtk_rekey_data :: cty where [layout]:
  "struct_cfg80211_gtk_rekey_data =
     cstruct [(''kek'', CArr 16 c_u8), (''kck'', CArr 16 c_u8), (''replay_ctr'', CArr 8 c_u8)]"

definition struct_cfg80211_sar_specs :: cty where [layout]:
  "struct_cfg80211_sar_specs =
     cstruct [(''type'', c_u32), (''num_sub_specs'', c_u32),
     (''sub_specs'', CArr 8 (cstruct [(''freq_range_index'', c_u32), (''power'', c_u32)]))]"

definition struct_cfg80211_sar_freq_ranges :: cty where [layout]:
  "struct_cfg80211_sar_freq_ranges =
     cstruct [(''start_freq'', c_u32), (''end_freq'', c_u32)]"

definition struct_cfg80211_sar_capa :: cty where [layout]:
  "struct_cfg80211_sar_capa =
     cstruct [(''freq_ranges'', CPtr), (''num_freq_ranges'', c_u32), (''type'', c_u32)]"

definition struct_regulatory_request :: cty where [layout]:
  "struct_regulatory_request =
     cstruct [(''alpha2'', CArr 2 c_char), (''initiator'', c_enum), (''dfs_region'', c_enum),
     (''country_ie_env'', c_enum)]"

definition struct_wiphy_wowlan_support :: cty where [layout]:
  "struct_wiphy_wowlan_support =
     cstruct [(''flags'', c_u32)]"

definition struct_wiphy :: cty where [layout]:
  "struct_wiphy =
     cstruct [(''dev'', struct_device), (''hw'', CPtr), (''bands'', CArr 4 CPtr),
     (''interface_modes'', c_u32), (''available_antennas_tx'', c_u32), (''available_antennas_rx'', c_u32),
     (''flags'', c_u32), (''features'', c_u32), (''max_scan_ssids'', c_u32), (''max_scan_ie_len'', c_u32),
     (''max_remain_on_channel_duration'', c_u32), (''max_sched_scan_plan_interval'', c_u32),
     (''max_sched_scan_ie_len'', c_u32), (''max_match_sets'', c_u32), (''max_sched_scan_reqs'', c_u32),
     (''iface_combinations'', CPtr), (''n_iface_combinations'', c_int), (''addresses'', CPtr),
     (''n_addresses'', c_int), (''n_radio'', c_int), (''regulatory_flags'', c_u32),
     (''fw_version'', CArr 32 c_char), (''debugfsdir'', CPtr), (''rts_threshold'', c_u32),
     (''wowlan'', CPtr), (''max_sched_scan_ssids'', c_u32), (''mbssid_max_interfaces'', c_u32),
     (''sar_capa'', CPtr), (''reg_notifier'', CPtr)]"

definition struct_napi_struct :: cty where [layout]:
  "struct_napi_struct =
     cstruct [(''dev'', CPtr)]"

definition struct_survey_info :: cty where [layout]:
  "struct_survey_info =
     cstruct [(''time'', c_u64), (''time_busy'', c_u64), (''time_tx'', c_u64), (''time_rx'', c_u64),
     (''time_bss_rx'', c_u64), (''noise'', c_int), (''channel'', CPtr), (''filled'', c_u64)]"

definition struct_mtk_wed_bm_desc :: cty where [layout]:
  "struct_mtk_wed_bm_desc =
     cstruct [(''buf0'', c_u64), (''token'', c_u32)]"

definition struct_mtk_wed_ring :: cty where [layout]:
  "struct_mtk_wed_ring =
     cstruct [(''desc'', CPtr)]"

definition struct_usb_interface_descriptor :: cty where [layout]:
  "struct_usb_interface_descriptor =
     cpacked [(''bLength'', c_u8), (''bDescriptorType'', c_u8), (''bInterfaceNumber'', c_u8),
     (''bAlternateSetting'', c_u8), (''bNumEndpoints'', c_u8), (''bInterfaceClass'', c_u8),
     (''bInterfaceSubClass'', c_u8), (''bInterfaceProtocol'', c_u8), (''iInterface'', c_u8)]"

definition struct_usb_endpoint_descriptor :: cty where [layout]:
  "struct_usb_endpoint_descriptor =
     cpacked [(''bLength'', c_u8), (''bDescriptorType'', c_u8), (''bEndpointAddress'', c_u8),
     (''bmAttributes'', c_u8), (''wMaxPacketSize'', c_u16), (''bInterval'', c_u8)]"

definition struct_usb_host_endpoint :: cty where [layout]:
  "struct_usb_host_endpoint =
     cstruct [(''desc'', struct_usb_endpoint_descriptor)]"

definition struct_usb_host_interface :: cty where [layout]:
  "struct_usb_host_interface =
     cstruct [(''desc'', struct_usb_interface_descriptor), (''endpoint'', CPtr)]"

definition struct_usb_bus :: cty where [layout]:
  "struct_usb_bus =
     cstruct [(''sg_tablesize'', c_int), (''no_sg_constraint'', c_bool)]"

definition struct_usb_device :: cty where [layout]:
  "struct_usb_device =
     cstruct [(''dev'', struct_device), (''native'', CPtr), (''bus'', CPtr),
     (''descriptor_id_vendor'', c_u16), (''descriptor_id_product'', c_u16), (''speed'', c_enum),
     (''state'', c_enum)]"

definition struct_usb_interface :: cty where [layout]:
  "struct_usb_interface =
     cstruct [(''dev'', struct_device), (''native'', CPtr), (''usb_dev'', CPtr), (''minor'', c_u8),
     (''altsetting'', CPtr), (''cur_altsetting'', CPtr), (''num_altsetting'', c_int)]"

definition struct_usb_device_id :: cty where [layout]:
  "struct_usb_device_id =
     cstruct [(''match_flags'', c_u16), (''idVendor'', c_u16), (''idProduct'', c_u16),
     (''bInterfaceClass'', c_u8), (''bInterfaceSubClass'', c_u8), (''bInterfaceProtocol'', c_u8),
     (''driver_info'', c_long)]"

definition struct_usb_driver :: cty where [layout]:
  "struct_usb_driver =
     cstruct [(''name'', CPtr), (''id_table'', CPtr), (''probe'', CPtr), (''disconnect'', CPtr),
     (''suspend'', CPtr), (''resume'', CPtr), (''reset_resume'', CPtr), (''soft_unbind'', c_int),
     (''disable_hub_initiated_lpm'', c_int)]"

definition struct_urb :: cty where [layout]:
  "struct_urb =
     cstruct [(''dev'', CPtr), (''pipe'', c_u32), (''transfer_buffer'', CPtr),
     (''transfer_buffer_length'', c_int), (''actual_length'', c_int), (''status'', c_int),
     (''transfer_flags'', c_u32), (''interval'', c_u32), (''complete'', CPtr), (''context'', CPtr),
     (''hcpriv'', CPtr), (''sg'', CPtr), (''num_sgs'', c_int), (''submitted'', c_int), (''killed'', c_int),
     (''refcount'', c_u32)]"

definition struct_pci_bus :: cty where [layout]:
  "struct_pci_bus =
     cstruct [(''domain_nr'', c_u16), (''number'', c_u8)]"

definition struct_kobject :: cty where [layout]:
  "struct_kobject =
     cstruct [(''name'', CPtr), (''parent'', CPtr)]"

definition struct_attribute_group :: cty where [layout]:
  "struct_attribute_group =
     cstruct [(''name'', CPtr), (''attrs'', CPtr), (''bin_attrs'', CPtr)]"

definition struct_hw_perf_event :: cty where [layout]:
  "struct_hw_perf_event =
     cstruct [(''prev_count'', struct_local64), (''state'', c_int)]"

definition struct_perf_event_attr :: cty where [layout]:
  "struct_perf_event_attr =
     cstruct [(''type'', c_u32), (''config'', c_u64), (''sample_period'', c_u64)]"

definition struct_perf_event :: cty where [layout]:
  "struct_perf_event =
     cstruct [(''attr'', struct_perf_event_attr), (''pmu'', CPtr), (''parent'', CPtr), (''cpu'', c_int),
     (''hw'', struct_hw_perf_event), (''count'', struct_local64), (''destroy'', CPtr)]"

definition struct_pmu :: cty where [layout]:
  "struct_pmu =
     cstruct [(''module'', CPtr), (''type'', c_int), (''task_ctx_nr'', c_int), (''scope'', c_int),
     (''attr_groups'', CPtr), (''event_init'', CPtr), (''add'', CPtr), (''del'', CPtr), (''start'', CPtr),
     (''stop'', CPtr), (''read'', CPtr)]"

end
