(* ===== verification/LC_Types_Mac.thy ===== *)
theory LC_Types_Mac
  imports LC_Types
begin

text \<open>
  The structures of the 802.11 layer as layouts: the types of \<^verbatim>\<open>mac80211.h\<close> in its order, then the
  frames \<^verbatim>\<open>mac80211.c\<close> builds and reads.
\<close>

definition struct_ieee80211_channel :: cty where [layout]:
  "struct_ieee80211_channel =
     cstruct [(''center_freq'', c_int), (''hw_value'', c_int), (''band'', c_enum), (''flags'', c_u32),
     (''max_power'', c_int), (''max_reg_power'', c_int), (''orig_mpwr'', c_int), (''dfs_state'', c_enum)]"

definition struct_ieee80211_rate :: cty where [layout]:
  "struct_ieee80211_rate =
     cstruct [(''bitrate'', c_int), (''hw_value'', c_int), (''hw_value_short'', c_int), (''flags'', c_u32)]"

definition struct_ieee80211_tpt_blink :: cty where [layout]:
  "struct_ieee80211_tpt_blink =
     cstruct [(''throughput'', c_int), (''blink_time'', c_int)]"

definition struct_ieee80211_sta_ht_cap :: cty where [layout]:
  "struct_ieee80211_sta_ht_cap =
     cstruct [(''ht_supported'', c_bool), (''cap'', c_u16), (''ampdu_factor'', c_u8),
     (''ampdu_density'', c_u8), (''mcs'', (cstruct [(''rx_mask'', CArr 10 c_u8), (''rx_highest'', c_u16),
     (''tx_params'', c_u8)]))]"

definition struct_ieee80211_sta_vht_cap :: cty where [layout]:
  "struct_ieee80211_sta_vht_cap =
     cstruct [(''vht_supported'', c_bool), (''cap'', c_u32), (''vht_mcs'', (cstruct [(''rx_mcs_map'', c_u16),
     (''tx_mcs_map'', c_u16), (''rx_highest'', c_u16), (''tx_highest'', c_u16)]))]"

definition struct_ieee80211_he_cap_elem :: cty where [layout]:
  "struct_ieee80211_he_cap_elem =
     cstruct [(''mac_cap_info'', CArr 6 c_u8), (''phy_cap_info'', CArr 11 c_u8)]"

definition struct_ieee80211_he_mcs_nss_supp :: cty where [layout]:
  "struct_ieee80211_he_mcs_nss_supp =
     cstruct [(''rx_mcs_80'', c_u16), (''tx_mcs_80'', c_u16), (''rx_mcs_160'', c_u16),
     (''tx_mcs_160'', c_u16), (''rx_mcs_80p80'', c_u16), (''tx_mcs_80p80'', c_u16)]"

definition struct_ieee80211_sta_he_cap :: cty where [layout]:
  "struct_ieee80211_sta_he_cap =
     cstruct [(''has_he'', c_bool), (''he_cap_elem'', struct_ieee80211_he_cap_elem),
     (''he_mcs_nss_supp'', struct_ieee80211_he_mcs_nss_supp), (''ppe_thres'', CArr 32 c_u8)]"

definition struct_ieee80211_sta_eht_cap :: cty where [layout]:
  "struct_ieee80211_sta_eht_cap =
     cstruct [(''has_eht'', c_bool)]"

definition struct_ieee80211_he_6ghz_capa :: cty where [layout]:
  "struct_ieee80211_he_6ghz_capa =
     cstruct [(''capa'', c_u16)]"

definition struct_ieee80211_sta_agg :: cty where [layout]:
  "struct_ieee80211_sta_agg =
     cstruct [(''max_amsdu_len'', c_u16), (''max_rc_amsdu_len'', c_u16)]"

definition struct_ieee80211_supported_band :: cty where [layout]:
  "struct_ieee80211_supported_band =
     cstruct [(''band'', c_enum), (''channels'', CPtr), (''n_channels'', c_int), (''bitrates'', CPtr),
     (''n_bitrates'', c_int), (''ht_cap'', struct_ieee80211_sta_ht_cap),
     (''vht_cap'', struct_ieee80211_sta_vht_cap), (''he_cap'', struct_ieee80211_sta_he_cap),
     (''eht_cap'', struct_ieee80211_sta_eht_cap), (''iftype_data'', CPtr), (''n_iftype_data'', c_int)]"

definition struct_ieee80211_iface_limit :: cty where [layout]:
  "struct_ieee80211_iface_limit =
     cstruct [(''max'', c_u16), (''types'', c_u16)]"

definition struct_ieee80211_iface_combination :: cty where [layout]:
  "struct_ieee80211_iface_combination =
     cstruct [(''limits'', CPtr), (''n_limits'', c_int), (''max_interfaces'', c_int),
     (''num_different_channels'', c_int), (''beacon_int_infra_match'', c_bool),
     (''radar_detect_widths'', c_u32)]"

definition struct_ieee80211_tx_queue_params :: cty where [layout]:
  "struct_ieee80211_tx_queue_params =
     cstruct [(''txop'', c_u16), (''cw_min'', c_u16), (''cw_max'', c_u16), (''aifs'', c_u8),
     (''mu_edca'', c_bool), (''mu_edca_param_rec'', (cstruct [(''aifsn'', c_u8), (''ecw_min_max'', c_u8),
     (''mu_edca_timer'', c_u8)]))]"

definition struct_ieee80211_conf :: cty where [layout]:
  "struct_ieee80211_conf =
     cstruct [(''flags'', c_u32), (''radar_enabled'', c_bool), (''power_level'', c_int),
     (''chandef'', struct_cfg80211_chan_def)]"

definition struct_ieee80211_bss_conf :: cty where [layout]:
  "struct_ieee80211_bss_conf =
     cstruct [(''assoc'', c_bool), (''beacon_int'', c_u16), (''aid'', c_u16), (''link_id'', c_u8),
     (''bssid'', CArr 6 c_u8), (''addr'', CArr 6 c_u8), (''transmitter_bssid'', CArr 6 c_u8),
     (''dtim_period'', c_u8), (''enable_beacon'', c_bool), (''use_short_slot'', c_bool),
     (''use_cts_prot'', c_bool), (''use_short_preamble'', c_bool), (''csa_active'', c_bool),
     (''nontransmitted'', c_bool), (''power_type'', c_int), (''basic_rates'', c_u32),
     (''beacon_tx_rate'', struct_cfg80211_bitrate_mask), (''mcast_rate'', CArr 4 c_int), (''qos'', c_bool),
     (''he_support'', c_bool), (''eht_support'', c_bool), (''htc_trig_based_pkt_ext'', c_u8),
     (''frame_time_rts_th'', c_u16), (''he_bss_color'', (cstruct [(''enabled'', c_bool),
     (''color'', c_u8)])), (''bssid_indicator'', c_u8), (''bssid_index'', c_u8),
     (''p2p_noa_attr'', (cstruct [(''oppps_ctwindow'', c_u8)])), (''cqm_rssi_thold'', c_u32),
     (''cqm_rssi_hyst'', c_u32), (''ht_operation_mode'', c_u16),
     (''chanreq'', (cstruct [(''oper'', struct_cfg80211_chan_def)])), (''vif'', CPtr),
     (''mu_group'', (cstruct [(''membership'', CArr 8 c_u8), (''position'', CArr 16 c_u8)]))]"

definition struct_ieee80211_vif_cfg :: cty where [layout]:
  "struct_ieee80211_vif_cfg =
     cstruct [(''assoc'', c_bool), (''ps'', c_bool), (''aid'', c_u16), (''arp_addr_cnt'', c_u8),
     (''arp_addr_list'', CArr 4 c_u32)]"

definition struct_ieee80211_vif :: cty where [layout]:
  "struct_ieee80211_vif =
     cstruct [(''type'', c_enum), (''driver_flags'', c_u32), (''bss_conf'', struct_ieee80211_bss_conf),
     (''cfg'', struct_ieee80211_vif_cfg), (''addr'', CArr 6 c_u8), (''txq'', CPtr), (''p2p'', c_bool),
     (''valid_links'', c_u16), (''active_links'', c_u16), (''link_conf'', CArr 16 CPtr),
     (''drv_priv'', CFlex c_char)]"

definition struct_ieee80211_hdr :: cty where [layout]:
  "struct_ieee80211_hdr =
     cstruct [(''frame_control'', c_u16), (''duration_id'', c_u16), (''addr1'', CArr 6 c_u8),
     (''addr2'', CArr 6 c_u8), (''addr3'', CArr 6 c_u8), (''seq_ctrl'', c_u16), (''addr4'', CArr 6 c_u8)]"

definition struct_ieee80211_hdr_3addr :: cty where [layout]:
  "struct_ieee80211_hdr_3addr =
     cstruct [(''frame_control'', c_u16), (''duration_id'', c_u16), (''addr1'', CArr 6 c_u8),
     (''addr2'', CArr 6 c_u8), (''addr3'', CArr 6 c_u8), (''seq_ctrl'', c_u16)]"

definition struct_ieee80211_mgmt :: cty where [layout]:
  "struct_ieee80211_mgmt =
     cpacked [(''frame_control'', c_u16), (''duration'', c_u16), (''da'', CArr 6 c_u8),
     (''sa'', CArr 6 c_u8), (''bssid'', CArr 6 c_u8), (''seq_ctrl'', c_u16),
     (''u'', (cunion [(''assoc_req'', (cstruct [(''capab_info'', c_u16), (''listen_interval'', c_u16),
     (''variable'', CFlex c_u8)])), (''assoc_resp'', (cstruct [(''capab_info'', c_u16),
     (''status_code'', c_u16), (''aid'', c_u16), (''variable'', CFlex c_u8)])),
     (''auth'', (cstruct [(''auth_alg'', c_u16), (''auth_transaction'', c_u16), (''status_code'', c_u16),
     (''variable'', CFlex c_u8)])), (''disassoc'', (cstruct [(''reason_code'', c_u16),
     (''variable'', CFlex c_u8)])), (''deauth'', (cstruct [(''reason_code'', c_u16),
     (''variable'', CFlex c_u8)])), (''action'', (cstruct [(''category'', c_u8),
     (''u'', (cunion [(''addba_req'', (cstruct [(''action_code'', c_u8), (''capab'', c_u16),
     (''timeout'', c_u16), (''start_seq_num'', c_u16)]))]))])),
     (''beacon'', (cstruct [(''timestamp'', c_u64), (''beacon_int'', c_u16), (''capab_info'', c_u16),
     (''variable'', CFlex c_u8)])), (''probe_resp'', (cstruct [(''timestamp'', c_u64),
     (''beacon_int'', c_u16), (''capab_info'', c_u16), (''variable'', CFlex c_u8)]))]))]"

definition struct_ieee80211_bar :: cty where [layout]:
  "struct_ieee80211_bar =
     cpacked [(''frame_control'', c_u16), (''duration'', c_u16), (''ra'', CArr 6 c_u8),
     (''ta'', CArr 6 c_u8), (''control'', c_u16), (''start_seq_num'', c_u16)]"

definition struct_ieee80211_key_conf :: cty where [layout]:
  "struct_ieee80211_key_conf =
     cstruct [(''flags'', c_u32), (''keyidx'', c_u8), (''hw_key_idx'', c_u8), (''cipher'', c_u32),
     (''keylen'', c_u8), (''key'', CArr 32 c_u8), (''tx_pn'', struct_atomic64)]"

definition struct_ieee80211_key_seq :: cty where [layout]:
  "struct_ieee80211_key_seq =
     cstruct [(''tkip'', (cstruct [(''iv32'', CArr 4 c_u8), (''iv16'', c_u16)])),
     (''ccmp'', (cstruct [(''pn'', CArr 6 c_u8)])), (''aes_cmac'', (cstruct [(''pn'', CArr 6 c_u8)]))]"

definition struct_ieee80211_txq :: cty where [layout]:
  "struct_ieee80211_txq =
     cstruct [(''ac'', c_int), (''sta'', CPtr), (''vif'', CPtr), (''tid'', c_u8),
     (''lcompat_queue'', struct_sk_buff_head), (''drv_priv'', CFlex c_char)]"

definition struct_ieee80211_link_sta :: cty where [layout]:
  "struct_ieee80211_link_sta =
     cstruct [(''addr'', CArr 6 c_u8), (''ht_cap'', struct_ieee80211_sta_ht_cap),
     (''vht_cap'', struct_ieee80211_sta_vht_cap), (''he_cap'', struct_ieee80211_sta_he_cap),
     (''eht_cap'', struct_ieee80211_sta_eht_cap), (''he_6ghz_capa'', struct_ieee80211_he_6ghz_capa),
     (''agg'', struct_ieee80211_sta_agg), (''supp_rates'', CArr 4 c_u32), (''bandwidth'', c_u8),
     (''rx_nss'', c_u8), (''smps_mode'', c_u8), (''sta'', CPtr)]"

definition struct_ieee80211_sta :: cty where [layout]:
  "struct_ieee80211_sta =
     cstruct [(''addr'', CArr 6 c_u8), (''txq'', CArr 16 CPtr), (''tdls'', c_bool), (''aid'', c_u16),
     (''wme'', c_bool), (''uapsd_queues'', c_u8), (''max_sp'', c_u8), (''valid_links'', c_u16),
     (''supp_rates'', CArr 4 c_u32), (''bandwidth'', c_u8), (''max_rc_amsdu_len'', c_int),
     (''ht_cap'', struct_ieee80211_sta_ht_cap), (''vht_cap'', struct_ieee80211_sta_vht_cap),
     (''deflink'', struct_ieee80211_link_sta), (''link'', CArr 16 CPtr), (''rates'', CPtr),
     (''drv_priv'', CFlex c_char)]"

definition struct_ieee80211_sta_rate :: cty where [layout]:
  "struct_ieee80211_sta_rate =
     cstruct [(''idx'', c_s8), (''flags'', c_u16)]"

definition struct_ieee80211_sta_rates :: cty where [layout]:
  "struct_ieee80211_sta_rates =
     cstruct [(''rcu_head'', struct_rcu_head), (''rate'', CArr 4 struct_ieee80211_sta_rate)]"

definition struct_ieee80211_sband_iftype_data :: cty where [layout]:
  "struct_ieee80211_sband_iftype_data =
     cstruct [(''types_mask'', c_u32), (''he_cap'', struct_ieee80211_sta_he_cap),
     (''eht_cap'', struct_ieee80211_sta_eht_cap), (''he_6ghz_capa'', struct_ieee80211_he_6ghz_capa)]"

definition struct_ieee80211_chanctx_conf :: cty where [layout]:
  "struct_ieee80211_chanctx_conf =
     cstruct [(''drv_priv'', CPtr), (''radar_enabled'', c_bool), (''def'', struct_cfg80211_chan_def)]"

definition struct_rate_info :: cty where [layout]:
  "struct_rate_info =
     cstruct [(''flags'', c_u32), (''legacy'', c_u16), (''mcs'', c_u8), (''nss'', c_u8), (''bw'', c_u8),
     (''he_gi'', c_u8), (''he_dcm'', c_u8), (''he_ru_alloc'', c_u8)]"

definition struct_ieee80211_low_level_stats :: cty where [layout]:
  "struct_ieee80211_low_level_stats =
     cstruct [(''dot11RTSSuccessCount'', c_u32), (''dot11RTSFailureCount'', c_u32),
     (''dot11FCSErrorCount'', c_u32), (''dot11ACKFailureCount'', c_u32)]"

definition struct_ieee80211_rx_status :: cty where [layout]:
  "struct_ieee80211_rx_status =
     cstruct [(''flag'', c_u32), (''freq'', c_int), (''band'', c_int), (''signal'', c_int),
     (''encoding'', c_int), (''rate_idx'', c_u8), (''nss'', c_u8), (''mactime'', c_u64),
     (''device_timestamp'', c_u64), (''boottime_ns'', c_u64), (''bw'', c_u8), (''chains'', c_u8),
     (''link_id'', c_u8), (''qos_ctl'', c_u8), (''enc_flags'', c_u8), (''ampdu_reference'', c_u32),
     (''link_valid'', c_bool), (''eht'', (cstruct [(''ru'', c_u8), (''gi'', c_u8)])), (''he_ru'', c_u8),
     (''he_gi'', c_u8), (''he_dcm'', c_u8), (''iv'', CArr 6 c_u8), (''chain_signal'', CArr 4 c_s8)]"

definition struct_station_info :: cty where [layout]:
  "struct_station_info =
     cstruct [(''txrate'', struct_rate_info), (''filled'', c_u64), (''tx_failed'', c_u32),
     (''tx_retries'', c_u32), (''ack_signal'', c_s8), (''avg_ack_signal'', c_s8)]"

definition struct_ieee80211_ampdu_params :: cty where [layout]:
  "struct_ieee80211_ampdu_params =
     cstruct [(''sta'', CPtr), (''tid'', c_u16), (''ssn'', c_u16), (''buf_size'', c_u16),
     (''amsdu'', c_bool), (''action'', c_enum)]"

definition struct_ieee80211_channel_switch :: cty where [layout]:
  "struct_ieee80211_channel_switch =
     cstruct [(''chandef'', struct_cfg80211_chan_def), (''count'', c_u8)]"

definition struct_ieee80211_tx_rate :: cty where [layout]:
  "struct_ieee80211_tx_rate =
     cstruct [(''idx'', c_s8), (''count'', c_u8), (''flags'', c_u16)]"

definition struct_ieee80211_rate_status :: cty where [layout]:
  "struct_ieee80211_rate_status =
     cstruct [(''rate_idx'', struct_rate_info), (''count'', c_u8), (''idx'', c_s8), (''flags'', c_u16)]"

definition struct_ieee80211_vif_chanctx_switch :: cty where [layout]:
  "struct_ieee80211_vif_chanctx_switch =
     cstruct [(''vif'', CPtr), (''link_conf'', CPtr), (''old_ctx'', CPtr), (''new_ctx'', CPtr)]"

definition struct_ieee80211_tx_info :: cty where [layout]:
  "struct_ieee80211_tx_info =
     cstruct [(''flags'', c_u32), (''bits0'', CBits 4 [(''band'', 3), (''status_data_idr'', 1),
     (''status_data'', 13), (''hw_queue'', 4), (''tx_time_est'', 10)]),
     (''anon0'', (cunion [(''control'', (cstruct [(''rates'', CArr 4 struct_ieee80211_tx_rate),
     (''rts_cts_rate_idx'', c_s8), (''bits0'', CBits 1 [(''use_rts'', 1), (''use_cts_prot'', 1),
     (''short_preamble'', 1), (''skip_table'', 1), (''antennas'', 2)]), (''vif'', CPtr), (''hw_key'', CPtr),
     (''flags'', c_u32)])), (''status'', (cstruct [(''rates'', CArr 4 struct_ieee80211_tx_rate),
     (''ack_signal'', c_u32), (''ampdu_ack_len'', c_u8), (''ampdu_len'', c_u8), (''antenna'', c_u8),
     (''pad'', c_u8), (''tx_time'', c_u16), (''flags'', c_u8), (''pad2'', c_u8),
     (''status_driver_data'', CArr 16 c_u8)])),
     (''anon0'', (cstruct [(''driver_rates'', CArr 4 struct_ieee80211_tx_rate), (''pad'', CArr 4 c_u8),
     (''rate_driver_data'', CArr 3 CPtr)])), (''driver_data'', CArr 5 CPtr)]))]"

definition struct_ieee80211_tx_control :: cty where [layout]:
  "struct_ieee80211_tx_control =
     cstruct [(''sta'', CPtr)]"

definition struct_ieee80211_prep_tx_info :: cty where [layout]:
  "struct_ieee80211_prep_tx_info =
     cstruct [(''duration'', c_u16)]"

definition struct_ieee80211_scan_ies :: cty where [layout]:
  "struct_ieee80211_scan_ies =
     cstruct [(''ies'', CArr 4 CPtr), (''len'', CArr 4 c_u64), (''common_ies'', CPtr),
     (''common_ie_len'', c_u64)]"

definition struct_ieee80211_scan_request :: cty where [layout]:
  "struct_ieee80211_scan_request =
     cstruct [(''req'', struct_cfg80211_scan_request), (''ies'', struct_ieee80211_scan_ies)]"

definition struct_ieee80211_mutable_offsets :: cty where [layout]:
  "struct_ieee80211_mutable_offsets =
     cstruct [(''tim_offset'', c_u16), (''tim_length'', c_u16), (''cntdwn_counter_offs'', CArr 2 c_u16),
     (''mbssid_off'', c_u16), (''ema_offset'', CArr 2 c_u16)]"

definition struct_ieee80211_hw :: cty where [layout]:
  "struct_ieee80211_hw =
     cstruct [(''wiphy'', CPtr), (''dev'', CPtr), (''ops'', CPtr), (''conf'', struct_ieee80211_conf),
     (''queues'', c_int), (''flags'', c_u32), (''extra_tx_headroom'', c_int), (''txq_data_size'', c_int),
     (''sta_data_size'', c_int), (''vif_data_size'', c_int), (''uapsd_max_sp_len'', c_int),
     (''max_tx_fragments'', c_int), (''max_rates'', c_int), (''max_report_rates'', c_int),
     (''max_rate_tries'', c_int), (''max_rx_aggregation_subframes'', c_int),
     (''max_tx_aggregation_subframes'', c_int), (''netdev_features'', c_u64),
     (''radiotap_timestamp'', (cstruct [(''units_pos'', c_int)])), (''chanctx_data_size'', c_int),
     (''perm_addr'', CArr 6 c_u8), (''lcompat_runtime'', CPtr), (''priv'', CPtr)]"

definition struct_ieee80211_ops :: cty where [layout]:
  "struct_ieee80211_ops =
     cstruct [(''tx'', CPtr), (''wake_tx_queue'', CPtr), (''start'', CPtr), (''stop'', CPtr),
     (''config'', CPtr), (''add_interface'', CPtr), (''remove_interface'', CPtr),
     (''change_interface'', CPtr), (''add_chanctx'', CPtr), (''remove_chanctx'', CPtr),
     (''change_chanctx'', CPtr), (''assign_vif_chanctx'', CPtr), (''unassign_vif_chanctx'', CPtr),
     (''switch_vif_chanctx'', CPtr), (''configure_filter'', CPtr), (''bss_info_changed'', CPtr),
     (''start_ap'', CPtr), (''stop_ap'', CPtr), (''conf_tx'', CPtr), (''sta_add'', CPtr),
     (''sta_remove'', CPtr), (''sta_state'', CPtr), (''sta_pre_rcu_remove'', CPtr), (''set_tim'', CPtr),
     (''set_key'', CPtr), (''ampdu_action'', CPtr), (''sta_set_decap_offload'', CPtr),
     (''can_aggregate_in_amsdu'', CPtr), (''sw_scan_start'', CPtr), (''sw_scan_complete'', CPtr),
     (''mgd_prepare_tx'', CPtr), (''mgd_complete_tx'', CPtr), (''remain_on_channel'', CPtr),
     (''cancel_remain_on_channel'', CPtr), (''set_rts_threshold'', CPtr), (''get_tsf'', CPtr),
     (''set_tsf'', CPtr), (''get_stats'', CPtr), (''sta_statistics'', CPtr), (''get_et_sset_count'', CPtr),
     (''get_et_strings'', CPtr), (''get_et_stats'', CPtr), (''flush'', CPtr), (''set_bitrate_mask'', CPtr),
     (''set_antenna'', CPtr), (''get_antenna'', CPtr), (''get_txpower'', CPtr), (''get_survey'', CPtr),
     (''set_coverage_class'', CPtr), (''release_buffered_frames'', CPtr), (''reconfig_complete'', CPtr),
     (''hw_scan'', CPtr), (''cancel_hw_scan'', CPtr), (''sched_scan_start'', CPtr),
     (''sched_scan_stop'', CPtr), (''sta_rc_update'', CPtr), (''link_sta_rc_update'', CPtr),
     (''sta_rate_tbl_update'', CPtr), (''set_sar_specs'', CPtr), (''rfkill_poll'', CPtr),
     (''channel_switch_beacon'', CPtr), (''pre_channel_switch'', CPtr), (''channel_switch'', CPtr),
     (''abort_channel_switch'', CPtr), (''channel_switch_rx_beacon'', CPtr), (''vif_cfg_changed'', CPtr),
     (''link_info_changed'', CPtr), (''change_vif_links'', CPtr), (''change_sta_links'', CPtr)]"

definition struct_ieee80211_tx_status :: cty where [layout]:
  "struct_ieee80211_tx_status =
     cstruct [(''sta'', CPtr), (''skb'', CPtr), (''info'', CPtr), (''rates'', CPtr), (''n_rates'', c_int),
     (''free_list'', CPtr)]"

definition struct_ieee80211_radiotap_he :: cty where [layout]:
  "struct_ieee80211_radiotap_he =
     cstruct [(''data1'', c_u16), (''data2'', c_u16), (''data3'', c_u16), (''data4'', c_u16),
     (''data5'', c_u16), (''data6'', c_u16)]"

definition struct_ieee80211_radiotap_he_mu :: cty where [layout]:
  "struct_ieee80211_radiotap_he_mu =
     cstruct [(''flags1'', c_u16), (''flags2'', c_u16), (''ru_ch1'', CArr 4 c_u8), (''ru_ch2'', CArr 4 c_u8)]"

definition struct_ieee80211_radiotap_tlv :: cty where [layout]:
  "struct_ieee80211_radiotap_tlv =
     cpacked [(''type'', c_u16), (''len'', c_u16), (''data'', CFlex c_u8)]"

definition struct_ieee80211_radiotap_eht :: cty where [layout]:
  "struct_ieee80211_radiotap_eht =
     cstruct [(''known'', c_u32), (''data'', CArr 8 c_u32), (''user_info'', CArr 1 c_u32)]"

definition struct_ieee80211_radiotap_eht_usig :: cty where [layout]:
  "struct_ieee80211_radiotap_eht_usig =
     cstruct [(''common'', c_u32)]"

definition struct_lcompat_ethhdr :: cty where [layout]:
  "struct_lcompat_ethhdr =
     cpacked [(''h_dest'', CArr 6 c_u8), (''h_source'', CArr 6 c_u8), (''h_proto'', c_u16)]"

definition struct_lcompat_ieee80211_auth_frame :: cty where [layout]:
  "struct_lcompat_ieee80211_auth_frame =
     cpacked [(''frame_control'', c_u16), (''duration'', c_u16), (''da'', CArr 6 c_u8),
     (''sa'', CArr 6 c_u8), (''bssid'', CArr 6 c_u8), (''seq_ctrl'', c_u16), (''auth_alg'', c_u16),
     (''auth_transaction'', c_u16), (''status_code'', c_u16)]"

definition struct_lcompat_ieee80211_assoc_req_frame :: cty where [layout]:
  "struct_lcompat_ieee80211_assoc_req_frame =
     cpacked [(''frame_control'', c_u16), (''duration'', c_u16), (''da'', CArr 6 c_u8),
     (''sa'', CArr 6 c_u8), (''bssid'', CArr 6 c_u8), (''seq_ctrl'', c_u16), (''capab_info'', c_u16),
     (''listen_interval'', c_u16), (''variable'', CFlex c_u8)]"

definition struct_lcompat_ieee80211_reason_frame :: cty where [layout]:
  "struct_lcompat_ieee80211_reason_frame =
     cpacked [(''frame_control'', c_u16), (''duration'', c_u16), (''da'', CArr 6 c_u8),
     (''sa'', CArr 6 c_u8), (''bssid'', CArr 6 c_u8), (''seq_ctrl'', c_u16), (''reason_code'', c_u16)]"

definition struct_lcompat_tx_status_work :: cty where [layout]:
  "struct_lcompat_tx_status_work =
     cstruct [(''work'', struct_work_struct), (''hw'', CPtr), (''skb'', CPtr)]"

section \<open>The two views of the control block of a buffer\<close>

lemma cb_place:
  "offset_of e struct_sk_buff [Fld ''cb''] = Some 86" "offset_of e struct_sk_buff [Fld ''shinfo''] = Some 216"
  by code_simp+

lemma view_sizes: "ct_size e struct_ieee80211_tx_info = 56" "ct_size e struct_ieee80211_rx_status = 80"
  by code_simp+

lemma view_wf: "ct_wf e struct_ieee80211_tx_info" "ct_wf e struct_ieee80211_rx_status"
  by code_simp+

text \<open>
  C21. \<^verbatim>\<open>IEEE80211_SKB_CB\<close> and \<^verbatim>\<open>IEEE80211_SKB_RXCB\<close> read the 128 bytes of \<^verbatim>\<open>skb->cb\<close> as transmit
  information or as receive status: whatever member, array element or nested member is reached through
  either view, its bytes lie inside \<^verbatim>\<open>cb\<close> (which starts at 86, the fragment table follows at 216), so no
  access through a view touches another member of the buffer.
\<close>

theorem skb_cb_views:
  assumes "view \<in> {struct_ieee80211_tx_info, struct_ieee80211_rx_status}" and "ct_off e view ps = Some (pos, u)"
  shows "offset_of e struct_sk_buff [Fld ''cb''] = Some 86 \<and> 86 + (pos + ct_size e u) \<le> 86 + 128
         \<and> offset_of e struct_sk_buff [Fld ''shinfo''] = Some 216"
proof -
  have "pos + ct_size e u \<le> ct_size e view" using ct_off_inside(1) [OF _ assms(2)] assms(1) view_wf by auto
  also have "\<dots> \<le> 128" using assms(1) view_sizes [of e] by auto
  finally show ?thesis using cb_place [of e] by simp
qed

lemma skb_cb_views_witness:
  "offset_of no_ext struct_sk_buff [Fld ''cb''] = Some 86 \<and> 86 + (40 + ct_size no_ext CPtr) \<le> 86 + 128
         \<and> offset_of no_ext struct_sk_buff [Fld ''shinfo''] = Some 216"
  by (rule skb_cb_views [of struct_ieee80211_tx_info no_ext "[Fld ''anon0'', Fld ''control'', Fld ''hw_key'']"])
     (simp, code_simp)

text \<open>
  The control block starts six bytes after a multiple of eight of its buffer object, while the transmit
  view holds pointers and the receive view 64-bit times: for every buffer object aligned to eight bytes
  neither view is aligned as its type requires.
\<close>

theorem skb_cb_misaligned:
  assumes "view \<in> {struct_ieee80211_tx_info, struct_ieee80211_rx_status}" and "8 dvd skb"
  shows "\<not> ct_align e view dvd skb + the (offset_of e struct_sk_buff [Fld ''cb''])"
proof -
  have "ct_align e struct_ieee80211_tx_info = 8" "ct_align e struct_ieee80211_rx_status = 8" by code_simp+
  then have "ct_align e view = 8" using assms(1) by auto
  moreover have "\<not> 8 dvd skb + (86 :: nat)" using assms(2) by presburger
  ultimately show ?thesis using cb_place(1) [of e] by simp
qed

lemma skb_cb_misaligned_witness:
  "\<not> ct_align no_ext struct_ieee80211_tx_info dvd 4096 + the (offset_of no_ext struct_sk_buff [Fld ''cb''])"
  by (rule skb_cb_misaligned) simp_all

section \<open>Frames\<close>

text \<open>
  The packed structures that build and read management frames place their members where the frame
  format has them: the common header at 0, 2, 4, 10, 16 and 22, the body at 24; the private structures
  of \<^verbatim>\<open>mac80211.c\<close> and the shared \<^verbatim>\<open>ieee80211_mgmt\<close> agree on authentication (24, 26, 28), association
  (24, 26) and reason codes (24).  The action frame is the exception: its inner structures are not packed,
  so a block-ack request has its action code at 26 and its parameters from 28 instead of 25 and 26.
\<close>

lemma frame_layouts:
  "map (\<lambda>n. offset_of e struct_ieee80211_mgmt [Fld n])
     [''frame_control'', ''duration'', ''da'', ''sa'', ''bssid'', ''seq_ctrl'', ''u''] = map Some [0, 2, 4, 10, 16, 22, 24]
   \<and> map (\<lambda>n. offset_of e struct_ieee80211_mgmt [Fld ''u'', Fld ''auth'', Fld n])
       [''auth_alg'', ''auth_transaction'', ''status_code'', ''variable''] = map Some [24, 26, 28, 30]
   \<and> map (\<lambda>n. offset_of e struct_lcompat_ieee80211_auth_frame [Fld n])
       [''auth_alg'', ''auth_transaction'', ''status_code''] = map Some [24, 26, 28]
   \<and> map (\<lambda>n. offset_of e struct_lcompat_ieee80211_assoc_req_frame [Fld n])
       [''capab_info'', ''listen_interval'', ''variable''] = map Some [24, 26, 28]
   \<and> map (\<lambda>n. offset_of e struct_ieee80211_mgmt [Fld ''u'', Fld ''assoc_resp'', Fld n])
       [''capab_info'', ''status_code'', ''aid'', ''variable''] = map Some [24, 26, 28, 30]
   \<and> offset_of e struct_lcompat_ieee80211_reason_frame [Fld ''reason_code'']
       = offset_of e struct_ieee80211_mgmt [Fld ''u'', Fld ''deauth'', Fld ''reason_code'']
   \<and> map (ct_size e) [struct_ieee80211_hdr_3addr, struct_lcompat_ieee80211_auth_frame, struct_lcompat_ieee80211_reason_frame,
       struct_lcompat_ieee80211_assoc_req_frame, struct_lcompat_ethhdr, struct_ieee80211_mgmt] = [24, 30, 26, 28, 14, 40]
   \<and> map (\<lambda>n. offset_of e struct_ieee80211_mgmt [Fld ''u'', Fld ''action'', Fld ''u'', Fld ''addba_req'', Fld n])
       [''action_code'', ''capab'', ''timeout'', ''start_seq_num''] = map Some [26, 28, 30, 32]"
  by (intro conjI; code_simp)

end
