(* ===== verification/LC_Flags.thy ===== *)
theory LC_Flags
  imports LC_Types_Mac LC_Bits
begin

text \<open>
  The flag words, bit-field masks and enumerations of \<^verbatim>\<open>mac80211.h\<close> and \<^verbatim>\<open>cfg80211.h\<close>.  A flag
  \<^verbatim>\<open>BIT(n)\<close> is the field from bit n to bit n, a mask \<^verbatim>\<open>GENMASK(h, l)\<close> or a contiguous constant the
  field from h down to l; a shift that drivers apply to the value 1 is the bit it reaches.  Groups are
  the words the flags are stored in.  Enumerations and numbered constants are lists of names and values.
\<close>

type_synonym bit_fields = "(string \<times> nat \<times> nat) list"
type_synonym named_values = "(string \<times> nat) list"

named_theorems flag_groups
named_theorems value_groups

definition field_mask :: "nat \<times> nat \<Rightarrow> u64" where
  "field_mask f = GENMASK (fst f) (snd f)"

text \<open>The pairs of fields of a word that share a bit, by name.\<close>

fun overlaps :: "bit_fields \<Rightarrow> (string \<times> string) list" where
  "overlaps [] = []"
| "overlaps ((n, h, l) # g) =
     map (\<lambda>(m, _). (n, m)) (filter (\<lambda>(m, h', l'). l' \<le> h \<and> l \<le> h') g) @ overlaps g"

definition fits :: "nat \<Rightarrow> bit_fields \<Rightarrow> bool" where
  "fits w g = list_all (\<lambda>(n, h, l). l \<le> h \<and> h < w) g"

text \<open>The width in bits of the member of a structure that stores the word; no type here is external.\<close>

definition member_bits :: "cty \<times> string list \<Rightarrow> nat" where
  "member_bits m = (case ct_off no_ext (fst m) (map Fld (snd m)) of None \<Rightarrow> 0
     | Some (_, CArr k t) \<Rightarrow> 8 * ct_size no_ext t | Some (_, t) \<Rightarrow> 8 * ct_size no_ext t)"

section \<open>Flag words\<close>

definition chan_flags :: bit_fields where [flag_groups]:
  "chan_flags =
   [(''IEEE80211_CHAN_NO_HT40MINUS'', 0, 0), (''IEEE80211_CHAN_RADAR'', 1, 1),
   (''IEEE80211_CHAN_NO_IR'', 2, 2), (''IEEE80211_CHAN_NO_80MHZ'', 3, 3), (''IEEE80211_CHAN_DISABLED'', 4, 4)]"

definition conf_flags :: bit_fields where [flag_groups]:
  "conf_flags =
   [(''IEEE80211_CONF_IDLE'', 0, 0), (''IEEE80211_CONF_CHANGE_IDLE'', 1, 1),
   (''IEEE80211_CONF_CHANGE_CHANNEL'', 2, 2), (''IEEE80211_CONF_OFFCHANNEL'', 3, 3),
   (''IEEE80211_CONF_MONITOR'', 4, 4), (''IEEE80211_CONF_CHANGE_POWER'', 5, 5),
   (''IEEE80211_CONF_CHANGE_MONITOR'', 6, 6)]"

definition vif_flags :: bit_fields where [flag_groups]:
  "vif_flags =
   [(''IEEE80211_VIF_BEACON_FILTER'', 0, 0), (''IEEE80211_VIF_SUPPORTS_CQM_RSSI'', 1, 1)]"

definition fif_flags :: bit_fields where [flag_groups]:
  "fif_flags =
   [(''FIF_ALLMULTI'', 0, 0), (''FIF_OTHER_BSS'', 1, 1), (''FIF_FCSFAIL'', 2, 2),
   (''FIF_BCN_PRBRESP_PROMISC'', 3, 3), (''FIF_PLCPFAIL'', 4, 4), (''FIF_CONTROL'', 5, 5),
   (''FIF_PSPOLL'', 6, 6)]"

definition bss_changed_flags :: bit_fields where [flag_groups]:
  "bss_changed_flags =
   [(''BSS_CHANGED_ASSOC'', 0, 0), (''BSS_CHANGED_BSSID'', 1, 1), (''BSS_CHANGED_BEACON_INT'', 2, 2),
   (''BSS_CHANGED_BEACON'', 3, 3), (''BSS_CHANGED_BEACON_ENABLED'', 4, 4), (''BSS_CHANGED_CQM'', 5, 5),
   (''BSS_CHANGED_MU_GROUPS'', 6, 6), (''BSS_CHANGED_ERP_SLOT'', 7, 7), (''BSS_CHANGED_PS'', 8, 8),
   (''BSS_CHANGED_HT'', 9, 9), (''BSS_CHANGED_ERP_CTS_PROT'', 10, 10), (''BSS_CHANGED_ERP_PREAMBLE'', 11, 11),
   (''BSS_CHANGED_UNSOL_BCAST_PROBE_RESP'', 12, 12), (''BSS_CHANGED_FILS_DISCOVERY'', 13, 13),
   (''BSS_CHANGED_QOS'', 14, 14), (''BSS_CHANGED_ARP_FILTER'', 15, 15), (''BSS_CHANGED_MCAST_RATE'', 16, 16),
   (''BSS_CHANGED_BASIC_RATES'', 17, 17)]"

definition key_flags :: bit_fields where [flag_groups]:
  "key_flags =
   [(''IEEE80211_KEY_FLAG_GENERATE_MMIC'', 4, 4), (''IEEE80211_KEY_FLAG_SW_MGMT_TX'', 5, 5),
   (''IEEE80211_KEY_FLAG_PAIRWISE'', 6, 6), (''IEEE80211_KEY_FLAG_GENERATE_IV'', 7, 7),
   (''IEEE80211_KEY_FLAG_RX_MGMT'', 8, 8), (''IEEE80211_KEY_FLAG_GENERATE_MMIE'', 9, 9)]"

definition ht_cap_bits :: bit_fields where [flag_groups]:
  "ht_cap_bits =
   [(''IEEE80211_HT_CAP_SGI_20'', 0, 0), (''IEEE80211_HT_CAP_MAX_AMSDU'', 1, 1),
   (''IEEE80211_HT_CAP_RX_STBC_SHIFT'', 8, 8), (''IEEE80211_HT_CAP_RX_STBC'', 2, 2),
   (''IEEE80211_HT_CAP_LDPC_CODING'', 3, 3), (''IEEE80211_HT_CAP_TX_STBC'', 4, 4),
   (''IEEE80211_HT_CAP_SUP_WIDTH_20_40'', 5, 5), (''IEEE80211_HT_CAP_DSSSCCK40'', 6, 6),
   (''IEEE80211_HT_CAP_SGI_40'', 7, 7), (''IEEE80211_HT_CAP_GRN_FLD'', 8, 8)]"

definition ht_op_mode_bits :: bit_fields where [flag_groups]:
  "ht_op_mode_bits =
   [(''IEEE80211_HT_OP_MODE_PROTECTION'', 1, 0), (''IEEE80211_HT_OP_MODE_NON_GF_STA_PRSNT'', 2, 2)]"

definition ht_ampdu_parm_bits :: bit_fields where [flag_groups]:
  "ht_ampdu_parm_bits =
   [(''IEEE80211_HT_AMPDU_PARM_FACTOR'', 1, 0), (''IEEE80211_HT_AMPDU_PARM_DENSITY'', 4, 2)]"

definition vht_cap_bits :: bit_fields where [flag_groups]:
  "vht_cap_bits =
   [(''IEEE80211_VHT_CAP_MAX_MPDU_LENGTH_11454'', 0, 0), (''IEEE80211_VHT_CAP_MAX_MPDU_MASK'', 1, 0),
   (''IEEE80211_VHT_CAP_SHORT_GI_80'', 1, 1), (''IEEE80211_VHT_CAP_RXSTBC_1'', 2, 2),
   (''IEEE80211_VHT_CAP_RXSTBC_MASK'', 2, 2), (''IEEE80211_VHT_CAP_HTC_VHT'', 3, 3),
   (''IEEE80211_VHT_CAP_MAX_A_MPDU_LENGTH_EXPONENT_MASK'', 5, 4),
   (''IEEE80211_VHT_CAP_SUPP_CHAN_WIDTH_160MHZ'', 5, 5), (''IEEE80211_VHT_CAP_TXSTBC'', 6, 6),
   (''IEEE80211_VHT_CAP_MU_BEAMFORMEE_CAPABLE'', 7, 7), (''IEEE80211_VHT_CAP_SU_BEAMFORMEE_CAPABLE'', 8, 8),
   (''IEEE80211_VHT_CAP_MU_BEAMFORMER_CAPABLE'', 9, 9), (''IEEE80211_VHT_CAP_SU_BEAMFORMER_CAPABLE'', 10, 10),
   (''IEEE80211_VHT_CAP_SOUNDING_DIMENSIONS_MASK'', 18, 16),
   (''IEEE80211_VHT_CAP_BEAMFORMEE_STS_SHIFT'', 9, 9), (''IEEE80211_VHT_CAP_RXLDPC'', 13, 13),
   (''IEEE80211_VHT_CAP_TX_ANTENNA_PATTERN'', 14, 14), (''IEEE80211_VHT_CAP_RX_ANTENNA_PATTERN'', 15, 15),
   (''IEEE80211_VHT_CAP_SHORT_GI_160'', 16, 16)]"

definition wmm_qosinfo_bits :: bit_fields where [flag_groups]:
  "wmm_qosinfo_bits =
   [(''IEEE80211_WMM_IE_STA_QOSINFO_AC_VO'', 0, 0), (''IEEE80211_WMM_IE_STA_QOSINFO_AC_VI'', 1, 1),
   (''IEEE80211_WMM_IE_STA_QOSINFO_AC_BE'', 2, 2), (''IEEE80211_WMM_IE_STA_QOSINFO_AC_BK'', 3, 3)]"

definition he_mac_cap0_bits :: bit_fields where [flag_groups]:
  "he_mac_cap0_bits =
   [(''IEEE80211_HE_MAC_CAP0_HTC_HE'', 0, 0)]"

definition he_mac_cap1_bits :: bit_fields where [flag_groups]:
  "he_mac_cap1_bits =
   [(''IEEE80211_HE_MAC_CAP1_TF_MAC_PAD_DUR_MASK'', 1, 0),
   (''IEEE80211_HE_MAC_CAP1_TF_MAC_PAD_DUR_16US'', 2, 2)]"

definition he_mac_cap2_bits :: bit_fields where [flag_groups]:
  "he_mac_cap2_bits =
   [(''IEEE80211_HE_MAC_CAP2_BSR'', 0, 0)]"

definition he_mac_cap3_bits :: bit_fields where [flag_groups]:
  "he_mac_cap3_bits =
   [(''IEEE80211_HE_MAC_CAP3_OMI_CONTROL'', 0, 0), (''IEEE80211_HE_MAC_CAP3_MAX_AMPDU_LEN_EXP_MASK'', 4, 3),
   (''IEEE80211_HE_MAC_CAP3_MAX_AMPDU_LEN_EXP_EXT_3'', 5, 5)]"

definition he_mac_cap4_bits :: bit_fields where [flag_groups]:
  "he_mac_cap4_bits =
   [(''IEEE80211_HE_MAC_CAP4_AMSDU_IN_AMPDU'', 0, 0), (''IEEE80211_HE_MAC_CAP4_BQR'', 1, 1)]"

definition he_mac_cap5_bits :: bit_fields where [flag_groups]:
  "he_mac_cap5_bits =
   [(''IEEE80211_HE_MAC_CAP5_OM_CTRL_UL_MU_DATA_DIS_RX'', 0, 0)]"

definition he_phy_cap0_bits :: bit_fields where [flag_groups]:
  "he_phy_cap0_bits =
   [(''IEEE80211_HE_PHY_CAP0_CHANNEL_WIDTH_SET_40MHZ_IN_2G'', 0, 0),
   (''IEEE80211_HE_PHY_CAP0_CHANNEL_WIDTH_SET_40MHZ_80MHZ_IN_5G'', 1, 1),
   (''IEEE80211_HE_PHY_CAP0_CHANNEL_WIDTH_SET_160MHZ_IN_5G'', 2, 2),
   (''IEEE80211_HE_PHY_CAP0_CHANNEL_WIDTH_SET_RU_MAPPING_IN_2G'', 0, 0),
   (''IEEE80211_HE_PHY_CAP0_CHANNEL_WIDTH_SET_RU_MAPPING_IN_5G'', 1, 1),
   (''IEEE80211_HE_PHY_CAP0_CHANNEL_WIDTH_SET_80PLUS80_MHZ_IN_5G'', 2, 2),
   (''IEEE80211_HE_PHY_CAP0_CHANNEL_WIDTH_SET_MASK'', 3, 0)]"

definition he_phy_cap1_bits :: bit_fields where [flag_groups]:
  "he_phy_cap1_bits =
   [(''IEEE80211_HE_PHY_CAP1_LDPC_CODING_IN_PAYLOAD'', 0, 0),
   (''IEEE80211_HE_PHY_CAP1_HE_LTF_AND_GI_FOR_HE_PPDUS_0_8US'', 1, 1),
   (''IEEE80211_HE_PHY_CAP1_DEVICE_CLASS_A'', 2, 2), (''IEEE80211_HE_PHY_CAP1_PREAMBLE_PUNC_RX_MASK'', 4, 3)]"

definition he_phy_cap2_bits :: bit_fields where [flag_groups]:
  "he_phy_cap2_bits =
   [(''IEEE80211_HE_PHY_CAP2_NDP_4x_LTF_AND_3_2US'', 0, 0),
   (''IEEE80211_HE_PHY_CAP2_STBC_TX_UNDER_80MHZ'', 1, 1),
   (''IEEE80211_HE_PHY_CAP2_STBC_RX_UNDER_80MHZ'', 2, 2), (''IEEE80211_HE_PHY_CAP2_UL_MU_FULL_MU_MIMO'', 3, 3),
   (''IEEE80211_HE_PHY_CAP2_UL_MU_PARTIAL_MU_MIMO'', 4, 4)]"

definition he_phy_cap3_bits :: bit_fields where [flag_groups]:
  "he_phy_cap3_bits =
   [(''IEEE80211_HE_PHY_CAP3_DCM_MAX_CONST_TX_MASK'', 1, 0),
   (''IEEE80211_HE_PHY_CAP3_DCM_MAX_TX_NSS_2'', 2, 2), (''IEEE80211_HE_PHY_CAP3_DCM_MAX_CONST_RX_MASK'', 4, 3),
   (''IEEE80211_HE_PHY_CAP3_DCM_MAX_CONST_RX_QPSK'', 3, 3), (''IEEE80211_HE_PHY_CAP3_DCM_MAX_RX_NSS_2'', 5, 5)]"

definition he_phy_cap4_bits :: bit_fields where [flag_groups]:
  "he_phy_cap4_bits =
   [(''IEEE80211_HE_PHY_CAP4_SU_BEAMFORMEE'', 0, 0),
   (''IEEE80211_HE_PHY_CAP4_BEAMFORMEE_MAX_STS_UNDER_80MHZ_4'', 1, 1),
   (''IEEE80211_HE_PHY_CAP4_BEAMFORMEE_MAX_STS_ABOVE_80MHZ_4'', 2, 2)]"

definition he_phy_cap5_bits :: bit_fields where [flag_groups]:
  "he_phy_cap5_bits =
   [(''IEEE80211_HE_PHY_CAP5_NG16_SU_FEEDBACK'', 0, 0), (''IEEE80211_HE_PHY_CAP5_NG16_MU_FEEDBACK'', 1, 1)]"

definition he_phy_cap6_bits :: bit_fields where [flag_groups]:
  "he_phy_cap6_bits =
   [(''IEEE80211_HE_PHY_CAP6_CODEBOOK_SIZE_42_SU'', 1, 1),
   (''IEEE80211_HE_PHY_CAP6_CODEBOOK_SIZE_75_MU'', 2, 2), (''IEEE80211_HE_PHY_CAP6_TRIG_CQI_FB'', 3, 3),
   (''IEEE80211_HE_PHY_CAP6_PARTIAL_BW_EXT_RANGE'', 0, 0),
   (''IEEE80211_HE_PHY_CAP6_PPE_THRESHOLD_PRESENT'', 4, 4)]"

definition he_phy_cap7_bits :: bit_fields where [flag_groups]:
  "he_phy_cap7_bits =
   [(''IEEE80211_HE_PHY_CAP7_HE_SU_MU_PPDU_4XLTF_AND_08_US_GI'', 0, 0),
   (''IEEE80211_HE_PHY_CAP7_STBC_TX_ABOVE_80MHZ'', 1, 1),
   (''IEEE80211_HE_PHY_CAP7_STBC_RX_ABOVE_80MHZ'', 2, 2),
   (''IEEE80211_HE_PHY_CAP7_POWER_BOOST_FACTOR_SUPP'', 3, 3)]"

definition he_phy_cap8_bits :: bit_fields where [flag_groups]:
  "he_phy_cap8_bits =
   [(''IEEE80211_HE_PHY_CAP8_20MHZ_IN_40MHZ_HE_PPDU_IN_2G'', 4, 4),
   (''IEEE80211_HE_PHY_CAP8_20MHZ_IN_160MHZ_HE_PPDU'', 5, 5),
   (''IEEE80211_HE_PHY_CAP8_80MHZ_IN_160MHZ_HE_PPDU'', 6, 6),
   (''IEEE80211_HE_PHY_CAP8_HE_ER_SU_PPDU_4XLTF_AND_08_US_GI'', 0, 0),
   (''IEEE80211_HE_PHY_CAP8_HE_ER_SU_1XLTF_AND_08_US_GI'', 1, 1),
   (''IEEE80211_HE_PHY_CAP8_DCM_MAX_RU_MASK'', 3, 2), (''IEEE80211_HE_PHY_CAP8_DCM_MAX_RU_484'', 3, 3)]"

definition he_phy_cap9_bits :: bit_fields where [flag_groups]:
  "he_phy_cap9_bits =
   [(''IEEE80211_HE_PHY_CAP9_NON_TRIGGERED_CQI_FEEDBACK'', 0, 0),
   (''IEEE80211_HE_PHY_CAP9_TX_1024_QAM_LESS_THAN_242_TONE_RU'', 1, 1),
   (''IEEE80211_HE_PHY_CAP9_RX_1024_QAM_LESS_THAN_242_TONE_RU'', 2, 2),
   (''IEEE80211_HE_PHY_CAP9_LONGER_THAN_16_SIGB_OFDM_SYM'', 3, 3),
   (''IEEE80211_HE_PHY_CAP9_RX_FULL_BW_SU_USING_MU_WITH_COMP_SIGB'', 4, 4),
   (''IEEE80211_HE_PHY_CAP9_RX_FULL_BW_SU_USING_MU_WITH_NON_COMP_SIGB'', 5, 5),
   (''IEEE80211_HE_PHY_CAP9_NOMINAL_PKT_PADDING_MASK'', 7, 6)]"

definition he_6ghz_cap_bits :: bit_fields where [flag_groups]:
  "he_6ghz_cap_bits =
   [(''IEEE80211_HE_6GHZ_CAP_MAX_AMPDU_LEN_EXP'', 2, 0), (''IEEE80211_HE_6GHZ_CAP_MIN_MPDU_START'', 5, 3),
   (''IEEE80211_HE_6GHZ_CAP_MAX_MPDU_LEN'', 7, 6), (''IEEE80211_HE_6GHZ_CAP_TX_ANTPAT_CONS'', 8, 8),
   (''IEEE80211_HE_6GHZ_CAP_RX_ANTPAT_CONS'', 9, 9)]"

definition ppe_thres_bits :: bit_fields where [flag_groups]:
  "ppe_thres_bits =
   [(''IEEE80211_PPE_THRES_NSS_MASK'', 2, 0), (''IEEE80211_PPE_THRES_RU_INDEX_BITMASK_MASK'', 6, 3)]"

definition chanctx_change_flags :: bit_fields where [flag_groups]:
  "chanctx_change_flags =
   [(''IEEE80211_CHANCTX_CHANGE_WIDTH'', 0, 0), (''IEEE80211_CHANCTX_CHANGE_RADAR'', 1, 1),
   (''IEEE80211_CHANCTX_CHANGE_PUNCTURING'', 2, 2)]"

definition rate_info_flags :: bit_fields where [flag_groups]:
  "rate_info_flags =
   [(''RATE_INFO_FLAGS_VHT_MCS'', 0, 0), (''RATE_INFO_FLAGS_MCS'', 1, 1), (''RATE_INFO_FLAGS_SHORT_GI'', 2, 2),
   (''RATE_INFO_FLAGS_HE_MCS'', 3, 3)]"

definition rx_flags :: bit_fields where [flag_groups]:
  "rx_flags =
   [(''RX_FLAG_FAILED_FCS_CRC'', 0, 0), (''RX_FLAG_DECRYPTED'', 1, 1), (''RX_FLAG_MACTIME_START'', 2, 2),
   (''RX_FLAG_NO_SIGNAL_VAL'', 3, 3), (''RX_FLAG_NO_PSDU'', 4, 4), (''RX_FLAG_RADIOTAP_HE'', 5, 5),
   (''RX_FLAG_RADIOTAP_HE_MU'', 6, 6), (''RX_FLAG_8023'', 7, 7), (''RX_FLAG_IV_STRIPPED'', 8, 8),
   (''RX_FLAG_ONLY_MONITOR'', 9, 9), (''RX_FLAG_PN_VALIDATED'', 10, 10), (''RX_FLAG_AMPDU_DETAILS'', 11, 11),
   (''RX_FLAG_DUP_VALIDATED'', 12, 12), (''RX_FLAG_MMIC_STRIPPED'', 13, 13),
   (''RX_FLAG_MIC_STRIPPED'', 14, 14), (''RX_FLAG_RADIOTAP_TLV_AT_END'', 15, 15),
   (''RX_FLAG_MMIC_ERROR'', 16, 16)]"

definition rx_enc_flags :: bit_fields where [flag_groups]:
  "rx_enc_flags =
   [(''RX_ENC_FLAG_SHORTPRE'', 0, 0), (''RX_ENC_FLAG_HT_GF'', 1, 1), (''RX_ENC_FLAG_LDPC'', 2, 2),
   (''RX_ENC_FLAG_SHORT_GI'', 3, 3), (''RX_ENC_FLAG_STBC_MASK'', 5, 4)]"

definition tx_rc_flags :: bit_fields where [flag_groups]:
  "tx_rc_flags =
   [(''IEEE80211_TX_RC_USE_RTS_CTS'', 0, 0), (''IEEE80211_TX_RC_USE_CTS_PROTECT'', 1, 1),
   (''IEEE80211_TX_RC_USE_SHORT_PREAMBLE'', 2, 2), (''IEEE80211_TX_RC_MCS'', 3, 3),
   (''IEEE80211_TX_RC_GREEN_FIELD'', 4, 4), (''IEEE80211_TX_RC_40_MHZ_WIDTH'', 5, 5),
   (''IEEE80211_TX_RC_DUP_DATA'', 6, 6), (''IEEE80211_TX_RC_SHORT_GI'', 7, 7),
   (''IEEE80211_TX_RC_VHT_MCS'', 8, 8), (''IEEE80211_TX_RC_80_MHZ_WIDTH'', 9, 9),
   (''IEEE80211_TX_RC_160_MHZ_WIDTH'', 10, 10)]"

definition eht_known_bits :: bit_fields where [flag_groups]:
  "eht_known_bits =
   [(''IEEE80211_RADIOTAP_EHT_KNOWN_SPATIAL_REUSE'', 0, 0), (''IEEE80211_RADIOTAP_EHT_KNOWN_GI'', 1, 1),
   (''IEEE80211_RADIOTAP_EHT_KNOWN_EHT_LTF'', 2, 2),
   (''IEEE80211_RADIOTAP_EHT_KNOWN_LDPC_EXTRA_SYM_OM'', 3, 3),
   (''IEEE80211_RADIOTAP_EHT_KNOWN_PE_DISAMBIGUITY_OM'', 4, 4), (''IEEE80211_RADIOTAP_EHT_KNOWN_NSS_S'', 5, 5)]"

definition eht_data0_bits :: bit_fields where [flag_groups]:
  "eht_data0_bits =
   [(''IEEE80211_RADIOTAP_EHT_DATA0_SPATIAL_REUSE'', 3, 0), (''IEEE80211_RADIOTAP_EHT_DATA0_GI'', 5, 4),
   (''IEEE80211_RADIOTAP_EHT_DATA0_LTF'', 7, 6), (''IEEE80211_RADIOTAP_EHT_DATA0_PE_DISAMBIGUITY_OM'', 8, 8),
   (''IEEE80211_RADIOTAP_EHT_DATA0_LDPC_EXTRA_SYM_OM'', 9, 9)]"

definition eht_user_info_bits :: bit_fields where [flag_groups]:
  "eht_user_info_bits =
   [(''IEEE80211_RADIOTAP_EHT_USER_INFO_MCS_KNOWN'', 0, 0),
   (''IEEE80211_RADIOTAP_EHT_USER_INFO_CODING_KNOWN'', 1, 1),
   (''IEEE80211_RADIOTAP_EHT_USER_INFO_NSS_KNOWN_O'', 2, 2),
   (''IEEE80211_RADIOTAP_EHT_USER_INFO_BEAMFORMING_KNOWN_O'', 3, 3),
   (''IEEE80211_RADIOTAP_EHT_USER_INFO_DATA_FOR_USER'', 4, 4),
   (''IEEE80211_RADIOTAP_EHT_USER_INFO_MCS'', 7, 5), (''IEEE80211_RADIOTAP_EHT_USER_INFO_NSS_O'', 11, 8),
   (''IEEE80211_RADIOTAP_EHT_USER_INFO_BEAMFORMING_O'', 12, 12),
   (''IEEE80211_RADIOTAP_EHT_USER_INFO_CODING'', 13, 13),
   (''IEEE80211_RADIOTAP_EHT_USER_INFO_STA_ID_KNOWN'', 14, 14),
   (''IEEE80211_RADIOTAP_EHT_USER_INFO_STA_ID'', 26, 16)]"

definition eht_usig_common_bits :: bit_fields where [flag_groups]:
  "eht_usig_common_bits =
   [(''IEEE80211_RADIOTAP_EHT_USIG_COMMON_PHY_VER_KNOWN'', 0, 0),
   (''IEEE80211_RADIOTAP_EHT_USIG_COMMON_BW_KNOWN'', 1, 1),
   (''IEEE80211_RADIOTAP_EHT_USIG_COMMON_UL_DL_KNOWN'', 2, 2),
   (''IEEE80211_RADIOTAP_EHT_USIG_COMMON_BSS_COLOR_KNOWN'', 3, 3),
   (''IEEE80211_RADIOTAP_EHT_USIG_COMMON_TXOP_KNOWN'', 4, 4),
   (''IEEE80211_RADIOTAP_EHT_USIG_COMMON_PHY_VER'', 7, 5), (''IEEE80211_RADIOTAP_EHT_USIG_COMMON_BW'', 10, 8),
   (''IEEE80211_RADIOTAP_EHT_USIG_COMMON_UL_DL'', 11, 11),
   (''IEEE80211_RADIOTAP_EHT_USIG_COMMON_BSS_COLOR'', 17, 12),
   (''IEEE80211_RADIOTAP_EHT_USIG_COMMON_TXOP'', 24, 18)]"

definition radiotap_he_data1_bits :: bit_fields where [flag_groups]:
  "radiotap_he_data1_bits =
   [(''IEEE80211_RADIOTAP_HE_DATA1_BW_RU_ALLOC_KNOWN'', 0, 0),
   (''IEEE80211_RADIOTAP_HE_DATA1_DATA_MCS_KNOWN'', 1, 1),
   (''IEEE80211_RADIOTAP_HE_DATA1_DATA_DCM_KNOWN'', 2, 2), (''IEEE80211_RADIOTAP_HE_DATA1_STBC_KNOWN'', 3, 3),
   (''IEEE80211_RADIOTAP_HE_DATA1_CODING_KNOWN'', 4, 4),
   (''IEEE80211_RADIOTAP_HE_DATA1_LDPC_XSYMSEG_KNOWN'', 5, 5),
   (''IEEE80211_RADIOTAP_HE_DATA1_DOPPLER_KNOWN'', 6, 6),
   (''IEEE80211_RADIOTAP_HE_DATA1_SPTL_REUSE_KNOWN'', 7, 7),
   (''IEEE80211_RADIOTAP_HE_DATA1_BSS_COLOR_KNOWN'', 8, 8), (''IEEE80211_RADIOTAP_HE_DATA1_FORMAT_SU'', 9, 9),
   (''IEEE80211_RADIOTAP_HE_DATA1_FORMAT_EXT_SU'', 10, 10),
   (''IEEE80211_RADIOTAP_HE_DATA1_FORMAT_MU'', 11, 11), (''IEEE80211_RADIOTAP_HE_DATA1_FORMAT_TRIG'', 12, 12),
   (''IEEE80211_RADIOTAP_HE_DATA1_UL_DL_KNOWN'', 13, 13),
   (''IEEE80211_RADIOTAP_HE_DATA1_BEAM_CHANGE_KNOWN'', 14, 14),
   (''IEEE80211_RADIOTAP_HE_DATA1_SPTL_REUSE2_KNOWN'', 15, 15),
   (''IEEE80211_RADIOTAP_HE_DATA1_SPTL_REUSE3_KNOWN'', 0, 0),
   (''IEEE80211_RADIOTAP_HE_DATA1_SPTL_REUSE4_KNOWN'', 1, 1)]"

definition radiotap_he_data2_bits :: bit_fields where [flag_groups]:
  "radiotap_he_data2_bits =
   [(''IEEE80211_RADIOTAP_HE_DATA2_RU_OFFSET_KNOWN'', 0, 0),
   (''IEEE80211_RADIOTAP_HE_DATA2_RU_OFFSET'', 15, 8), (''IEEE80211_RADIOTAP_HE_DATA2_GI_KNOWN'', 1, 1),
   (''IEEE80211_RADIOTAP_HE_DATA2_TXBF_KNOWN'', 2, 2),
   (''IEEE80211_RADIOTAP_HE_DATA2_PE_DISAMBIG_KNOWN'', 3, 3),
   (''IEEE80211_RADIOTAP_HE_DATA2_TXOP_KNOWN'', 4, 4)]"

definition radiotap_he_data3_bits :: bit_fields where [flag_groups]:
  "radiotap_he_data3_bits =
   [(''IEEE80211_RADIOTAP_HE_DATA3_BSS_COLOR'', 5, 0), (''IEEE80211_RADIOTAP_HE_DATA3_LDPC_XSYMSEG'', 6, 6),
   (''IEEE80211_RADIOTAP_HE_DATA3_BEAM_CHANGE'', 7, 7), (''IEEE80211_RADIOTAP_HE_DATA3_UL_DL'', 8, 8)]"

definition radiotap_he_data5_bits :: bit_fields where [flag_groups]:
  "radiotap_he_data5_bits =
   [(''IEEE80211_RADIOTAP_HE_DATA5_PE_DISAMBIG'', 0, 0), (''IEEE80211_RADIOTAP_HE_DATA5_LTF_SIZE'', 2, 1),
   (''IEEE80211_RADIOTAP_HE_DATA5_TXBF'', 3, 3)]"

definition radiotap_he_data6_bits :: bit_fields where [flag_groups]:
  "radiotap_he_data6_bits =
   [(''IEEE80211_RADIOTAP_HE_DATA6_TXOP'', 7, 0), (''IEEE80211_RADIOTAP_HE_DATA6_DOPPLER'', 8, 8)]"

definition radiotap_he_data4_tb_bits :: bit_fields where [flag_groups]:
  "radiotap_he_data4_tb_bits =
   [(''IEEE80211_RADIOTAP_HE_DATA4_TB_SPTL_REUSE1'', 3, 0),
   (''IEEE80211_RADIOTAP_HE_DATA4_TB_SPTL_REUSE2'', 7, 4),
   (''IEEE80211_RADIOTAP_HE_DATA4_TB_SPTL_REUSE3'', 11, 8),
   (''IEEE80211_RADIOTAP_HE_DATA4_TB_SPTL_REUSE4'', 15, 12)]"

definition radiotap_he_data4_mu_bits :: bit_fields where [flag_groups]:
  "radiotap_he_data4_mu_bits =
   [(''IEEE80211_RADIOTAP_HE_DATA4_SU_MU_SPTL_REUSE'', 3, 0),
   (''IEEE80211_RADIOTAP_HE_DATA4_MU_STA_ID'', 14, 4)]"

definition radiotap_he_mu_flags1_bits :: bit_fields where [flag_groups]:
  "radiotap_he_mu_flags1_bits =
   [(''IEEE80211_RADIOTAP_HE_MU_FLAGS1_SIG_B_MCS_KNOWN'', 0, 0),
   (''IEEE80211_RADIOTAP_HE_MU_FLAGS1_SIG_B_DCM_KNOWN'', 1, 1),
   (''IEEE80211_RADIOTAP_HE_MU_FLAGS1_CH1_RU_KNOWN'', 2, 2),
   (''IEEE80211_RADIOTAP_HE_MU_FLAGS1_SIG_B_SYMS_USERS_KNOWN'', 3, 3),
   (''IEEE80211_RADIOTAP_HE_MU_FLAGS1_SIG_B_COMP_KNOWN'', 4, 4),
   (''IEEE80211_RADIOTAP_HE_MU_FLAGS1_CH2_RU_KNOWN'', 5, 5),
   (''IEEE80211_RADIOTAP_HE_MU_FLAGS1_SIG_B_MCS'', 3, 0), (''IEEE80211_RADIOTAP_HE_MU_FLAGS1_SIG_B_DCM'', 4, 4)]"

definition radiotap_he_mu_flags2_bits :: bit_fields where [flag_groups]:
  "radiotap_he_mu_flags2_bits =
   [(''IEEE80211_RADIOTAP_HE_MU_FLAGS2_BW_FROM_SIG_A_BW_KNOWN'', 0, 0),
   (''IEEE80211_RADIOTAP_HE_MU_FLAGS2_PUNC_FROM_SIG_A_BW_KNOWN'', 1, 1),
   (''IEEE80211_RADIOTAP_HE_MU_FLAGS2_BW_FROM_SIG_A_BW'', 2, 0),
   (''IEEE80211_RADIOTAP_HE_MU_FLAGS2_SIG_B_SYMS_USERS'', 15, 8)]"

definition tx_info_flags :: bit_fields where [flag_groups]:
  "tx_info_flags =
   [(''IEEE80211_TX_CTL_REQ_TX_STATUS'', 0, 0), (''IEEE80211_TX_CTL_NO_ACK'', 1, 1),
   (''IEEE80211_TX_CTL_AMPDU'', 2, 2), (''IEEE80211_TX_CTL_RATE_CTRL_PROBE'', 3, 3),
   (''IEEE80211_TX_CTL_HW_80211_ENCAP'', 4, 4), (''IEEE80211_TX_CTL_TX_OFFCHAN'', 5, 5),
   (''IEEE80211_TX_CTL_NO_CCK_RATE'', 6, 6), (''IEEE80211_TX_CTL_LDPC'', 7, 7),
   (''IEEE80211_TX_CTL_STBC'', 8, 8), (''IEEE80211_TX_CTL_ASSIGN_SEQ'', 9, 9),
   (''IEEE80211_TX_CTL_USE_MINRATE'', 10, 10), (''IEEE80211_TX_CTL_INJECTED'', 11, 11),
   (''IEEE80211_TX_STAT_NOACK_TRANSMITTED'', 2, 2), (''IEEE80211_TX_STAT_ACK'', 3, 3),
   (''IEEE80211_TX_STATUS_EOSP'', 4, 4), (''IEEE80211_TX_STAT_AMPDU'', 5, 5)]"

definition tx_ctrl_flags :: bit_fields where [flag_groups]:
  "tx_ctrl_flags =
   [(''IEEE80211_TX_CTRL_DONT_USE_RATE_MASK'', 12, 12), (''IEEE80211_TX_CTRL_PS_RESPONSE'', 13, 13)]"

definition scan_flags :: bit_fields where [flag_groups]:
  "scan_flags =
   [(''NL80211_SCAN_FLAG_RANDOM_SN'', 0, 0), (''NL80211_SCAN_FLAG_RANDOM_ADDR'', 1, 1)]"

definition nl80211_features :: bit_fields where [flag_groups]:
  "nl80211_features =
   [(''NL80211_FEATURE_ACTIVE_MONITOR'', 1, 1), (''NL80211_FEATURE_AP_MODE_CHAN_WIDTH_CHANGE'', 2, 2),
   (''NL80211_FEATURE_SCHED_SCAN_RANDOM_MAC_ADDR'', 3, 3), (''NL80211_FEATURE_SCAN_RANDOM_MAC_ADDR'', 0, 0)]"

definition wiphy_flags :: bit_fields where [flag_groups]:
  "wiphy_flags =
   [(''WIPHY_FLAG_SUPPORTS_TDLS'', 0, 0), (''WIPHY_FLAG_TDLS_EXTERNAL_SETUP'', 1, 1),
   (''WIPHY_FLAG_HAS_CHANNEL_SWITCH'', 2, 2), (''WIPHY_FLAG_AP_UAPSD'', 3, 3), (''WIPHY_FLAG_IBSS_RSN'', 4, 4),
   (''WIPHY_FLAG_HAS_REMAIN_ON_CHANNEL'', 5, 5), (''WIPHY_FLAG_4ADDR_AP'', 6, 6),
   (''WIPHY_FLAG_4ADDR_STATION'', 7, 7), (''WIPHY_FLAG_SPLIT_SCAN_6GHZ'', 8, 8)]"

definition regulatory_flags :: bit_fields where [flag_groups]:
  "regulatory_flags =
   [(''REGULATORY_STRICT_REG'', 0, 0), (''REGULATORY_COUNTRY_IE_IGNORE'', 1, 1)]"

section \<open>Enumerations and numbered constants\<close>

definition enum_ieee80211_ac :: named_values where [value_groups]:
  "enum_ieee80211_ac =
   [(''IEEE80211_AC_VO'', 0), (''IEEE80211_AC_VI'', 1), (''IEEE80211_AC_BE'', 2), (''IEEE80211_AC_BK'', 3)]"

definition enum_ieee80211_ac_numbers :: named_values where [value_groups]:
  "enum_ieee80211_ac_numbers =
   [(''IEEE80211_AC_NUM_VO'', 0), (''IEEE80211_AC_NUM_VI'', 1), (''IEEE80211_AC_NUM_BE'', 2),
   (''IEEE80211_AC_NUM_BK'', 3)]"

definition cipher_suites :: named_values where [value_groups]:
  "cipher_suites =
   [(''WLAN_CIPHER_SUITE_WEP40'', 1), (''WLAN_CIPHER_SUITE_WEP104'', 2), (''WLAN_CIPHER_SUITE_TKIP'', 3),
   (''WLAN_CIPHER_SUITE_CCMP'', 4), (''WLAN_CIPHER_SUITE_AES_CMAC'', 5),
   (''WLAN_CIPHER_SUITE_BIP_CMAC_256'', 6), (''WLAN_CIPHER_SUITE_BIP_GMAC_128'', 7),
   (''WLAN_CIPHER_SUITE_BIP_GMAC_256'', 8), (''WLAN_CIPHER_SUITE_CCMP_256'', 9),
   (''WLAN_CIPHER_SUITE_GCMP'', 10), (''WLAN_CIPHER_SUITE_GCMP_256'', 11), (''WLAN_CIPHER_SUITE_SMS4'', 12)]"

definition ht_op_mode_protection :: named_values where [value_groups]:
  "ht_op_mode_protection =
   [(''IEEE80211_HT_OP_MODE_PROTECTION_NONMEMBER'', 1), (''IEEE80211_HT_OP_MODE_PROTECTION_20MHZ'', 2),
   (''IEEE80211_HT_OP_MODE_PROTECTION_NONHT_MIXED'', 3)]"

definition ht_mpdu_density :: named_values where [value_groups]:
  "ht_mpdu_density =
   [(''IEEE80211_HT_MPDU_DENSITY_NONE'', 0), (''IEEE80211_HT_MPDU_DENSITY_025'', 1),
   (''IEEE80211_HT_MPDU_DENSITY_05'', 2), (''IEEE80211_HT_MPDU_DENSITY_1'', 3),
   (''IEEE80211_HT_MPDU_DENSITY_2'', 4), (''IEEE80211_HT_MPDU_DENSITY_4'', 5),
   (''IEEE80211_HT_MPDU_DENSITY_8'', 6), (''IEEE80211_HT_MPDU_DENSITY_16'', 7)]"

definition vht_mcs_support :: named_values where [value_groups]:
  "vht_mcs_support =
   [(''IEEE80211_VHT_MCS_SUPPORT_0_9'', 0), (''IEEE80211_VHT_MCS_SUPPORT_0_8'', 1),
   (''IEEE80211_VHT_MCS_SUPPORT_0_7'', 2), (''IEEE80211_VHT_MCS_NOT_SUPPORTED'', 3)]"

definition vht_max_ampdu :: named_values where [value_groups]:
  "vht_max_ampdu =
   [(''IEEE80211_VHT_MAX_AMPDU_8K'', 0), (''IEEE80211_VHT_MAX_AMPDU_16K'', 1),
   (''IEEE80211_VHT_MAX_AMPDU_32K'', 2), (''IEEE80211_VHT_MAX_AMPDU_64K'', 3),
   (''IEEE80211_VHT_MAX_AMPDU_128K'', 4), (''IEEE80211_VHT_MAX_AMPDU_256K'', 5),
   (''IEEE80211_VHT_MAX_AMPDU_512K'', 6), (''IEEE80211_VHT_MAX_AMPDU_1024K'', 7)]"

definition sta_rx_bw :: named_values where [value_groups]:
  "sta_rx_bw =
   [(''IEEE80211_STA_RX_BW_20'', 0), (''IEEE80211_STA_RX_BW_40'', 1), (''IEEE80211_STA_RX_BW_80'', 2),
   (''IEEE80211_STA_RX_BW_160'', 3)]"

definition smps_modes :: named_values where [value_groups]:
  "smps_modes =
   [(''IEEE80211_SMPS_STATIC'', 1), (''IEEE80211_SMPS_OFF'', 2), (''IEEE80211_SMPS_DYNAMIC'', 3)]"

definition hw_flag_numbers :: named_values where [value_groups]:
  "hw_flag_numbers =
   [(''SIGNAL_DBM'', 0), (''RX_INCLUDES_FCS'', 1), (''AMPDU_AGGREGATION'', 2), (''MFP_CAPABLE'', 3),
   (''REPORTS_TX_ACK_STATUS'', 4), (''SUPPORTS_PS'', 5), (''SUPPORTS_DYNAMIC_PS'', 6),
   (''SUPPORT_FAST_XMIT'', 7), (''SUPPORTS_AMSDU_IN_AMPDU'', 8), (''HAS_RATE_CONTROL'', 9), (''TX_AMSDU'', 10),
   (''SINGLE_SCAN_ON_ALL_BANDS'', 11), (''SUPPORTS_RC_TABLE'', 12), (''SUPPORTS_CLONED_SKBS'', 13),
   (''SUPPORTS_REORDERING_BUFFER'', 14), (''SPECTRUM_MGMT'', 15), (''TX_FRAG_LIST'', 16), (''AP_LINK_PS'', 17),
   (''SUPPORTS_VHT_EXT_NSS_BW'', 18), (''SUPPORTS_HT_CCK_RATES'', 19), (''HOST_BROADCAST_PS_BUFFERING'', 20),
   (''NEEDS_UNIQUE_STA_ADDR'', 21), (''SUPPORTS_MULTI_BSSID'', 22), (''SUPPORTS_TX_ENCAP_OFFLOAD'', 23),
   (''SUPPORTS_RX_DECAP_OFFLOAD'', 24), (''WANT_MONITOR_VIF'', 25), (''CONNECTION_MONITOR'', 26),
   (''SUPPORTS_ONLY_HE_MULTI_BSSID'', 27), (''CHANCTX_STA_CSA'', 28)]"

definition rate_info_bw :: named_values where [value_groups]:
  "rate_info_bw =
   [(''RATE_INFO_BW_20'', 0), (''RATE_INFO_BW_40'', 1), (''RATE_INFO_BW_80'', 2), (''RATE_INFO_BW_160'', 3),
   (''RATE_INFO_BW_HE_RU'', 4)]"

definition he_ru_alloc :: named_values where [value_groups]:
  "he_ru_alloc =
   [(''NL80211_RATE_INFO_HE_RU_ALLOC_26'', 0), (''NL80211_RATE_INFO_HE_RU_ALLOC_52'', 1),
   (''NL80211_RATE_INFO_HE_RU_ALLOC_106'', 2), (''NL80211_RATE_INFO_HE_RU_ALLOC_242'', 3),
   (''NL80211_RATE_INFO_HE_RU_ALLOC_484'', 4), (''NL80211_RATE_INFO_HE_RU_ALLOC_996'', 5),
   (''NL80211_RATE_INFO_HE_RU_ALLOC_2x996'', 6)]"

definition enum_mac80211_rx_encoding :: named_values where [value_groups]:
  "enum_mac80211_rx_encoding =
   [(''RX_ENC_LEGACY'', 0), (''RX_ENC_HT'', 1), (''RX_ENC_VHT'', 2), (''RX_ENC_HE'', 3), (''RX_ENC_EHT'', 4)]"

definition enum_set_key_cmd :: named_values where [value_groups]:
  "enum_set_key_cmd =
   [(''SET_KEY'', 0), (''DISABLE_KEY'', 1)]"

definition enum_ieee80211_ampdu_mlme_action :: named_values where [value_groups]:
  "enum_ieee80211_ampdu_mlme_action =
   [(''IEEE80211_AMPDU_TX_START'', 0), (''IEEE80211_AMPDU_TX_STOP_CONT'', 1),
   (''IEEE80211_AMPDU_TX_STOP_FLUSH'', 2), (''IEEE80211_AMPDU_TX_STOP_FLUSH_CONT'', 3),
   (''IEEE80211_AMPDU_TX_OPERATIONAL'', 4), (''IEEE80211_AMPDU_RX_START'', 5), (''IEEE80211_AMPDU_RX_STOP'', 6)]"

definition enum_ieee80211_reconfig_type :: named_values where [value_groups]:
  "enum_ieee80211_reconfig_type =
   [(''IEEE80211_RECONFIG_TYPE_RESTART'', 0)]"

definition enum_ieee80211_sta_state :: named_values where [value_groups]:
  "enum_ieee80211_sta_state =
   [(''IEEE80211_STA_NOTEXIST'', 0), (''IEEE80211_STA_NONE'', 1), (''IEEE80211_STA_AUTH'', 2),
   (''IEEE80211_STA_ASSOC'', 3), (''IEEE80211_STA_AUTHORIZED'', 4)]"

definition enum_ieee80211_frame_release_type :: named_values where [value_groups]:
  "enum_ieee80211_frame_release_type =
   [(''IEEE80211_FRAME_RELEASE_PSPOLL'', 0)]"

definition enum_ieee80211_chanctx_switch_mode :: named_values where [value_groups]:
  "enum_ieee80211_chanctx_switch_mode =
   [(''CHANCTX_SWMODE_REASSIGN_VIF'', 0), (''CHANCTX_SWMODE_SWAP_CONTEXTS'', 1)]"

definition enum_ieee80211_roc_type :: named_values where [value_groups]:
  "enum_ieee80211_roc_type =
   [(''IEEE80211_ROC_TYPE_NORMAL'', 0)]"

definition enum_ieee80211_ap_reg_power :: named_values where [value_groups]:
  "enum_ieee80211_ap_reg_power =
   [(''IEEE80211_REG_UNSET_AP'', 0), (''IEEE80211_REG_LPI_AP'', 1), (''IEEE80211_REG_SP_AP'', 2),
   (''IEEE80211_REG_VLP_AP'', 3)]"

definition enum_nl80211_band :: named_values where [value_groups]:
  "enum_nl80211_band =
   [(''NL80211_BAND_2GHZ'', 0), (''NL80211_BAND_5GHZ'', 1), (''NL80211_BAND_60GHZ'', 2),
   (''NL80211_BAND_6GHZ'', 3), (''IEEE80211_NUM_BANDS'', 4)]"

definition enum_nl80211_iftype :: named_values where [value_groups]:
  "enum_nl80211_iftype =
   [(''NL80211_IFTYPE_ADHOC'', 1), (''NL80211_IFTYPE_STATION'', 2), (''NL80211_IFTYPE_AP'', 3),
   (''NL80211_IFTYPE_MONITOR'', 6), (''NL80211_IFTYPE_MESH_POINT'', 7), (''NL80211_IFTYPE_P2P_CLIENT'', 8),
   (''NL80211_IFTYPE_P2P_GO'', 9), (''NL80211_IFTYPE_P2P_DEVICE'', 10)]"

definition enum_nl80211_chan_width :: named_values where [value_groups]:
  "enum_nl80211_chan_width =
   [(''NL80211_CHAN_WIDTH_20_NOHT'', 0), (''NL80211_CHAN_WIDTH_20'', 1), (''NL80211_CHAN_WIDTH_40'', 2),
   (''NL80211_CHAN_WIDTH_80'', 3), (''NL80211_CHAN_WIDTH_80P80'', 4), (''NL80211_CHAN_WIDTH_160'', 5),
   (''NL80211_CHAN_WIDTH_5'', 6), (''NL80211_CHAN_WIDTH_10'', 7), (''NL80211_CHAN_WIDTH_320'', 8)]"

definition enum_nl80211_dfs_regions :: named_values where [value_groups]:
  "enum_nl80211_dfs_regions =
   [(''NL80211_DFS_UNSET'', 0), (''NL80211_DFS_FCC'', 1), (''NL80211_DFS_ETSI'', 2), (''NL80211_DFS_JP'', 3)]"

definition enum_nl80211_dfs_state :: named_values where [value_groups]:
  "enum_nl80211_dfs_state =
   [(''NL80211_DFS_USABLE'', 0), (''NL80211_DFS_UNAVAILABLE'', 1), (''NL80211_DFS_AVAILABLE'', 2)]"

definition enum_nl80211_cqm_rssi_threshold_event :: named_values where [value_groups]:
  "enum_nl80211_cqm_rssi_threshold_event =
   [(''NL80211_CQM_RSSI_THRESHOLD_EVENT_LOW_ENUM'', 2), (''NL80211_CQM_RSSI_THRESHOLD_EVENT_HIGH_ENUM'', 1)]"

definition enum_nl80211_reg_initiator :: named_values where [value_groups]:
  "enum_nl80211_reg_initiator =
   [(''NL80211_REGDOM_SET_BY_CORE'', 0), (''NL80211_REGDOM_SET_BY_USER'', 1),
   (''NL80211_REGDOM_SET_BY_DRIVER'', 2), (''NL80211_REGDOM_SET_BY_COUNTRY_IE'', 3)]"

definition enum_nl80211_ext_feature_index :: named_values where [value_groups]:
  "enum_nl80211_ext_feature_index =
   [(''NL80211_EXT_FEATURE_CAN_REPLACE_PTK0'', 0), (''NL80211_EXT_FEATURE_SCAN_RANDOM_SN'', 1),
   (''NL80211_EXT_FEATURE_SET_SCAN_DWELL'', 2), (''NL80211_EXT_FEATURE_CQM_RSSI_LIST'', 3),
   (''NL80211_EXT_FEATURE_AIRTIME_FAIRNESS'', 4), (''NL80211_EXT_FEATURE_AQL'', 5),
   (''NL80211_EXT_FEATURE_VHT_IBSS'', 6), (''NL80211_EXT_FEATURE_BEACON_RATE_LEGACY'', 7),
   (''NL80211_EXT_FEATURE_BEACON_RATE_HT'', 8), (''NL80211_EXT_FEATURE_BEACON_RATE_VHT'', 9),
   (''NL80211_EXT_FEATURE_BEACON_RATE_HE'', 10), (''NL80211_EXT_FEATURE_ACK_SIGNAL_SUPPORT'', 11)]"

definition enum_environment_cap :: named_values where [value_groups]:
  "enum_environment_cap =
   [(''ENVIRON_ANY'', 0), (''ENVIRON_INDOOR'', 1)]"

section \<open>The words that keep their flags apart\<close>

text \<open>Each group that is free of collisions, with the structure member that stores it.\<close>

definition flag_words :: "((cty \<times> string list) \<times> bit_fields) list" where
  "flag_words =
   [((struct_ieee80211_channel, [''flags'']), chan_flags),
    ((struct_ieee80211_conf, [''flags'']), conf_flags),
    ((struct_ieee80211_vif, [''driver_flags'']), vif_flags),
    ((struct_ieee80211_key_conf, [''flags'']), key_flags),
    ((struct_ieee80211_bss_conf, [''ht_operation_mode'']), ht_op_mode_bits),
    ((struct_ieee80211_he_cap_elem, [''mac_cap_info'']), he_mac_cap0_bits),
    ((struct_ieee80211_he_cap_elem, [''mac_cap_info'']), he_mac_cap1_bits),
    ((struct_ieee80211_he_cap_elem, [''mac_cap_info'']), he_mac_cap2_bits),
    ((struct_ieee80211_he_cap_elem, [''mac_cap_info'']), he_mac_cap3_bits),
    ((struct_ieee80211_he_cap_elem, [''mac_cap_info'']), he_mac_cap4_bits),
    ((struct_ieee80211_he_cap_elem, [''mac_cap_info'']), he_mac_cap5_bits),
    ((struct_ieee80211_he_cap_elem, [''phy_cap_info'']), he_phy_cap1_bits),
    ((struct_ieee80211_he_cap_elem, [''phy_cap_info'']), he_phy_cap2_bits),
    ((struct_ieee80211_he_cap_elem, [''phy_cap_info'']), he_phy_cap4_bits),
    ((struct_ieee80211_he_cap_elem, [''phy_cap_info'']), he_phy_cap5_bits),
    ((struct_ieee80211_he_cap_elem, [''phy_cap_info'']), he_phy_cap6_bits),
    ((struct_ieee80211_he_cap_elem, [''phy_cap_info'']), he_phy_cap7_bits),
    ((struct_ieee80211_he_cap_elem, [''phy_cap_info'']), he_phy_cap9_bits),
    ((struct_ieee80211_he_6ghz_capa, [''capa'']), he_6ghz_cap_bits),
    ((struct_ieee80211_sta_he_cap, [''ppe_thres'']), ppe_thres_bits),
    ((struct_rate_info, [''flags'']), rate_info_flags),
    ((struct_ieee80211_rx_status, [''flag'']), rx_flags),
    ((struct_ieee80211_rx_status, [''enc_flags'']), rx_enc_flags),
    ((struct_ieee80211_tx_rate, [''flags'']), tx_rc_flags),
    ((struct_ieee80211_radiotap_eht, [''known'']), eht_known_bits),
    ((struct_ieee80211_radiotap_eht, [''data'']), eht_data0_bits),
    ((struct_ieee80211_radiotap_eht, [''user_info'']), eht_user_info_bits),
    ((struct_ieee80211_radiotap_eht_usig, [''common'']), eht_usig_common_bits),
    ((struct_ieee80211_radiotap_he, [''data2'']), radiotap_he_data2_bits),
    ((struct_ieee80211_radiotap_he, [''data3'']), radiotap_he_data3_bits),
    ((struct_ieee80211_radiotap_he, [''data4'']), radiotap_he_data4_tb_bits),
    ((struct_ieee80211_radiotap_he, [''data4'']), radiotap_he_data4_mu_bits),
    ((struct_ieee80211_radiotap_he, [''data5'']), radiotap_he_data5_bits),
    ((struct_ieee80211_radiotap_he, [''data6'']), radiotap_he_data6_bits),
    ((struct_cfg80211_scan_request, [''flags'']), scan_flags),
    ((struct_wiphy, [''flags'']), wiphy_flags),
    ((struct_wiphy, [''features'']), nl80211_features),
    ((struct_wiphy, [''regulatory_flags'']), regulatory_flags)]"

text \<open>Groups that are arguments of driver calls or bytes of a frame; they fit in 32 bits.\<close>

definition flag_arguments :: "bit_fields list" where
  "flag_arguments = [fif_flags, bss_changed_flags, ht_ampdu_parm_bits, wmm_qosinfo_bits, chanctx_change_flags, tx_ctrl_flags]"

definition value_tables :: "named_values list" where
  "value_tables =
   [enum_ieee80211_ac, enum_ieee80211_ac_numbers, cipher_suites, ht_op_mode_protection,
    ht_mpdu_density, vht_mcs_support, vht_max_ampdu, sta_rx_bw, smps_modes, hw_flag_numbers, rate_info_bw,
    he_ru_alloc, enum_mac80211_rx_encoding, enum_set_key_cmd, enum_ieee80211_ampdu_mlme_action,
    enum_ieee80211_reconfig_type, enum_ieee80211_sta_state, enum_ieee80211_frame_release_type,
    enum_ieee80211_chanctx_switch_mode, enum_ieee80211_roc_type, enum_ieee80211_ap_reg_power,
    enum_nl80211_band, enum_nl80211_iftype, enum_nl80211_chan_width, enum_nl80211_dfs_regions,
    enum_nl80211_dfs_state, enum_nl80211_cqm_rssi_threshold_event, enum_nl80211_reg_initiator,
    enum_nl80211_ext_feature_index, enum_environment_cap]"

lemma bit_GENMASK: "h < 64 \<Longrightarrow> l \<le> h \<Longrightarrow> bit (GENMASK h l) i = (l \<le> i \<and> i \<le> h)"
proof -
  assume a: "h < 64" "l \<le> h"
  have "(NOT 0 :: u64) - push_bit l 1 + 1 = NOT (mask l)"
    by (simp add: push_bit_eq_mult minus_exp_eq_not_mask [symmetric])
  then have "GENMASK h l = NOT (mask l) AND drop_bit (63 - h) (NOT 0)" by (simp add: GENMASK_def)
  then show ?thesis using a
    by (auto simp: bit_simps dest: bit_imp_le_length)
qed

lemma GENMASK_bound: "h < 64 \<Longrightarrow> l \<le> h \<Longrightarrow> h < w \<Longrightarrow> uint (GENMASK h l) < 2 ^ w"
proof -
  assume a: "h < 64" "l \<le> h" "h < w"
  have "take_bit w (GENMASK h l) = GENMASK h l"
    using a by (auto intro!: bit_word_eqI simp: bit_GENMASK bit_take_bit_iff)
  then have "take_bit w (uint (GENMASK h l)) = uint (GENMASK h l)" 
    by (metis unsigned_take_bit_eq)
  then show ?thesis by (metis take_bit_int_less_exp)
qed

lemma overlaps_none:
  "overlaps g = [] \<Longrightarrow> (n, f) \<in> set g \<Longrightarrow> (m, f') \<in> set g \<Longrightarrow> n \<noteq> m \<Longrightarrow> fst f < snd f' \<or> fst f' < snd f"
proof (induction g rule: overlaps.induct)
  case (2 a h l g)
  have none: "\<not> (l' \<le> h \<and> l \<le> h')" if "(b, h', l') \<in> set g" for b h' l'
    using 2(2) that by (auto simp: filter_empty_conv)
  show ?case using 2 none [of m "fst f'" "snd f'"] none [of n "fst f" "snd f"] by auto
qed simp

lemma masks_disjoint:
  "fst f < 64 \<Longrightarrow> snd f \<le> fst f \<Longrightarrow> fst f' < 64 \<Longrightarrow> snd f' \<le> fst f' \<Longrightarrow> fst f < snd f' \<or> fst f' < snd f \<Longrightarrow>
   field_mask f AND field_mask f' = 0"
  by (auto intro!: bit_word_eqI simp: field_mask_def bit_GENMASK bit_and_iff)

lemma flag_words_apart: "list_all (\<lambda>(m, g). fits (member_bits m) g \<and> member_bits m \<le> 64 \<and> overlaps g = []) flag_words"
  by code_simp

lemma flag_arguments_apart: "list_all (\<lambda>g. fits 32 g \<and> overlaps g = []) flag_arguments"
  by code_simp

text \<open>
  The flag words of the wireless headers keep their flags apart: two flags or fields of one of the
  words listed in \<open>flag_words\<close> (38 groups, among them receive status, channel, key, wiphy, radiotap and
  HE capability bits) have no bit in common and fit in the structure member the word is stored in, so
  setting one never changes another.
\<close>

theorem flag_words_independent:
  assumes "(w, g) \<in> set flag_words" and "(n, f) \<in> set g" and "(m, f') \<in> set g" and "n \<noteq> m"
  shows "field_mask f AND field_mask f' = 0 \<and> uint (field_mask f) < 2 ^ member_bits w"
proof -
  have g: "fits (member_bits w) g" "member_bits w \<le> 64" "overlaps g = []"
    using flag_words_apart assms(1) by (auto simp: list_all_iff)
  have f: "snd f \<le> fst f" "fst f < member_bits w" "snd f' \<le> fst f'" "fst f' < member_bits w"
    using g(1) assms(2,3) by (auto simp: fits_def list_all_iff)
  have "fst f < snd f' \<or> fst f' < snd f" using overlaps_none [OF g(3) assms(2-4)] .
  then have "field_mask f AND field_mask f' = 0" using f g(2) by (intro masks_disjoint) auto
  moreover have "uint (field_mask f) < 2 ^ member_bits w"
    using GENMASK_bound [of "fst f" "snd f" "member_bits w"] f g(2) by (simp add: field_mask_def)
  ultimately show ?thesis by simp
qed

lemma flag_words_independent_witness:
  "field_mask (5, 4) AND field_mask (3, 3) = 0 \<and> uint (field_mask (5, 4)) < 2 ^ member_bits (struct_ieee80211_rx_status, [''enc_flags''])"
proof (rule flag_words_independent)
  show "((struct_ieee80211_rx_status, [''enc_flags'']), rx_enc_flags) \<in> set flag_words" by (simp add: flag_words_def)
  show "(''RX_ENC_FLAG_STBC_MASK'', 5, 4) \<in> set rx_enc_flags" by (simp add: rx_enc_flags_def)
  show "(''RX_ENC_FLAG_SHORT_GI'', 3, 3) \<in> set rx_enc_flags" by (simp add: rx_enc_flags_def)
  show "''RX_ENC_FLAG_STBC_MASK'' \<noteq> ''RX_ENC_FLAG_SHORT_GI''" by simp
qed

section \<open>The words that do not\<close>

text \<open>
  In the remaining words flags with different meanings share bits, exactly the listed pairs: the
  transmit status bits of \<^verbatim>\<open>info->flags\<close> are the control bits of the same member (an aggregated or
  rate-probing frame reads as transmitted without acknowledgement or as acknowledged), and the HT, VHT,
  HE and radiotap words have capability bits inside masks of other fields.
\<close>

theorem flag_collisions:
  "overlaps tx_info_flags =
     [(''IEEE80211_TX_CTL_AMPDU'', ''IEEE80211_TX_STAT_NOACK_TRANSMITTED''),
      (''IEEE80211_TX_CTL_RATE_CTRL_PROBE'', ''IEEE80211_TX_STAT_ACK''),
      (''IEEE80211_TX_CTL_HW_80211_ENCAP'', ''IEEE80211_TX_STATUS_EOSP''),
      (''IEEE80211_TX_CTL_TX_OFFCHAN'', ''IEEE80211_TX_STAT_AMPDU'')]
   \<and> overlaps ht_cap_bits = [(''IEEE80211_HT_CAP_RX_STBC_SHIFT'', ''IEEE80211_HT_CAP_GRN_FLD'')]
   \<and> overlaps vht_cap_bits =
     [(''IEEE80211_VHT_CAP_MAX_MPDU_LENGTH_11454'', ''IEEE80211_VHT_CAP_MAX_MPDU_MASK''),
      (''IEEE80211_VHT_CAP_MAX_MPDU_MASK'', ''IEEE80211_VHT_CAP_SHORT_GI_80''),
      (''IEEE80211_VHT_CAP_RXSTBC_1'', ''IEEE80211_VHT_CAP_RXSTBC_MASK''),
      (''IEEE80211_VHT_CAP_MAX_A_MPDU_LENGTH_EXPONENT_MASK'', ''IEEE80211_VHT_CAP_SUPP_CHAN_WIDTH_160MHZ''),
      (''IEEE80211_VHT_CAP_MU_BEAMFORMER_CAPABLE'', ''IEEE80211_VHT_CAP_BEAMFORMEE_STS_SHIFT''),
      (''IEEE80211_VHT_CAP_SOUNDING_DIMENSIONS_MASK'', ''IEEE80211_VHT_CAP_SHORT_GI_160'')]
   \<and> overlaps radiotap_he_data1_bits =
     [(''IEEE80211_RADIOTAP_HE_DATA1_BW_RU_ALLOC_KNOWN'', ''IEEE80211_RADIOTAP_HE_DATA1_SPTL_REUSE3_KNOWN''),
      (''IEEE80211_RADIOTAP_HE_DATA1_DATA_MCS_KNOWN'', ''IEEE80211_RADIOTAP_HE_DATA1_SPTL_REUSE4_KNOWN'')]
   \<and> length (overlaps he_phy_cap0_bits) = 9 \<and> length (overlaps radiotap_he_mu_flags1_bits) = 5
   \<and> length (overlaps radiotap_he_mu_flags2_bits) = 2"
  by (intro conjI; code_simp)

section \<open>Enumerations\<close>

text \<open>Names and values of a table are distinct; hardware flags fit in the word \<^verbatim>\<open>ieee80211_hw_set\<close> sets
  them in, interface types in the masks that hold one bit per type.\<close>

lemma value_tables_distinct:
  "list_all (\<lambda>g. distinct (map fst g) \<and> distinct (map snd g)) value_tables"
  by code_simp

lemma indexes_fit:
  "list_all (\<lambda>(n, v). v < member_bits (struct_ieee80211_hw, [''flags''])) hw_flag_numbers
   \<and> list_all (\<lambda>(n, v). v < member_bits (struct_ieee80211_sband_iftype_data, [''types_mask''])) enum_nl80211_iftype
   \<and> list_all (\<lambda>(n, v). v < member_bits (struct_ieee80211_iface_limit, [''types''])) enum_nl80211_iftype"
  by code_simp

end
