(* ===== verification/LC_Mac_Api.thy ===== *)
theory LC_Mac_Api
  imports LC_Flags LC_Mac_Reg LC_Queue LC_List
begin

text \<open>
  The inline functions of \<^verbatim>\<open>mac80211.h\<close> and \<^verbatim>\<open>cfg80211.h\<close> that drivers call on the shared
  structures: hardware flags, transmit rates and status, channel definitions, link and capability
  lookups, transmit queues.  Functions that answer a constant are collected at the end of the model.
\<close>

section \<open>Hardware\<close>

text \<open>\<^verbatim>\<open>hw->flags\<close> has 32 bits; \<^verbatim>\<open>BIT\<close> is an unsigned long.\<close>

definition ieee80211_hw_set :: "u32 option \<Rightarrow> nat \<Rightarrow> u32 option" where
  "ieee80211_hw_set flags flag = map_option (\<lambda>f. f OR ucast (push_bit flag (1 :: u64))) flags"

definition ieee80211_hw_check :: "u32 option \<Rightarrow> nat \<Rightarrow> bool" where
  "ieee80211_hw_check flags flag =
     (case flags of None \<Rightarrow> False | Some f \<Rightarrow> (ucast f :: u64) AND push_bit flag 1 \<noteq> 0)"

definition SET_IEEE80211_PERM_ADDR :: "hw option \<Rightarrow> mac option \<Rightarrow> hw option" where
  "SET_IEEE80211_PERM_ADDR hw addr =
     (case (hw, addr) of (Some h, Some a) \<Rightarrow> Some (h\<lparr>hw_perm_addr := a\<rparr>) | _ \<Rightarrow> hw)"

text \<open>The name of a wiphy; the argument is the name of its device, if there is a wiphy and a name.\<close>

definition wiphy_name :: "string option option \<Rightarrow> string" where
  "wiphy_name wiphy = (case wiphy of Some (Some n) \<Rightarrow> n | _ \<Rightarrow> ''wiphy'')"

section \<open>Transmit rates and status\<close>

record tx_rate =
  tr_idx :: u8
  tr_count :: u8
  tr_flags :: u16

text \<open>The index is signed: it is promoted to a signed \<^verbatim>\<open>int\<close> before the shift.\<close>

definition ieee80211_rate_get_vht_mcs :: "tx_rate option \<Rightarrow> int" where
  "ieee80211_rate_get_vht_mcs r = (case r of None \<Rightarrow> 0 | Some r \<Rightarrow> sint (tr_idx r) AND 0xf)"

definition ieee80211_rate_get_vht_nss :: "tx_rate option \<Rightarrow> int" where
  "ieee80211_rate_get_vht_nss r = (case r of None \<Rightarrow> 0 | Some r \<Rightarrow> drop_bit 4 (sint (tr_idx r)) AND 0xf)"

definition ieee80211_rate_set_vht :: "int \<Rightarrow> int \<Rightarrow> tx_rate option \<Rightarrow> tx_rate option" where
  "ieee80211_rate_set_vht mcs nss r =
     map_option (\<lambda>r. r\<lparr>tr_idx := word_of_int (push_bit 4 (nss AND 0xf) OR (mcs AND 0xf)),
                       tr_flags := tr_flags r OR push_bit 8 1\<rparr>) r"

definition ieee80211_get_tx_rates :: "tx_rate list option \<Rightarrow> int \<Rightarrow> tx_rate list option" where
  "ieee80211_get_tx_rates rates max_rates =
     (case rates of
        None \<Rightarrow> None
      | Some rs \<Rightarrow>
          Some (if max_rates \<le> 0 then rs else rs[0 := \<lparr>tr_idx = - 1, tr_count = 1, tr_flags = 0\<rparr>]))"

definition cfg80211_calculate_bitrate :: "u16 option \<Rightarrow> int" where
  "cfg80211_calculate_bitrate legacy =
     (case legacy of None \<Rightarrow> 0 | Some l \<Rightarrow> if l \<noteq> 0 then uint l else 0)"

text \<open>The transmit information is read and written in memory, at the offsets of its members.\<close>

definition tx_info_off :: "cstep list \<Rightarrow> nat" where
  "tx_info_off ps = the (offset_of no_ext struct_ieee80211_tx_info ps)"

definition status_rates :: "cstep list \<Rightarrow> cstep list" where
  "status_rates ps = [Fld ''anon0'', Fld ''status'', Fld ''rates''] @ ps"

definition ieee80211_tx_info_clear_status :: "addr \<Rightarrow> (addr \<Rightarrow> u8) \<Rightarrow> (addr \<Rightarrow> u8)" where
  "ieee80211_tx_info_clear_status info m =
     (if info = 0 then m
      else let rates = load_bytes m (info + tx_info_off (status_rates [])) (ct_size no_ext (CArr 4 struct_ieee80211_tx_rate));
               m = store_bytes m info (replicate (ct_size no_ext struct_ieee80211_tx_info) 0);
               m = store_bytes m (info + tx_info_off (status_rates [])) rates
           in fold (\<lambda>i m. m(info + tx_info_off (status_rates [Idx i, Fld ''count'']) := 0)) [0..<4] m)"

definition ieee80211_calc_rx_airtime :: "int \<Rightarrow> int" where
  "ieee80211_calc_rx_airtime len = len"

definition ieee80211_calc_tx_airtime :: "int \<Rightarrow> u32" where
  "ieee80211_calc_tx_airtime len = (if len > 0 then word_of_int len else 0)"

text \<open>The address of the QoS control field of a frame whose header is at \<open>hdr\<close>.\<close>

definition ieee80211_get_qos_ctl :: "addr \<Rightarrow> u16 \<Rightarrow> addr" where
  "ieee80211_get_qos_ctl hdr fc = (if hdr = 0 then 0 else hdr + unat (ieee80211_hdrlen fc) - 2)"

definition ieee80211_is_pspoll :: "u16 \<Rightarrow> bool" where
  "ieee80211_is_pspoll fc = is_ctl fc"

definition ieee80211_get_hdrlen_from_skb :: "addr \<Rightarrow> int" where
  "ieee80211_get_hdrlen_from_skb skb = 24"

section \<open>Channel definitions and SSIDs\<close>

definition cfg80211_chandef_create :: "chan_def option \<Rightarrow> chan_ref option \<Rightarrow> u32 \<Rightarrow> chan_def option" where
  "cfg80211_chandef_create chandef chan width =
     map_option (\<lambda>_. \<lparr>cd_chan = chan, cd_width = width, cd_center_freq1 = 0, cd_center_freq2 = 0\<rparr>) chandef"

definition cfg80211_chandef_valid :: "chan_def option \<Rightarrow> bool" where
  "cfg80211_chandef_valid chandef = (case chandef of None \<Rightarrow> False | Some d \<Rightarrow> cd_chan d \<noteq> None)"

definition cfg80211_chandef_identical :: "chan_def option \<Rightarrow> chan_def option \<Rightarrow> bool" where
  "cfg80211_chandef_identical a b =
     (case (a, b) of
        (Some a, Some b) \<Rightarrow>
          cd_chan a = cd_chan b \<and> cd_width a = cd_width b \<and>
          cd_center_freq1 a = cd_center_freq1 b \<and> cd_center_freq2 a = cd_center_freq2 b
      | _ \<Rightarrow> False)"

text \<open>\<open>flags_of\<close> reads the flags of a channel.\<close>

definition cfg80211_chandef_usable :: "(chan_ref \<Rightarrow> u32) \<Rightarrow> chan_def option \<Rightarrow> u32 \<Rightarrow> bool" where
  "cfg80211_chandef_usable flags_of chandef prohibited_flags =
     (cfg80211_chandef_valid chandef \<and> flags_of (the (cd_chan (the chandef))) AND prohibited_flags = 0)"

text \<open>The two structures are in memory: 32 bytes of name, then the length.\<close>

definition ssid_len_at :: "addr \<Rightarrow> (addr \<Rightarrow> u8) \<Rightarrow> u8" where
  "ssid_len_at a m = m (a + the (offset_of no_ext struct_cfg80211_ssid [Fld ''ssid_len'']))"

definition cfg80211_ssid_eq :: "addr \<Rightarrow> addr \<Rightarrow> (addr \<Rightarrow> u8) \<Rightarrow> bool" where
  "cfg80211_ssid_eq a b m =
     (if a = 0 \<or> b = 0 then False
      else if ssid_len_at a m \<noteq> ssid_len_at b m then False
      else load_bytes m a (unat (ssid_len_at a m)) = load_bytes m b (unat (ssid_len_at a m)))"

section \<open>Links and capabilities\<close>

definition ieee80211_vif_is_mld :: "u16 option \<Rightarrow> bool" where
  "ieee80211_vif_is_mld valid_links = (case valid_links of None \<Rightarrow> False | Some v \<Rightarrow> v \<noteq> 0)"

definition ieee80211_vif_usable_links :: "u16 option \<Rightarrow> u64" where
  "ieee80211_vif_usable_links valid_links =
     (case valid_links of None \<Rightarrow> 1 | Some v \<Rightarrow> if v \<noteq> 0 then ucast v else 1)"

text \<open>An interface with its own configuration and sixteen pointers to those of its links.\<close>

definition link_conf_dereference_protected :: "('b \<times> 'b option list) option \<Rightarrow> u8 \<Rightarrow> 'b option" where
  "link_conf_dereference_protected vif link_id =
     (case vif of
        None \<Rightarrow> None
      | Some (bss_conf, link_conf) \<Rightarrow>
          if unat link_id < 16 \<and> link_conf ! unat link_id \<noteq> None then link_conf ! unat link_id
          else Some bss_conf)"

definition link_sta_dereference_protected :: "'l option \<Rightarrow> u8 \<Rightarrow> 'l option" where
  "link_sta_dereference_protected deflink link_id = deflink"

record ('h, 'e) iftype_data =
  if_types_mask :: u32
  if_he_cap :: 'h
  if_eht_cap :: 'e

record ('h, 'e) sband =
  sb_he_cap :: 'h
  sb_eht_cap :: 'e
  sb_iftype_data :: "('h, 'e) iftype_data list"
  sb_n_iftype_data :: int

text \<open>The loop over the first \<^verbatim>\<open>n_iftype_data\<close> entries; \<open>iftype\<close> numbers the bit of the type.\<close>

definition iftype_entry :: "('h, 'e) sband \<Rightarrow> nat \<Rightarrow> ('h, 'e) iftype_data option" where
  "iftype_entry sband iftype =
     find (\<lambda>d. (ucast (if_types_mask d) :: u64) AND push_bit iftype 1 \<noteq> 0) (take (nat (sb_n_iftype_data sband)) (sb_iftype_data sband))"

definition ieee80211_get_he_iftype_cap :: "('h, 'e) sband option \<Rightarrow> nat \<Rightarrow> 'h option" where
  "ieee80211_get_he_iftype_cap sband iftype =
     (case sband of
        None \<Rightarrow> None
      | Some s \<Rightarrow> (case iftype_entry s iftype of Some d \<Rightarrow> Some (if_he_cap d) | None \<Rightarrow> Some (sb_he_cap s)))"

definition ieee80211_get_eht_iftype_cap :: "('h, 'e) sband option \<Rightarrow> nat \<Rightarrow> 'e option" where
  "ieee80211_get_eht_iftype_cap sband iftype =
     (case sband of
        None \<Rightarrow> None
      | Some s \<Rightarrow> (case iftype_entry s iftype of Some d \<Rightarrow> Some (if_eht_cap d) | None \<Rightarrow> Some (sb_eht_cap s)))"

text \<open>The empty list also stands for a null table, which comes with n = 0.\<close>

definition set_sband_iftype_data :: "('h, 'e) iftype_data list \<Rightarrow> int \<Rightarrow> ('h, 'e) sband option \<Rightarrow> ('h, 'e) sband option" where
  "set_sband_iftype_data data n sband =
     map_option (\<lambda>s.
       let s = s\<lparr>sb_iftype_data := data, sb_n_iftype_data := n\<rparr>
       in if data \<noteq> [] \<and> n > 0 then s\<lparr>sb_he_cap := if_he_cap (data ! 0), sb_eht_cap := if_eht_cap (data ! 0)\<rparr> else s) sband"

section \<open>Queues\<close>

definition ieee80211_tx_dequeue :: "links \<times> sk_buff_head option \<Rightarrow> nat option \<times> links \<times> sk_buff_head option" where
  "ieee80211_tx_dequeue txq = (if snd txq = None then (None, txq) else skb_dequeue txq)"

definition ieee80211_txq_get_depth :: "sk_buff_head option \<Rightarrow> u64 option \<Rightarrow> u64 option \<Rightarrow> u64 option \<times> u64 option" where
  "ieee80211_txq_get_depth txq frame_cnt byte_cnt =
     (map_option (\<lambda>_. if txq \<noteq> None then ucast (skb_queue_len txq) else 0) frame_cnt, map_option (\<lambda>_. 0) byte_cnt)"

definition ieee80211_rx_list :: "nat option \<Rightarrow> nat option \<Rightarrow> dlinks \<Rightarrow> dlinks" where
  "ieee80211_rx_list skb lst s = (case (skb, lst) of (Some k, Some l) \<Rightarrow> list_add_tail k l s | _ \<Rightarrow> s)"

section \<open>Interfaces and stations\<close>

text \<open>The two iterators that share the atomic one, and the lookups exported to drivers.\<close>

definition ieee80211_iterate_interfaces :: "mst \<Rightarrow> vif list" where
  "ieee80211_iterate_interfaces s = iterate_active_interfaces s"

definition ieee80211_find_sta :: "mac option \<Rightarrow> mst \<Rightarrow> sta option" where
  "ieee80211_find_sta addr s = find_sta addr s"

definition ieee80211_find_sta_by_ifaddr :: "mac option \<Rightarrow> mac option \<Rightarrow> mst \<Rightarrow> sta option" where
  "ieee80211_find_sta_by_ifaddr addr localaddr s = find_sta_by_ifaddr addr localaddr s"

definition ieee80211_vif_type_p2p :: "vif option \<Rightarrow> u32" where
  "ieee80211_vif_type_p2p v = (case v of None \<Rightarrow> 0 | Some v \<Rightarrow> vif_type v)"

definition ieee80211_csa_finish :: "bool option \<Rightarrow> bool option" where
  "ieee80211_csa_finish csa_active = map_option (\<lambda>_. False) csa_active"

definition ieee80211_chswitch_done :: "bool option \<Rightarrow> bool \<Rightarrow> bool option" where
  "ieee80211_chswitch_done csa_active success = map_option (\<lambda>_. False) csa_active"

section \<open>What is not implemented\<close>

text \<open>The answers of the functions that ignore their arguments.\<close>

definition ieee80211_restart_hw :: int where "ieee80211_restart_hw = 0"
definition ieee80211_start_tx_ba_session :: int where "ieee80211_start_tx_ba_session = 0"
definition ieee80211_get_buffered_bc :: "skb option" where "ieee80211_get_buffered_bc = None"
definition ieee80211_next_txq :: "nat option" where "ieee80211_next_txq = None"
definition ieee80211_is_robust_mgmt_frame :: bool where "ieee80211_is_robust_mgmt_frame = False"
definition ieee80211_is_bufferable_mmpdu :: bool where "ieee80211_is_bufferable_mmpdu = True"
definition ieee80211_beacon_cntdwn_is_complete :: bool where "ieee80211_beacon_cntdwn_is_complete = True"
definition ieee80211_emulate_add_chanctx :: int where "ieee80211_emulate_add_chanctx = 0"
definition ieee80211_emulate_switch_vif_chanctx :: int where "ieee80211_emulate_switch_vif_chanctx = 0"
definition regulatory_hint :: int where "regulatory_hint = 0"
definition cfg80211_reg_can_beacon :: bool where "cfg80211_reg_can_beacon = True"

text \<open>The station a caller passes the address of is reset; the sequence counter of a key is zeroed.\<close>

definition ieee80211_tx_prepare_skb :: "nat option option \<Rightarrow> bool \<times> nat option option" where
  "ieee80211_tx_prepare_skb sta = (True, map_option (\<lambda>_. None) sta)"

definition ieee80211_get_key_rx_seq :: "addr \<Rightarrow> (addr \<Rightarrow> u8) \<Rightarrow> int \<times> (addr \<Rightarrow> u8)" where
  "ieee80211_get_key_rx_seq seq m =
     (0, if seq = 0 then m else store_bytes m seq (replicate (ct_size no_ext struct_ieee80211_key_seq) 0))"

section \<open>Facts\<close>

lemma ucast_bit32: "flag < 32 \<Longrightarrow> bit (ucast (push_bit flag (1 :: u64)) :: u32) i = (i = flag)"
  by (auto simp: bit_simps)

lemma and_push_bit: "((w :: 'a :: len word) AND push_bit n 1 \<noteq> 0) = bit w n"
proof
  assume "w AND push_bit n 1 \<noteq> 0"
  then obtain i where "bit (w AND push_bit n 1) i" by (metis bit_eqI bit_0_eq bot_apply bot_bool_def)
  then show "bit w n" by (auto simp: bit_simps)
next
  assume "bit w n"
  then have "bit (w AND push_bit n 1) n" using bit_imp_le_length by (auto simp: bit_simps)
  then show "w AND push_bit n 1 \<noteq> 0" by auto
qed

lemma hw_check_bit: "ieee80211_hw_check (Some f) flag = bit f flag"
  using bit_imp_le_length [of f flag]
  by (auto simp: ieee80211_hw_check_def and_push_bit bit_unsigned_iff simp del: push_bit_of_1)

text \<open>Setting one hardware flag sets exactly that flag.\<close>

lemma hw_set_check:
  "a < 32 \<Longrightarrow> ieee80211_hw_check (ieee80211_hw_set (Some f) a) b = (ieee80211_hw_check (Some f) b \<or> b = a)"
  by (auto simp: ieee80211_hw_set_def hw_check_bit bit_or_iff ucast_bit32 simp del: push_bit_of_1)

text \<open>
  A VHT rate reads back as it was set: for every index and number of streams below 16, also those that
  make the signed rate index negative, and without changing the retry count.
\<close>

theorem rate_vht_roundtrip:
  assumes "0 \<le> mcs" and "mcs < 16" and "0 \<le> nss" and "nss < 16"
  shows "ieee80211_rate_get_vht_mcs (ieee80211_rate_set_vht mcs nss (Some r)) = mcs
   \<and> ieee80211_rate_get_vht_nss (ieee80211_rate_set_vht mcs nss (Some r)) = nss
   \<and> tr_count (the (ieee80211_rate_set_vht mcs nss (Some r))) = tr_count r
   \<and> bit (tr_flags (the (ieee80211_rate_set_vht mcs nss (Some r)))) 8"
proof -
  have f: "(0xf :: int) = mask 4" by (simp add: mask_numeral)
  have m: "x AND 0xf = x" if "0 \<le> x" "x < 16" for x :: int
    using that take_bit_int_eq_self [of x 4] by (simp add: take_bit_eq_mask mask_numeral)
  define v where "v = push_bit 4 (nss AND 0xf) OR (mcs AND 0xf)"
  have "signed_take_bit 7 v AND 0xf = mcs AND 0xf"
    unfolding v_def f by (rule bit_eqI) (auto simp: bit_simps simp del: mask_numeral)
  then have 1: "signed_take_bit 7 v AND 0xf = mcs" using m assms by simp
  have "drop_bit 4 (signed_take_bit 7 v) AND 0xf = nss AND 0xf"
    unfolding v_def f by (rule bit_eqI) (auto simp: bit_simps simp del: mask_numeral)
  then have 2: "drop_bit 4 (signed_take_bit 7 v) AND 0xf = nss" using m assms by simp
  have 3: "sint (word_of_int v :: u8) = signed_take_bit 7 v" unfolding sint_sbintrunc' by simp
  have set: "ieee80211_rate_set_vht mcs nss (Some r) = Some (r\<lparr>tr_idx := word_of_int v, tr_flags := tr_flags r OR push_bit 8 1\<rparr>)"
    by (simp add: ieee80211_rate_set_vht_def v_def)
  have 4: "bit (tr_flags r OR push_bit 8 1) 8" unfolding bit_or_iff by simp
  show ?thesis unfolding set using 1 2 4
    by (simp add: ieee80211_rate_get_vht_mcs_def ieee80211_rate_get_vht_nss_def 3)
qed

lemma rate_vht_roundtrip_witness:
  "ieee80211_rate_get_vht_nss (ieee80211_rate_set_vht 9 8 (Some \<lparr>tr_idx = 0, tr_count = 3, tr_flags = 1\<rparr>)) = 8"
  using rate_vht_roundtrip [of 9 8 "\<lparr>tr_idx = 0, tr_count = 3, tr_flags = 1\<rparr>"] by simp

lemma clear_status_offsets:
  "tx_info_off (status_rates []) = 8" "ct_size no_ext (CArr 4 struct_ieee80211_tx_rate) = 16"
  "ct_size no_ext struct_ieee80211_tx_info = 56"
  "tx_info_off (status_rates [Idx 0, Fld ''count'']) = 9" "tx_info_off (status_rates [Idx 1, Fld ''count'']) = 13"
  "tx_info_off (status_rates [Idx 2, Fld ''count'']) = 17" "tx_info_off (status_rates [Idx 3, Fld ''count'']) = 21"
  by code_simp+

text \<open>
  \<^verbatim>\<open>ieee80211_tx_info_clear_status\<close> byte by byte: outside the 56 bytes of the transmit information
  nothing changes; of the four rates the index and the flags stay and the count is cleared; every other
  byte, the flag word, the band and the pointers included, becomes zero.
\<close>

theorem clear_status_bytes:
  assumes "info \<noteq> 0"
  shows "ieee80211_tx_info_clear_status info m x =
     (if x < info \<or> info + 56 \<le> x then m x
      else if info + 8 \<le> x \<and> x < info + 24 \<and> (x - (info + 8)) mod 4 \<noteq> 1 then m x else 0)"
proof -
  have four: "[0..<4] = [0, 1, 2, 3 :: nat]" by (simp add: upt_rec)
  have counts: "x = info + 9 \<or> x = info + 13 \<or> x = info + 17 \<or> x = info + 21 \<longleftrightarrow>
     info + 8 \<le> x \<and> x < info + 24 \<and> (x - (info + 8)) mod 4 = 1"
  proof (cases "info + 8 \<le> x")
    case True
    then obtain d where x: "x = info + 8 + d" using le_Suc_ex by blast
    have "d = 1 \<or> d = 5 \<or> d = 9 \<or> d = 13 \<longleftrightarrow> d < 16 \<and> d mod 4 = 1" by presburger
    then show ?thesis unfolding x by simp
  qed auto
  define m1 where "m1 = store_bytes m info (replicate 56 0)"
  have z: "m1 x = (if x < info \<or> info + 56 \<le> x then m x else 0)"
    unfolding m1_def by (auto simp: store_bytes_def)
  let ?m2 = "store_bytes m1 (info + 8) (load_bytes m (info + 8) 16)"
  have r: "?m2 x = (if info + 8 \<le> x \<and> x < info + 24 then m x else m1 x)"
  proof (cases "info + 8 \<le> x \<and> x < info + 24")
    case True
    then have "load_bytes m (info + 8) 16 ! (x - (info + 8)) = m (info + 8 + (x - (info + 8)))"
      by (intro nth_load_bytes) linarith
    also have "info + 8 + (x - (info + 8)) = x" using True by (intro le_add_diff_inverse) simp
    finally have "load_bytes m (info + 8) 16 ! (x - (info + 8)) = m x" .
    then show ?thesis using True by (simp add: store_bytes_def)
  next
    case False
    then show ?thesis using store_bytes_other [of x "info + 8" "load_bytes m (info + 8) 16" m1] by auto
  qed
  have "ieee80211_tx_info_clear_status info m = ?m2(info + 9 := 0, info + 13 := 0, info + 17 := 0, info + 21 := 0)"
    unfolding ieee80211_tx_info_clear_status_def Let_def clear_status_offsets four m1_def
    by (simp only: assms if_False fold.simps o_def id_apply clear_status_offsets)
  then have "ieee80211_tx_info_clear_status info m x =
     (if x = info + 9 \<or> x = info + 13 \<or> x = info + 17 \<or> x = info + 21 then 0 else ?m2 x)"
    by (simp only: fun_upd_apply) simp
  then show ?thesis unfolding r z counts by auto
qed

lemma clear_status_bytes_witness:
  "ieee80211_tx_info_clear_status 1000 (\<lambda>_. 7) 1008 = 7 \<and> ieee80211_tx_info_clear_status 1000 (\<lambda>_. 7) 1009 = 0
   \<and> ieee80211_tx_info_clear_status 1000 (\<lambda>_. 7) 1000 = 0 \<and> ieee80211_tx_info_clear_status 1000 (\<lambda>_. 7) 1056 = 7"
  by (simp add: clear_status_bytes)

text \<open>The QoS control field is the last two bytes of the header, after the fourth address if there is one.\<close>

lemma qos_ctl_place:
  assumes "hdr \<noteq> 0" and "is_data_qos fc"
  shows "ieee80211_get_qos_ctl hdr fc = hdr + (if has_a4 fc then 30 else 24)
   \<and> ieee80211_get_qos_ctl hdr fc + 2 = hdr + unat (ieee80211_hdrlen fc)"
proof -
  have d: "\<not> is_ctl fc" "\<not> is_mgmt fc"
    using assms(2) by (auto simp: is_data_qos_def is_data_def is_ctl_def is_mgmt_def)
  show ?thesis using assms d by (simp add: ieee80211_get_qos_ctl_def ieee80211_hdrlen_def has_a4_def Let_def ETH_ALEN_def)
qed

text \<open>An interface type that no entry names gets the capabilities of the first entry.\<close>

lemma iftype_cap_after_set:
  assumes "data \<noteq> []"
  shows "ieee80211_get_he_iftype_cap (set_sband_iftype_data data (int (length data)) (Some s)) t
    = Some (if_he_cap (case find (\<lambda>d. bit (if_types_mask d) t) data of Some d \<Rightarrow> d | None \<Rightarrow> data ! 0))"
proof -
  have "((ucast w :: u64) AND push_bit t 1 \<noteq> 0) = bit w t" for w :: u32
    using bit_imp_le_length [of w t] by (auto simp: and_push_bit bit_unsigned_iff simp del: push_bit_of_1)
  then show ?thesis using assms
    by (simp del: push_bit_of_1 add: ieee80211_get_he_iftype_cap_def set_sband_iftype_data_def Let_def iftype_entry_def split: option.split)
qed

text \<open>The queues of a driver: received buffers are appended, the oldest one is sent first.\<close>

lemma rx_list_ring: "ring s l xs \<Longrightarrow> k \<notin> set (l # xs) \<Longrightarrow> ring (ieee80211_rx_list (Some k) (Some l) s) l (xs @ [k])"
  by (simp add: ieee80211_rx_list_def ring_add_tail)

lemma tx_dequeue_oldest:
  "skbq (nx, l) (x # xs) \<Longrightarrow> \<exists>nx' l'. ieee80211_tx_dequeue (nx, Some l) = (Some x, nx', Some l') \<and> skbq (nx', l') xs"
  using skbq_dequeue [of "(nx, l)" x xs]
  by (cases "dequeue_raw (nx, l)") (auto simp: ieee80211_tx_dequeue_def skb_dequeue_def)

lemma chandef_created:
  "cfg80211_chandef_identical (cfg80211_chandef_create d c w) (cfg80211_chandef_create d' c w) = (d \<noteq> None \<and> d' \<noteq> None)
   \<and> cfg80211_chandef_valid (cfg80211_chandef_create d c w) = (d \<noteq> None \<and> c \<noteq> None)"
  by (cases d; cases d') (simp_all add: cfg80211_chandef_create_def cfg80211_chandef_identical_def cfg80211_chandef_valid_def)
end
