(* ===== verification/LC_Wrap.thy ===== *)
theory LC_Wrap
  imports LC_Kernel LC_List LC_Ids LC_Usb_Data LC_Ieee
begin

text \<open>
  Iteration macros and thin wrappers over the components: walking lists by entry, tables by index
  (\<^verbatim>\<open>linux/list.h\<close>, \<^verbatim>\<open>linux/idr.h\<close>, \<^verbatim>\<open>linux/xarray.h\<close>), byte order (\<^verbatim>\<open>asm/byteorder.h\<close>),
  page frame numbers (\<^verbatim>\<open>linux/pfn.h\<close>), pipe macros (\<^verbatim>\<open>linux/usb.h\<close>), completions and times.
\<close>

section \<open>Lists by entry\<close>

text \<open>The entry that contains a node at offset \<open>off\<close>.\<close>

definition list_entry :: "nat \<Rightarrow> nat \<Rightarrow> nat" where
  "list_entry off n = n - off"

definition list_for_each_entry :: "nat \<Rightarrow> nat \<Rightarrow> dlinks \<Rightarrow> nat list option" where
  "list_for_each_entry off h s = map_option (map (list_entry off)) (list_for_each h s)"

text \<open>
  The safe iteration keeps the node after the current one, which the body may take off the list.
  \<open>body\<close> changes the links when it is given a node; the result is the nodes visited and the links.
\<close>

partial_function (option) safe_from ::
  "(nat \<Rightarrow> dlinks \<Rightarrow> dlinks) \<Rightarrow> nat \<Rightarrow> nat \<Rightarrow> nat \<Rightarrow> dlinks \<Rightarrow> (nat list \<times> dlinks) option" where
  "safe_from body h pos n s =
     (if pos = h then Some ([], s)
      else Option.bind (safe_from body h n (dl_next (body pos s) n) (body pos s)) (\<lambda>r. Some (pos # fst r, snd r)))"

definition list_for_each_entry_safe :: "(nat \<Rightarrow> dlinks \<Rightarrow> dlinks) \<Rightarrow> nat \<Rightarrow> dlinks \<Rightarrow> (nat list \<times> dlinks) option" where
  "list_for_each_entry_safe body h s = safe_from body h (dl_next s h) (dl_next s (dl_next s h)) s"

section \<open>Tables by index\<close>

text \<open>The occupied slots from \<open>i\<close> on, \<open>n\<close> of them looked at.\<close>

fun slots_from :: "(nat \<Rightarrow> addr) \<Rightarrow> nat \<Rightarrow> nat \<Rightarrow> (nat \<times> addr) list" where
  "slots_from f i 0 = []"
| "slots_from f i (Suc n) = (if f i \<noteq> 0 then (i, f i) # slots_from f (i + 1) n else slots_from f (i + 1) n)"

definition idr_for_each_entry :: "idr option \<Rightarrow> (nat \<times> addr) list" where
  "idr_for_each_entry d =
     (case d of
        None \<Rightarrow> []
      | Some d \<Rightarrow> slots_from (\<lambda>i. the (idr_slots d) ! i) 0 (nat (idr_size d)))"

definition xa_for_each :: "xarray option \<Rightarrow> (nat \<times> addr) list" where
  "xa_for_each x = (case x of None \<Rightarrow> [] | Some x \<Rightarrow> slots_from (xa_slots x) 0 (unat (xa_capacity x)))"

section \<open>Byte order\<close>

text \<open>The host is little-endian: the little-endian conversions copy, the big-endian ones reverse the bytes.\<close>

definition cpu_to_le :: "'a :: len word \<Rightarrow> 'a word" where "cpu_to_le v = v"
definition le_to_cpu :: "'a :: len word \<Rightarrow> 'a word" where "le_to_cpu v = v"

definition le16_add_cpu :: "u16 option \<Rightarrow> u16 \<Rightarrow> u16 option" where
  "le16_add_cpu p v = map_option (\<lambda>x. cpu_to_le (le_to_cpu x + v)) p"

definition cpu_to_be32 :: "u32 \<Rightarrow> u32" where
  "cpu_to_be32 v = push_bit 24 v OR (push_bit 8 v AND 0xff0000) OR (drop_bit 8 v AND 0xff00) OR drop_bit 24 v"

definition be32_to_cpu :: "u32 \<Rightarrow> u32" where
  "be32_to_cpu v = cpu_to_be32 v"

definition be16_to_cpu :: "u16 \<Rightarrow> u16" where
  "be16_to_cpu v = push_bit 8 v OR drop_bit 8 v"

definition u8p_replace_bits :: "u8 option \<Rightarrow> u8 \<Rightarrow> u8 \<Rightarrow> u8 option" where
  "u8p_replace_bits p val msk = map_option (\<lambda>r. replace_bits r val msk) p"

definition le32p_replace_bits :: "u32 option \<Rightarrow> u32 \<Rightarrow> u32 \<Rightarrow> u32 option" where
  "le32p_replace_bits p val msk = map_option (\<lambda>r. cpu_to_le (replace_bits (le_to_cpu r) val msk)) p"

section \<open>Page frames\<close>

definition PFN_UP :: "u64 \<Rightarrow> u64" where "PFN_UP x = drop_bit 12 (x + (push_bit 12 1 - 1))"
definition PFN_DOWN :: "u64 \<Rightarrow> u64" where "PFN_DOWN x = drop_bit 12 x"
definition PFN_PHYS :: "u64 \<Rightarrow> u64" where "PFN_PHYS x = push_bit 12 x"
definition PHYS_PFN :: "u64 \<Rightarrow> u64" where "PHYS_PFN x = drop_bit 12 x"

section \<open>Pipes\<close>

definition usb_sndctrlpipe :: "u32 \<Rightarrow> u32" where "usb_sndctrlpipe ep = usb_pipe ep False PIPE_TYPE_CTRL"
definition usb_rcvctrlpipe :: "u32 \<Rightarrow> u32" where "usb_rcvctrlpipe ep = usb_pipe ep True PIPE_TYPE_CTRL"
definition usb_sndbulkpipe :: "u32 \<Rightarrow> u32" where "usb_sndbulkpipe ep = usb_pipe ep False PIPE_TYPE_BULK"
definition usb_rcvbulkpipe :: "u32 \<Rightarrow> u32" where "usb_rcvbulkpipe ep = usb_pipe ep True PIPE_TYPE_BULK"
definition usb_rcvintpipe :: "u32 \<Rightarrow> u32" where "usb_rcvintpipe ep = usb_pipe ep True PIPE_TYPE_INT"

section \<open>Completions and times\<close>

definition reinit_completion :: "completion option \<Rightarrow> completion option" where
  "reinit_completion x = init_completion x"

definition complete_all :: "completion option \<Rightarrow> completion option" where
  "complete_all x = complete x"

text \<open>\<open>dn n\<close> is the counter at test number \<open>n\<close>; the result is the number of the test that ends the wait.\<close>

definition wait_for_completion :: "bool \<Rightarrow> (nat \<Rightarrow> u32) \<Rightarrow> nat option" where
  "wait_for_completion is_null dn = (if is_null then Some 0 else wait_event (\<lambda>n. dn n \<noteq> 0) 0)"

definition hrtimer_init :: "hrtimer option \<Rightarrow> hrtimer option" where
  "hrtimer_init t = map_option (\<lambda>_. \<lparr>hr_function = None, hr_expires = 0\<rparr>) t"

definition ktime_before :: "u64 \<Rightarrow> u64 \<Rightarrow> bool" where
  "ktime_before a b = (sint a < sint b)"

text \<open>A difference that overflows is undefined in C; here it wraps.\<close>

definition ktime_us_delta :: "u64 \<Rightarrow> u64 \<Rightarrow> int" where
  "ktime_us_delta later earlier = c_div (sint (later - earlier)) 1000"

definition time_after32 :: "u32 \<Rightarrow> u32 \<Rightarrow> bool" where
  "time_after32 a b = (sint (b - a) < 0)"

definition time_before32 :: "u32 \<Rightarrow> u32 \<Rightarrow> bool" where
  "time_before32 a b = time_after32 b a"

section \<open>Facts\<close>

lemma ring_step: "ring s h (x # xs) \<Longrightarrow> x \<noteq> h \<and> dl_next s h = x \<and> dl_next s x = (case xs of [] \<Rightarrow> h | y # _ \<Rightarrow> y)"
  by (cases xs) (auto simp: ring_def)

lemma ring_first: "ring s h xs \<Longrightarrow> dl_next s h = (case xs of [] \<Rightarrow> h | y # _ \<Rightarrow> y)"
  by (cases xs) (auto simp: ring_def)

text \<open>
  Safe iteration may take every entry off its list: with \<^verbatim>\<open>list_del_init\<close> as the body it visits exactly the
  entries of the list, in order, ends, and leaves the list an empty ring.
\<close>

theorem safe_iteration_drains:
  assumes "ring s h xs"
  shows "\<exists>t. list_for_each_entry_safe list_del_init h s = Some (xs, t) \<and> ring t h []"
  using assms
proof (induction xs arbitrary: s)
  case Nil
  then have "dl_next s h = h" using ring_first by fastforce
  then show ?case using Nil safe_from.simps [of list_del_init h h "dl_next s (dl_next s h)" s]
    by (simp add: list_for_each_entry_safe_def)
next
  case (Cons x xs)
  let ?s = "list_del_init x s"
  have r: "ring ?s h xs" using ring_del_init [OF Cons.prems, of x] by simp
  have st: "x \<noteq> h" "dl_next s h = x" "dl_next s x = dl_next ?s h"
    using ring_step [OF Cons.prems] ring_first [OF r] by auto
  obtain t where t: "list_for_each_entry_safe list_del_init h ?s = Some (xs, t)" "ring t h []"
    using Cons.IH [OF r] by blast
  have "safe_from list_del_init h x (dl_next ?s h) s =
    Option.bind (safe_from list_del_init h (dl_next ?s h) (dl_next ?s (dl_next ?s h)) ?s) (\<lambda>r. Some (x # fst r, snd r))"
    using safe_from.simps [of list_del_init h x "dl_next ?s h" s] st(1) by simp
  then show ?case using t st by (simp add: list_for_each_entry_safe_def)
qed

text \<open>Iterating over a table finds the indices that are in use, in ascending order, with what is stored there.\<close>

lemma slots_from_set: "set (slots_from f i n) = {(k, p). i \<le> k \<and> k < i + n \<and> p = f k \<and> p \<noteq> 0}"
proof (induction n arbitrary: i)
  case (Suc n)
  then show ?case using Suc [of "i + 1"] by (auto simp: Suc_le_eq order.strict_iff_order [of i])
qed simp

lemma slots_from_sorted: "sorted_wrt (<) (map fst (slots_from f i n))"
  by (induction f i n rule: slots_from.induct) (auto simp: slots_from_set)

lemma idr_for_each_found:
  assumes "idr_slots d \<noteq> None" and "0 \<le> idr_size d"
  shows "set (idr_for_each_entry (Some d)) = {(i, p). p \<noteq> 0 \<and> idr_find (Some d) (int i) = p}
    \<and> sorted_wrt (<) (map fst (idr_for_each_entry (Some d)))"
  using assms by (auto simp: idr_for_each_entry_def slots_from_set slots_from_sorted idr_find_def split: if_splits)

text \<open>The conversions to and from big-endian undo each other.\<close>

lemma be32_involution: "be32_to_cpu (cpu_to_be32 v) = v"
proof -
  have m1: "(0xff0000 :: u32) = push_bit 16 (mask 8)" and m2: "(0xff00 :: u32) = push_bit 8 (mask 8)"
    by (simp_all add: mask_eq_exp_minus_1 push_bit_eq_mult)
  have b: "bit (cpu_to_be32 v) i = (if 24 \<le> i \<and> i < 32 then bit v (i - 24) else if 16 \<le> i \<and> i < 24 then bit v (i - 8)
      else if 8 \<le> i \<and> i < 16 then bit v (i + 8) else if i < 8 then bit v (i + 24) else False)" for v :: u32 and i
    unfolding cpu_to_be32_def m1 m2
    using bit_imp_le_length [of v "i + 24"] bit_imp_le_length [of v "i + 8"]
    by (auto simp: bit_or_iff bit_and_iff bit_push_bit_iff bit_drop_bit_eq bit_mask_iff add.commute simp del: mask_numeral)
  show ?thesis unfolding be32_to_cpu_def
  proof (rule bit_word_eqI)
    fix n assume "n < LENGTH(32)"
    then consider "n < 8" | "8 \<le> n" "n < 16" | "16 \<le> n" "n < 24" | "24 \<le> n" "n < 32" by fastforce
    then show "bit (cpu_to_be32 (cpu_to_be32 v)) n = bit v n"
    proof cases
      case 1
      have "bit (cpu_to_be32 (cpu_to_be32 v)) n = bit (cpu_to_be32 v) (n + 24)" using b [of "cpu_to_be32 v" n] 1 by simp
      also have "\<dots> = bit v n" using b [of v "n + 24"] 1 by simp
      finally show ?thesis .
    next
      case 2
      have "bit (cpu_to_be32 (cpu_to_be32 v)) n = bit (cpu_to_be32 v) (n + 8)" using b [of "cpu_to_be32 v" n] 2 by simp
      also have "\<dots> = bit v n" using b [of v "n + 8"] 2 by simp
      finally show ?thesis .
    next
      case 3
      have "bit (cpu_to_be32 (cpu_to_be32 v)) n = bit (cpu_to_be32 v) (n - 8)" using b [of "cpu_to_be32 v" n] 3 by simp
      also have "\<dots> = bit v (n - 8 + 8)" proof -
        have "\<not> 24 \<le> n - 8" "\<not> 16 \<le> n - 8" "8 \<le> n - 8" "n - 8 < 16" using 3 by linarith+
        then show ?thesis using b [of v "n - 8"] by presburger
      qed
      finally show ?thesis using 3 by simp
    next
      case 4
      have "bit (cpu_to_be32 (cpu_to_be32 v)) n = bit (cpu_to_be32 v) (n - 24)" using b [of "cpu_to_be32 v" n] 4 by simp
      also have "\<dots> = bit v (n - 24 + 24)" proof -
        have "\<not> 24 \<le> n - 24" "\<not> 16 \<le> n - 24" "\<not> 8 \<le> n - 24" "n - 24 < 8" using 4 by linarith+
        then show ?thesis using b [of v "n - 24"] by presburger
      qed
      finally show ?thesis using 4 by simp
    qed
  qed
qed

lemma be16_bytes: "be16_to_cpu v = cpu_to_be16 v"
  by (simp add: be16_to_cpu_def cpu_to_be16_def)

lemma pipe_macros:
  "usb_pipe_type (usb_rcvintpipe ep) = PIPE_TYPE_INT" "usb_pipe_type (usb_sndbulkpipe ep) = PIPE_TYPE_BULK"
  "usb_pipe_ep (usb_sndctrlpipe ep) = ep AND 0xff"
  by (simp_all add: usb_rcvintpipe_def usb_sndbulkpipe_def usb_sndctrlpipe_def usb_pipe_fields usb_consts)

text \<open>Rounding up to a page frame is the frame that covers the last byte, unless the sum wraps.\<close>

lemma PFN_UP_ceiling: "unat x + 4095 < 2 ^ 64 \<Longrightarrow> unat (PFN_UP x) = (unat x + 4095) div 4096"
  by (simp add: PFN_UP_def unat_drop_bit_eq drop_bit_eq_div unat_word_ariths)
end
