(* ===== verification/Spec2Isabelle.thy ===== *)
theory Spec2Isabelle
  imports LC_Mac_Amsdu LC_Mac_Mgmt LC_Tasklet LC_Entries LC_Work_Delay LC_Usb_Thms LC_Pci_Thms LC_List LC_Ids LC_Kthread
    LC_Kernel LC_Lock LC_Fence LC_Firmware LC_Io LC_Device LC_Mac_Api LC_Wrap
begin

text \<open>
  A model of lcompat, the library that lets Linux drivers run on another kernel: the C interfaces of
  Linux (memory, socket buffers, work queues, timers, threads, USB, PCI, the 802.11 stack) implemented
  over the services of the host.  Paths are under \<^verbatim>\<open>src/\<close>; headers are under \<^verbatim>\<open>src/include/\<close>.

  \<^bold>\<open>The parts and how they interact.\<close>
  \<^item> Memory (\<open>LC_Pages\<close>: \<^verbatim>\<open>memory.c\<close>, \<^verbatim>\<open>page_pool.c\<close>) is at the bottom.  Its state \<open>kst\<close>
    (byte memory, the list of pages, the pools, the allocator's answers, counters of live objects) is
    extended or carried by every component that allocates.
  \<^item> Socket buffers (\<open>LC_Skbuff\<close>: \<^verbatim>\<open>linux/skbuff.h\<close>) own pages; their queues are in \<open>LC_Queue\<close>.
  \<^item> The 802.11 layer (\<open>LC_Ieee\<close>, \<open>LC_Mac\<close>, \<open>LC_Mac_Tx\<close>, \<open>LC_Mac_Conn\<close>, \<open>LC_Mac_Rx\<close>,
    \<open>LC_Mac_Reg\<close>: \<^verbatim>\<open>mac80211.c\<close>, \<^verbatim>\<open>net/mac80211.h\<close>, \<^verbatim>\<open>net/cfg80211.h\<close>) builds and parses frames in
    socket buffers, keeps the connection state machine, and stands between a driver's operations
    (record \<open>ops\<close>) and the host's network device (record \<open>env\<close>).  The functions drivers call
    inline are in \<open>LC_Mac_Api\<close>.
  \<^item> Layout: \<open>LC_Layout\<close> is a calculus of C sizes, alignments and member offsets; \<open>LC_Types\<close> and
    \<open>LC_Types_Mac\<close> are the structures of the headers in it, \<open>LC_Flags\<close> their flag words and
    enumerations.  They justify the numeric offsets the frame code model uses and bound the two views
    of the control block of a buffer.
  \<^item> Time and deferred execution: \<open>LC_Time\<close> (jiffies, completions), \<open>LC_Timer\<close> and \<open>LC_Tasklet\<close>
    (timers, tasklets),
    \<open>LC_Work\<close>, \<open>LC_Work_Inv\<close> and \<open>LC_Work_Delay\<close> (\<^verbatim>\<open>workqueue.c\<close>), \<open>LC_Kthread\<close> (\<^verbatim>\<open>kthread.c\<close>).
  \<^item> Synchronisation: \<open>LC_Lock\<close> (spin locks, mutexes), \<open>LC_Fence\<close> (kref, DMA fences and
    reservations), and the atomics and sequence counters of \<open>LC_Kernel\<close>.
  \<^item> Buses: \<open>LC_Usb_Data\<close>, \<open>LC_Usb\<close> (\<^verbatim>\<open>usb.c\<close>) and \<open>LC_Pci\<close> (\<^verbatim>\<open>pci.c\<close>);
    \<open>LC_Entries\<close> has the table entries drivers write and the devices they match.
  \<^item> Containers: \<open>LC_List\<close>, \<open>LC_Ids\<close> (idr, xarray, kfifo), \<open>LC_Wrap\<close> (iteration macros, byte order,
    thin wrappers).
  \<^item> Driver services: \<open>LC_Firmware\<close> (firmware files, module start-up), \<open>LC_Io\<close> (device memory, delays,
    polling, scatterlists, DMA addresses), \<open>LC_Device\<close> (devices, debugfs, NAPI and other shims).
  \<^item> \<open>LC_Prelude\<close> and \<open>LC_Bits\<close> hold the machine integers, error numbers, byte memory and bit
    operations all of them share.

  \<^bold>\<open>Interfaces.\<close>  \<open>LC_Queue.fifo\<close> is the contract of a first-in first-out queue and \<open>unlink_fifo\<close>
  extends it by removal; the socket-buffer queue, the list ring, the work queue, the pending URBs of an
  endpoint and the ring buffer of \<^verbatim>\<open>kfifo.h\<close> are interpretations, so that \<open>drain\<close> and its lemmas hold
  for all five.  \<open>LC_Ids.table\<close> is the contract of a table from indices to pointers, interpreted by the
  identifier table and the index array.

  \<^bold>\<open>How code becomes definitions.\<close>
  \<^item> Integers keep their width (\<open>u8\<close> to \<open>u64\<close>); an \<^verbatim>\<open>int\<close> used as a status is an \<open>int\<close>, negative for
    an error.  A pointer that may be NULL is an option, a raw address a number with 0 for NULL.
  \<^item> Code outside the repository (the host's allocators, task, USB, PCI, netdev and file functions, the
    operations and callbacks of drivers) is a parameter: a function of how many calls were made or of the
    log of calls made before.  Nothing restricts these functions except named hypotheses, so
    every pattern of failures is covered.  Calls are logged, newest first, and statements about what
    the outside sees are statements about the log.
  \<^item> A loop that need not end is a \<open>partial_function\<close> with None for not ending; that such a loop ends is then
    a theorem (polling, waiting with a timeout, walking a ring, splicing queues).  Other loops are total
    functions with a measure.  There is no fuel.
  \<^item> Concurrency is interleaving on sequentially consistent memory.  In tasklets, threads, locks and timer
    tasks a step is one store, one atomic operation or one test, and so it is in \<^verbatim>\<open>del_timer_sync\<close>;
    \<^verbatim>\<open>mod_timer\<close> is one step, since the task it makes comes after its stores.  Giving up a reference of
    a fence is two steps, the decrement and the test of the counter.  In work queues a step is one
    critical section or atomic operation.  The other components run one function at a time, as their
    callers' locks make them.

  \<^bold>\<open>What is shown.\<close>
  \<^item> 802.11: the connection state, the station and the interface stay consistent in every reachable
    state; registration takes everything or nothing; unregistration gives back all of it; parsing
    information elements stays inside the frame and inverts building them (\<open>LC_Mac_Inv\<close>, \<open>LC_Mac_Own\<close>,
    \<open>LC_Mac_Quiet\<close>, \<open>LC_Mac_Thms\<close>, \<open>LC_Ieee\<close>).
  \<^item> Frames, byte by byte: \<open>LC_Mac_Frames\<close> (\<open>filled\<close> says which bytes a buffer holds, and each
    operation of a frame builder is one step on it) gives the contents of a data frame, the
    conversion of a received one as a function of its bytes, and the round trip; \<open>LC_Mac_Amsdu\<close> the
    splitting of an aggregate into buffers that do not disturb one another, under a contract for the
    frame allocator; \<open>LC_Mac_Mgmt\<close> the authentication and association requests.
  \<^item> Memory and buffers: pages are freed with their last reference; buffer operations keep the bounds,
    preserve the payload and release what they took on every failure.
  \<^item> Deferred execution: a queued work runs once per successful queueing; flushing means idle; a
    tasklet is exclusive; after a synchronous deletion a timer armed at most once is not in its
    callback; a cancelled delayed work refuses to be queued until the task of the delay has run; a
    killed tasklet is idle unless it was scheduled during the kill; a disabled tasklet is called at most once more for each task already past the check of
    its count (and can be: \<open>disable_not_final\<close>); stopping a thread frees it once it is gone.
  \<^item> Synchronisation: a spin lock excludes and balances its counters; a fence is released only without
    references left, once for each client that finds the counter at 0, which is once unless two of them
    give up the last references together.
  \<^item> USB and PCI: scatter-gather copies are inverse, both descriptor lookups agree on the
    sixteen endpoints the table holds, a completion starts the next pending URB whatever the driver's
    callback does, wrappers are unique and show the identity and resources of the host's device, member
    by member.
  \<^item> Types: accesses through either view of a control block stay inside it; packed frame structures
    have the offsets of the frame format; flag words keep their flags apart.
  \<^item> Time: a finite wait ends at the first reading of the clock that is late enough, across the wrap-around
    of the counter; conversions of delays lose less than a jiffy.
  \<^item> Firmware: on success the data block is handed to the driver; on an error it is given back once.
  \<^item> Where the code does not do what its interface promises, the exact behaviour is proved instead
    (lost wake-ups, races on re-arming, misaligned control blocks, colliding flags, and others named
    beside their lemmas).

  \<^bold>\<open>Bounds.\<close>  Word arithmetic wraps as in C; where a statement needs that nothing wraps, the bound is a
  hypothesis or follows from the well-formedness of the object.  Layouts are those of a 64-bit
  little-endian host.  A C \<^verbatim>\<open>int\<close> that counts (identifiers, the polls of a loop) is bounded by \<open>int_max\<close>, and
  an operation that would pass it is undefined (None).

  \<^bold>\<open>Not modelled.\<close>  Logging, format strings and names used only in messages; functions that discard
  their arguments and return nothing; sysfs, sequence files, LEDs, power management, RCU, tracing and other
  headers that consist of such functions; container types without operations; memory orders weaker
  than sequential consistency; the host itself.
\<close>

end
